(* ===== verification/Prelude.thy ===== *)
theory Prelude
  imports Complex_Main "HOL-Library.List_Lexorder" "HOL-Library.Char_ord"
begin

text \<open>
  Shared vocabulary of the development: results that are either a thrown exception or a
  value, the exception classes of the program, the fixed-width integer conversions the code
  performs, decimal printing as \<^verbatim>\<open>fmt::format("{:d}")\<close> does it, and generic lemmas on
  lists, maps and results that the component theories use.
\<close>

section \<open>Exceptions and results\<close>

text \<open>
  The exception classes of \<^verbatim>\<open>include/cgimap/http.hpp\<close>, the bad request that
  \<^verbatim>\<open>osmobject.hpp\<close> derives for errors in a payload, the two standard exceptions the
  modelled code throws or lets through (\<^verbatim>\<open>std::runtime_error\<close>, a \<^verbatim>\<open>pqxx\<close> error raised by
  a database statement or by the conversion of a result field), a failed \<^verbatim>\<open>assert\<close>, and a
  marker for C++ undefined behaviour, so that its absence is a statement of the logic.
\<close>

datatype exn =
    server_error string
  | bad_request string
  | payload_error string
  | forbidden string
  | method_not_allowed string
  | not_acceptable string
  | conflict string
  | precondition_failed string
  | payload_too_large string
  | too_many_requests string
  | not_found string
  | bandwidth_limit_exceeded int
  | gone string
  | unauthorized string
  | unsupported_media_type string
  | runtime_error string
  | sql_error string
  | assertion_failed string
  | undefined_behaviour string

type_synonym 'a result = "exn + 'a"

text \<open>Sequencing: the rest of a function body runs only when the first part did not throw.\<close>

fun bindE :: "'a result \<Rightarrow> ('a \<Rightarrow> 'b result) \<Rightarrow> 'b result" where
  "bindE (Inl e) f = Inl e"
| "bindE (Inr x) f = f x"

text \<open>A loop that may throw, over the elements of a vector, threading a state.\<close>

fun foldE :: "('a \<Rightarrow> 's \<Rightarrow> 's result) \<Rightarrow> 'a list \<Rightarrow> 's \<Rightarrow> 's result" where
  "foldE f [] s = Inr s"
| "foldE f (x # xs) s = bindE (f x s) (foldE f xs)"

text \<open>A loop that may throw and builds one result per element.\<close>

fun mapE :: "('a \<Rightarrow> 'b result) \<Rightarrow> 'a list \<Rightarrow> 'b list result" where
  "mapE f [] = Inr []"
| "mapE f (x # xs) = bindE (f x) (\<lambda>y. bindE (mapE f xs) (\<lambda>ys. Inr (y # ys)))"

named_theorems result_simps \<open>equations that take a successful computation apart\<close>

lemma bindE_Inr_iff [result_simps]:
  "bindE m f = Inr y \<longleftrightarrow> (\<exists>x. m = Inr x \<and> f x = Inr y)"
  by (cases m) auto

lemma bindE_Inl_iff:
  "bindE m f = Inl e \<longleftrightarrow> m = Inl e \<or> (\<exists>x. m = Inr x \<and> f x = Inl e)"
  by (cases m) auto

lemma bindE_cong [fundef_cong]:
  "m = m' \<Longrightarrow> (\<And>x. m' = Inr x \<Longrightarrow> f x = f' x) \<Longrightarrow> bindE m f = bindE m' f'"
  by (cases m') auto

lemma bindE_assoc: "bindE (bindE m f) g = bindE m (\<lambda>x. bindE (f x) g)"
  by (cases m) auto

lemma foldE_append: "foldE f (xs @ ys) s = bindE (foldE f xs s) (foldE f ys)"
  by (induction xs arbitrary: s) (auto simp: bindE_assoc intro: bindE_cong)

lemma foldE_single: "foldE f [x] s = f x s"
  by (cases "f x s") simp_all

lemma bindE_return [simp]: "bindE m Inr = m"
  by (cases m) simp_all

text \<open>An invariant of every iteration is an invariant of the loop.\<close>

lemma foldE_invariant:
  assumes "foldE f xs s = Inr s'"
    and "I s"
    and "\<And>x t t'. x \<in> set xs \<Longrightarrow> I t \<Longrightarrow> f x t = Inr t' \<Longrightarrow> I t'"
  shows "I s'"
  using assms by (induction xs arbitrary: s) (auto simp: result_simps)

lemma mapE_Inr_length: "mapE f xs = Inr ys \<Longrightarrow> length ys = length xs"
  by (induction xs arbitrary: ys) (auto simp: result_simps)

lemma mapE_Inr_iff:
  "mapE f xs = Inr ys \<longleftrightarrow> list_all2 (\<lambda>x y. f x = Inr y) xs ys"
  by (induction xs arbitrary: ys) (auto simp: result_simps list_all2_Cons1)

lemma mapE_Inr_ex: "(\<exists>ys. mapE f xs = Inr ys) \<longleftrightarrow> (\<forall>x\<in>set xs. \<exists>y. f x = Inr y)"
  by (induction xs) (auto simp: result_simps)

lemma mapE_Inr_set:
  "mapE f xs = Inr ys \<Longrightarrow> y \<in> set ys \<Longrightarrow> \<exists>x\<in>set xs. f x = Inr y"
  by (induction xs arbitrary: ys) (auto simp: result_simps)

lemma mapE_Inr_image:
  "mapE f xs = Inr ys \<Longrightarrow> x \<in> set xs \<Longrightarrow> \<exists>y\<in>set ys. f x = Inr y"
  by (induction xs arbitrary: ys) (auto simp: result_simps)

text \<open>A guard that throws: \<^verbatim>\<open>if (c) throw e;\<close>.\<close>

definition throw_if :: "bool \<Rightarrow> exn \<Rightarrow> unit result" where
  "throw_if c e = (if c then Inl e else Inr ())"

lemma throw_if_Inr [result_simps]: "throw_if c e = Inr u \<longleftrightarrow> \<not> c"
  by (simp add: throw_if_def)

lemma throw_if_simps [simp]: "throw_if True e = Inl e" "throw_if False e = Inr ()"
  by (simp_all add: throw_if_def)

section \<open>Fixed-width integers\<close>

text \<open>
  \<^verbatim>\<open>include/cgimap/types.hpp\<close> fixes the widths of ids and versions. A value of such a
  type is the mathematical integer it denotes; a conversion between widths or signedness is
  written out as the wrap-around of the C++ conversion.
\<close>

type_synonym osm_user_id_t = int
type_synonym osm_changeset_id_t = int
type_synonym osm_nwr_id_t = int
type_synonym osm_nwr_signed_id_t = int
type_synonym osm_version_t = int
type_synonym osm_sequence_id_t = int
type_synonym tile_id_t = int

definition u64 :: "int \<Rightarrow> int" where
  "u64 x = x mod 2 ^ 64"

definition s64 :: "int \<Rightarrow> int" where
  "s64 x = (x + 2 ^ 63) mod 2 ^ 64 - 2 ^ 63"

definition u32 :: "int \<Rightarrow> int" where
  "u32 x = x mod 2 ^ 32"

definition is_s64 :: "int \<Rightarrow> bool" where
  "is_s64 x \<longleftrightarrow> - (2 ^ 63) \<le> x \<and> x < 2 ^ 63"

definition is_u64 :: "int \<Rightarrow> bool" where
  "is_u64 x \<longleftrightarrow> 0 \<le> x \<and> x < 2 ^ 64"

definition is_u32 :: "int \<Rightarrow> bool" where
  "is_u32 x \<longleftrightarrow> 0 \<le> x \<and> x < 2 ^ 32"

lemma u64_range: "is_u64 (u64 x)" by (simp add: is_u64_def u64_def)
lemma u32_range: "is_u32 (u32 x)" by (simp add: is_u32_def u32_def)
lemma s64_range: "is_s64 (s64 x)"
proof -
  have "0 \<le> (x + 2 ^ 63) mod 2 ^ 64" and "(x + 2 ^ 63) mod 2 ^ 64 < (2 ^ 64 :: int)"
    by simp_all
  then show ?thesis by (simp add: is_s64_def s64_def)
qed

lemma u64_id: "is_u64 x \<Longrightarrow> u64 x = x" by (simp add: is_u64_def u64_def)
lemma u32_id: "is_u32 x \<Longrightarrow> u32 x = x" by (simp add: is_u32_def u32_def)
lemma s64_id: "is_s64 x \<Longrightarrow> s64 x = x" by (simp add: is_s64_def s64_def)

text \<open>A negative placeholder id survives its trip through an unsigned parameter.\<close>

lemma s64_u64: "is_s64 x \<Longrightarrow> s64 (u64 x) = x"
proof -
  assume "is_s64 x"
  have "s64 (u64 x) = s64 x"
    unfolding s64_def u64_def by (simp add: mod_add_left_eq)
  with \<open>is_s64 x\<close> show ?thesis by (simp add: s64_id)
qed

section \<open>Printing\<close>

fun digits_of :: "nat \<Rightarrow> string" where
  "digits_of n = (if n < 10 then [char_of (48 + n)]
                  else digits_of (n div 10) @ [char_of (48 + n mod 10)])"

declare digits_of.simps [simp del]

text \<open>\<^verbatim>\<open>{:d}\<close> of the fmt library.\<close>

definition fmt_d :: "int \<Rightarrow> string" where
  "fmt_d i = (if i < 0 then CHR ''-'' # digits_of (nat (- i)) else digits_of (nat i))"

text \<open>\<^verbatim>\<open>fmt::join(xs, ",")\<close>.\<close>

fun join_comma :: "string list \<Rightarrow> string" where
  "join_comma [] = []"
| "join_comma [x] = x"
| "join_comma (x # y # ys) = x @ '','' @ join_comma (y # ys)"

section \<open>Vectors, sets and maps\<close>

text \<open>
  \<^verbatim>\<open>std::ranges::sort\<close>, \<^verbatim>\<open>std::ranges::unique\<close> and \<^verbatim>\<open>erase\<close> in a row: the sorted vector
  without repeated elements.
\<close>

definition sort_unique :: "'a :: linorder list \<Rightarrow> 'a list" where
  "sort_unique xs = remdups_adj (sort xs)"

lemma set_sort_unique [simp]: "set (sort_unique xs) = set xs"
  by (simp add: sort_unique_def)

lemma sort_unique_Nil [simp]: "sort_unique [] = []"
  by (simp add: sort_unique_def)

lemma sort_unique_eq_Nil [simp]: "sort_unique xs = [] \<longleftrightarrow> xs = []"
  by (metis set_empty set_sort_unique)

lemma distinct_sort_unique [simp]: "distinct (sort_unique xs)"
proof -
  have "sorted xs \<Longrightarrow> distinct (remdups_adj xs)" for xs :: "'a list"
    by (induction xs rule: remdups_adj.induct) (auto simp: order_le_less)
  then show ?thesis by (simp add: sort_unique_def)
qed

lemma sort_unique_eq: "sort_unique xs = sorted_list_of_set (set xs)"
proof (rule sorted_distinct_set_unique)
  show "sorted (sort_unique xs)"
    by (simp add: sort_unique_def sorted_remdups_adj)
qed simp_all

lemma length_sort_unique: "length (sort_unique xs) = card (set xs)"
  by (metis distinct_card distinct_sort_unique set_sort_unique)

text \<open>
  \<^verbatim>\<open>std::map::operator[]\<close> read on a map whose values are integers: a missing key reads as
  the value-initialised 0.
\<close>

definition map_at :: "('k \<rightharpoonup> int) \<Rightarrow> 'k \<Rightarrow> int" where
  "map_at m k = (case m k of None \<Rightarrow> 0 | Some v \<Rightarrow> v)"

text \<open>A map filled by assignment in vector order: the last entry of a key wins.\<close>

definition map_assign :: "('a \<Rightarrow> 'k) \<Rightarrow> ('a \<Rightarrow> 'v) \<Rightarrow> 'a list \<Rightarrow> ('k \<rightharpoonup> 'v)" where
  "map_assign k v xs = map_of (rev (map (\<lambda>x. (k x, v x)) xs))"

lemma map_assign_Nil [simp]: "map_assign k v [] = Map.empty"
  by (simp add: map_assign_def)

lemma map_assign_snoc: "map_assign k v (xs @ [x]) = (map_assign k v xs)(k x \<mapsto> v x)"
  by (simp add: map_assign_def)

lemma map_assign_SomeD:
  "map_assign k v xs i = Some y \<Longrightarrow> \<exists>x\<in>set xs. k x = i \<and> v x = y"
  by (force simp: map_assign_def dest: map_of_SomeD)

lemma map_assign_in:
  assumes "x \<in> set xs"
    and "\<And>y. y \<in> set xs \<Longrightarrow> k y = k x \<Longrightarrow> v y = v x"
  shows "map_assign k v xs (k x) = Some (v x)"
proof -
  have "k x \<in> dom (map_assign k v xs)"
    using assms(1) by (auto simp: map_assign_def dom_map_of_conv_image_fst image_image)
  then obtain y where "map_assign k v xs (k x) = Some y" by auto
  with map_assign_SomeD [OF this] assms(2) show ?thesis by auto
qed

lemma map_at_assign:
  assumes "x \<in> set xs"
    and "\<And>y. y \<in> set xs \<Longrightarrow> k y = k x \<Longrightarrow> v y = v x"
  shows "map_at (map_assign k v xs) (k x) = v x"
proof -
  have "map_assign k v xs (k x) = Some (v x)"
    by (rule map_assign_in [OF assms(1)]) (rule assms(2))
  then show ?thesis by (simp add: map_at_def)
qed

text \<open>
  A map filled by \<^verbatim>\<open>insert\<close> in vector order: an existing key is kept, the first entry
  of a key wins.
\<close>

definition map_insert :: "('a \<Rightarrow> 'k) \<Rightarrow> 'a list \<Rightarrow> ('k \<rightharpoonup> 'a)" where
  "map_insert k xs = map_of (map (\<lambda>x. (k x, x)) xs)"

lemma map_insert_SomeD:
  "map_insert k xs i = Some x \<Longrightarrow> x \<in> set xs \<and> k x = i"
  by (auto simp: map_insert_def dest: map_of_SomeD)

lemma map_insert_None_iff: "map_insert k xs i = None \<longleftrightarrow> i \<notin> k ` set xs"
  by (force simp: map_insert_def map_of_eq_None_iff)

lemma map_insert_ex: "(\<exists>x. map_insert k xs i = Some x) \<longleftrightarrow> i \<in> k ` set xs"
  using map_insert_None_iff [of k xs i] by (cases "map_insert k xs i") auto

text \<open>A key projection that is injective on a list picks at most one element.\<close>

lemma distinct_map_unique:
  "distinct (map f xs) \<Longrightarrow> x \<in> set xs \<Longrightarrow> y \<in> set xs \<Longrightarrow> f x = f y \<Longrightarrow> x = y"
  by (auto simp: distinct_map dest: inj_onD)

lemma find_SomeD: "find P xs = Some x \<Longrightarrow> x \<in> set xs \<and> P x"
  by (metis find_Some_iff nth_mem)

lemma find_NoneD: "find P xs = None \<Longrightarrow> x \<in> set xs \<Longrightarrow> \<not> P x"
  by (auto simp: find_None_iff)

end
