(* ===== verification/Tracking.thy ===== *)
theory Tracking
  imports Prelude
begin

text \<open>
  The bookkeeping of an upload: \<^verbatim>\<open>OSMChange_Tracking\<close>
  (\<^verbatim>\<open>include/cgimap/api06/changeset_upload/osmchange_tracking.hpp\<close> and the matching
  \<^verbatim>\<open>.cpp\<close>). The updaters append to its vectors; \<^verbatim>\<open>assemble_diffresult\<close> turns them into
  the rows of the diffResult document, in the sequence of the osmChange message.
\<close>

section \<open>Data\<close>

text \<open>The enumerations of \<^verbatim>\<open>include/cgimap/types.hpp\<close>.\<close>

datatype operation = op_undefined | op_create | op_modify | op_delete

datatype object_type = ot_node | ot_way | ot_relation

record diffresult_t =
  dr_op :: operation
  dr_obj_type :: object_type
  dr_old_id :: osm_nwr_signed_id_t
  dr_new_id :: osm_nwr_id_t
  dr_new_version :: osm_version_t
  dr_deletion_skipped :: bool

record object_id_mapping_t =
  om_old_id :: osm_nwr_signed_id_t
  om_new_id :: osm_nwr_id_t
  om_new_version :: osm_version_t

record osmchange_t =
  oc_op :: operation
  oc_obj_type :: object_type
  oc_orig_id :: osm_nwr_signed_id_t
  oc_orig_version :: osm_version_t
  oc_if_unused :: bool

record OSMChange_Tracking =
  created_node_ids :: "object_id_mapping_t list"
  created_way_ids :: "object_id_mapping_t list"
  created_relation_ids :: "object_id_mapping_t list"
  modified_node_ids :: "object_id_mapping_t list"
  modified_way_ids :: "object_id_mapping_t list"
  modified_relation_ids :: "object_id_mapping_t list"
  deleted_node_ids :: "osm_nwr_signed_id_t list"
  deleted_way_ids :: "osm_nwr_signed_id_t list"
  deleted_relation_ids :: "osm_nwr_signed_id_t list"
  skip_deleted_node_ids :: "object_id_mapping_t list"
  skip_deleted_way_ids :: "object_id_mapping_t list"
  skip_deleted_relation_ids :: "object_id_mapping_t list"
  osmchange_orig_sequence :: "osmchange_t list"

definition empty_tracking :: OSMChange_Tracking where
  "empty_tracking =
     \<lparr>created_node_ids = [], created_way_ids = [], created_relation_ids = [],
      modified_node_ids = [], modified_way_ids = [], modified_relation_ids = [],
      deleted_node_ids = [], deleted_way_ids = [], deleted_relation_ids = [],
      skip_deleted_node_ids = [], skip_deleted_way_ids = [], skip_deleted_relation_ids = [],
      osmchange_orig_sequence = []\<rparr>"

section \<open>Assembling the diffResult\<close>

text \<open>
  The lookup structures: \<^verbatim>\<open>std::map::insert\<close> keeps the entry already there, so each map is
  the association list in insertion order, read by its first match.
\<close>

definition map_create_ids :: "OSMChange_Tracking \<Rightarrow> object_type \<times> int \<rightharpoonup> object_id_mapping_t" where
  "map_create_ids ct = map_of
     (map (\<lambda>i. ((ot_node, om_old_id i), i)) (created_node_ids ct) @
      map (\<lambda>i. ((ot_way, om_old_id i), i)) (created_way_ids ct) @
      map (\<lambda>i. ((ot_relation, om_old_id i), i)) (created_relation_ids ct))"

definition map_modify_ids ::
    "OSMChange_Tracking \<Rightarrow> object_type \<times> int \<times> int \<rightharpoonup> object_id_mapping_t" where
  "map_modify_ids ct = map_of
     (map (\<lambda>i. ((ot_node, om_old_id i, om_new_version i), i)) (modified_node_ids ct) @
      map (\<lambda>i. ((ot_way, om_old_id i, om_new_version i), i)) (modified_way_ids ct) @
      map (\<lambda>i. ((ot_relation, om_old_id i, om_new_version i), i)) (modified_relation_ids ct))"

definition map_skip_delete_ids ::
    "OSMChange_Tracking \<Rightarrow> object_type \<times> int \<rightharpoonup> object_id_mapping_t" where
  "map_skip_delete_ids ct = map_of
     (map (\<lambda>i. ((ot_node, om_old_id i), i)) (skip_deleted_node_ids ct) @
      map (\<lambda>i. ((ot_way, om_old_id i), i)) (skip_deleted_way_ids ct) @
      map (\<lambda>i. ((ot_relation, om_old_id i), i)) (skip_deleted_relation_ids ct))"

definition set_delete_ids :: "OSMChange_Tracking \<Rightarrow> (object_type \<times> int) set" where
  "set_delete_ids ct =
     Pair ot_node ` set (deleted_node_ids ct) \<union>
     Pair ot_way ` set (deleted_way_ids ct) \<union>
     Pair ot_relation ` set (deleted_relation_ids ct)"

definition not_processed :: exn where
  "not_processed = runtime_error ''Element in osmChange message was not processed''"

definition mapping_row :: "osmchange_t \<Rightarrow> object_id_mapping_t \<Rightarrow> bool \<Rightarrow> diffresult_t" where
  "mapping_row item i skipped =
     \<lparr>dr_op = oc_op item, dr_obj_type = oc_obj_type item, dr_old_id = om_old_id i,
      dr_new_id = om_new_id i, dr_new_version = om_new_version i,
      dr_deletion_skipped = skipped\<rparr>"

definition deleted_row :: "OSMChange_Tracking \<Rightarrow> osmchange_t \<Rightarrow> diffresult_t result" where
  "deleted_row ct item =
     (if (oc_obj_type item, oc_orig_id item) \<in> set_delete_ids ct
      then Inr \<lparr>dr_op = oc_op item, dr_obj_type = oc_obj_type item,
                dr_old_id = oc_orig_id item, dr_new_id = 0, dr_new_version = 0,
                dr_deletion_skipped = False\<rparr>
      else Inl not_processed)"

text \<open>One iteration of the loop over \<^verbatim>\<open>osmchange_orig_sequence\<close>.\<close>

definition diffresult_row :: "OSMChange_Tracking \<Rightarrow> osmchange_t \<Rightarrow> diffresult_t result" where
  "diffresult_row ct item =
     (case oc_op item of
        op_create \<Rightarrow>
          (case map_create_ids ct (oc_obj_type item, oc_orig_id item) of
             None \<Rightarrow> Inl not_processed
           | Some i \<Rightarrow> Inr (mapping_row item i False))
      | op_modify \<Rightarrow>
          (case map_modify_ids ct (oc_obj_type item, oc_orig_id item, u32 (oc_orig_version item + 1)) of
             None \<Rightarrow> Inl not_processed
           | Some i \<Rightarrow> Inr (mapping_row item i False))
      | op_delete \<Rightarrow>
          (if oc_if_unused item then
             (case map_skip_delete_ids ct (oc_obj_type item, oc_orig_id item) of
                Some i \<Rightarrow> Inr (mapping_row item i True)
              | None \<Rightarrow> deleted_row ct item)
           else deleted_row ct item)
      | op_undefined \<Rightarrow>
          Inl (runtime_error ''Unexpected operation in original sequence mapping. This should not happen!''))"

definition assemble_diffresult :: "OSMChange_Tracking \<Rightarrow> diffresult_t list result" where
  "assemble_diffresult ct = mapE (diffresult_row ct) (osmchange_orig_sequence ct)"

section \<open>What it means for an element of the message to be accounted for\<close>

text \<open>
  The specification side, free of lookup structures: the vectors of one object type, and
  the condition under which the row of an element can be built.
\<close>

fun created_ids :: "object_type \<Rightarrow> OSMChange_Tracking \<Rightarrow> object_id_mapping_t list" where
  "created_ids ot_node ct = created_node_ids ct"
| "created_ids ot_way ct = created_way_ids ct"
| "created_ids ot_relation ct = created_relation_ids ct"

fun modified_ids :: "object_type \<Rightarrow> OSMChange_Tracking \<Rightarrow> object_id_mapping_t list" where
  "modified_ids ot_node ct = modified_node_ids ct"
| "modified_ids ot_way ct = modified_way_ids ct"
| "modified_ids ot_relation ct = modified_relation_ids ct"

fun deleted_ids :: "object_type \<Rightarrow> OSMChange_Tracking \<Rightarrow> osm_nwr_signed_id_t list" where
  "deleted_ids ot_node ct = deleted_node_ids ct"
| "deleted_ids ot_way ct = deleted_way_ids ct"
| "deleted_ids ot_relation ct = deleted_relation_ids ct"

fun skip_deleted_ids :: "object_type \<Rightarrow> OSMChange_Tracking \<Rightarrow> object_id_mapping_t list" where
  "skip_deleted_ids ot_node ct = skip_deleted_node_ids ct"
| "skip_deleted_ids ot_way ct = skip_deleted_way_ids ct"
| "skip_deleted_ids ot_relation ct = skip_deleted_relation_ids ct"

definition accounted :: "OSMChange_Tracking \<Rightarrow> osmchange_t \<Rightarrow> bool" where
  "accounted ct item =
     (case oc_op item of
        op_create \<Rightarrow> oc_orig_id item \<in> om_old_id ` set (created_ids (oc_obj_type item) ct)
      | op_modify \<Rightarrow>
          (oc_orig_id item, u32 (oc_orig_version item + 1)) \<in>
             (\<lambda>i. (om_old_id i, om_new_version i)) ` set (modified_ids (oc_obj_type item) ct)
      | op_delete \<Rightarrow>
          oc_orig_id item \<in> set (deleted_ids (oc_obj_type item) ct) \<or>
          (oc_if_unused item \<and>
           oc_orig_id item \<in> om_old_id ` set (skip_deleted_ids (oc_obj_type item) ct))
      | op_undefined \<Rightarrow> False)"

section \<open>The lookups agree with the vectors\<close>

lemma map_create_ids_SomeD:
  "map_create_ids ct (t, k) = Some i \<Longrightarrow> i \<in> set (created_ids t ct) \<and> om_old_id i = k"
  by (cases t) (auto simp: map_create_ids_def dest!: map_of_SomeD)

lemma map_create_ids_ex:
  "(\<exists>i. map_create_ids ct (t, k) = Some i) \<longleftrightarrow> k \<in> om_old_id ` set (created_ids t ct)"
proof -
  have "map_create_ids ct (t, k) = None \<longleftrightarrow> k \<notin> om_old_id ` set (created_ids t ct)"
    by (cases t) (auto simp: map_create_ids_def map_of_eq_None_iff map_add_None image_iff)
  then show ?thesis by (cases "map_create_ids ct (t, k)") auto
qed

lemma map_modify_ids_SomeD:
  "map_modify_ids ct (t, k, v) = Some i \<Longrightarrow>
     i \<in> set (modified_ids t ct) \<and> om_old_id i = k \<and> om_new_version i = v"
  by (cases t) (auto simp: map_modify_ids_def dest!: map_of_SomeD)

lemma map_modify_ids_ex:
  "(\<exists>i. map_modify_ids ct (t, k, v) = Some i) \<longleftrightarrow>
     (k, v) \<in> (\<lambda>i. (om_old_id i, om_new_version i)) ` set (modified_ids t ct)"
proof -
  have "map_modify_ids ct (t, k, v) = None \<longleftrightarrow>
      (k, v) \<notin> (\<lambda>i. (om_old_id i, om_new_version i)) ` set (modified_ids t ct)"
    by (cases t) (auto simp: map_modify_ids_def map_of_eq_None_iff map_add_None image_iff)
  then show ?thesis by (cases "map_modify_ids ct (t, k, v)") auto
qed

lemma map_skip_delete_ids_SomeD:
  "map_skip_delete_ids ct (t, k) = Some i \<Longrightarrow> i \<in> set (skip_deleted_ids t ct) \<and> om_old_id i = k"
  by (cases t) (auto simp: map_skip_delete_ids_def dest!: map_of_SomeD)

lemma map_skip_delete_ids_ex:
  "(\<exists>i. map_skip_delete_ids ct (t, k) = Some i) \<longleftrightarrow> k \<in> om_old_id ` set (skip_deleted_ids t ct)"
proof -
  have "map_skip_delete_ids ct (t, k) = None \<longleftrightarrow> k \<notin> om_old_id ` set (skip_deleted_ids t ct)"
    by (cases t) (auto simp: map_skip_delete_ids_def map_of_eq_None_iff map_add_None image_iff)
  then show ?thesis by (cases "map_skip_delete_ids ct (t, k)") auto
qed

lemma set_delete_ids_iff: "(t, k) \<in> set_delete_ids ct \<longleftrightarrow> k \<in> set (deleted_ids t ct)"
  by (cases t) (auto simp: set_delete_ids_def)

lemmas lookup_ex = map_create_ids_ex map_modify_ids_ex map_skip_delete_ids_ex set_delete_ids_iff

lemmas lookup_SomeD = map_create_ids_SomeD map_modify_ids_SomeD map_skip_delete_ids_SomeD

lemma diffresult_row_ex: "(\<exists>r. diffresult_row ct item = Inr r) \<longleftrightarrow> accounted ct item"
  unfolding diffresult_row_def accounted_def deleted_row_def lookup_ex [symmetric]
  by (auto split: operation.split option.split)

section \<open>The rows\<close>

text \<open>What one row of the document says of its element.\<close>

definition row_describes :: "OSMChange_Tracking \<Rightarrow> osmchange_t \<Rightarrow> diffresult_t \<Rightarrow> bool" where
  "row_describes ct item r \<longleftrightarrow>
     dr_op r = oc_op item \<and> dr_obj_type r = oc_obj_type item \<and> dr_old_id r = oc_orig_id item \<and>
     (oc_op item = op_create \<longrightarrow>
        \<lparr>om_old_id = dr_old_id r, om_new_id = dr_new_id r, om_new_version = dr_new_version r\<rparr>
          \<in> set (created_ids (oc_obj_type item) ct)) \<and>
     (oc_op item = op_modify \<longrightarrow>
        dr_new_version r = u32 (oc_orig_version item + 1) \<and>
        \<lparr>om_old_id = dr_old_id r, om_new_id = dr_new_id r, om_new_version = dr_new_version r\<rparr>
          \<in> set (modified_ids (oc_obj_type item) ct)) \<and>
     (dr_deletion_skipped r \<longrightarrow> oc_op item = op_delete \<and> oc_if_unused item \<and>
        \<lparr>om_old_id = dr_old_id r, om_new_id = dr_new_id r, om_new_version = dr_new_version r\<rparr>
          \<in> set (skip_deleted_ids (oc_obj_type item) ct)) \<and>
     (oc_op item = op_delete \<and> \<not> dr_deletion_skipped r \<longrightarrow>
        oc_orig_id item \<in> set (deleted_ids (oc_obj_type item) ct))"

lemma mapping_memberI:
  "i \<in> S \<Longrightarrow> om_old_id i = k \<Longrightarrow> om_new_version i = v \<Longrightarrow>
     \<lparr>om_old_id = k, om_new_id = om_new_id i, om_new_version = v\<rparr> \<in> S"
  for i :: object_id_mapping_t
  by (cases i) simp

lemma diffresult_row_describes:
  assumes "diffresult_row ct item = Inr r"
  shows "row_describes ct item r"
proof (cases "oc_op item")
  case op_undefined
  with assms show ?thesis by (simp add: diffresult_row_def)
next
  case op_create
  with assms show ?thesis
    by (auto simp: diffresult_row_def row_describes_def mapping_row_def
        split: option.splits dest!: map_create_ids_SomeD intro: mapping_memberI)
next
  case op_modify
  with assms show ?thesis
    by (auto simp: diffresult_row_def row_describes_def mapping_row_def
        split: option.splits dest!: map_modify_ids_SomeD intro: mapping_memberI)
next
  case op_delete
  with assms show ?thesis
    by (auto simp: diffresult_row_def row_describes_def mapping_row_def deleted_row_def
        set_delete_ids_iff split: option.splits if_splits
        dest!: map_skip_delete_ids_SomeD intro: mapping_memberI)
qed

lemma assemble_diffresult_ex:
  "(\<exists>rows. assemble_diffresult ct = Inr rows) \<longleftrightarrow>
     (\<forall>item\<in>set (osmchange_orig_sequence ct). accounted ct item)"
  by (simp add: assemble_diffresult_def mapE_Inr_ex diffresult_row_ex)

lemma assemble_diffresult_rows:
  "assemble_diffresult ct = Inr rows \<Longrightarrow>
     list_all2 (row_describes ct) (osmchange_orig_sequence ct) rows"
  unfolding assemble_diffresult_def mapE_Inr_iff
  by (erule list_all2_mono) (rule diffresult_row_describes)

lemma assemble_diffresult_error:
  assumes "assemble_diffresult ct = Inl e"
  shows "\<exists>msg. e = runtime_error msg"
proof -
  have "mapE (diffresult_row ct) xs = Inl e \<Longrightarrow> \<exists>msg. e = runtime_error msg" for xs
    by (induction xs)
      (auto simp: bindE_Inl_iff diffresult_row_def deleted_row_def not_processed_def
        split: operation.splits option.splits if_splits)
  with assms show ?thesis by (simp add: assemble_diffresult_def)
qed

end
