(* ===== verification/Bounds.thy ===== *)
theory Bounds
  imports Prelude
begin

text \<open>
  The integer bounding box \<^verbatim>\<open>bbox_t\<close> of \<^verbatim>\<open>include/cgimap/util.hpp\<close>: the box an upload
  accumulates, in fixed-point degrees. The default box is empty: its minimum lies beyond its
  maximum, outside the valid range.
\<close>

section \<open>Data and operations\<close>

record bbox_t =
  minlat :: int
  minlon :: int
  maxlat :: int
  maxlon :: int

text \<open>\<^verbatim>\<open>global_settings::get_scale()\<close>, 10000000 in every configuration of the program.\<close>

definition scale :: int where
  "scale = 10000000"

definition default_bbox :: bbox_t where
  "default_bbox = \<lparr>minlat = 200 * scale, minlon = 200 * scale,
                   maxlat = - 200 * scale, maxlon = - 200 * scale\<rparr>"

definition expand :: "bbox_t \<Rightarrow> bbox_t \<Rightarrow> bbox_t" where
  "expand b c = \<lparr>minlat = min (minlat b) (minlat c), minlon = min (minlon b) (minlon c),
                 maxlat = max (maxlat b) (maxlat c), maxlon = max (maxlon b) (maxlon c)\<rparr>"

definition linear_size :: "bbox_t \<Rightarrow> int" where
  "linear_size b = (maxlon b - minlon b) + (maxlat b - minlat b)"

section \<open>Containment\<close>

definition in_bbox :: "int \<times> int \<Rightarrow> bbox_t \<Rightarrow> bool" where
  "in_bbox p b \<longleftrightarrow> minlat b \<le> fst p \<and> fst p \<le> maxlat b \<and> minlon b \<le> snd p \<and> snd p \<le> maxlon b"

definition bbox_le :: "bbox_t \<Rightarrow> bbox_t \<Rightarrow> bool" where
  "bbox_le b c \<longleftrightarrow> minlat c \<le> minlat b \<and> minlon c \<le> minlon b \<and>
                  maxlat b \<le> maxlat c \<and> maxlon b \<le> maxlon c"

lemma bbox_le_refl [simp]: "bbox_le b b"
  by (simp add: bbox_le_def)

lemma bbox_le_trans: "bbox_le a b \<Longrightarrow> bbox_le b c \<Longrightarrow> bbox_le a c"
  by (auto simp: bbox_le_def)

lemma bbox_le_expand1 [simp]: "bbox_le b (expand b c)"
  and bbox_le_expand2 [simp]: "bbox_le c (expand b c)"
  by (simp_all add: bbox_le_def expand_def)

lemma bbox_le_expandI1: "bbox_le a b \<Longrightarrow> bbox_le a (expand b c)"
  and bbox_le_expandI2: "bbox_le a c \<Longrightarrow> bbox_le a (expand b c)"
  by (auto simp: bbox_le_def expand_def)

lemma expand_least: "bbox_le b d \<Longrightarrow> bbox_le c d \<Longrightarrow> bbox_le (expand b c) d"
  by (simp add: bbox_le_def expand_def)

lemma in_bbox_mono: "in_bbox p b \<Longrightarrow> bbox_le b c \<Longrightarrow> in_bbox p c"
  by (auto simp: in_bbox_def bbox_le_def)

lemma in_bbox_expand: "in_bbox p b \<or> in_bbox p c \<Longrightarrow> in_bbox p (expand b c)"
  using in_bbox_mono by fastforce

lemma expand_assoc: "expand (expand a b) c = expand a (expand b c)"
  and expand_commute: "expand a b = expand b a"
  and expand_idem [simp]: "expand a a = a"
  by (simp_all add: expand_def ac_simps)

text \<open>A point of the valid coordinate range is never in the default box.\<close>

lemma default_bbox_empty: "\<not> in_bbox p default_bbox"
  by (simp add: in_bbox_def default_bbox_def scale_def)

lemma expand_default:
  "minlat b \<le> 200 * scale \<Longrightarrow> minlon b \<le> 200 * scale \<Longrightarrow>
   - 200 * scale \<le> maxlat b \<Longrightarrow> - 200 * scale \<le> maxlon b \<Longrightarrow> expand default_bbox b = b"
  by (simp add: expand_def default_bbox_def)

section \<open>The box of a selection\<close>

text \<open>
  \<^verbatim>\<open>SELECT MIN(latitude), MIN(longitude), MAX(latitude), MAX(longitude)\<close> over the selected
  rows, given here as the coordinate pairs, followed by \<^verbatim>\<open>extract_bbox_from_row\<close>: the
  aggregates of no rows are null and leave the box as it was.
\<close>

definition aggregate_bbox :: "(int \<times> int) list \<Rightarrow> bbox_t option" where
  "aggregate_bbox ps =
     (if ps = [] then None
      else Some \<lparr>minlat = Min (set (map fst ps)), minlon = Min (set (map snd ps)),
                 maxlat = Max (set (map fst ps)), maxlon = Max (set (map snd ps))\<rparr>)"

definition extract_bbox_from_row :: "bbox_t option \<Rightarrow> bbox_t \<Rightarrow> bbox_t" where
  "extract_bbox_from_row row result = (case row of None \<Rightarrow> result | Some b \<Rightarrow> b)"

lemma aggregate_bbox_contains:
  "p \<in> set ps \<Longrightarrow> in_bbox p (extract_bbox_from_row (aggregate_bbox ps) b)"
  by (auto simp: aggregate_bbox_def extract_bbox_from_row_def in_bbox_def)

lemma aggregate_bbox_tight:
  assumes "aggregate_bbox ps = Some b"
    and "\<And>p. p \<in> set ps \<Longrightarrow> in_bbox p c"
  shows "bbox_le b c"
  using assms by (auto simp: aggregate_bbox_def in_bbox_def bbox_le_def split: if_splits)

end
