(* ===== verification/Database.thy ===== *)
theory Database
  imports Tracking Bounds
begin

text \<open>
  The part of the API database that an upload reads and writes, and the statement forms the
  updaters send. A table is the list of its rows; a statement of the code is translated to a
  function on the tables it names. Rows of a \<^verbatim>\<open>SELECT\<close> come in table order, which only
  decides which of several offending elements an error message names and the order of entries
  in the tracking vectors. An \<^verbatim>\<open>INSERT\<close> that breaks a primary key of
  \<^verbatim>\<open>test/structure.sql\<close> is an exception. All statements of an upload run in one
  transaction, so \<^verbatim>\<open>now()\<close> is one value, \<^verbatim>\<open>db_now\<close>, and an exception leaves the
  database as it was.
\<close>

section \<open>Rows and tables\<close>

text \<open>
  The columns the three element tables share, the ones of \<^verbatim>\<open>nodes\<close> alone, and the member
  rows of relations. The history tables have the columns of the current ones.
\<close>

record elem_row =
  r_id :: int
  r_changeset_id :: int
  r_visible :: bool
  r_timestamp :: int
  r_version :: int

record node_row = elem_row +
  r_latitude :: int
  r_longitude :: int
  r_tile :: int

type_synonym way_row = elem_row
type_synonym relation_row = elem_row

text \<open>Tag rows \<open>(id, k, v)\<close>; history tag rows \<open>(id, version, k, v)\<close>.\<close>

type_synonym tag_row = "int \<times> string \<times> string"
type_synonym hist_tag_row = "int \<times> int \<times> string \<times> string"

text \<open>Way node rows \<open>(way_id, node_id, sequence_id)\<close>; in the history
  \<open>(way_id, node_id, version, sequence_id)\<close>.\<close>

type_synonym way_node_row = "int \<times> int \<times> int"
type_synonym hist_way_node_row = "int \<times> int \<times> int \<times> int"

record member_row =
  m_relation_id :: int
  m_member_type :: string
  m_member_id :: int
  m_member_role :: string
  m_sequence_id :: int

record hist_member_row = member_row +
  m_version :: int

record changeset_row =
  c_id :: int
  c_user_id :: int
  c_created_at :: int
  c_closed_at :: int
  c_bbox :: "bbox_t option"
  c_num_changes :: int
  c_stats :: "int list"

record db =
  current_nodes :: "node_row list"
  current_node_tags :: "tag_row list"
  nodes_tbl :: "node_row list"
  node_tags_tbl :: "hist_tag_row list"
  current_ways :: "way_row list"
  current_way_tags :: "tag_row list"
  current_way_nodes :: "way_node_row list"
  ways_tbl :: "way_row list"
  way_tags_tbl :: "hist_tag_row list"
  way_nodes_tbl :: "hist_way_node_row list"
  current_relations :: "relation_row list"
  current_relation_tags :: "tag_row list"
  current_relation_members :: "member_row list"
  relations_tbl :: "relation_row list"
  relation_tags_tbl :: "hist_tag_row list"
  relation_members_tbl :: "hist_member_row list"
  node_id_seq :: int
  way_id_seq :: int
  relation_id_seq :: int
  changesets :: "changeset_row list"
  changeset_tags :: "tag_row list"
  changesets_subscribers :: "(int \<times> int) list"
  users_changesets_count :: "(int \<times> int option) list"
  changeset_id_seq :: int
  db_now :: int

section \<open>Statement forms\<close>

text \<open>\<^verbatim>\<open>SELECT ... WHERE id = ANY($1)\<close>\<close>

definition select_any :: "int list \<Rightarrow> 'a elem_row_scheme list \<Rightarrow> 'a elem_row_scheme list" where
  "select_any ids rows = filter (\<lambda>r. r_id r \<in> set ids) rows"

text \<open>\<^verbatim>\<open>SELECT t.id FROM UNNEST($1) AS t(id) EXCEPT SELECT id FROM locked ORDER BY id\<close>\<close>

definition except_ids :: "int list \<Rightarrow> int list \<Rightarrow> int list" where
  "except_ids ids locked = sort_unique (filter (\<lambda>i. i \<notin> set locked) ids)"

text \<open>\<^verbatim>\<open>INSERT INTO\<close> a table with primary key \<open>key\<close>.\<close>

definition insert_rows :: "('r \<Rightarrow> 'k) \<Rightarrow> 'r list \<Rightarrow> 'r list \<Rightarrow> 'r list result" where
  "insert_rows key new tbl =
     (if distinct (map key (tbl @ new)) then Inr (tbl @ new)
      else Inl (sql_error ''duplicate key value violates unique constraint''))"

text \<open>
  \<^verbatim>\<open>UPDATE t SET ... FROM u WHERE t.id = u.id AND t.version = u.version RETURNING ...\<close>: the
  new table and the returned rows. Of several matching rows of \<open>u\<close> one is used.
\<close>

definition update_from ::
    "('r \<Rightarrow> 'u \<Rightarrow> bool) \<Rightarrow> ('r \<Rightarrow> 'u \<Rightarrow> 'r) \<Rightarrow> 'u list \<Rightarrow> 'r list \<Rightarrow> 'r list \<times> 'r list" where
  "update_from match upd us rows =
     (map (\<lambda>r. case find (match r) us of None \<Rightarrow> r | Some u \<Rightarrow> upd r u) rows,
      List.map_filter (\<lambda>r. map_option (upd r) (find (match r) us)) rows)"

text \<open>
  \<^verbatim>\<open>SELECT t.id, t.version, cn.version FROM tmp t INNER JOIN current cn ON t.id = cn.id
  WHERE t.version <> cn.version LIMIT 1\<close>
\<close>

definition version_mismatch ::
    "(int \<times> int) list \<Rightarrow> 'a elem_row_scheme list \<Rightarrow> (int \<times> int \<times> int) list" where
  "version_mismatch tmp rows =
     take 1 (concat (map (\<lambda>(i, v). map (\<lambda>r. (i, v, r_version r))
                (filter (\<lambda>r. i = r_id r \<and> v \<noteq> r_version r) rows)) tmp))"

text \<open>
  \<^verbatim>\<open>string_agg(distinct x::text, ',')\<close>: the distinct values as text, in text order.
\<close>

definition string_agg :: "int list \<Rightarrow> string" where
  "string_agg xs = join_comma (sort_unique (map fmt_d xs))"

text \<open>
  \<^verbatim>\<open>SELECT key, string_agg(distinct ref::text, ',') FROM t WHERE key = ANY($1) GROUP BY key\<close>
  over the pairs \<open>(key, ref)\<close> of the table.
\<close>

definition referenced_by :: "int list \<Rightarrow> (int \<times> int) list \<Rightarrow> (int \<times> string) list" where
  "referenced_by ids refs =
     map (\<lambda>k. (k, string_agg (map snd (filter (\<lambda>p. fst p = k) refs))))
       (remdups (filter (\<lambda>k. k \<in> set ids) (map fst refs)))"

text \<open>
  The tag rows of the given elements, and the statement that copies the current tag rows of
  the selected elements, joined with their version, into the history.
\<close>

definition tags_to_history :: "int list \<Rightarrow> tag_row list \<Rightarrow> 'a elem_row_scheme list \<Rightarrow> hist_tag_row list" where
  "tags_to_history ids tags rows =
     concat (map (\<lambda>(i, k, v). map (\<lambda>r. (i, r_version r, k, v))
       (filter (\<lambda>r. i = r_id r \<and> r_id r \<in> set ids) rows)) tags)"

section \<open>Lemmas on the statement forms\<close>

lemma set_select_any [simp]: "set (select_any ids rows) = {r \<in> set rows. r_id r \<in> set ids}"
  by (auto simp: select_any_def)

lemma except_ids_Nil: "except_ids ids locked = [] \<longleftrightarrow> set ids \<subseteq> set locked"
  by (auto simp: except_ids_def filter_empty_conv)

lemma insert_rows_Inr:
  "insert_rows key new tbl = Inr tbl' \<longleftrightarrow> tbl' = tbl @ new \<and> distinct (map key (tbl @ new))"
  by (auto simp: insert_rows_def)

lemma version_mismatch_Nil:
  "version_mismatch tmp rows = [] \<longleftrightarrow>
     (\<forall>(i, v)\<in>set tmp. \<forall>r\<in>set rows. r_id r = i \<longrightarrow> r_version r = v)"
  by (auto simp: version_mismatch_def filter_empty_conv)

lemma version_mismatch_ConsD:
  "version_mismatch tmp rows = (i, v, a) # rest \<Longrightarrow>
     (i, v) \<in> set tmp \<and> v \<noteq> a \<and> (\<exists>r\<in>set rows. r_id r = i \<and> r_version r = a)"
proof -
  assume "version_mismatch tmp rows = (i, v, a) # rest"
  then have "(i, v, a) \<in> set (version_mismatch tmp rows)" by simp
  then show ?thesis
    unfolding version_mismatch_def by (auto dest!: in_set_takeD)
qed

lemma referenced_by_keys:
  "fst ` set (referenced_by ids refs) = {k \<in> fst ` set refs. k \<in> set ids}"
  by (force simp: referenced_by_def)

lemma set_map_filter: "set (List.map_filter f xs) = {y. \<exists>x\<in>set xs. f x = Some y}"
  by (force simp: List.map_filter_def)

text \<open>A row of an updated table is an unmatched old row or the update of a matched one.\<close>

lemma update_from_table:
  "r' \<in> set (fst (update_from match upd us rows)) \<longleftrightarrow>
     (\<exists>r\<in>set rows. r' = (case find (match r) us of None \<Rightarrow> r | Some u \<Rightarrow> upd r u))"
  by (auto simp: update_from_def)

lemma update_from_map_key:
  assumes "\<And>r u. key (upd r u) = key r"
  shows "map key (fst (update_from match upd us rows)) = map key rows"
  using assms by (auto simp: update_from_def split: option.split)

lemma update_from_returned:
  "r' \<in> set (snd (update_from match upd us rows)) \<longleftrightarrow>
     (\<exists>r\<in>set rows. \<exists>u. find (match r) us = Some u \<and> r' = upd r u)"
  by (auto simp: update_from_def set_map_filter)

lemma length_map_filter: "length (List.map_filter f xs) = length (filter (\<lambda>x. f x \<noteq> None) xs)"
  by (induction xs) (auto simp: List.map_filter_simps split: option.split)

lemma update_from_Nil [simp]: "update_from match upd [] rows = (rows, [])"
  by (simp add: update_from_def List.map_filter_def)

text \<open>
  The number of updated rows counts the table rows with a match. When every table row has
  its own key and a match fixes the key, an update that touches as many rows as there are
  requests serves every request, and no two requests share a key.
\<close>

lemma update_from_all_served:
  assumes dist: "distinct (map key rows)"
    and match: "\<And>r u. match r u \<Longrightarrow> ukey u = key r"
    and len: "length (snd (update_from match upd us rows)) = length us"
  shows "distinct (map ukey us)"
    and "u \<in> set us \<Longrightarrow> \<exists>r\<in>set rows. key r = ukey u \<and> find (match r) us = Some u"
proof -
  let ?hit = "filter (\<lambda>r. find (match r) us \<noteq> None) rows"
  have len_hit: "length ?hit = length us"
    using len by (simp add: update_from_def length_map_filter)
  have sub: "key ` set ?hit \<subseteq> ukey ` set us"
    using match by (auto dest!: find_SomeD) (metis image_eqI)
  have "distinct (map key ?hit)" using dist by (rule distinct_map_filter)
  then have "card (key ` set ?hit) = length us"
    using len_hit by (metis distinct_card length_map set_map)
  with sub have ge: "length us \<le> card (ukey ` set us)"
    by (metis List.finite_set card_mono finite_imageI)
  moreover have "card (ukey ` set us) \<le> length (map ukey us)"
    using card_length [of "map ukey us"] by simp
  ultimately have "card (set (map ukey us)) = length (map ukey us)" by simp
  then show d: "distinct (map ukey us)" by (rule card_distinct)
  have "key ` set ?hit = ukey ` set us"
  proof (rule card_seteq [OF _ sub])
    show "card (ukey ` set us) \<le> card (key ` set ?hit)"
      using \<open>card (key ` set ?hit) = length us\<close> card_length [of "map ukey us"] by simp
  qed simp
  then show "\<exists>r\<in>set rows. key r = ukey u \<and> find (match r) us = Some u" if "u \<in> set us"
  proof -
    from that \<open>key ` set ?hit = ukey ` set us\<close>
    have "ukey u \<in> key ` set ?hit" by simp
    then obtain r u' where r: "r \<in> set rows" "key r = ukey u" "find (match r) us = Some u'"
      by auto
    from r(3) have "u' \<in> set us" "match r u'" by (auto dest: find_SomeD)
    with match r(2) have "ukey u' = ukey u" by simp
    with d that \<open>u' \<in> set us\<close> have "u' = u" by (blast intro: distinct_map_unique)
    with r show ?thesis by blast
  qed
qed

end
