(* ===== verification/Elements.thy ===== *)
theory Elements
  imports Database
begin

text \<open>
  What the node, way and relation updaters of
  \<^verbatim>\<open>src/backend/apidb/changeset_upload/\<close> have in common. Each keeps vectors of pending
  elements; the fields the three element structs share are one record, which the structs
  extend, so the steps that the three files repeat line by line are stated and proved once.
\<close>

section \<open>Pending elements\<close>

record elem_t =
  e_id :: osm_nwr_id_t
  e_version :: osm_version_t
  e_changeset_id :: osm_changeset_id_t
  e_old_id :: osm_nwr_signed_id_t
  e_tags :: "(string \<times> string) list"
  e_if_unused :: bool

text \<open>
  \<^verbatim>\<open>ct.osmchange_orig_sequence.emplace_back(op, type, old_id, version, if_unused)\<close>: the record
  of a request in the sequence of the message. Created and modified elements have the flag
  unset.
\<close>

definition change_item :: "operation \<Rightarrow> object_type \<Rightarrow> 'a elem_t_scheme \<Rightarrow> osmchange_t" where
  "change_item op ot e = \<lparr>oc_op = op, oc_obj_type = ot, oc_orig_id = e_old_id e,
                         oc_orig_version = e_version e, oc_if_unused = e_if_unused e\<rparr>"

definition track :: "operation \<Rightarrow> object_type \<Rightarrow> 'a elem_t_scheme \<Rightarrow> OSMChange_Tracking \<Rightarrow>
    OSMChange_Tracking" where
  "track op ot e ct =
     ct\<lparr>osmchange_orig_sequence := osmchange_orig_sequence ct @ [change_item op ot e]\<rparr>"

section \<open>Placeholder ids\<close>

text \<open>
  \<^verbatim>\<open>map.insert({ i.old_id, i.new_id })\<close> for every created element, where a second entry for a
  placeholder is an error.
\<close>

definition placeholder_map :: "string \<Rightarrow> object_id_mapping_t list \<Rightarrow> (int \<rightharpoonup> int) result" where
  "placeholder_map what created =
     foldE (\<lambda>i m. if m (om_old_id i) \<noteq> None
                  then Inl (bad_request (''Duplicate '' @ what @ '' placeholder id '' @
                                         fmt_d (om_old_id i) @ ''.''))
                  else Inr (m(om_old_id i \<mapsto> om_new_id i))) created Map.empty"

text \<open>The replacement of the own id of an element.\<close>

definition replace_own_id :: "string \<Rightarrow> (int \<rightharpoonup> int) \<Rightarrow> 'a elem_t_scheme \<Rightarrow> 'a elem_t_scheme result" where
  "replace_own_id what m e =
     (if e_old_id e < 0 then
        (case m (e_old_id e) of
           None \<Rightarrow> Inl (bad_request (''Placeholder id not found for '' @ what @ '' reference '' @
                                     fmt_d (e_old_id e)))
         | Some i \<Rightarrow> Inr (e\<lparr>e_id := i\<rparr>))
      else Inr e)"

text \<open>\<^verbatim>\<open>create_placeholder_ids.insert(old_id)\<close>, which must not find the id in the set.\<close>

definition check_unique_placeholders :: "'a elem_t_scheme list \<Rightarrow> int set \<Rightarrow> int set result" where
  "check_unique_placeholders es ids =
     foldE (\<lambda>e s. if e_old_id e \<in> s
                  then Inl (bad_request ''Placeholder IDs must be unique for created elements.'')
                  else Inr (insert (e_old_id e) s)) es ids"

text \<open>
  The common table expression \<^verbatim>\<open>ids_mapping\<close>: one \<^verbatim>\<open>nextval\<close> per placeholder, in vector
  order, paired with the placeholder, and the last value of the sequence afterwards.
\<close>

fun ids_mapping :: "int \<Rightarrow> int list \<Rightarrow> (int \<times> int) list" where
  "ids_mapping s [] = []"
| "ids_mapping s (old # olds) = (s + 1, old) # ids_mapping (s + 1) olds"

section \<open>Packages\<close>

text \<open>
  \<^verbatim>\<open>build_packages\<close>: the \<open>k\<close>-th occurrence of an id goes to the \<open>k\<close>-th package.
  \<^verbatim>\<open>result.at(k)\<close> throws \<^verbatim>\<open>std::out_of_range\<close> for an index beyond the vector.
\<close>

definition build_packages_step ::
    "('a \<Rightarrow> int) \<Rightarrow> 'a \<Rightarrow> 'a list list \<times> (int \<rightharpoonup> nat) \<Rightarrow> ('a list list \<times> (int \<rightharpoonup> nat)) result" where
  "build_packages_step key x = (\<lambda>(res, pkg).
     let k = (case pkg (key x) of None \<Rightarrow> 0 | Some n \<Rightarrow> n + 1);
         res' = (if k + 1 > length res then res @ [[]] else res)
     in if k < length res' then Inr (res'[k := res' ! k @ [x]], pkg(key x \<mapsto> k))
        else Inl (runtime_error ''vector::at''))"

definition build_packages_by :: "('a \<Rightarrow> int) \<Rightarrow> 'a list \<Rightarrow> 'a list list result" where
  "build_packages_by key xs =
     bindE (foldE (build_packages_step key) xs ([], Map.empty)) (\<lambda>(res, _). Inr res)"

section \<open>Deletions\<close>

definition ids_if_unused :: "'a elem_t_scheme list \<Rightarrow> int set" where
  "ids_if_unused es = e_id ` set (filter e_if_unused es)"

definition ids_without_if_unused :: "'a elem_t_scheme list \<Rightarrow> int set" where
  "ids_without_if_unused es = e_id ` set (filter (\<lambda>e. \<not> e_if_unused e) es)"

definition id_to_old_id :: "'a elem_t_scheme list \<Rightarrow> (int \<rightharpoonup> int)" where
  "id_to_old_id es = map_assign e_id e_old_id es"

text \<open>\<^verbatim>\<open>row["version"].as<osm_version_t>()\<close>: a value outside 32 bits is a conversion error.\<close>

definition as_version :: "int \<Rightarrow> osm_version_t result" where
  "as_version v = (if is_u32 v then Inr v else Inl (sql_error ''conversion error''))"

definition row_mapping :: "'a elem_t_scheme list \<Rightarrow> 'b elem_row_scheme \<Rightarrow> object_id_mapping_t result" where
  "row_mapping es r =
     bindE (as_version (r_version r))
       (\<lambda>v. Inr \<lparr>om_old_id = map_at (id_to_old_id es) (r_id r), om_new_id = r_id r,
                  om_new_version = v\<rparr>)"

text \<open>
  The loop of \<^verbatim>\<open>determine_already_deleted_*\<close> over the invisible rows: the set of ids found,
  and the skipped deletions to report.
\<close>

definition already_deleted_step ::
    "string \<Rightarrow> 'a elem_t_scheme list \<Rightarrow> 'b elem_row_scheme \<Rightarrow>
       int set \<times> object_id_mapping_t list \<Rightarrow> (int set \<times> object_id_mapping_t list) result" where
  "already_deleted_step what es r = (\<lambda>(found, skipped).
     if r_id r \<in> ids_without_if_unused es
     then Inl (gone (''The '' @ what @ '' with the id '' @ fmt_d (r_id r) @ '' has already been deleted''))
     else if r_id r \<in> ids_if_unused es
     then bindE (row_mapping es r) (\<lambda>i. Inr (insert (r_id r) found, skipped @ [i]))
     else Inr (insert (r_id r) found, skipped))"

text \<open>
  The loop of \<^verbatim>\<open>is_*_still_referenced\<close> over the ids that other elements refer to: the ids
  to leave out of the deletion.
\<close>

definition still_referenced_by ::
    "(int \<Rightarrow> string \<Rightarrow> string) \<Rightarrow> 'a elem_t_scheme list \<Rightarrow> int \<times> string \<Rightarrow> int set \<Rightarrow> int set result" where
  "still_referenced_by msg es = (\<lambda>(i, refs) excl.
     if i \<in> ids_without_if_unused es then Inl (precondition_failed (msg i refs))
     else if i \<in> ids_if_unused es then Inr (insert i excl) else Inr excl)"

definition still_referenced_step ::
    "string \<Rightarrow> string \<Rightarrow> 'a elem_t_scheme list \<Rightarrow> int \<times> string \<Rightarrow> int set \<Rightarrow> int set result" where
  "still_referenced_step what users es =
     still_referenced_by (\<lambda>i refs. what @ '' '' @ fmt_d i @ '' is still used by '' @ users @ '' '' @ refs @ ''.'') es"

text \<open>
  The end of \<^verbatim>\<open>is_*_still_referenced\<close>: drop the excluded elements and report their current
  version.
\<close>

definition exclude_referenced ::
    "string \<Rightarrow> 'a elem_t_scheme list \<Rightarrow> int set \<Rightarrow> 'b elem_row_scheme list \<Rightarrow> object_id_mapping_t list \<Rightarrow>
       ('a elem_t_scheme list \<times> object_id_mapping_t list) result" where
  "exclude_referenced what es excl rows skipped =
     (if excl = {} then Inr (es, skipped)
      else let r = filter (\<lambda>r. r_id r \<in> excl) rows in
        if length r \<noteq> card excl
        then Inl (server_error (''Could not get details about still referenced '' @ what))
        else bindE (mapE (row_mapping es) r)
               (\<lambda>mps. Inr (filter (\<lambda>e. e_id e \<notin> excl) es, skipped @ mps)))"

section \<open>Members\<close>

text \<open>The references that relation members of one type make.\<close>

definition member_refs :: "string \<Rightarrow> db \<Rightarrow> (int \<times> int) list" where
  "member_refs ty d = map (\<lambda>m. (m_member_id m, m_relation_id m))
     (filter (\<lambda>m. m_member_type m = ty) (current_relation_members d))"

text \<open>
  The ids of a vector that no visible row has:
  \<^verbatim>\<open>WITH locked AS (SELECT id FROM t WHERE visible = true AND id = ANY($1) FOR SHARE)
  SELECT t.id FROM UNNEST($1) AS t(id) EXCEPT SELECT id FROM locked ORDER BY id\<close>
\<close>

definition missing_visible :: "int list \<Rightarrow> 'a elem_row_scheme list \<Rightarrow> int list" where
  "missing_visible ids rows = except_ids ids (map r_id (filter r_visible (select_any ids rows)))"

text \<open>
  The first entry of the ordered map from the ids of the message to their absent members.
\<close>

definition absent_begin ::
    "('a elem_t_scheme \<Rightarrow> int list) \<Rightarrow> 'a elem_t_scheme list \<Rightarrow> int list \<Rightarrow> (int \<times> int list) option" where
  "absent_begin refs es missing =
     (let absent = (\<lambda>e. filter (\<lambda>i. i \<in> set missing) (refs e)) in
      case sort_unique (map e_old_id (filter (\<lambda>e. absent e \<noteq> []) es)) of
        [] \<Rightarrow> None
      | k # _ \<Rightarrow> Some (k, sort_unique (concat (map absent (filter (\<lambda>e. e_old_id e = k) es)))))"

text \<open>
  The shared lock on future members: all \<open>ids\<close> must be visible rows. The error branch
  dereferences the first entry of the map of absent members.
\<close>

definition require_visible ::
    "string \<Rightarrow> string \<Rightarrow> ('a elem_t_scheme \<Rightarrow> int list) \<Rightarrow> 'a elem_t_scheme list \<Rightarrow> int list \<Rightarrow>
       'b elem_row_scheme list \<Rightarrow> unit result" where
  "require_visible what kind refs es ids rows =
     (if ids = [] then Inr ()
      else case missing_visible (sort_unique ids) rows of
             [] \<Rightarrow> Inr ()
           | missing \<Rightarrow>
               (case absent_begin refs es missing of
                  None \<Rightarrow> Inl (undefined_behaviour ''absent ids: *begin()'')
                | Some (i, absent) \<Rightarrow>
                    Inl (precondition_failed (what @ '' '' @ fmt_d i @ '' requires the '' @ kind @
                      '' with id in '' @ join_comma (map fmt_d absent) @
                      '', which either do not exist, or are not visible.''))))"

section \<open>Tags\<close>

text \<open>
  The rows a tag stream sends, and the ids that have tags, sorted and without repetition.
\<close>

definition elem_tag_rows :: "'a elem_t_scheme list \<Rightarrow> tag_row list" where
  "elem_tag_rows es = concat (map (\<lambda>e. map (\<lambda>(k, v). (e_id e, k, v)) (e_tags e)) es)"

definition delete_tags_any :: "int list \<Rightarrow> tag_row list \<Rightarrow> tag_row list" where
  "delete_tags_any ids tags = filter (\<lambda>(i, _). i \<notin> set ids) tags"

section \<open>Lemmas: placeholders\<close>

lemma placeholder_foldE:
  assumes "foldE (\<lambda>i m. if m (om_old_id i) \<noteq> None then Inl (e i)
                        else Inr (m(om_old_id i \<mapsto> om_new_id i))) created m0 = Inr m"
  shows "distinct (map om_old_id created) \<and> om_old_id ` set created \<inter> dom m0 = {} \<and>
         m = m0 ++ map_of (map (\<lambda>i. (om_old_id i, om_new_id i)) created)"
  using assms
proof (induction created arbitrary: m0)
  case Nil
  then show ?case by simp
next
  case (Cons i created)
  then have i: "m0 (om_old_id i) = None" by (auto split: if_splits)
  let ?m1 = "m0(om_old_id i \<mapsto> om_new_id i)"
  have IH: "distinct (map om_old_id created) \<and> om_old_id ` set created \<inter> dom ?m1 = {} \<and>
         m = ?m1 ++ map_of (map (\<lambda>i. (om_old_id i, om_new_id i)) created)"
    by (rule Cons.IH [of ?m1]) (use Cons.prems i in \<open>simp del: fun_upd_apply\<close>)
  then have fresh: "om_old_id i \<notin> om_old_id ` set created" by auto
  then have "map_of (map (\<lambda>i. (om_old_id i, om_new_id i)) created) (om_old_id i) = None"
    by (force simp: map_of_eq_None_iff)
  then have "?m1 ++ map_of (map (\<lambda>i. (om_old_id i, om_new_id i)) created) =
      m0 ++ map_of (map (\<lambda>i. (om_old_id i, om_new_id i)) (i # created))"
    by (auto simp: map_add_def fun_eq_iff split: option.split)
  with IH have "m = m0 ++ map_of (map (\<lambda>i. (om_old_id i, om_new_id i)) (i # created))"
    by metis
  moreover from IH fresh i have "distinct (map om_old_id (i # created))"
    and "om_old_id ` set (i # created) \<inter> dom m0 = {}"
    by auto
  ultimately show ?case by blast
qed

lemma placeholder_map_Inr:
  "placeholder_map what created = Inr m \<Longrightarrow>
     distinct (map om_old_id created) \<and> m = map_of (map (\<lambda>i. (om_old_id i, om_new_id i)) created)"
  unfolding placeholder_map_def by (drule placeholder_foldE) simp

lemma placeholder_map_SomeD:
  "placeholder_map what created = Inr m \<Longrightarrow> m old = Some new \<Longrightarrow>
     \<exists>i\<in>set created. om_old_id i = old \<and> om_new_id i = new"
  by (auto dest!: placeholder_map_Inr map_of_SomeD)

lemma placeholder_map_in:
  "placeholder_map what created = Inr m \<Longrightarrow> i \<in> set created \<Longrightarrow> m (om_old_id i) = Some (om_new_id i)"
  by (auto dest!: placeholder_map_Inr intro!: map_of_is_SomeI simp: comp_def)

text \<open>An error of the placeholder bookkeeping is a client error, never a server one.\<close>

lemma placeholder_map_error:
  "placeholder_map what created = Inl e \<Longrightarrow> \<exists>msg. e = bad_request msg"
proof -
  have "foldE (\<lambda>i m. if m (om_old_id i) \<noteq> None
                  then Inl (bad_request (''Duplicate '' @ what @ '' placeholder id '' @
                                         fmt_d (om_old_id i) @ ''.''))
                  else Inr (m(om_old_id i \<mapsto> om_new_id i))) created m0 = Inl e \<Longrightarrow>
     \<exists>msg. e = bad_request msg" for m0
    by (induction created arbitrary: m0) (auto simp: bindE_Inl_iff split: if_splits)
  then show "placeholder_map what created = Inl e \<Longrightarrow> \<exists>msg. e = bad_request msg"
    by (simp add: placeholder_map_def)
qed

lemma replace_own_id_Inr:
  "replace_own_id what m e = Inr e' \<Longrightarrow>
     (if e_old_id e < 0 then \<exists>i. m (e_old_id e) = Some i \<and> e' = e\<lparr>e_id := i\<rparr> else e' = e)"
  by (auto simp: replace_own_id_def split: if_splits option.splits)

lemma check_unique_placeholders_Inr:
  "check_unique_placeholders es ids = Inr ids' \<Longrightarrow>
     distinct (map e_old_id es) \<and> e_old_id ` set es \<inter> ids = {} \<and> ids' = ids \<union> e_old_id ` set es"
  unfolding check_unique_placeholders_def
  by (induction es arbitrary: ids) (auto simp: result_simps split: if_splits)

lemma check_unique_placeholders_ex:
  "(\<exists>ids'. check_unique_placeholders es ids = Inr ids') \<longleftrightarrow>
     distinct (map e_old_id es) \<and> e_old_id ` set es \<inter> ids = {}"
  unfolding check_unique_placeholders_def
  by (induction es arbitrary: ids) (auto simp: result_simps)

lemma map_snd_ids_mapping [simp]: "map snd (ids_mapping s olds) = olds"
  by (induction olds arbitrary: s) auto

lemma length_ids_mapping [simp]: "length (ids_mapping s olds) = length olds"
  by (induction olds arbitrary: s) auto

lemma fst_ids_mapping: "fst ` set (ids_mapping s olds) = {s<..s + int (length olds)}"
proof (induction olds arbitrary: s)
  case Nil
  then show ?case by simp
next
  case (Cons old olds)
  have "{s<..s + int (length (old # olds))} = insert (s + 1) {s + 1<..s + 1 + int (length olds)}"
    by auto
  with Cons show ?case by simp
qed

lemma distinct_fst_ids_mapping: "distinct (map fst (ids_mapping s olds))"
proof (induction olds arbitrary: s)
  case Nil
  then show ?case by simp
next
  case (Cons old olds)
  have "s + 1 \<notin> set (map fst (ids_mapping (s + 1) olds))"
    using fst_ids_mapping [of "s + 1" olds] by auto
  with Cons show ?case by simp
qed

section \<open>Lemmas: packages\<close>

text \<open>The elements of a vector with a given id, in vector order.\<close>

definition occurrences :: "('a \<Rightarrow> int) \<Rightarrow> int \<Rightarrow> 'a list \<Rightarrow> 'a list" where
  "occurrences key i xs = filter (\<lambda>x. key x = i) xs"

lemma occurrences_simps [simp]:
  "occurrences key i [] = []"
  "occurrences key i (xs @ ys) = occurrences key i xs @ occurrences key i ys"
  "occurrences key i (x # xs) = (if key x = i then x # occurrences key i xs else occurrences key i xs)"
  by (simp_all add: occurrences_def)

lemma set_occurrences: "set (occurrences key i xs) = {x \<in> set xs. key x = i}"
  by (auto simp: occurrences_def)

lemma occurrences_eq_Nil: "occurrences key i xs = [] \<longleftrightarrow> i \<notin> key ` set xs"
  by (induction xs) auto

lemma occurrences_distinct:
  "distinct (map key xs) \<Longrightarrow> x \<in> set xs \<Longrightarrow> occurrences key (key x) xs = [x]"
proof (induction xs)
  case Nil
  then show ?case by simp
next
  case (Cons y ys)
  show ?case
  proof (cases "x = y")
    case True
    with Cons.prems have "occurrences key (key x) ys = []"
      by (simp add: occurrences_eq_Nil)
    with True show ?thesis by simp
  next
    case False
    with Cons.prems have "x \<in> set ys" "key y \<noteq> key x" by force+
    with Cons show ?thesis by simp
  qed
qed

lemma distinct_by_occurrences:
  "(\<And>i. length (occurrences key i xs) \<le> 1) \<Longrightarrow> distinct (map key xs)"
proof (induction xs)
  case Nil
  then show ?case by simp
next
  case (Cons x xs)
  have "length (occurrences key i xs) \<le> 1" for i
    using Cons.prems [of i] by (auto split: if_splits)
  moreover have "occurrences key (key x) xs = []"
    using Cons.prems [of "key x"] by auto
  then have "key x \<notin> key ` set xs" by (auto simp: occurrences_def filter_empty_conv)
  ultimately show ?case using Cons.IH by simp
qed

definition packages_inv :: "('a \<Rightarrow> int) \<Rightarrow> 'a list \<Rightarrow> 'a list list \<times> (int \<rightharpoonup> nat) \<Rightarrow> bool" where
  "packages_inv key xs = (\<lambda>(res, pkg).
     (\<forall>i. pkg i = (if occurrences key i xs = [] then None else Some (length (occurrences key i xs) - 1))) \<and>
     (\<forall>i. length (occurrences key i xs) \<le> length res) \<and>
     (\<forall>p\<in>set res. p \<noteq> []) \<and>
     (\<forall>i j. j < length res \<longrightarrow>
        occurrences key i (res ! j) =
          (if j < length (occurrences key i xs) then [occurrences key i xs ! j] else [])))"

lemma packages_step:
  assumes "packages_inv key xs s"
  shows "\<exists>s'. build_packages_step key x s = Inr s' \<and> packages_inv key (xs @ [x]) s'"
proof -
  obtain res pkg where s: "s = (res, pkg)" by (cases s)
  let ?n = "length (occurrences key (key x) xs)"
  define R where "R = (if ?n + 1 > length res then res @ [[]] else res)"
  from assms s have inv:
    "\<And>i. pkg i = (if occurrences key i xs = [] then None else Some (length (occurrences key i xs) - 1))"
    "\<And>i. length (occurrences key i xs) \<le> length res"
    "\<And>p. p \<in> set res \<Longrightarrow> p \<noteq> []"
    "\<And>i j. j < length res \<Longrightarrow> occurrences key i (res ! j) =
          (if j < length (occurrences key i xs) then [occurrences key i xs ! j] else [])"
    by (auto simp: packages_inv_def)
  have k: "(case pkg (key x) of None \<Rightarrow> 0 | Some n \<Rightarrow> n + 1) = ?n"
    using inv(1) [of "key x"] by (auto split: option.split)
  have lt: "?n < length R" using inv(2) [of "key x"] by (simp add: R_def)
  let ?s' = "(R[?n := R ! ?n @ [x]], pkg(key x \<mapsto> ?n))"
  have step: "build_packages_step key x s = Inr ?s'"
    using lt by (simp add: build_packages_step_def s k Let_def R_def)
  have res_j: "occurrences key i (R ! j) =
      (if j < length (occurrences key i xs) then [occurrences key i xs ! j] else [])"
    if "j < length R" for i j
    using that inv(4) [of j i] inv(2) [of i] by (auto simp: R_def nth_append split: if_splits)
  have "packages_inv key (xs @ [x]) ?s'"
    unfolding packages_inv_def prod.case
  proof (intro conjI allI ballI impI)
    fix i show "(pkg(key x \<mapsto> ?n)) i = (if occurrences key i (xs @ [x]) = [] then None
        else Some (length (occurrences key i (xs @ [x])) - 1))"
      using inv(1) [of i] by simp
  next
    fix i show "length (occurrences key i (xs @ [x])) \<le> length (R[?n := R ! ?n @ [x]])"
      using inv(2) [of i] lt by (auto simp: R_def)
  next
    fix p assume "p \<in> set (R[?n := R ! ?n @ [x]])"
    then obtain j where j: "j < length R" "p = (R[?n := R ! ?n @ [x]]) ! j"
      by (metis in_set_conv_nth length_list_update)
    show "p \<noteq> []"
    proof (cases "j = ?n")
      case True with j show ?thesis by simp
    next
      case False
      with j inv(2) [of "key x"] have "j < length res" "p = res ! j"
        by (auto simp: R_def nth_append split: if_splits)
      then show ?thesis using inv(3) by simp
    qed
  next
    fix i j assume "j < length (R[?n := R ! ?n @ [x]])"
    then have j: "j < length R" by simp
    show "occurrences key i (R[?n := R ! ?n @ [x]] ! j) =
        (if j < length (occurrences key i (xs @ [x])) then [occurrences key i (xs @ [x]) ! j] else [])"
    proof (cases "j = ?n")
      case True
      with res_j [OF j, of i] lt show ?thesis by (auto simp: nth_append)
    next
      case False
      with res_j [OF j, of i] show ?thesis by (auto simp: nth_append)
    qed
  qed
  with step show ?thesis by blast
qed

lemma packages_fold:
  "packages_inv key xs s \<Longrightarrow>
     \<exists>s'. foldE (build_packages_step key) ys s = Inr s' \<and> packages_inv key (xs @ ys) s'"
proof (induction ys arbitrary: xs s)
  case Nil
  then show ?case by simp
next
  case (Cons y ys)
  from packages_step [OF Cons.prems, of y] obtain s1
    where "build_packages_step key y s = Inr s1" "packages_inv key (xs @ [y]) s1" by blast
  with Cons.IH [of "xs @ [y]" s1] show ?case by simp
qed

lemma build_packages_by_spec:
  "\<exists>ps. build_packages_by key xs = Inr ps \<and> (\<forall>p\<in>set ps. p \<noteq> []) \<and>
     (\<forall>i. length (occurrences key i xs) \<le> length ps) \<and>
     (\<forall>i j. j < length ps \<longrightarrow> occurrences key i (ps ! j) =
        (if j < length (occurrences key i xs) then [occurrences key i xs ! j] else []))"
proof -
  have "packages_inv key [] ([], Map.empty)" by (simp add: packages_inv_def)
  from packages_fold [OF this, of xs] show ?thesis
    by (auto simp: build_packages_by_def packages_inv_def)
qed

lemma concat_singletons:
  "(\<And>j. j < length ps \<Longrightarrow> f (ps ! j) = (if j < length ys then [ys ! j] else [])) \<Longrightarrow>
   length ys \<le> length ps \<Longrightarrow> concat (map f ps) = ys"
proof (induction ps arbitrary: ys)
  case Nil
  then show ?case by simp
next
  case (Cons p ps)
  have p: "f p = (if ys = [] then [] else [hd ys])"
    using Cons.prems(1) [of 0] by (cases ys) auto
  have "f (ps ! j) = (if j < length (tl ys) then [tl ys ! j] else [])" if "j < length ps" for j
    using Cons.prems(1) [of "Suc j"] that by (cases ys) auto
  moreover have "length (tl ys) \<le> length ps" using Cons.prems(2) by simp
  ultimately have "concat (map f ps) = tl ys" by (rule Cons.IH)
  with p show ?case by (cases ys) auto
qed

text \<open>
  The three facts the updaters rely on: no package is empty or holds an id twice, and
  reading the packages one after the other meets the elements of each id in vector order.
\<close>

lemma build_packages_by_Inr:
  assumes "build_packages_by key xs = Inr ps"
  shows "\<forall>p\<in>set ps. p \<noteq> [] \<and> distinct (map key p)"
    and "occurrences key i (concat ps) = occurrences key i xs"
proof -
  from build_packages_by_spec [of key xs] assms have
    spec: "\<forall>p\<in>set ps. p \<noteq> []" "\<And>i. length (occurrences key i xs) \<le> length ps"
      "\<And>i j. j < length ps \<Longrightarrow> occurrences key i (ps ! j) =
         (if j < length (occurrences key i xs) then [occurrences key i xs ! j] else [])"
    by auto
  have "distinct (map key p)" if "p \<in> set ps" for p
  proof (rule distinct_by_occurrences)
    fix i
    from that obtain j where "j < length ps" "p = ps ! j" by (auto simp: in_set_conv_nth)
    with spec(3) show "length (occurrences key i p) \<le> 1" by simp
  qed
  with spec(1) show "\<forall>p\<in>set ps. p \<noteq> [] \<and> distinct (map key p)" by simp
  have "occurrences key i (concat ps) = concat (map (occurrences key i) ps)"
    by (induction ps) auto
  also have "\<dots> = occurrences key i xs"
    by (rule concat_singletons [OF spec(3) spec(2)])
  finally show "occurrences key i (concat ps) = occurrences key i xs" .
qed

lemma build_packages_by_set:
  assumes "build_packages_by key xs = Inr ps"
  shows "set (concat ps) = set xs"
proof -
  have "x \<in> set (concat ps) \<longleftrightarrow> x \<in> set xs" for x
    using arg_cong [OF build_packages_by_Inr(2) [OF assms, of "key x"], of set]
    by (auto simp: set_occurrences)
  then show ?thesis by blast
qed

section \<open>Lemmas: deletions\<close>

lemma row_mapping_Inr:
  "row_mapping es r = Inr i \<Longrightarrow>
     om_old_id i = map_at (id_to_old_id es) (r_id r) \<and> om_new_id i = r_id r \<and>
     om_new_version i = r_version r"
  by (auto simp: row_mapping_def as_version_def result_simps split: if_splits)

lemma already_deleted_Inr:
  assumes "foldE (already_deleted_step what es) rows (found, skipped) = Inr (found', skipped')"
  shows "found' = found \<union> r_id ` set rows"
    and "r_id ` set rows \<inter> ids_without_if_unused es = {}"
    and "\<exists>new. skipped' = skipped @ new \<and>
           (\<forall>r\<in>set rows. r_id r \<in> ids_if_unused es \<longrightarrow>
              map_at (id_to_old_id es) (r_id r) \<in> om_old_id ` set new)"
proof -
  have "found' = found \<union> r_id ` set rows \<and> r_id ` set rows \<inter> ids_without_if_unused es = {} \<and>
      (\<exists>new. skipped' = skipped @ new \<and>
           (\<forall>r\<in>set rows. r_id r \<in> ids_if_unused es \<longrightarrow>
              map_at (id_to_old_id es) (r_id r) \<in> om_old_id ` set new))"
    using assms
  proof (induction rows arbitrary: found skipped)
    case Nil
    then show ?case by simp
  next
    case (Cons r rows)
    from Cons.prems obtain f1 s1 where
      step: "already_deleted_step what es r (found, skipped) = Inr (f1, s1)" and
      rest: "foldE (already_deleted_step what es) rows (f1, s1) = Inr (found', skipped')"
      by (auto simp: result_simps)
    from step have r: "r_id r \<notin> ids_without_if_unused es" and f1: "f1 = insert (r_id r) found"
      by (auto simp: already_deleted_step_def result_simps split: if_splits)
    from step obtain n1 where s1: "s1 = skipped @ n1"
      and n1: "r_id r \<in> ids_if_unused es \<longrightarrow> map_at (id_to_old_id es) (r_id r) \<in> om_old_id ` set n1"
      by (force simp: already_deleted_step_def result_simps split: if_splits dest: row_mapping_Inr)
    from Cons.IH [OF rest] obtain new where
      IH: "found' = f1 \<union> r_id ` set rows" "r_id ` set rows \<inter> ids_without_if_unused es = {}"
        "skipped' = s1 @ new" "\<forall>r\<in>set rows. r_id r \<in> ids_if_unused es \<longrightarrow>
           map_at (id_to_old_id es) (r_id r) \<in> om_old_id ` set new"
      by blast
    have "skipped' = skipped @ (n1 @ new)" using IH(3) s1 by simp
    moreover have "\<forall>q\<in>set (r # rows). q = r \<or> q \<in> set rows" by simp
    ultimately show ?case using IH n1 r f1 by (auto intro!: exI [of _ "n1 @ new"])
  qed
  then show "found' = found \<union> r_id ` set rows"
    and "r_id ` set rows \<inter> ids_without_if_unused es = {}"
    and "\<exists>new. skipped' = skipped @ new \<and>
           (\<forall>r\<in>set rows. r_id r \<in> ids_if_unused es \<longrightarrow>
              map_at (id_to_old_id es) (r_id r) \<in> om_old_id ` set new)"
    by blast+
qed

lemma still_referenced_by_Inr:
  "foldE (still_referenced_by msg es) rows excl = Inr excl' \<Longrightarrow>
     fst ` set rows \<inter> ids_without_if_unused es = {} \<and>
     excl' = excl \<union> (fst ` set rows \<inter> ids_if_unused es)"
proof (induction rows arbitrary: excl)
  case Nil
  then show ?case by simp
next
  case (Cons p rows)
  obtain i refs where p: "p = (i, refs)" by (cases p)
  from Cons.prems have i: "i \<notin> ids_without_if_unused es"
    and rest: "foldE (still_referenced_by msg es) rows
      (if i \<in> ids_if_unused es then insert i excl else excl) = Inr excl'"
    by (auto simp: p still_referenced_by_def result_simps split: if_splits)
  from Cons.IH [OF rest] i p show ?case by (auto split: if_splits)
qed

lemmas still_referenced_Inr = still_referenced_by_Inr [where msg = "\<lambda>i refs. what @ '' '' @ fmt_d i @
    '' is still used by '' @ users @ '' '' @ refs @ ''.''" for what users, folded still_referenced_step_def]

lemma exclude_referenced_Inr:
  assumes "exclude_referenced what es excl rows skipped = Inr (es', skipped')"
  shows "es' = filter (\<lambda>e. e_id e \<notin> excl) es"
    and "\<exists>new. skipped' = skipped @ new"
    and "distinct (map r_id rows) \<Longrightarrow> finite excl \<Longrightarrow> i \<in> excl \<Longrightarrow>
           map_at (id_to_old_id es) i \<in> om_old_id ` set skipped'"
proof -
  show "es' = filter (\<lambda>e. e_id e \<notin> excl) es" "\<exists>new. skipped' = skipped @ new"
    using assms
    by (auto simp: exclude_referenced_def Let_def result_simps filter_id_conv split: if_splits)
  assume dist: "distinct (map r_id rows)" and fin: "finite excl" and i: "i \<in> excl"
  let ?r = "filter (\<lambda>r. r_id r \<in> excl) rows"
  from assms i obtain new where len: "length ?r = card excl"
    and new: "mapE (row_mapping es) ?r = Inr new" "skipped' = skipped @ new"
    by (auto simp: exclude_referenced_def Let_def result_simps split: if_splits)
  have "card (r_id ` set ?r) = card excl"
    using len distinct_map_filter [OF dist] by (metis distinct_card length_map set_map)
  moreover have "r_id ` set ?r \<subseteq> excl" by auto
  ultimately have "r_id ` set ?r = excl" using fin by (metis card_subset_eq)
  with i obtain r where r: "r \<in> set ?r" "r_id r = i" by (metis image_iff)
  from mapE_Inr_image [OF new(1) r(1)] obtain m where "m \<in> set new" "row_mapping es r = Inr m"
    by blast
  then have "m \<in> set skipped'" "om_old_id m = map_at (id_to_old_id es) i"
    using r(2) new(2) by (auto dest: row_mapping_Inr)
  then show "map_at (id_to_old_id es) i \<in> om_old_id ` set skipped'" by (metis imageI)
qed

lemma finite_ids [simp]: "finite (ids_if_unused es)" "finite (ids_without_if_unused es)"
  by (simp_all add: ids_if_unused_def ids_without_if_unused_def)

text \<open>
  No two elements of a vector stand for the same row under different names (a placeholder
  and the id it was given).
\<close>

definition alias_free :: "'a elem_t_scheme list \<Rightarrow> bool" where
  "alias_free es \<longleftrightarrow> (\<forall>e\<in>set es. \<forall>e'\<in>set es. e_id e = e_id e' \<longrightarrow> e_old_id e = e_old_id e')"

lemma alias_free_subset: "alias_free es \<Longrightarrow> set fs \<subseteq> set es \<Longrightarrow> alias_free fs"
  by (auto simp: alias_free_def)

lemma alias_free_distinct: "distinct (map e_id es) \<Longrightarrow> alias_free es"
  by (auto simp: alias_free_def dest: distinct_map_unique)

lemma map_at_id_to_old_id:
  assumes "alias_free es" "e \<in> set es"
  shows "map_at (id_to_old_id es) (e_id e) = e_old_id e"
  unfolding id_to_old_id_def
proof (rule map_at_assign [OF assms(2)])
  fix e' assume "e' \<in> set es" "e_id e' = e_id e"
  with assms show "e_old_id e' = e_old_id e" unfolding alias_free_def by blast
qed

lemma not_in_withoutD: "e_id e \<notin> ids_without_if_unused es \<Longrightarrow> e \<in> set es \<Longrightarrow> e_if_unused e"
  by (auto simp: ids_without_if_unused_def)

lemma in_if_unusedI: "e \<in> set es \<Longrightarrow> e_if_unused e \<Longrightarrow> e_id e \<in> ids_if_unused es"
  by (auto simp: ids_if_unused_def)

text \<open>
  The invisible rows among the requested ids: what is found, and that a request for one of
  them has the if-unused flag and is reported as skipped.
\<close>

lemma already_deleted_select:
  assumes "foldE (already_deleted_step what es)
      (filter (\<lambda>r. \<not> r_visible r) (select_any (map e_id es) rows)) ({}, skipped) = Inr (found, skipped')"
  obtains new where
    "found = {i \<in> e_id ` set es. \<exists>r\<in>set rows. r_id r = i \<and> \<not> r_visible r}"
    "found \<inter> ids_without_if_unused es = {}" "skipped' = skipped @ new"
    "\<forall>i\<in>found. i \<in> ids_if_unused es \<longrightarrow> map_at (id_to_old_id es) i \<in> om_old_id ` set new"
proof -
  let ?rows = "filter (\<lambda>r. \<not> r_visible r) (select_any (map e_id es) rows)"
  note r = already_deleted_Inr [OF assms]
  from r(3) obtain new where new: "skipped' = skipped @ new"
    "\<forall>r\<in>set ?rows. r_id r \<in> ids_if_unused es \<longrightarrow> map_at (id_to_old_id es) (r_id r) \<in> om_old_id ` set new"
    by blast
  have "found = r_id ` set ?rows" using r(1) by simp
  moreover have "r_id ` set ?rows = {i \<in> e_id ` set es. \<exists>r\<in>set rows. r_id r = i \<and> \<not> r_visible r}"
    by force
  ultimately show ?thesis using r(2) new by (intro that [of new]) auto
qed

text \<open>An element that is not left out of a deletion is not referenced.\<close>

lemma kept_unreferenced:
  assumes "ids_if_unused es \<inter> R \<subseteq> excl" "ids_without_if_unused es \<inter> R = {}"
    and "e \<in> set es" "e_id e \<notin> excl"
  shows "e_id e \<notin> R"
proof
  assume R: "e_id e \<in> R"
  with assms(2) have "e_id e \<notin> ids_without_if_unused es" by blast
  from in_if_unusedI [OF assms(3) not_in_withoutD [OF this assms(3)]] assms(1,4) R
  show False by blast
qed

text \<open>
  A requested deletion is carried out, or the request has the if-unused flag and is among
  the skipped ones.
\<close>

lemma skipped_or_kept:
  assumes af: "alias_free es" and e: "e \<in> set es"
    and found: "found \<inter> ids_without_if_unused es = {}"
    and acc1: "\<forall>i\<in>found. i \<in> ids_if_unused es \<longrightarrow> map_at (id_to_old_id es) i \<in> S"
    and excl: "excl \<inter> ids_without_if_unused (filter (\<lambda>e. e_id e \<notin> found) es) = {}"
    and acc2: "\<forall>i\<in>excl. map_at (id_to_old_id (filter (\<lambda>e. e_id e \<notin> found) es)) i \<in> S"
  shows "e_id e \<notin> found \<and> e_id e \<notin> excl \<or> e_if_unused e \<and> e_old_id e \<in> S"
proof (cases "e_id e \<in> found")
  case True
  with found have "e_if_unused e" using e by (blast intro: not_in_withoutD)
  moreover from this True acc1 in_if_unusedI [OF e] have "e_old_id e \<in> S"
    unfolding map_at_id_to_old_id [OF af e, symmetric] by blast
  ultimately show ?thesis by simp
next
  case False
  let ?vis = "filter (\<lambda>e. e_id e \<notin> found) es"
  from False e have v: "e \<in> set ?vis" by simp
  show ?thesis
  proof (cases "e_id e \<in> excl")
    case True
    with excl have "e_id e \<notin> ids_without_if_unused ?vis" by blast
    from not_in_withoutD [OF this v] have "e_if_unused e" .
    moreover have "map_at (id_to_old_id ?vis) (e_id e) = e_old_id e"
      by (rule map_at_id_to_old_id [OF alias_free_subset [OF af] v]) auto
    ultimately show ?thesis using True acc2 by metis
  qed (use False in simp)
qed

section \<open>Lemmas: members\<close>

lemma absent_begin_Some:
  assumes "i \<in> set missing" "e \<in> set es" "i \<in> set (refs e)"
  shows "\<exists>k ids. absent_begin refs es missing = Some (k, ids)"
proof -
  have "e_old_id e \<in> set (sort_unique (map e_old_id (filter (\<lambda>e. filter (\<lambda>i. i \<in> set missing) (refs e) \<noteq> []) es)))"
    using assms by (auto simp: filter_empty_conv)
  then obtain k ks where
    "sort_unique (map e_old_id (filter (\<lambda>e. filter (\<lambda>i. i \<in> set missing) (refs e) \<noteq> []) es)) = k # ks"
    by (metis list.exhaust list.set_cases list.distinct(1))
  then show ?thesis by (simp add: absent_begin_def Let_def)
qed

section \<open>Lemmas: rows and their history\<close>

text \<open>
  The contract between a current table and its history: one current row per id, every
  current row is in the history, and no history row is newer than the current row of its id.
\<close>

definition hist_ok :: "'a elem_row_scheme list \<Rightarrow> 'a elem_row_scheme list \<Rightarrow> bool" where
  "hist_ok cur hist \<longleftrightarrow>
     distinct (map r_id cur) \<and> set cur \<subseteq> set hist \<and>
     distinct (map (\<lambda>r. (r_id r, r_version r)) hist) \<and>
     (\<forall>h\<in>set hist. \<exists>r\<in>set cur. r_id r = r_id h \<and> r_version h \<le> r_version r)"

definition visible_id :: "'a elem_row_scheme list \<Rightarrow> int \<Rightarrow> bool" where
  "visible_id rows i \<longleftrightarrow> (\<exists>r\<in>set rows. r_id r = i \<and> r_visible r)"

lemma missing_visible_Nil: "missing_visible ids rows = [] \<longleftrightarrow> (\<forall>i\<in>set ids. visible_id rows i)"
  by (auto simp: missing_visible_def except_ids_Nil visible_id_def subset_iff image_iff)

lemma missing_visible_subset: "set (missing_visible ids rows) \<subseteq> set ids"
  by (auto simp: missing_visible_def except_ids_def)

lemma require_visible_Inr:
  "require_visible what kind refs es ids rows = Inr u \<longleftrightarrow> (\<forall>i\<in>set ids. visible_id rows i)"
proof -
  have "require_visible what kind refs es ids rows = Inr u \<longleftrightarrow> missing_visible (sort_unique ids) rows = []"
    by (cases "ids = []")
      (auto simp: require_visible_def missing_visible_def except_ids_def split: list.split option.split)
  then show ?thesis by (simp add: missing_visible_Nil)
qed

lemma require_visible_error:
  assumes "require_visible what kind refs es ids rows = Inl e"
    and "set ids \<subseteq> (\<Union>e\<in>set es. set (refs e))"
  shows "\<exists>msg. e = precondition_failed msg"
proof -
  let ?m = "missing_visible (sort_unique ids) rows"
  from assms(1) have "?m \<noteq> []" by (auto simp: require_visible_def split: if_splits)
  then obtain i where i: "i \<in> set ?m" by (metis last_in_set)
  then have "i \<in> set ids" using missing_visible_subset [of "sort_unique ids" rows] by auto
  with assms(2) obtain f where f: "f \<in> set es" "i \<in> set (refs f)" by auto
  have "\<exists>k absent. absent_begin refs es ?m = Some (k, absent)"
    by (rule absent_begin_Some [where i = i and e = f]) (fact i f)+
  with assms(1) show ?thesis by (auto simp: require_visible_def split: if_splits list.splits)
qed

lemma hist_ok_distinct: "hist_ok cur hist \<Longrightarrow> distinct (map r_id cur)"
  by (simp add: hist_ok_def)

text \<open>New rows, saved to the history as the statement selects them.\<close>

lemma hist_ok_insert:
  assumes "hist_ok cur hist" "distinct (map r_id (cur @ new))"
    and "r_id ` set new = set ids"
    and "distinct (map (\<lambda>r. (r_id r, r_version r)) (hist @ select_any ids (cur @ new)))"
  shows "hist_ok (cur @ new) (hist @ select_any ids (cur @ new))"
proof -
  have "set (select_any ids (cur @ new)) = set new"
    using assms(2,3) by (auto simp: select_any_def)
  moreover have "\<exists>r\<in>set (cur @ new). r_id r = r_id h \<and> r_version h \<le> r_version r"
    if "h \<in> set hist" for h
    using assms(1) that by (force simp: hist_ok_def)
  ultimately show ?thesis
    using assms by (auto simp: hist_ok_def)
qed

text \<open>Rows replaced by newer ones of the same id, the replaced ones saved.\<close>

lemma hist_ok_update:
  assumes ok: "hist_ok cur hist"
    and upd: "cur' = map f cur"
    and f: "\<And>r. r \<in> set cur \<Longrightarrow> r_id (f r) = r_id r \<and> r_version r \<le> r_version (f r) \<and>
              (r_id r \<notin> set ids \<longrightarrow> f r = r)"
    and pk: "distinct (map (\<lambda>r. (r_id r, r_version r)) (hist @ select_any ids cur'))"
  shows "hist_ok cur' (hist @ select_any ids cur')"
proof -
  have "map r_id cur' = map r_id cur" using f by (simp add: upd)
  then have "distinct (map r_id cur')" using ok by (simp add: hist_ok_def)
  moreover have "set cur' \<subseteq> set (hist @ select_any ids cur')"
  proof
    fix r' assume "r' \<in> set cur'"
    then obtain r where r: "r \<in> set cur" "r' = f r" by (auto simp: upd)
    show "r' \<in> set (hist @ select_any ids cur')"
    proof (cases "r_id r \<in> set ids")
      case True
      with r f [OF r(1)] \<open>r' \<in> set cur'\<close> show ?thesis by simp
    next
      case False
      with r f [OF r(1)] ok show ?thesis by (auto simp: hist_ok_def)
    qed
  qed
  moreover have "\<exists>r\<in>set cur'. r_id r = r_id h \<and> r_version h \<le> r_version r"
    if h: "h \<in> set hist" for h
  proof -
    from h ok obtain r where r: "r \<in> set cur" "r_id r = r_id h" "r_version h \<le> r_version r"
      by (auto simp: hist_ok_def)
    with f [OF r(1)] have "f r \<in> set cur'" "r_id (f r) = r_id h" "r_version h \<le> r_version (f r)"
      by (auto simp: upd)
    then show ?thesis by blast
  qed
  ultimately show ?thesis using pk unfolding hist_ok_def by auto
qed

end
