(* ===== verification/Integrity.thy ===== *)
theory Integrity
  imports Elements
begin

text \<open>
  The invariants of an upload: what the database promises between two processing steps
  (history kept, references resolved, sequences ahead of the ids in use), what the change
  tracking promises about ids given out in this upload, and the order in which the tracking
  grows. The updaters are proved against these, each in its own theory.
\<close>

section \<open>Database invariant\<close>

definition nodes_ok :: "db \<Rightarrow> bool" where
  "nodes_ok d \<longleftrightarrow> hist_ok (current_nodes d) (nodes_tbl d) \<and>
     (\<forall>r\<in>set (current_nodes d). r_id r \<le> node_id_seq d)"

definition ways_ok :: "db \<Rightarrow> bool" where
  "ways_ok d \<longleftrightarrow> hist_ok (current_ways d) (ways_tbl d) \<and>
     (\<forall>r\<in>set (current_ways d). r_id r \<le> way_id_seq d)"

definition relations_ok :: "db \<Rightarrow> bool" where
  "relations_ok d \<longleftrightarrow> hist_ok (current_relations d) (relations_tbl d) \<and>
     (\<forall>r\<in>set (current_relations d). r_id r \<le> relation_id_seq d)"

text \<open>
  Every reference of a current way or relation is to an element that exists and is visible,
  and only visible ways and relations have members.
\<close>

definition member_visible :: "db \<Rightarrow> string \<Rightarrow> int \<Rightarrow> bool" where
  "member_visible d ty i \<longleftrightarrow>
     (ty = ''Node'' \<longrightarrow> visible_id (current_nodes d) i) \<and>
     (ty = ''Way'' \<longrightarrow> visible_id (current_ways d) i) \<and>
     (ty = ''Relation'' \<longrightarrow> visible_id (current_relations d) i)"

definition refs_ok :: "db \<Rightarrow> bool" where
  "refs_ok d \<longleftrightarrow>
     (\<forall>(w, n, s)\<in>set (current_way_nodes d).
        visible_id (current_nodes d) n \<and> visible_id (current_ways d) w) \<and>
     (\<forall>m\<in>set (current_relation_members d).
        member_visible d (m_member_type m) (m_member_id m) \<and>
        visible_id (current_relations d) (m_relation_id m))"

definition db_ok :: "db \<Rightarrow> bool" where
  "db_ok d \<longleftrightarrow> nodes_ok d \<and> ways_ok d \<and> relations_ok d \<and> refs_ok d"

lemmas db_ok_defs = db_ok_def nodes_ok_def ways_ok_def relations_ok_def refs_ok_def
  member_visible_def

section \<open>Growth of the tracking\<close>

definition is_prefix :: "'a list \<Rightarrow> 'a list \<Rightarrow> bool" where
  "is_prefix xs ys \<longleftrightarrow> (\<exists>zs. ys = xs @ zs)"

lemma is_prefix_refl [simp]: "is_prefix xs xs" by (simp add: is_prefix_def)
lemma is_prefix_append [simp]: "is_prefix xs (xs @ ys)" by (auto simp: is_prefix_def)
lemma is_prefix_trans: "is_prefix xs ys \<Longrightarrow> is_prefix ys zs \<Longrightarrow> is_prefix xs zs"
  by (auto simp: is_prefix_def)
lemma is_prefix_set: "is_prefix xs ys \<Longrightarrow> set xs \<subseteq> set ys" by (auto simp: is_prefix_def)

definition ct_extends :: "OSMChange_Tracking \<Rightarrow> OSMChange_Tracking \<Rightarrow> bool" where
  "ct_extends ct ct' \<longleftrightarrow>
     osmchange_orig_sequence ct' = osmchange_orig_sequence ct \<and>
     (\<forall>t. is_prefix (created_ids t ct) (created_ids t ct') \<and>
          is_prefix (modified_ids t ct) (modified_ids t ct') \<and>
          is_prefix (deleted_ids t ct) (deleted_ids t ct') \<and>
          is_prefix (skip_deleted_ids t ct) (skip_deleted_ids t ct'))"

lemma all_object_type: "(\<forall>t. P t) \<longleftrightarrow> P ot_node \<and> P ot_way \<and> P ot_relation"
  by (metis object_type.exhaust)

lemma ct_extends_refl [simp]: "ct_extends ct ct"
  by (simp add: ct_extends_def)

lemma ct_extends_trans: "ct_extends a b \<Longrightarrow> ct_extends b c \<Longrightarrow> ct_extends a c"
  unfolding ct_extends_def by (metis is_prefix_trans)

lemma ct_extends_sequence:
  "ct_extends ct ct' \<Longrightarrow> osmchange_orig_sequence ct' = osmchange_orig_sequence ct"
  by (simp add: ct_extends_def)

lemma ct_extends_sets:
  assumes "ct_extends ct ct'"
  shows "set (created_ids t ct) \<subseteq> set (created_ids t ct')"
    and "set (modified_ids t ct) \<subseteq> set (modified_ids t ct')"
    and "set (deleted_ids t ct) \<subseteq> set (deleted_ids t ct')"
    and "set (skip_deleted_ids t ct) \<subseteq> set (skip_deleted_ids t ct')"
  using assms by (simp_all add: ct_extends_def is_prefix_set)

text \<open>What is accounted for stays accounted for.\<close>

lemma accounted_mono: "ct_extends ct ct' \<Longrightarrow> accounted ct item \<Longrightarrow> accounted ct' item"
  using ct_extends_sets [of ct ct' "oc_obj_type item"]
  by (cases "oc_op item") (auto simp: accounted_def)

section \<open>Ids given out in this upload\<close>

fun id_seq :: "object_type \<Rightarrow> db \<Rightarrow> int" where
  "id_seq ot_node d = node_id_seq d"
| "id_seq ot_way d = way_id_seq d"
| "id_seq ot_relation d = relation_id_seq d"

text \<open>
  \<open>s0\<close> are the sequence values at the start of the upload: every id created since is
  above, and no two placeholders share one.
\<close>

definition created_ok :: "(object_type \<Rightarrow> int) \<Rightarrow> db \<Rightarrow> OSMChange_Tracking \<Rightarrow> bool" where
  "created_ok s0 d ct \<longleftrightarrow>
     (\<forall>t. (\<forall>m\<in>set (created_ids t ct). s0 t < om_new_id m \<and> om_new_id m \<le> id_seq t d) \<and>
          s0 t \<le> id_seq t d \<and> distinct (map om_new_id (created_ids t ct)))"

definition upload_inv :: "(object_type \<Rightarrow> int) \<Rightarrow> db \<Rightarrow> OSMChange_Tracking \<Rightarrow> bool" where
  "upload_inv s0 d ct \<longleftrightarrow> db_ok d \<and> created_ok s0 d ct"

text \<open>
  A pending element names its row by a placeholder or by an id that existed before the
  upload.
\<close>

definition named_ok :: "int \<Rightarrow> 'a elem_t_scheme \<Rightarrow> bool" where
  "named_ok s e \<longleftrightarrow> (0 \<le> e_old_id e \<longrightarrow> e_id e = e_old_id e \<and> e_old_id e \<le> s)"

definition creates_ok :: "'a elem_t_scheme \<Rightarrow> bool" where
  "creates_ok e \<longleftrightarrow> e_old_id e < 0 \<and> e_version e = 1"

section \<open>Replacement of placeholders in a vector\<close>

text \<open>
  What the processing steps need to know of a vector whose placeholders were replaced: the
  fields the message gave are kept, a placeholder became the id it was given in this upload,
  and placeholders are unambiguous.
\<close>

definition resolves :: "object_id_mapping_t list \<Rightarrow> 'a elem_t_scheme \<Rightarrow> 'a elem_t_scheme \<Rightarrow> bool" where
  "resolves created e f \<longleftrightarrow>
     e_old_id f = e_old_id e \<and> e_version f = e_version e \<and> e_if_unused f = e_if_unused e \<and>
     (if e_old_id e < 0 then \<exists>i\<in>set created. om_old_id i = e_old_id e \<and> om_new_id i = e_id f
      else e_id f = e_id e)"

definition resolved :: "object_id_mapping_t list \<Rightarrow> 'a elem_t_scheme list \<Rightarrow> 'a elem_t_scheme list \<Rightarrow> bool" where
  "resolved created es fs \<longleftrightarrow> distinct (map om_old_id created) \<and> list_all2 (resolves created) es fs"

text \<open>
  Ways and relations also replace the placeholders of their members, which keeps the fields
  all elements share.
\<close>

definition same_elem :: "'a elem_t_scheme \<Rightarrow> 'a elem_t_scheme \<Rightarrow> bool" where
  "same_elem e f \<longleftrightarrow> e_id f = e_id e \<and> e_old_id f = e_old_id e \<and> e_version f = e_version e \<and>
     e_if_unused f = e_if_unused e"

lemma resolves_own_id:
  assumes m: "placeholder_map what created = Inr m" and "replace_own_id what' m e = Inr f"
  shows "resolves created e f"
proof (cases "e_old_id e < 0")
  case True
  with replace_own_id_Inr [OF assms(2)] obtain i where "m (e_old_id e) = Some i" "f = e\<lparr>e_id := i\<rparr>" by auto
  with placeholder_map_SomeD [OF m] True show ?thesis by (auto simp: resolves_def)
next
  case False
  with replace_own_id_Inr [OF assms(2)] show ?thesis by (simp add: resolves_def)
qed

lemma resolves_same: "resolves created e f \<Longrightarrow> same_elem f g \<Longrightarrow> resolves created e g"
  by (simp add: resolves_def same_elem_def)

lemma resolvedI:
  assumes "placeholder_map what created = Inr m" "mapE g es = Inr fs"
    and "\<And>e f. g e = Inr f \<Longrightarrow> resolves created e f"
  shows "resolved created es fs"
  using placeholder_map_Inr [OF assms(1)] assms(2) unfolding resolved_def mapE_Inr_iff
  by (auto elim!: list_all2_mono dest: assms(3))

lemma resolved_from:
  assumes "resolved created es fs" "e \<in> set es"
  shows "\<exists>f\<in>set fs. e_old_id f = e_old_id e \<and> e_version f = e_version e \<and> e_if_unused f = e_if_unused e"
proof -
  from assms obtain f where "f \<in> set fs" "resolves created e f"
    unfolding resolved_def by (metis in_set_conv_nth list_all2_conv_all_nth)
  then show ?thesis unfolding resolves_def by blast
qed

lemma resolved_to:
  assumes "resolved created es fs" "f \<in> set fs"
  shows "\<exists>e\<in>set es. resolves created e f"
  using assms unfolding resolved_def by (metis in_set_conv_nth list_all2_conv_all_nth)

lemma resolved_old_ids: "resolved created es fs \<Longrightarrow> e_old_id ` set fs = e_old_id ` set es"
proof -
  assume "resolved created es fs"
  then have "list_all2 (\<lambda>e f. e_old_id f = e_old_id e) es fs"
    unfolding resolved_def by (auto elim!: list_all2_mono simp: resolves_def)
  then have "map e_old_id fs = map e_old_id es" by (induction rule: list_all2_induct) auto
  then show ?thesis by (metis set_map)
qed

lemma resolved_placeholder:
  "resolved created es fs \<Longrightarrow> f \<in> set fs \<Longrightarrow> e_old_id f < 0 \<Longrightarrow>
     \<exists>i\<in>set created. om_old_id i = e_old_id f \<and> om_new_id i = e_id f"
  by (drule (1) resolved_to) (auto simp: resolves_def split: if_splits)

text \<open>With ids below the fresh ones, a replaced vector is free of aliases.\<close>

lemma resolved_alias_free:
  assumes res: "resolved created es fs"
    and dist: "distinct (map om_new_id created)"
    and low: "\<And>i. i \<in> set created \<Longrightarrow> s < om_new_id i"
    and named: "\<And>e. e \<in> set es \<Longrightarrow> named_ok s e"
  shows "alias_free fs"
  unfolding alias_free_def
proof (intro ballI impI)
  fix f g assume f: "f \<in> set fs" and g: "g \<in> set fs" and eq: "e_id f = e_id g"
  note neg = resolved_placeholder [OF res]
  have pos: "e_id h = e_old_id h \<and> e_old_id h \<le> s" if h: "h \<in> set fs" "0 \<le> e_old_id h" for h
  proof -
    from resolved_to [OF res h(1)] obtain e where e: "e \<in> set es" "resolves created e h" by blast
    with h(2) have "e_id h = e_id e" "e_old_id h = e_old_id e" by (auto simp: resolves_def split: if_splits)
    with named [OF e(1)] h(2) show ?thesis by (simp add: named_ok_def)
  qed
  consider "e_old_id f < 0" "e_old_id g < 0" | "e_old_id f < 0" "0 \<le> e_old_id g"
    | "0 \<le> e_old_id f" "e_old_id g < 0" | "0 \<le> e_old_id f" "0 \<le> e_old_id g"
    by linarith
  then show "e_old_id f = e_old_id g"
  proof cases
    case 1
    with neg [OF f] neg [OF g] eq dist show ?thesis by (metis distinct_map_unique)
  next
    case 2
    with neg [OF f] pos [OF g] low eq show ?thesis by force
  next
    case 3
    with pos [OF f] neg [OF g] low eq show ?thesis by force
  next
    case 4
    with pos [OF f] pos [OF g] eq show ?thesis by simp
  qed
qed

section \<open>The join that inserts new rows\<close>

text \<open>
  \<^verbatim>\<open>... FROM tmp INNER JOIN ids_mapping ON tmp.old_id = ids_mapping.old_id\<close>, with the row
  built from an element and the id it gets.
\<close>

definition joined_rows :: "('a elem_t_scheme \<Rightarrow> int \<Rightarrow> 'r) \<Rightarrow> 'a elem_t_scheme list \<Rightarrow> (int \<times> int) list \<Rightarrow> 'r list" where
  "joined_rows row es mp =
     concat (map (\<lambda>e. map (\<lambda>(i, _). row e i) (filter (\<lambda>(_, old). e_old_id e = old) mp)) es)"

lemma ids_mapping_old: "p \<in> set (ids_mapping s olds) \<Longrightarrow> snd p \<in> set olds"
  by (metis imageI map_snd_ids_mapping set_map)

lemma joined_rows_ids:
  assumes "\<And>e i. r_id (row e i) = i"
  shows "r_id ` set (joined_rows row es (ids_mapping s (map e_old_id es))) =
    {s<..s + int (length es)}"
proof -
  let ?mp = "ids_mapping s (map e_old_id es)"
  have "r_id ` set (joined_rows row es ?mp) = fst ` set ?mp"
  proof
    show "r_id ` set (joined_rows row es ?mp) \<subseteq> fst ` set ?mp"
      using assms by (force simp: joined_rows_def)
    show "fst ` set ?mp \<subseteq> r_id ` set (joined_rows row es ?mp)"
    proof
      fix i assume "i \<in> fst ` set ?mp"
      then obtain old where p: "(i, old) \<in> set ?mp" by auto
      from ids_mapping_old [OF this] obtain e where "e \<in> set es" "e_old_id e = old" by auto
      with p have "row e i \<in> set (joined_rows row es ?mp)" by (force simp: joined_rows_def)
      then show "i \<in> r_id ` set (joined_rows row es ?mp)" using assms by (metis imageI)
    qed
  qed
  then show ?thesis by (simp add: fst_ids_mapping)
qed

lemma joined_rows_all: "(\<And>e i. P (row e i)) \<Longrightarrow> \<forall>r\<in>set (joined_rows row es mp). P r"
  by (auto simp: joined_rows_def)

lemma joined_rows_Nil [simp]: "joined_rows row [] mp = []"
  by (simp add: joined_rows_def)

text \<open>The mappings recorded for a batch of created elements.\<close>

definition created_mappings :: "(int \<times> int) list \<Rightarrow> object_id_mapping_t list" where
  "created_mappings mp = map (\<lambda>(i, old). \<lparr>om_old_id = old, om_new_id = i, om_new_version = 1\<rparr>) mp"

lemma created_mappings_ids:
  "map om_old_id (created_mappings mp) = map snd mp" "map om_new_id (created_mappings mp) = map fst mp"
  by (auto simp: created_mappings_def)

text \<open>
  The placeholders of a batch are resolved to exactly the ids the batch was given.
\<close>

lemma resolved_batch_ids:
  assumes res: "resolved (created @ created_mappings (ids_mapping s (map e_old_id es))) es fs"
    and neg: "\<And>e. e \<in> set es \<Longrightarrow> e_old_id e < 0"
  shows "e_id ` set fs = {s<..s + int (length es)}"
proof -
  let ?mp = "ids_mapping s (map e_old_id es)"
  have dist: "distinct (map om_old_id (created @ created_mappings ?mp))"
    using res unfolding resolved_def by simp
  have mem: "\<lparr>om_old_id = old, om_new_id = i, om_new_version = 1\<rparr> \<in> set (created @ created_mappings ?mp)"
    if "(i, old) \<in> set ?mp" for i old
    using that by (force simp: created_mappings_def)
  have id_eq: "e_id f = i" if f: "f \<in> set fs" and i: "(i, e_old_id f) \<in> set ?mp" for f i
  proof -
    from f resolved_old_ids [OF res] neg have "e_old_id f < 0" by (metis (no_types, lifting) imageE imageI)
    from resolved_placeholder [OF res f this] obtain j where
      j: "j \<in> set (created @ created_mappings ?mp)" "om_old_id j = e_old_id f" "om_new_id j = e_id f" by blast
    from distinct_map_unique [OF dist j(1) mem [OF i]] j(2,3) show ?thesis by auto
  qed
  have "e_id f \<in> fst ` set ?mp" if f: "f \<in> set fs" for f
  proof -
    from f resolved_old_ids [OF res] have "e_old_id f \<in> set (map snd ?mp)" by auto
    then have "e_old_id f \<in> snd ` set ?mp" by (simp only: set_map)
    then obtain i where i: "(i, e_old_id f) \<in> set ?mp" by auto
    from id_eq [OF f i] i show ?thesis by force
  qed
  moreover have "i \<in> e_id ` set fs" if p: "(i, old) \<in> set ?mp" for i old
  proof -
    from ids_mapping_old [OF p] resolved_old_ids [OF res] have "old \<in> e_old_id ` set fs" by simp
    then obtain f where f: "f \<in> set fs" "e_old_id f = old" by auto
    with id_eq [of f i] p show ?thesis by auto
  qed
  ultimately have "e_id ` set fs = fst ` set ?mp" by auto
  then show ?thesis by (simp add: fst_ids_mapping)
qed

section \<open>A batch of created elements keeps the id bookkeeping\<close>

lemma created_ok_extend:
  assumes "created_ok s0 d ct"
    and "created_ids t ct' = created_ids t ct @ created_mappings (ids_mapping (id_seq t d) olds)"
    and "id_seq t d' = id_seq t d + int (length olds)"
    and "\<And>t'. t' \<noteq> t \<Longrightarrow> created_ids t' ct' = created_ids t' ct \<and> id_seq t' d' = id_seq t' d"
  shows "created_ok s0 d' ct'"
  unfolding created_ok_def
proof (intro allI conjI ballI)
  fix t' m assume m: "m \<in> set (created_ids t' ct')"
  have "s0 t' < om_new_id m \<and> om_new_id m \<le> id_seq t' d'"
  proof (cases "t' = t")
    case True
    have new: "om_new_id ` set (created_mappings (ids_mapping (id_seq t d) olds)) =
        {id_seq t d<..id_seq t d + int (length olds)}"
      using arg_cong [OF created_mappings_ids(2), of set] by (simp add: fst_ids_mapping)
    show ?thesis
    proof (cases "m \<in> set (created_ids t ct)")
      case True
      with assms(1) have "s0 t < om_new_id m" "om_new_id m \<le> id_seq t d"
        by (auto simp: created_ok_def)
      with assms(3) \<open>t' = t\<close> show ?thesis by simp
    next
      case False
      with m assms(2) \<open>t' = t\<close> have "om_new_id m \<in> {id_seq t d<..id_seq t d + int (length olds)}"
        using new by auto
      moreover have "s0 t \<le> id_seq t d" using assms(1) by (simp add: created_ok_def)
      ultimately show ?thesis using assms(3) \<open>t' = t\<close> by simp
    qed
  next
    case False
    with assms m show ?thesis by (simp add: created_ok_def)
  qed
  then show "s0 t' < om_new_id m" "om_new_id m \<le> id_seq t' d'" by blast+
next
  fix t' show "s0 t' \<le> id_seq t' d'"
    using assms(1,3) assms(4) [of t'] by (cases "t' = t") (auto simp: created_ok_def intro: order_trans)
next
  fix t' show "distinct (map om_new_id (created_ids t' ct'))"
  proof (cases "t' = t")
    case True
    have "om_new_id m \<le> id_seq t d" if "m \<in> set (created_ids t ct)" for m
      using assms(1) that by (auto simp: created_ok_def)
    moreover have "id_seq t d < i" if "i \<in> set (map fst (ids_mapping (id_seq t d) olds))" for i
      using that fst_ids_mapping [of "id_seq t d" olds] by auto
    ultimately have "set (map om_new_id (created_ids t ct)) \<inter>
        set (map fst (ids_mapping (id_seq t d) olds)) = {}" by fastforce
    with True assms(1,2) show ?thesis
      by (simp add: created_ok_def created_mappings_ids distinct_fst_ids_mapping)
  next
    case False
    with assms(1,4) show ?thesis by (simp add: created_ok_def)
  qed
qed

lemma visible_id_append: "visible_id xs i \<Longrightarrow> visible_id (xs @ ys) i"
  by (auto simp: visible_id_def)

end
