(* ===== verification/Row_Update.thy ===== *)
theory Row_Update
  imports Integrity
begin

text \<open>
  The contract of the versioned \<^verbatim>\<open>UPDATE ... FROM u WHERE t.id = u.id AND t.version =
  u.version\<close> that all three updaters send, as an interface: a row update keeps the id of the row
  and sets its version to one more than the version of the request. The consequences (every
  request is served, the history invariant survives, a batch of updates equals the updates one
  by one) are proved once and interpreted for each concrete row update.
\<close>

section \<open>Sequential application\<close>

definition elem_match :: "'a elem_row_scheme \<Rightarrow> 'b elem_t_scheme \<Rightarrow> bool" where
  "elem_match r e \<longleftrightarrow> r_id r = e_id e \<and> r_version r = e_version e"

text \<open>
  The reference semantics: one request at a time, in the order of the message. A request
  whose version is not the current one fails.
\<close>

definition apply_one ::
    "('a elem_row_scheme \<Rightarrow> 'b elem_t_scheme \<Rightarrow> 'a elem_row_scheme) \<Rightarrow> 'b elem_t_scheme \<Rightarrow>
       'a elem_row_scheme list \<Rightarrow> 'a elem_row_scheme list option" where
  "apply_one upd e rows =
     (if list_ex (\<lambda>r. elem_match r e) rows
      then Some (map (\<lambda>r. if r_id r = e_id e then upd r e else r) rows) else None)"

fun apply_all ::
    "('a elem_row_scheme \<Rightarrow> 'b elem_t_scheme \<Rightarrow> 'a elem_row_scheme) \<Rightarrow> 'b elem_t_scheme list \<Rightarrow>
       'a elem_row_scheme list \<Rightarrow> 'a elem_row_scheme list option" where
  "apply_all upd [] rows = Some rows"
| "apply_all upd (e # es) rows =
     (case apply_one upd e rows of None \<Rightarrow> None | Some rows' \<Rightarrow> apply_all upd es rows')"

text \<open>The versions that successive requests for one id must carry.\<close>

fun chain_ok :: "'b elem_t_scheme list \<Rightarrow> int \<Rightarrow> bool" where
  "chain_ok [] v = True"
| "chain_ok (e # es) v = (e_version e = v \<and> chain_ok es (v + 1))"

lemma apply_all_append:
  "apply_all upd (es @ fs) rows =
     (case apply_all upd es rows of None \<Rightarrow> None | Some rows' \<Rightarrow> apply_all upd fs rows')"
  by (induction es arbitrary: rows) (auto split: option.split)

text \<open>The mapping that a served modification leaves in the tracking.\<close>

definition modified_by :: "object_id_mapping_t list \<Rightarrow> 'b elem_t_scheme \<Rightarrow> bool" where
  "modified_by mps e \<longleftrightarrow> (\<exists>i\<in>set mps. om_old_id i = e_old_id e \<and> om_new_id i = e_id e \<and>
     om_new_version i = e_version e + 1 \<and> is_u32 (e_version e + 1))"

section \<open>The interface\<close>

locale row_update =
  fixes upd :: "'a elem_row_scheme \<Rightarrow> 'b elem_t_scheme \<Rightarrow> 'a elem_row_scheme"
  assumes upd_id: "r_id (upd r e) = r_id r"
    and upd_version: "r_version (upd r e) = e_version e + 1"
begin

definition chain :: "'b elem_t_scheme list \<Rightarrow> 'a elem_row_scheme \<Rightarrow> 'a elem_row_scheme" where
  "chain es r = fold (\<lambda>e r. upd r e) es r"

lemma chain_id [simp]: "r_id (chain es r) = r_id r"
  by (induction es arbitrary: r) (simp_all add: chain_def upd_id)

lemma apply_one_Some:
  assumes "distinct (map r_id rows)"
  shows "apply_one upd e rows = Some rows' \<longleftrightarrow>
     e_id e \<in> r_id ` set rows \<and> (\<forall>r\<in>set rows. r_id r = e_id e \<longrightarrow> r_version r = e_version e) \<and>
     rows' = map (\<lambda>r. if r_id r = e_id e then upd r e else r) rows"
  using assms by (force simp: apply_one_def list_ex_iff elem_match_def dest: distinct_map_unique)

text \<open>
  The sequential run in closed form: each row goes through the requests for its id, in
  order, and the outcome does not depend on how requests for different ids interleave.
\<close>

lemma apply_all_Some:
  "distinct (map r_id rows) \<Longrightarrow> apply_all upd es rows = Some rows' \<longleftrightarrow>
     (\<forall>e\<in>set es. e_id e \<in> r_id ` set rows) \<and>
     (\<forall>r\<in>set rows. chain_ok (occurrences e_id (r_id r) es) (r_version r)) \<and>
     rows' = map (\<lambda>r. chain (occurrences e_id (r_id r) es) r) rows"
proof (induction es arbitrary: rows)
  case Nil
  show ?case by (auto simp: chain_def)
next
  case (Cons e es)
  define g where "g = (\<lambda>r. if r_id r = e_id e then upd r e else r)"
  have g_id: "r_id (g r) = r_id r" for r by (simp add: g_def upd_id)
  have ids: "map r_id (map g rows) = map r_id rows" by (simp add: g_id)
  have dist: "distinct (map r_id (map g rows))" unfolding ids by (rule Cons.prems)
  have "apply_all upd (e # es) rows = Some rows' \<longleftrightarrow>
      e_id e \<in> r_id ` set rows \<and> (\<forall>r\<in>set rows. r_id r = e_id e \<longrightarrow> r_version r = e_version e) \<and>
      apply_all upd es (map g rows) = Some rows'"
  proof -
    have "apply_all upd (e # es) rows = Some rows' \<longleftrightarrow>
        (\<exists>q. apply_one upd e rows = Some q \<and> apply_all upd es q = Some rows')"
      by (simp split: option.split)
    then show ?thesis unfolding apply_one_Some [OF Cons.prems] g_def by blast
  qed
  also have "apply_all upd es (map g rows) = Some rows' \<longleftrightarrow>
      (\<forall>f\<in>set es. e_id f \<in> r_id ` set rows) \<and>
      (\<forall>r\<in>set rows. chain_ok (occurrences e_id (r_id r) es) (r_version (g r))) \<and>
      rows' = map (\<lambda>r. chain (occurrences e_id (r_id r) es) (g r)) rows"
    unfolding Cons.IH [OF dist] by (simp add: comp_def g_id image_image)
  also have "e_id e \<in> r_id ` set rows \<and>
      (\<forall>r\<in>set rows. r_id r = e_id e \<longrightarrow> r_version r = e_version e) \<and>
      (\<forall>f\<in>set es. e_id f \<in> r_id ` set rows) \<and>
      (\<forall>r\<in>set rows. chain_ok (occurrences e_id (r_id r) es) (r_version (g r))) \<and>
      rows' = map (\<lambda>r. chain (occurrences e_id (r_id r) es) (g r)) rows \<longleftrightarrow>
    (\<forall>f\<in>set (e # es). e_id f \<in> r_id ` set rows) \<and>
      (\<forall>r\<in>set rows. chain_ok (occurrences e_id (r_id r) (e # es)) (r_version r)) \<and>
      rows' = map (\<lambda>r. chain (occurrences e_id (r_id r) (e # es)) r) rows"
  proof -
    have "chain_ok (occurrences e_id (r_id r) (e # es)) (r_version r) \<longleftrightarrow>
        (r_id r = e_id e \<longrightarrow> r_version r = e_version e) \<and>
        chain_ok (occurrences e_id (r_id r) es) (r_version (g r))" for r
      by (auto simp: g_def upd_version)
    moreover have "chain (occurrences e_id (r_id r) (e # es)) r =
        chain (occurrences e_id (r_id r) es) (g r)" for r
      by (simp add: chain_def g_def)
    ultimately show ?thesis by auto
  qed
  finally show ?case .
qed

text \<open>Rows that no request names are the same before and after.\<close>

lemma apply_all_untouched:
  assumes "apply_all upd es rows = Some rows'" "distinct (map r_id rows)" "r_id r \<notin> e_id ` set es"
  shows "r \<in> set rows' \<longleftrightarrow> r \<in> set rows"
proof -
  from assms(1) have rows': "rows' = map (\<lambda>r. chain (occurrences e_id (r_id r) es) r) rows"
    using apply_all_Some [OF assms(2)] by blast
  have same: "chain (occurrences e_id (r_id q) es) q = q" if "r_id q = r_id r" for q
    using assms(3) that by (simp add: occurrences_eq_Nil [THEN iffD2] chain_def)
  show ?thesis
    unfolding rows' set_map using same by (metis (no_types, lifting) chain_id image_iff)
qed

lemma apply_all_map_ids:
  "apply_all upd es rows = Some rows' \<Longrightarrow> distinct (map r_id rows) \<Longrightarrow> map r_id rows' = map r_id rows"
  by (auto simp: apply_all_Some)

text \<open>Requests regrouped so that each id keeps its own order have the same sequential run.\<close>

lemma apply_all_regroup:
  assumes "distinct (map r_id rows)"
    and "\<And>i. occurrences e_id i fs = occurrences e_id i es" "set fs = set es"
    and "apply_all upd fs rows = Some rows'"
  shows "apply_all upd es rows = Some rows'"
  using assms by (simp add: apply_all_Some)

section \<open>The batched statement\<close>

definition hit :: "'b elem_t_scheme list \<Rightarrow> 'a elem_row_scheme \<Rightarrow> 'a elem_row_scheme" where
  "hit es r = (case find (elem_match r) es of None \<Rightarrow> r | Some e \<Rightarrow> upd r e)"

lemma update_table: "fst (update_from elem_match upd es rows) = map (hit es) rows"
  by (simp add: update_from_def hit_def)

lemma hit_props:
  "r_id (hit es r) = r_id r" "r_version r \<le> r_version (hit es r)"
  "r_id r \<notin> e_id ` set es \<Longrightarrow> hit es r = r"
proof -
  show "r_id (hit es r) = r_id r" by (simp add: hit_def upd_id split: option.split)
  show "r_version r \<le> r_version (hit es r)"
    by (auto simp: hit_def upd_version elem_match_def split: option.split dest!: find_SomeD)
  show "r_id r \<notin> e_id ` set es \<Longrightarrow> hit es r = r"
    by (auto simp: hit_def elem_match_def split: option.split dest!: find_SomeD)
qed


lemma served:
  assumes "distinct (map r_id rows)"
    and "length (snd (update_from elem_match upd es rows)) = length es"
  shows "distinct (map e_id es)"
    and "e \<in> set es \<Longrightarrow> \<exists>r\<in>set rows. r_id r = e_id e \<and> r_version r = e_version e \<and>
           find (elem_match r) es = Some e \<and> upd r e \<in> set (snd (update_from elem_match upd es rows))"
proof -
  have m: "\<And>r e. elem_match r e \<Longrightarrow> e_id e = r_id r" by (simp add: elem_match_def)
  show "distinct (map e_id es)"
    by (rule update_from_all_served(1) [OF assms(1) _ assms(2)]) (rule m)
  assume e: "e \<in> set es"
  have "\<exists>r\<in>set rows. r_id r = e_id e \<and> find (elem_match r) es = Some e"
    by (rule update_from_all_served(2) [OF assms(1) _ assms(2) e]) (rule m)
  then obtain r where r: "r \<in> set rows" "r_id r = e_id e"
    "find (elem_match r) es = Some e" by blast
  from find_SomeD [OF r(3)] have "r_version r = e_version e" by (simp add: elem_match_def)
  with r show "\<exists>r\<in>set rows. r_id r = e_id e \<and> r_version r = e_version e \<and>
      find (elem_match r) es = Some e \<and> upd r e \<in> set (snd (update_from elem_match upd es rows))"
    by (auto simp: update_from_returned)
qed

lemma returned_row:
  "r' \<in> set (snd (update_from elem_match upd es rows)) \<Longrightarrow>
     \<exists>r\<in>set rows. \<exists>e\<in>set es. elem_match r e \<and> r' = upd r e"
  unfolding update_from_returned by (blast dest: find_SomeD)

text \<open>What is recorded of a served batch: every request, under the id the message gave.\<close>

lemma recorded_old_ids:
  assumes "distinct (map r_id rows)" "length (snd (update_from elem_match upd es rows)) = length es"
    and "e \<in> set es"
  shows "e_old_id e \<in> (\<lambda>r. map_at (id_to_old_id es) (r_id r)) ` set (snd (update_from elem_match upd es rows))"
proof -
  note sv = served [OF assms(1,2)]
  from sv(2) [OF assms(3)] obtain r where r: "r_id r = e_id e"
    "upd r e \<in> set (snd (update_from elem_match upd es rows))" by blast
  moreover have "map_at (id_to_old_id es) (e_id e) = e_old_id e"
    by (rule map_at_id_to_old_id [OF alias_free_distinct [OF sv(1)] assms(3)])
  ultimately show ?thesis by (intro image_eqI [OF _ r(2)]) (simp add: upd_id)
qed

lemma recorded_set:
  assumes "distinct (map r_id rows)" "length (snd (update_from elem_match upd es rows)) = length es"
  shows "(\<lambda>r. map_at (id_to_old_id es) (r_id r)) ` set (snd (update_from elem_match upd es rows)) =
    e_old_id ` set es"
proof
  show "e_old_id ` set es \<subseteq>
      (\<lambda>r. map_at (id_to_old_id es) (r_id r)) ` set (snd (update_from elem_match upd es rows))"
    using recorded_old_ids [OF assms] by blast
  have "map_at (id_to_old_id es) (r_id r) \<in> e_old_id ` set es"
    if r: "r \<in> set (snd (update_from elem_match upd es rows))" for r
  proof -
    from returned_row [OF r] obtain e where "e \<in> set es" "r_id r = e_id e"
      by (auto simp: elem_match_def upd_id)
    with map_at_id_to_old_id [OF alias_free_distinct [OF served(1) [OF assms]]] show ?thesis by auto
  qed
  then show "(\<lambda>r. map_at (id_to_old_id es) (r_id r)) ` set (snd (update_from elem_match upd es rows)) \<subseteq>
      e_old_id ` set es" by blast
qed

lemma recorded_mappings:
  assumes "distinct (map r_id rows)" "length (snd (update_from elem_match upd es rows)) = length es"
    and mps: "mapE (row_mapping es) (snd (update_from elem_match upd es rows)) = Inr mps"
    and e: "e \<in> set es"
  shows "modified_by mps e"
proof -
  note sv = served [OF assms(1,2)]
  from sv(2) [OF e] obtain r where r: "r_id r = e_id e"
    "upd r e \<in> set (snd (update_from elem_match upd es rows))" by blast
  from mapE_Inr_image [OF mps r(2)] obtain i where i: "i \<in> set mps"
    "row_mapping es (upd r e) = Inr i" by blast
  from row_mapping_Inr [OF i(2)] i(2) r(1) map_at_id_to_old_id [OF alias_free_distinct [OF sv(1)] e]
  have "om_old_id i = e_old_id e \<and> om_new_id i = e_id e \<and> om_new_version i = e_version e + 1 \<and>
      is_u32 (e_version e + 1)"
    by (auto simp: upd_id upd_version row_mapping_def as_version_def result_simps split: if_splits)
  with i(1) show ?thesis by (auto simp: modified_by_def)
qed

text \<open>A served batch equals the same requests one by one.\<close>

lemma batch_is_sequential:
  assumes dist: "distinct (map r_id rows)"
    and "length (snd (update_from elem_match upd es rows)) = length es"
  shows "apply_all upd es rows = Some (fst (update_from elem_match upd es rows))"
proof -
  note served = served [OF assms]
  have occ: "occurrences e_id (r_id r) es = (if r_id r \<in> e_id ` set es
      then [the (find (elem_match r) es)] else []) \<and>
      (r_id r \<in> e_id ` set es \<longrightarrow> (\<exists>e. find (elem_match r) es = Some e \<and> r_version r = e_version e))"
    if "r \<in> set rows" for r
  proof (cases "r_id r \<in> e_id ` set es")
    case True
    then obtain e where e: "e \<in> set es" "e_id e = r_id r" by auto
    from served(2) [OF e(1)] obtain q where q: "q \<in> set rows" "r_id q = e_id e"
      "r_version q = e_version e" "find (elem_match q) es = Some e" by blast
    with dist that e(2) have "q = r" by (metis distinct_map_unique)
    have "occurrences e_id (r_id r) es = [e]"
      using occurrences_distinct [OF served(1) e(1)] e(2) by simp
    with True q \<open>q = r\<close> show ?thesis by simp
  next
    case False
    then show ?thesis by (simp add: occurrences_eq_Nil)
  qed
  have "\<forall>e\<in>set es. e_id e \<in> r_id ` set rows" using served(2) by force
  moreover have "chain_ok (occurrences e_id (r_id r) es) (r_version r)" if "r \<in> set rows" for r
    using occ [OF that] by auto
  moreover have "hit es r = chain (occurrences e_id (r_id r) es) r" if "r \<in> set rows" for r
    using occ [OF that] hit_props(3) [of r es] by (auto simp: hit_def chain_def)
  ultimately show ?thesis
    unfolding apply_all_Some [OF dist] update_table by auto
qed

text \<open>The history invariant survives a batch whose rows are then saved.\<close>

lemma batch_hist_ok:
  assumes "hist_ok cur hist" "e_id ` set es \<subseteq> set ids"
    and "distinct (map (\<lambda>r. (r_id r, r_version r))
           (hist @ select_any ids (fst (update_from elem_match upd es cur))))"
  shows "hist_ok (fst (update_from elem_match upd es cur))
           (hist @ select_any ids (fst (update_from elem_match upd es cur)))"
proof (rule hist_ok_update [OF assms(1) update_table])
  fix r assume "r \<in> set cur"
  show "r_id (hit es r) = r_id r \<and> r_version r \<le> r_version (hit es r) \<and>
      (r_id r \<notin> set ids \<longrightarrow> hit es r = r)"
    using hit_props(1) [of es r] hit_props(2,3) [of r es] assms(2) by blast
qed (rule assms(3))

lemma batch_ids: "r_id ` set (fst (update_from elem_match upd es rows)) = r_id ` set rows"
  by (simp add: update_table hit_props image_image)

lemma batch_id_bound:
  "\<forall>r\<in>set rows. r_id r \<le> n \<Longrightarrow> \<forall>r\<in>set (fst (update_from elem_match upd es rows)). r_id r \<le> n"
  by (simp add: update_table hit_props)

lemma batch_map_ids: "map r_id (fst (update_from elem_match upd es rows)) = map r_id rows"
  by (simp add: update_table hit_props)

lemma batch_sets_visible:
  assumes "distinct (map r_id rows)" "length (snd (update_from elem_match upd es rows)) = length es"
    and "e \<in> set es" and "\<And>r. r_visible (upd r e)"
  shows "visible_id (fst (update_from elem_match upd es rows)) (e_id e)"
proof -
  from served(2) [OF assms(1-3)] obtain r where "r \<in> set rows" "r_id r = e_id e"
    "find (elem_match r) es = Some e" by blast
  with assms(4) show ?thesis
    unfolding visible_id_def update_table by (force simp: hit_def upd_id)
qed

lemma batch_visible:
  assumes "visible_id rows i" and "\<And>r e. e_id e = i \<Longrightarrow> e \<in> set es \<Longrightarrow> r_visible (upd r e)"
  shows "visible_id (fst (update_from elem_match upd es rows)) i"
proof -
  from assms(1) obtain r where r: "r \<in> set rows" "r_id r = i" "r_visible r"
    by (auto simp: visible_id_def)
  have "r_visible (hit es r)"
    using r assms(2) by (auto simp: hit_def elem_match_def split: option.split dest!: find_SomeD)
  with r show ?thesis unfolding visible_id_def update_table by (force simp: hit_props)
qed

end

section \<open>Rows of ways and relations\<close>

text \<open>
  The row an \<^verbatim>\<open>INSERT\<close> makes for a new way or relation, and the row an \<^verbatim>\<open>UPDATE\<close> leaves;
  \<^verbatim>\<open>visible\<close> is the parameter that tells a modification from a deletion.
\<close>

definition new_elem_row :: "int \<Rightarrow> 'a elem_t_scheme \<Rightarrow> int \<Rightarrow> elem_row" where
  "new_elem_row now e i =
     \<lparr>r_id = i, r_changeset_id = e_changeset_id e, r_visible = True, r_timestamp = now,
      r_version = 1\<rparr>"

definition updated_elem_row :: "int \<Rightarrow> bool \<Rightarrow> elem_row \<Rightarrow> 'a elem_t_scheme \<Rightarrow> elem_row" where
  "updated_elem_row now visible r e =
     r\<lparr>r_changeset_id := e_changeset_id e, r_visible := visible, r_timestamp := now,
       r_version := e_version e + 1\<rparr>"

interpretation upd_elem: row_update "updated_elem_row now visible" for now visible
  by unfold_locales (simp_all add: updated_elem_row_def)

end
