(* ===== verification/Coordinates.thy ===== *)
theory Coordinates
  imports Prelude "HOL-Library.Log_Nat" "HOL-Library.Word"
begin

unbundle bit_operations_syntax

text \<open>
  Coordinates as the updaters compute with them: IEEE double arithmetic on latitudes and
  longitudes (a finite double is the rational number it denotes; each operation rounds to 53
  significant bits, ties to even), the conversion to fixed point, and the quad tile numbers of
  \<^verbatim>\<open>include/cgimap/backend/apidb/quad_tile.hpp\<close> on 32-bit words.
\<close>

section \<open>Double arithmetic\<close>

text \<open>Rounding to an integer, ties to the even one; and \<^verbatim>\<open>std::round\<close>, ties away from zero.\<close>

definition round_half_even :: "rat \<Rightarrow> int" where
  "round_half_even y =
     (let f = \<lfloor>y\<rfloor>; d = y - of_int f in
      if d < 1 / 2 then f else if 1 / 2 < d then f + 1 else if even f then f else f + 1)"

definition round_away :: "rat \<Rightarrow> int" where
  "round_away y = (if 0 \<le> y then \<lfloor>y + 1 / 2\<rfloor> else - \<lfloor>- y + 1 / 2\<rfloor>)"

text \<open>The exponent of a positive rational: \<open>2 powi e \<le> x < 2 powi (e + 1)\<close>.\<close>

definition bin_exponent :: "rat \<Rightarrow> int" where
  "bin_exponent x =
     (let (p, q) = quotient_of x;
          e = int (floorlog 2 (nat p)) - int (floorlog 2 (nat q))
      in if x < 2 powi e then e - 1 else e)"

text \<open>
  Rounding to the nearest double, for values within the normal range of the format, which
  holds all coordinate computations of the program.
\<close>

definition fl :: "rat \<Rightarrow> rat" where
  "fl x = (if x = 0 then 0
           else let ulp = 2 powi (bin_exponent \<bar>x\<bar> - 52) in of_int (round_half_even (x / ulp)) * ulp)"

section \<open>Fixed point and tiles\<close>

text \<open>\<^verbatim>\<open>static_cast<int64_t>(round(c * global_settings::get_scale()))\<close>\<close>

definition to_fixed :: "rat \<Rightarrow> int" where
  "to_fixed c = s64 (round_away (fl (c * 10000000)))"

definition lon2x :: "rat \<Rightarrow> 32 word" where
  "lon2x lon = word_of_int (round_away (fl (fl (fl (lon + 180) * 65535) / 360)))"

definition lat2y :: "rat \<Rightarrow> 32 word" where
  "lat2y lat = word_of_int (round_away (fl (fl (fl (lat + 90) * 65535) / 180)))"

text \<open>The loop of \<^verbatim>\<open>xy2tile\<close>; the first argument is the number of iterations left.\<close>

fun xy2tile_loop :: "nat \<Rightarrow> 32 word \<Rightarrow> 32 word \<Rightarrow> 32 word \<Rightarrow> 32 word" where
  "xy2tile_loop 0 x y tile = tile"
| "xy2tile_loop (Suc i) x y tile =
     (let t1 = push_bit 1 tile OR (drop_bit i x AND 1);
          t2 = push_bit 1 t1 OR (drop_bit i y AND 1)
      in xy2tile_loop i x y t2)"

definition xy2tile :: "32 word \<Rightarrow> 32 word \<Rightarrow> 32 word" where
  "xy2tile x y = xy2tile_loop 16 x y 0"

text \<open>The tile number of a coordinate pair, as the 64-bit field of a pending node holds it.\<close>

definition tile_of :: "rat \<Rightarrow> rat \<Rightarrow> int" where
  "tile_of lat lon = uint (xy2tile (lon2x lon) (lat2y lat))"

section \<open>Rounding respects integer bounds\<close>

lemma round_half_even_le: "y \<le> of_int b \<Longrightarrow> round_half_even y \<le> b"
proof -
  assume y: "y \<le> of_int b"
  then have f: "\<lfloor>y\<rfloor> \<le> b" using floor_mono [OF y] by simp
  show ?thesis
  proof (cases "\<lfloor>y\<rfloor> = b")
    case True
    with y have "y - of_int \<lfloor>y\<rfloor> \<le> 0" by simp
    with True show ?thesis by (simp add: round_half_even_def Let_def)
  next
    case False
    with f show ?thesis by (simp add: round_half_even_def Let_def)
  qed
qed

lemma round_half_even_ge: "of_int b \<le> y \<Longrightarrow> b \<le> round_half_even y"
proof -
  assume "of_int b \<le> y"
  then have "b \<le> \<lfloor>y\<rfloor>" by (simp add: le_floor_iff)
  then show ?thesis by (simp add: round_half_even_def Let_def)
qed

lemma round_away_bounds:
  assumes "of_int a \<le> y" "y \<le> of_int b"
  shows "a \<le> round_away y" "round_away y \<le> b"
proof -
  have up: "\<lfloor>y + 1 / 2\<rfloor> \<le> b" if "y \<le> of_int b" for b and y :: rat
  proof -
    have "y + 1/2 < of_int (b + 1)" using that by simp
    then have "\<lfloor>y + 1/2\<rfloor> < b + 1" by (simp only: floor_less_iff)
    then show ?thesis by simp
  qed
  have dn: "a \<le> \<lfloor>y + 1 / 2\<rfloor>" if "of_int a \<le> y" for a and y :: rat
    using that by (simp add: le_floor_iff)
  show "a \<le> round_away y"
    using dn [of a y] up [of "- y" "- a"] assms by (auto simp: round_away_def)
  show "round_away y \<le> b"
    using up [of y b] dn [of "- b" "- y"] assms by (auto simp: round_away_def)
qed

lemma floorlog_rat:
  assumes "0 < p"
  shows "0 < floorlog 2 (nat p)" "(2::rat) ^ (floorlog 2 (nat p) - 1) \<le> of_int p" "of_int p < (2::rat) ^ floorlog 2 (nat p)"
proof -
  have b: "2 ^ (floorlog 2 (nat p) - 1) \<le> nat p" "nat p < 2 ^ floorlog 2 (nat p)"
    using floorlog_bounds [of "nat p" 2] assms by auto
  have p: "of_int p = rat_of_nat (nat p)" using assms by simp
  show "0 < floorlog 2 (nat p)" using assms by (auto simp: floorlog_eq_zero_iff intro: gr0I)
  show "(2::rat) ^ (floorlog 2 (nat p) - 1) \<le> of_int p"
    unfolding p using b(1) by (metis of_nat_le_iff of_nat_numeral of_nat_power)
  show "of_int p < (2::rat) ^ floorlog 2 (nat p)"
    unfolding p using b(2) by (metis of_nat_less_iff of_nat_numeral of_nat_power)
qed

lemma powi2_diff: "(2::rat) powi (int a - int b) = 2 ^ a / 2 ^ b"
  by (simp add: power_int_diff)

lemma powi2_less: "(2::rat) powi m < 2 powi n \<Longrightarrow> m < n"
  using power_int_increasing [of n m "2::rat"] by (cases "m < n") auto

lemma bin_exponent_bounds:
  assumes "0 < x"
  shows "2 powi (bin_exponent x) \<le> x" "x < 2 powi (bin_exponent x + 1)"
proof -
  obtain p q where pq: "quotient_of x = (p, q)" by (cases "quotient_of x")
  have q: "0 < q" using quotient_of_denom_pos [OF pq] .
  have x: "x = of_int p / of_int q" using quotient_of_div [OF pq] .
  have p: "0 < p" using assms q by (simp add: x zero_less_divide_iff)
  let ?fp = "floorlog 2 (nat p)" and ?fq = "floorlog 2 (nat q)"
  note P = floorlog_rat [OF p] and Q = floorlog_rat [OF q]
  have "int ?fp - int ?fq - 1 = int (?fp - 1) - int ?fq" using P(1) by simp
  then have "(2::rat) powi (int ?fp - int ?fq - 1) = 2 ^ (?fp - 1) / 2 ^ ?fq" by (simp only: powi2_diff)
  also have "\<dots> \<le> x" unfolding x by (rule frac_le) (use P Q p q in auto)
  finally have lower: "2 powi (int ?fp - int ?fq - 1) \<le> x" .
  have "x < 2 ^ ?fp / 2 ^ (?fq - 1)" unfolding x by (rule frac_less) (use P Q p q in auto)
  also have "int ?fp - int ?fq + 1 = int ?fp - int (?fq - 1)" using Q(1) by simp
  then have "2 ^ ?fp / 2 ^ (?fq - 1) = (2::rat) powi (int ?fp - int ?fq + 1)" by (simp only: powi2_diff)
  finally have upper: "x < 2 powi (int ?fp - int ?fq + 1)" .
  show "2 powi (bin_exponent x) \<le> x" "x < 2 powi (bin_exponent x + 1)"
    using lower upper by (auto simp: bin_exponent_def pq Let_def)
qed

lemma bin_exponent_bound:
  assumes "0 < x" "x < 2 ^ n"
  shows "bin_exponent x < int n"
proof -
  have "(2::rat) powi (bin_exponent x) < 2 powi (int n)"
    using bin_exponent_bounds(1) [OF assms(1)] assms(2) by simp
  then show ?thesis by (rule powi2_less)
qed

text \<open>
  A double below \<open>2\<^sup>53\<close> is rounded in steps that divide 1, so rounding never crosses an
  integer.
\<close>

lemma fl_int_bounds:
  assumes "\<bar>x\<bar> < 2 ^ 53"
  shows "x \<le> of_int b \<Longrightarrow> fl x \<le> of_int b"
    and "of_int a \<le> x \<Longrightarrow> of_int a \<le> fl x"
proof -
  define k where "k = nat (52 - bin_exponent \<bar>x\<bar>)"
  have main: "(x \<le> of_int b \<longrightarrow> fl x \<le> of_int b) \<and> (of_int a \<le> x \<longrightarrow> of_int a \<le> fl x)"
    if "x \<noteq> 0" for a b
  proof -
    from that have "bin_exponent \<bar>x\<bar> < int 53"
      using bin_exponent_bound [of "\<bar>x\<bar>" 53] assms by simp
    then have "bin_exponent \<bar>x\<bar> - 52 = - int k" by (simp add: k_def)
    then have ulp: "(2::rat) powi (bin_exponent \<bar>x\<bar> - 52) = 1 / 2 ^ k"
      by (simp only: power_int_minus power_int_of_nat) (simp add: inverse_eq_divide)
    have fl: "fl x = of_int (round_half_even (x * 2 ^ k)) / 2 ^ k"
      using that by (simp add: fl_def ulp)
    have "x \<le> of_int b \<Longrightarrow> round_half_even (x * 2 ^ k) \<le> b * 2 ^ k"
      by (rule round_half_even_le) (simp add: mult_right_mono)
    moreover have "of_int a \<le> x \<Longrightarrow> a * 2 ^ k \<le> round_half_even (x * 2 ^ k)"
      by (rule round_half_even_ge) (simp add: mult_right_mono)
    moreover have "rat_of_int i / 2 ^ k \<le> of_int b \<longleftrightarrow> i \<le> b * 2 ^ k" for i b
    proof -
      have "rat_of_int i / 2 ^ k \<le> of_int b \<longleftrightarrow> rat_of_int i \<le> of_int (b * 2 ^ k)"
        by (simp add: field_simps)
      then show ?thesis by (simp only: of_int_le_iff)
    qed
    moreover have "of_int a \<le> rat_of_int i / 2 ^ k \<longleftrightarrow> a * 2 ^ k \<le> i" for i a
    proof -
      have "of_int a \<le> rat_of_int i / 2 ^ k \<longleftrightarrow> rat_of_int (a * 2 ^ k) \<le> of_int i"
        by (simp add: field_simps)
      then show ?thesis by (simp only: of_int_le_iff)
    qed
    ultimately show ?thesis by (simp add: fl)
  qed
  show "x \<le> of_int b \<Longrightarrow> fl x \<le> of_int b" "of_int a \<le> x \<Longrightarrow> of_int a \<le> fl x"
    using main [of b a] by (cases "x = 0"; auto simp: fl_def)+
qed

lemma fl_between:
  assumes "of_int a \<le> x" "x \<le> of_int b" "- (2 ^ 53) < a" "b < 2 ^ 53"
  shows "of_int a \<le> fl x" "fl x \<le> of_int b"
proof -
  have "- (2 ^ 53) < x"
  proof -
    have "rat_of_int (- (2 ^ 53)) < of_int a" using assms(3) by (simp only: of_int_less_iff)
    with assms(1) show ?thesis by simp
  qed
  moreover have "x < 2 ^ 53"
  proof -
    have "of_int b < rat_of_int (2 ^ 53)" using assms(4) by (simp only: of_int_less_iff)
    with assms(2) show ?thesis by simp
  qed
  ultimately have "\<bar>x\<bar> < 2 ^ 53" by simp
  with assms show "of_int a \<le> fl x" "fl x \<le> of_int b" by (auto intro: fl_int_bounds)
qed

lemma fl_int: "\<bar>i\<bar> < 2 ^ 53 \<Longrightarrow> fl (of_int i) = of_int i"
  using fl_between [of i "of_int i" i] by (simp add: abs_less_iff antisym)

lemma fl_numeral [simp]: "(numeral n :: int) < 2 ^ 53 \<Longrightarrow> fl (numeral n) = numeral n"
  using fl_int [of "numeral n"] by simp

section \<open>Rounding is monotone and accurate\<close>

lemma bin_exponent_mono:
  assumes "0 < x" "x \<le> y"
  shows "bin_exponent x \<le> bin_exponent y"
proof -
  have "(2::rat) powi (bin_exponent x) < 2 powi (bin_exponent y + 1)"
    using bin_exponent_bounds(1) [OF assms(1)] bin_exponent_bounds(2) [of y] assms by simp
  then have "bin_exponent x < bin_exponent y + 1" by (rule powi2_less)
  then show ?thesis by simp
qed

lemma round_half_even_mono: "x \<le> y \<Longrightarrow> round_half_even x \<le> round_half_even y"
proof (rule ccontr)
  assume le: "x \<le> y" and "\<not> round_half_even x \<le> round_half_even y"
  then have less: "round_half_even y < round_half_even x" by simp
  have near: "\<lfloor>z\<rfloor> \<le> round_half_even z \<and> round_half_even z \<le> \<lfloor>z\<rfloor> + 1" for z
    by (simp add: round_half_even_def Let_def)
  have fl: "\<lfloor>x\<rfloor> \<le> \<lfloor>y\<rfloor>" using le by (rule floor_mono)
  with near [of x] near [of y] less have "\<lfloor>x\<rfloor> = \<lfloor>y\<rfloor>" by linarith
  with le less show False by (auto simp: round_half_even_def Let_def split: if_splits)
qed

lemma round_half_even_error: "\<bar>of_int (round_half_even y) - y\<bar> \<le> 1 / 2"
proof -
  have "of_int \<lfloor>y\<rfloor> \<le> y" "y < of_int \<lfloor>y\<rfloor> + 1" by (rule of_int_floor_le) (rule floor_correct [THEN conjunct2, simplified])
  then show ?thesis by (auto simp: round_half_even_def Let_def)
qed

lemma round_half_even_near:
  assumes "\<bar>y - of_int n\<bar> < 1 / 2"
  shows "round_half_even y = n"
proof -
  have "\<bar>of_int (round_half_even y) - y\<bar> \<le> 1 / 2" by (rule round_half_even_error)
  with assms have "\<bar>of_int (round_half_even y) - (of_int n :: rat)\<bar> < 1" by linarith
  then have "\<bar>round_half_even y - n\<bar> < 1" by (simp flip: of_int_diff of_int_abs)
  then show ?thesis by simp
qed

lemma fl_pos: "0 < x \<Longrightarrow> fl x = of_int (round_half_even (x / 2 powi (bin_exponent x - 52))) * 2 powi (bin_exponent x - 52)"
  by (simp add: fl_def Let_def)

lemma round_half_even_uminus: "round_half_even (- y) = - round_half_even y"
proof (cases "y = of_int \<lfloor>y\<rfloor>")
  case True
  then obtain k where "y = of_int k" by blast
  then show ?thesis by (simp add: round_half_even_def Let_def)
next
  case False
  then have "\<lfloor>- y\<rfloor> = - \<lfloor>y\<rfloor> - 1" by linarith
  then show ?thesis by (auto simp: round_half_even_def Let_def)
qed

lemma fl_uminus: "fl (- x) = - fl x"
  by (simp add: fl_def Let_def round_half_even_uminus)

text \<open>Rounding has a relative error of at most half a unit in the last place.\<close>

lemma fl_error: "\<bar>fl x - x\<bar> \<le> \<bar>x\<bar> / 2 ^ 53"
proof -
  have pos: "\<bar>fl x - x\<bar> \<le> \<bar>x\<bar> / 2 ^ 53" if "0 < x" for x
  proof -
    let ?u = "(2::rat) powi (bin_exponent x - 52)"
    have u: "0 < ?u" by simp
    have "fl x - x = (of_int (round_half_even (x / ?u)) - x / ?u) * ?u" using fl_pos [OF that] u by (simp add: field_simps)
    then have "\<bar>fl x - x\<bar> = \<bar>of_int (round_half_even (x / ?u)) - x / ?u\<bar> * ?u" using u by (simp add: abs_mult)
    also have "\<dots> \<le> 1 / 2 * ?u" using round_half_even_error [of "x / ?u"] u by (intro mult_right_mono) auto
    also have "\<dots> = 2 powi (bin_exponent x) / 2 ^ 53" by (simp add: power_int_diff)
    also have "\<dots> \<le> x / 2 ^ 53" using bin_exponent_bounds(1) [OF that] by (simp add: divide_right_mono)
    finally show ?thesis using that by simp
  qed
  show ?thesis
  proof (cases "x < 0")
    case True
    with pos [of "- x"] show ?thesis by (simp add: fl_uminus)
  next
    case False
    with pos [of x] show ?thesis by (cases "x = 0") (simp_all add: fl_def)
  qed
qed

lemma fl_mono_pos:
  assumes "0 < x" "x \<le> y"
  shows "fl x \<le> fl y"
proof (cases "bin_exponent x = bin_exponent y")
  case True
  let ?u = "(2::rat) powi (bin_exponent x - 52)"
  have "round_half_even (x / ?u) \<le> round_half_even (y / ?u)"
    by (rule round_half_even_mono) (simp add: divide_right_mono assms)
  then show ?thesis using assms True by (simp add: fl_pos mult_right_mono)
next
  case False
  with bin_exponent_mono [OF assms] have e: "bin_exponent x + 1 \<le> bin_exponent y" by simp
  have top: "fl x \<le> 2 powi (bin_exponent x + 1)"
  proof -
    let ?u = "(2::rat) powi (bin_exponent x - 52)"
    have "x / ?u \<le> 2 ^ 53"
    proof -
      have "2 ^ 53 * ?u = 2 powi (bin_exponent x + 1)" by (simp add: power_int_diff power_int_add)
      then show ?thesis using bin_exponent_bounds(2) [OF assms(1)] by (simp add: divide_le_eq)
    qed
    then have "round_half_even (x / ?u) \<le> 2 ^ 53" by (intro round_half_even_le) simp
    then have "rat_of_int (round_half_even (x / ?u)) \<le> 2 ^ 53" by (metis of_int_le_iff of_int_numeral of_int_power)
    then have "fl x \<le> 2 ^ 53 * ?u" using fl_pos [OF assms(1)] by (simp add: mult_right_mono)
    also have "\<dots> = 2 powi (bin_exponent x + 1)" by (simp add: power_int_diff power_int_add)
    finally show ?thesis .
  qed
  have bot: "2 powi (bin_exponent y) \<le> fl y"
  proof -
    let ?u = "(2::rat) powi (bin_exponent y - 52)"
    have "0 < y" using assms by simp
    have "2 ^ 52 \<le> y / ?u"
    proof -
      have "2 ^ 52 * ?u = 2 powi (bin_exponent y)" by (simp add: power_int_diff)
      then show ?thesis using bin_exponent_bounds(1) [OF \<open>0 < y\<close>] by (simp add: le_divide_eq)
    qed
    then have "2 ^ 52 \<le> round_half_even (y / ?u)" by (intro round_half_even_ge) simp
    then have "2 ^ 52 \<le> rat_of_int (round_half_even (y / ?u))" by (metis of_int_le_iff of_int_numeral of_int_power)
    then have "2 ^ 52 * ?u \<le> fl y" using fl_pos [OF \<open>0 < y\<close>] by (simp add: mult_right_mono)
    then show ?thesis by (simp add: power_int_diff)
  qed
  have "(2::rat) powi (bin_exponent x + 1) \<le> 2 powi (bin_exponent y)" using e by (simp add: power_int_increasing)
  with top bot show ?thesis by linarith
qed

lemma fl_sign: "0 \<le> x \<Longrightarrow> 0 \<le> fl x"
proof (cases "x = 0")
  case False
  assume "0 \<le> x"
  with False have "\<bar>fl x - x\<bar> \<le> x / 2 ^ 53" "x / 2 ^ 53 \<le> x" using fl_error [of x] by (auto simp: divide_le_eq)
  then show ?thesis by linarith
qed (simp add: fl_def)

lemma fl_mono: "x \<le> y \<Longrightarrow> fl x \<le> fl y"
proof -
  assume le: "x \<le> y"
  consider "0 < x" | "y < 0" | "x \<le> 0" "0 \<le> y" by linarith
  then show ?thesis
  proof cases
    case 1
    then show ?thesis using le by (rule fl_mono_pos)
  next
    case 2
    with fl_mono_pos [of "- y" "- x"] le show ?thesis by (simp add: fl_uminus)
  next
    case 3
    with fl_sign [of y] fl_sign [of "- x"] show ?thesis by (simp add: fl_uminus)
  qed
qed

lemma round_away_mono: "x \<le> y \<Longrightarrow> round_away x \<le> round_away y"
proof -
  assume le: "x \<le> y"
  consider "0 \<le> x" | "y < 0" | "x < 0" "0 \<le> y" by linarith
  then show ?thesis
  proof cases
    case 1
    with le floor_mono [of "x + 1 / 2" "y + 1 / 2"] show ?thesis by (simp add: round_away_def)
  next
    case 2
    with le floor_mono [of "- y + 1 / 2" "- x + 1 / 2"] show ?thesis by (simp add: round_away_def)
  next
    case 3
    then have "0 \<le> \<lfloor>y + 1 / 2\<rfloor>" "0 \<le> \<lfloor>- x + 1 / 2\<rfloor>" by simp_all
    moreover from 3 have "round_away x = - \<lfloor>- x + 1 / 2\<rfloor>" "round_away y = \<lfloor>y + 1 / 2\<rfloor>" by (simp_all add: round_away_def)
    ultimately show ?thesis by linarith
  qed
qed

lemma round_away_near: "\<bar>y - of_int k\<bar> < 1 / 2 \<Longrightarrow> round_away y = k"
proof -
  assume "\<bar>y - of_int k\<bar> < 1 / 2"
  then have b: "- (1 / 2) < y - of_int k" "y - of_int k < 1 / 2" by (simp_all only: abs_less_iff) linarith
  have "\<lfloor>y + 1 / 2\<rfloor> = k" "\<lfloor>- y + 1 / 2\<rfloor> = - k" by (rule floor_unique; use b in simp)+
  then show ?thesis by (simp add: round_away_def)
qed

text \<open>
  A fixed-point coordinate survives the division into a double and the multiplication back: both
  rounding errors together stay far below one half.
\<close>

lemma to_fixed_of_fixed:
  assumes "\<bar>k\<bar> \<le> 1800000000"
  shows "to_fixed (fl (of_int k / 10000000)) = k"
proof -
  let ?x = "rat_of_int k / 10000000"
  have K: "\<bar>rat_of_int k\<bar> \<le> 1800000000" using assms by (metis of_int_abs of_int_le_iff of_int_numeral)
  have e1: "\<bar>fl ?x * 10000000 - of_int k\<bar> \<le> 1 / 1000"
  proof -
    have "\<bar>fl ?x - ?x\<bar> \<le> \<bar>?x\<bar> / 2 ^ 53" by (rule fl_error)
    also have "\<dots> \<le> 180 / 2 ^ 53" using K by (simp add: abs_divide divide_right_mono)
    finally have "\<bar>fl ?x - ?x\<bar> * 10000000 \<le> 1 / 1000" by simp
    moreover have "\<bar>fl ?x * 10000000 - of_int k\<bar> = \<bar>fl ?x - ?x\<bar> * 10000000"
    proof -
      have "fl ?x * 10000000 - of_int k = (fl ?x - ?x) * 10000000" by (simp add: algebra_simps)
      then show ?thesis by (simp only: abs_mult abs_numeral)
    qed
    ultimately show ?thesis by (simp only:)
  qed
  have e2: "\<bar>fl (fl ?x * 10000000) - fl ?x * 10000000\<bar> \<le> 1 / 1000"
  proof -
    have "\<bar>fl ?x * 10000000\<bar> \<le> 2000000000" using e1 K by linarith
    then have "\<bar>fl ?x * 10000000\<bar> / 2 ^ 53 \<le> 2000000000 / 2 ^ 53" by (rule divide_right_mono) simp
    with fl_error [of "fl ?x * 10000000"] show ?thesis by (rule order_trans [OF order_trans]) simp
  qed
  from e1 e2 have "\<bar>fl (fl ?x * 10000000) - of_int k\<bar> < 1 / 2" by linarith
  then have "round_away (fl (fl ?x * 10000000)) = k" by (rule round_away_near)
  moreover from assms have "is_s64 k" by (simp add: is_s64_def abs_le_iff)
  ultimately show ?thesis by (simp add: to_fixed_def s64_id)
qed

section \<open>The computed values stay in range\<close>

lemma to_fixed_bounds:
  assumes "of_int (- b) \<le> c" "c \<le> of_int b" "b \<le> 180"
  shows "\<bar>to_fixed c\<bar> \<le> b * 10000000"
proof -
  let ?y = "fl (c * 10000000)"
  have le: "of_int (- b * 10000000) \<le> ?y" "?y \<le> of_int (b * 10000000)"
    using fl_between [where x = "c * 10000000" and a = "- b * 10000000" and b = "b * 10000000"] assms
    by simp_all
  have "- b * 10000000 \<le> round_away ?y" "round_away ?y \<le> b * 10000000"
    by (rule round_away_bounds [OF le])+
  moreover from this have "is_s64 (round_away ?y)"
    using assms(3) by (simp add: is_s64_def)
  ultimately show ?thesis by (simp add: to_fixed_def s64_id)
qed

text \<open>The shared shape of \<^verbatim>\<open>lon2x\<close> and \<^verbatim>\<open>lat2y\<close>.\<close>

lemma grid_bounds:
  assumes "0 < w" "w \<le> 360" "0 \<le> t" "t \<le> of_int w"
  shows "0 \<le> round_away (fl (fl (fl t * 65535) / of_int w))"
    and "round_away (fl (fl (fl t * 65535) / of_int w)) \<le> 65535"
proof -
  have 1: "of_int 0 \<le> fl t" "fl t \<le> of_int w"
    using fl_between [where x = t and a = 0 and b = w] assms by simp_all
  have 2: "of_int 0 \<le> fl (fl t * 65535)" "fl (fl t * 65535) \<le> of_int (w * 65535)"
    using fl_between [where x = "fl t * 65535" and a = 0 and b = "w * 65535"] assms 1 by simp_all
  have 3: "of_int 0 \<le> fl (fl (fl t * 65535) / of_int w)" "fl (fl (fl t * 65535) / of_int w) \<le> of_int 65535"
    using fl_between [where x = "fl (fl t * 65535) / of_int w" and a = 0 and b = 65535] assms 2
    by (simp_all add: divide_le_eq mult.commute)
  from round_away_bounds [OF 3]
  show "0 \<le> round_away (fl (fl (fl t * 65535) / of_int w))"
    and "round_away (fl (fl (fl t * 65535) / of_int w)) \<le> 65535" .
qed

lemma uint_word_of_int_small: "0 \<le> i \<Longrightarrow> i \<le> 65535 \<Longrightarrow> uint (word_of_int i :: 32 word) = i"
  by (simp add: uint_word_of_int)

lemma lon2x_range: "- 180 \<le> lon \<Longrightarrow> lon \<le> 180 \<Longrightarrow> uint (lon2x lon) \<le> 65535"
  using grid_bounds [of 360 "lon + 180"] by (simp add: lon2x_def uint_word_of_int_small)

lemma lat2y_range: "- 90 \<le> lat \<Longrightarrow> lat \<le> 90 \<Longrightarrow> uint (lat2y lat) \<le> 65535"
  using grid_bounds [of 180 "lat + 90"] by (simp add: lat2y_def uint_word_of_int_small)

section \<open>Tiles interleave the bits of the grid position\<close>

lemma bit_shift_in:
  "bit (push_bit 1 t OR (a AND 1)) m \<longleftrightarrow> (if m = 0 then bit a 0 else m < 32 \<and> bit t (m - 1))"
  for t a :: "32 word"
  unfolding bit_or_iff bit_and_iff bit_push_bit_iff bit_1_iff
  by (auto simp: bit_imp_le_length)

lemma bit_xy2tile_loop:
  "k \<le> 16 \<Longrightarrow> bit (xy2tile_loop k x y tile) n \<longleftrightarrow>
     n < 32 \<and> (if n < 2 * k then bit (if odd n then x else y) (n div 2) else bit tile (n - 2 * k))"
proof (induction k arbitrary: tile)
  case 0
  then show ?case using bit_imp_le_length [of tile n] by auto
next
  case (Suc i)
  define t where "t = push_bit 1 (push_bit 1 tile OR (drop_bit i x AND 1)) OR (drop_bit i y AND 1)"
  have step: "xy2tile_loop (Suc i) x y tile = xy2tile_loop i x y t"
    by (simp only: xy2tile_loop.simps Let_def t_def)
  have t: "bit t m \<longleftrightarrow> m < 32 \<and>
      (if m = 0 then bit y i else if m = 1 then bit x i else bit tile (m - 2))" for m
    unfolding t_def bit_shift_in bit_drop_bit_eq by (auto simp: numeral_2_eq_2)
  consider "n < 2 * i" | "n = 2 * i" | "n = 2 * i + 1" | "2 * i + 1 < n" by linarith
  then show ?case
  proof cases
    case 1
    with Suc show ?thesis by (simp add: step del: xy2tile_loop.simps)
  next
    case 2
    with Suc show ?thesis by (simp add: t step del: xy2tile_loop.simps)
  next
    case 3
    with Suc show ?thesis by (simp add: t step del: xy2tile_loop.simps)
  next
    case 4
    then have "n - 2 * i \<noteq> 0" "n - 2 * i \<noteq> 1" "n - 2 * i - 2 = n - 2 * Suc i" by auto
    with 4 Suc show ?thesis by (auto simp: t step simp del: xy2tile_loop.simps)
  qed
qed

lemma bit_xy2tile:
  "bit (xy2tile x y) n \<longleftrightarrow> n < 32 \<and> bit (if odd n then x else y) (n div 2)"
  by (simp add: xy2tile_def bit_xy2tile_loop)

lemma high_bits_zero:
  assumes "uint w \<le> 65535" "16 \<le> n"
  shows "\<not> bit (w :: 32 word) n"
proof
  assume "bit w n"
  then have "bit (uint w) n"
    using bit_imp_le_length [of w n] by (simp add: bit_uint_iff)
  moreover have "uint w < 2 ^ n"
  proof -
    have "uint w < 2 ^ 16" using assms(1) by simp
    also have "\<dots> \<le> (2 :: int) ^ n" using assms(2) by (rule power_increasing) simp
    finally show ?thesis .
  qed
  ultimately show False
    by (metis bit_take_bit_iff less_irrefl take_bit_int_eq_self uint_ge_0)
qed

text \<open>On the 16-bit grid the tile number determines the position.\<close>

lemma xy2tile_inj:
  assumes "xy2tile x y = xy2tile x' y'"
    and "uint x \<le> 65535" "uint y \<le> 65535" "uint x' \<le> 65535" "uint y' \<le> 65535"
  shows "x = x' \<and> y = y'"
proof -
  have "bit x n = bit x' n \<and> bit y n = bit y' n" for n
  proof (cases "n < 16")
    case True
    have "bit (xy2tile x y) (2 * n + 1) = bit (xy2tile x' y') (2 * n + 1)"
      and "bit (xy2tile x y) (2 * n) = bit (xy2tile x' y') (2 * n)"
      using assms(1) by simp_all
    with True show ?thesis by (simp add: bit_xy2tile)
  next
    case False
    with assms(2-) show ?thesis by (simp add: high_bits_zero)
  qed
  then show ?thesis by (auto intro: bit_word_eqI)
qed

text \<open>The grid follows the order of the coordinates.\<close>

lemma grid_mono:
  assumes "0 < w" "s \<le> t"
  shows "round_away (fl (fl (fl s * 65535) / of_int w)) \<le> round_away (fl (fl (fl t * 65535) / of_int w))"
  using assms by (intro round_away_mono fl_mono divide_right_mono) (simp_all add: fl_mono)

lemma lon2x_mono: "- 180 \<le> a \<Longrightarrow> a \<le> b \<Longrightarrow> b \<le> 180 \<Longrightarrow> uint (lon2x a) \<le> uint (lon2x b)"
  using grid_mono [of 360 "a + 180" "b + 180"] grid_bounds [of 360 "a + 180"] grid_bounds [of 360 "b + 180"]
  by (simp add: lon2x_def uint_word_of_int_small)

lemma lat2y_mono: "- 90 \<le> a \<Longrightarrow> a \<le> b \<Longrightarrow> b \<le> 90 \<Longrightarrow> uint (lat2y a) \<le> uint (lat2y b)"
  using grid_mono [of 180 "a + 90" "b + 90"] grid_bounds [of 180 "a + 90"] grid_bounds [of 180 "b + 90"]
  by (simp add: lat2y_def uint_word_of_int_small)
end
