(* ===== verification/Node_Updater.thy ===== *)
theory Node_Updater
  imports Row_Update Coordinates
begin

text \<open>
  \<^verbatim>\<open>ApiDB_Node_Updater\<close> (\<^verbatim>\<open>src/backend/apidb/changeset_upload/node_updater.cpp\<close>): the pending
  node vectors, the three requests that fill them, and the three processing steps that send
  them to the database. The database and the change tracking, which the C++ object holds by
  reference, are passed and returned.
\<close>

section \<open>State\<close>

record node_t = elem_t +
  n_lat :: int
  n_lon :: int
  n_tile :: int

record node_updater =
  nu_bbox :: bbox_t
  create_nodes :: "node_t list"
  modify_nodes :: "node_t list"
  delete_nodes :: "node_t list"
  nu_create_placeholder_ids :: "int set"

definition init_node_updater :: node_updater where
  "init_node_updater = \<lparr>nu_bbox = default_bbox, create_nodes = [], modify_nodes = [],
                        delete_nodes = [], nu_create_placeholder_ids = {}\<rparr>"

section \<open>Requests\<close>

definition add_node :: "rat \<Rightarrow> rat \<Rightarrow> osm_changeset_id_t \<Rightarrow> osm_nwr_signed_id_t \<Rightarrow>
    (string \<times> string) list \<Rightarrow> OSMChange_Tracking \<times> node_updater \<Rightarrow>
    (OSMChange_Tracking \<times> node_updater) result" where
  "add_node lat lon changeset_id old_id tags = (\<lambda>(ct, u).
     if 0 \<le> old_id
     then Inl (bad_request ''Placeholder IDs must be negative for created elements.'')
     else let new_node = \<lparr>e_id = 0, e_version = 1, e_changeset_id = changeset_id, e_old_id = old_id,
                          e_tags = tags, e_if_unused = False,
                          n_lat = to_fixed lat, n_lon = to_fixed lon, n_tile = tile_of lat lon\<rparr>
          in Inr (track op_create ot_node new_node ct,
                  u\<lparr>create_nodes := create_nodes u @ [new_node]\<rparr>))"

definition modify_node :: "rat \<Rightarrow> rat \<Rightarrow> osm_changeset_id_t \<Rightarrow> osm_nwr_id_t \<Rightarrow> osm_version_t \<Rightarrow>
    (string \<times> string) list \<Rightarrow> OSMChange_Tracking \<times> node_updater \<Rightarrow>
    (OSMChange_Tracking \<times> node_updater) result" where
  "modify_node lat lon changeset_id i version tags = (\<lambda>(ct, u).
     let n = \<lparr>e_id = i, e_version = version, e_changeset_id = changeset_id, e_old_id = s64 i,
              e_tags = tags, e_if_unused = False,
              n_lat = to_fixed lat, n_lon = to_fixed lon, n_tile = tile_of lat lon\<rparr>
     in Inr (track op_modify ot_node n ct, u\<lparr>modify_nodes := modify_nodes u @ [n]\<rparr>))"

definition delete_node :: "osm_changeset_id_t \<Rightarrow> osm_nwr_id_t \<Rightarrow> osm_version_t \<Rightarrow> bool \<Rightarrow>
    OSMChange_Tracking \<times> node_updater \<Rightarrow> (OSMChange_Tracking \<times> node_updater) result" where
  "delete_node changeset_id i version if_unused = (\<lambda>(ct, u).
     let n = \<lparr>e_id = i, e_version = version, e_changeset_id = changeset_id, e_old_id = s64 i,
              e_tags = [], e_if_unused = if_unused, n_lat = 0, n_lon = 0, n_tile = 0\<rparr>
     in Inr (track op_delete ot_node n ct, u\<lparr>delete_nodes := delete_nodes u @ [n]\<rparr>))"

section \<open>Database steps\<close>

definition replace_old_ids_in_nodes :: "node_t list \<Rightarrow> object_id_mapping_t list \<Rightarrow> node_t list result" where
  "replace_old_ids_in_nodes ns created =
     bindE (placeholder_map ''node'' created) (\<lambda>m. mapE (replace_own_id ''node'' m) ns)"

definition node_check_unique_placeholder_ids :: "node_t list \<Rightarrow> int set \<Rightarrow> int set result" where
  "node_check_unique_placeholder_ids ns ids = check_unique_placeholders ns ids"

definition new_node_row :: "int \<Rightarrow> node_t \<Rightarrow> int \<Rightarrow> node_row" where
  "new_node_row now n i =
     \<lparr>r_id = i, r_changeset_id = e_changeset_id n, r_visible = True, r_timestamp = now,
      r_version = 1, r_latitude = n_lat n, r_longitude = n_lon n, r_tile = n_tile n\<rparr>"

definition insert_new_nodes_to_current_table ::
    "node_t list \<Rightarrow> db \<times> OSMChange_Tracking \<Rightarrow> (db \<times> OSMChange_Tracking) result" where
  "insert_new_nodes_to_current_table ns = (\<lambda>(d, ct).
     if ns = [] then Inr (d, ct)
     else
       let mp = ids_mapping (node_id_seq d) (map e_old_id ns);
           rows = joined_rows (new_node_row (db_now d)) ns mp
       in bindE (insert_rows r_id rows (current_nodes d)) (\<lambda>tbl.
          bindE (throw_if (length mp \<noteq> length ns)
                   (server_error ''Could not create all new nodes in current_nodes table'')) (\<lambda>_.
          Inr (d\<lparr>current_nodes := tbl, node_id_seq := node_id_seq d + int (length ns)\<rparr>,
               ct\<lparr>created_node_ids := created_node_ids ct @ created_mappings mp\<rparr>))))"

definition lock_current_nodes :: "int list \<Rightarrow> db \<Rightarrow> unit result" where
  "lock_current_nodes ids d =
     (if ids = [] then Inr ()
      else let missing = except_ids ids (map r_id (select_any ids (current_nodes d))) in
        throw_if (missing \<noteq> [])
          (not_found (''The following node ids are not known on the database: '' @
                      join_comma (map fmt_d missing))))"

definition node_build_packages :: "node_t list \<Rightarrow> node_t list list result" where
  "node_build_packages ns = build_packages_by e_id ns"

definition check_current_node_versions :: "node_t list \<Rightarrow> db \<Rightarrow> unit result" where
  "check_current_node_versions ns d =
     (if ns = [] then Inr ()
      else case version_mismatch (map (\<lambda>n. (e_id n, e_version n)) ns) (current_nodes d) of
             [] \<Rightarrow> Inr ()
           | (i, expected, actual) # _ \<Rightarrow>
               Inl (conflict (''Version mismatch: Provided '' @ fmt_d expected @ '', server had: '' @
                              fmt_d actual @ '' of Node '' @ fmt_d i)))"

definition determine_already_deleted_nodes ::
    "node_t list \<Rightarrow> db \<times> OSMChange_Tracking \<Rightarrow> (int set \<times> OSMChange_Tracking) result" where
  "determine_already_deleted_nodes ns = (\<lambda>(d, ct).
     if ns = [] then Inr ({}, ct)
     else bindE (foldE (already_deleted_step ''node'' ns)
                   (filter (\<lambda>r. \<not> r_visible r) (select_any (map e_id ns) (current_nodes d)))
                   ({}, skip_deleted_node_ids ct))
            (\<lambda>(found, skipped). Inr (found, ct\<lparr>skip_deleted_node_ids := skipped\<rparr>)))"

definition calc_node_bbox :: "int list \<Rightarrow> db \<Rightarrow> bbox_t" where
  "calc_node_bbox ids d =
     (if ids = [] then default_bbox
      else extract_bbox_from_row
             (aggregate_bbox (map (\<lambda>r. (r_latitude r, r_longitude r)) (select_any ids (current_nodes d))))
             default_bbox)"

definition modified_node_row :: "int \<Rightarrow> node_row \<Rightarrow> node_t \<Rightarrow> node_row" where
  "modified_node_row now r n =
     r\<lparr>r_latitude := n_lat n, r_longitude := n_lon n, r_changeset_id := e_changeset_id n,
       r_visible := True, r_timestamp := now, r_tile := n_tile n, r_version := e_version n + 1\<rparr>"

definition deleted_node_row :: "int \<Rightarrow> node_row \<Rightarrow> node_t \<Rightarrow> node_row" where
  "deleted_node_row now r n =
     r\<lparr>r_changeset_id := e_changeset_id n, r_visible := False, r_timestamp := now,
       r_version := e_version n + 1\<rparr>"

text \<open>
  The error branch dereferences the first id of a set difference; an empty difference would
  be undefined behaviour.
\<close>

definition update_current_nodes_error :: "node_t list \<Rightarrow> node_row list \<Rightarrow> exn" where
  "update_current_nodes_error ns returned =
     (case sort_unique (filter (\<lambda>i. i \<notin> r_id ` set returned) (map e_id ns)) of
        [] \<Rightarrow> undefined_behaviour ''update_current_nodes: *diff.begin()''
      | i # _ \<Rightarrow>
          (case find (\<lambda>n. e_id n = i) ns of
             None \<Rightarrow> undefined_behaviour ''update_current_nodes: *unknown_node''
           | Some n \<Rightarrow> server_error (''Could not update Node '' @ fmt_d (e_id n) @ '' with version '' @
                                     fmt_d (e_version n) @ '' on the database.'')))"

definition update_current_nodes ::
    "node_t list \<Rightarrow> db \<times> OSMChange_Tracking \<Rightarrow> (db \<times> OSMChange_Tracking) result" where
  "update_current_nodes ns = (\<lambda>(d, ct).
     if ns = [] then Inr (d, ct)
     else
       let (tbl, returned) = update_from elem_match (modified_node_row (db_now d)) ns (current_nodes d)
       in if length returned \<noteq> length ns then Inl (update_current_nodes_error ns returned)
          else bindE (mapE (row_mapping ns) returned) (\<lambda>mps.
               Inr (d\<lparr>current_nodes := tbl\<rparr>,
                    ct\<lparr>modified_node_ids := modified_node_ids ct @ mps\<rparr>)))"

definition delete_current_nodes ::
    "node_t list \<Rightarrow> db \<times> OSMChange_Tracking \<Rightarrow> (db \<times> OSMChange_Tracking) result" where
  "delete_current_nodes ns = (\<lambda>(d, ct).
     if ns = [] then Inr (d, ct)
     else
       let (tbl, returned) = update_from elem_match (deleted_node_row (db_now d)) ns (current_nodes d)
       in bindE (throw_if (length returned \<noteq> length ns)
                   (server_error ''Could not delete all current nodes'')) (\<lambda>_.
          Inr (d\<lparr>current_nodes := tbl\<rparr>,
               ct\<lparr>deleted_node_ids := deleted_node_ids ct @
                    map (\<lambda>r. map_at (id_to_old_id ns) (r_id r)) returned\<rparr>)))"

definition insert_new_current_node_tags :: "node_t list \<Rightarrow> db \<Rightarrow> (int list \<times> db) result" where
  "insert_new_current_node_tags ns d =
     (if ns = [] then Inr ([], d)
      else bindE (insert_rows (\<lambda>(i, k, _). (i, k)) (elem_tag_rows ns) (current_node_tags d)) (\<lambda>tbl.
           Inr (sort_unique (map fst (elem_tag_rows ns)), d\<lparr>current_node_tags := tbl\<rparr>)))"

definition save_current_nodes_to_history :: "int list \<Rightarrow> db \<Rightarrow> db result" where
  "save_current_nodes_to_history ids d =
     (if ids = [] then Inr d
      else let rows = select_any ids (current_nodes d) in
        bindE (insert_rows (\<lambda>r. (r_id r, r_version r)) rows (nodes_tbl d)) (\<lambda>tbl.
        bindE (throw_if (length rows \<noteq> length ids)
                 (server_error ''Could not save current nodes to history'')) (\<lambda>_.
        Inr (d\<lparr>nodes_tbl := tbl\<rparr>))))"

definition save_current_node_tags_to_history :: "int list \<Rightarrow> db \<Rightarrow> db result" where
  "save_current_node_tags_to_history ids d =
     (if ids = [] then Inr d
      else bindE (insert_rows (\<lambda>(i, ver, k, _). (i, ver, k))
                    (tags_to_history ids (current_node_tags d) (current_nodes d)) (node_tags_tbl d)) (\<lambda>tbl.
           Inr (d\<lparr>node_tags_tbl := tbl\<rparr>)))"

definition node_refs_by_way :: "db \<Rightarrow> (int \<times> int) list" where
  "node_refs_by_way d = map (\<lambda>(w, n, _). (n, w)) (current_way_nodes d)"

definition is_node_still_referenced ::
    "node_t list \<Rightarrow> db \<times> OSMChange_Tracking \<Rightarrow> (node_t list \<times> OSMChange_Tracking) result" where
  "is_node_still_referenced ns = (\<lambda>(d, ct).
     if ns = [] then Inr (ns, ct)
     else
       bindE (foldE (still_referenced_step ''Node'' ''ways'' ns)
                (referenced_by (map e_id ns) (node_refs_by_way d)) {}) (\<lambda>excl1.
       bindE (foldE (still_referenced_step ''Node'' ''relations'' ns)
                (referenced_by (map e_id ns) (member_refs ''Node'' d)) excl1) (\<lambda>excl.
       bindE (exclude_referenced ''nodes'' ns excl (current_nodes d) (skip_deleted_node_ids ct)) (\<lambda>(ns', skipped).
       Inr (ns', ct\<lparr>skip_deleted_node_ids := skipped\<rparr>)))))"

definition delete_current_node_tags :: "int list \<Rightarrow> db \<Rightarrow> db" where
  "delete_current_node_tags ids d =
     (if ids = [] then d
      else d\<lparr>current_node_tags := delete_tags_any ids (current_node_tags d)\<rparr>)"

section \<open>Processing\<close>

definition process_new_nodes ::
    "db \<times> OSMChange_Tracking \<times> node_updater \<Rightarrow> (db \<times> OSMChange_Tracking \<times> node_updater) result" where
  "process_new_nodes = (\<lambda>(d, ct, u).
     bindE (node_check_unique_placeholder_ids (create_nodes u) (nu_create_placeholder_ids u)) (\<lambda>phs.
     bindE (insert_new_nodes_to_current_table (create_nodes u) (d, ct)) (\<lambda>(d1, ct1).
     bindE (replace_old_ids_in_nodes (create_nodes u) (created_node_ids ct1)) (\<lambda>ns.
     let ids = sort_unique (map e_id ns) in
     bindE (insert_new_current_node_tags ns d1) (\<lambda>(ids_with_tags, d2).
     bindE (save_current_nodes_to_history ids d2) (\<lambda>d3.
     bindE (save_current_node_tags_to_history ids_with_tags d3) (\<lambda>d4.
     Inr (d4, ct1, u\<lparr>nu_bbox := expand (nu_bbox u) (calc_node_bbox ids d4),
                     create_nodes := [], nu_create_placeholder_ids := phs\<rparr>))))))))"

text \<open>The body of the loop over the packages; it carries the database, the tracking, the box.\<close>

definition modify_nodes_package ::
    "node_t list \<Rightarrow> db \<times> OSMChange_Tracking \<times> bbox_t \<Rightarrow> (db \<times> OSMChange_Tracking \<times> bbox_t) result" where
  "modify_nodes_package ns = (\<lambda>(d, ct, bb).
     let ids = sort_unique (map e_id ns) in
     bindE (check_current_node_versions ns d) (\<lambda>_.
     let bb1 = expand bb (calc_node_bbox ids d);
         d1 = delete_current_node_tags ids d in
     bindE (update_current_nodes ns (d1, ct)) (\<lambda>(d2, ct2).
     bindE (insert_new_current_node_tags ns d2) (\<lambda>(ids_with_tags, d3).
     bindE (save_current_nodes_to_history ids d3) (\<lambda>d4.
     bindE (save_current_node_tags_to_history ids_with_tags d4) (\<lambda>d5.
     Inr (d5, ct2, expand bb1 (calc_node_bbox ids d5))))))))"

definition process_modify_nodes ::
    "db \<times> OSMChange_Tracking \<times> node_updater \<Rightarrow> (db \<times> OSMChange_Tracking \<times> node_updater) result" where
  "process_modify_nodes = (\<lambda>(d, ct, u).
     bindE (replace_old_ids_in_nodes (modify_nodes u) (created_node_ids ct)) (\<lambda>ns.
     bindE (lock_current_nodes (sort_unique (map e_id ns)) d) (\<lambda>_.
     bindE (node_build_packages ns) (\<lambda>packages.
     bindE (foldE modify_nodes_package packages (d, ct, nu_bbox u)) (\<lambda>(d1, ct1, bb).
     Inr (d1, ct1, u\<lparr>nu_bbox := bb, modify_nodes := []\<rparr>))))))"

definition process_delete_nodes ::
    "db \<times> OSMChange_Tracking \<times> node_updater \<Rightarrow> (db \<times> OSMChange_Tracking \<times> node_updater) result" where
  "process_delete_nodes = (\<lambda>(d, ct, u).
     bindE (replace_old_ids_in_nodes (delete_nodes u) (created_node_ids ct)) (\<lambda>ns.
     let ids = sort_unique (map e_id ns) in
     bindE (lock_current_nodes ids d) (\<lambda>_.
     bindE (determine_already_deleted_nodes ns (d, ct)) (\<lambda>(already_deleted, ct1).
     let visible = filter (\<lambda>n. e_id n \<notin> already_deleted) ns in
     bindE (check_current_node_versions visible d) (\<lambda>_.
     bindE (is_node_still_referenced visible (d, ct1)) (\<lambda>(unreferenced, ct2).
     let bb = expand (nu_bbox u) (calc_node_bbox ids d) in
     bindE (delete_current_nodes unreferenced (d, ct2)) (\<lambda>(d1, ct3).
     let ids_unreferenced = map e_id unreferenced in
     bindE (save_current_nodes_to_history ids_unreferenced
              (delete_current_node_tags ids_unreferenced d1)) (\<lambda>d2.
     Inr (d2, ct3, u\<lparr>nu_bbox := bb, delete_nodes := []\<rparr>)))))))))"

end
