(* ===== verification/Updater_Interface.thy ===== *)
theory Updater_Interface
  imports Row_Update
begin

text \<open>
  The contract of \<^verbatim>\<open>api06::Node_Updater\<close>, \<^verbatim>\<open>api06::Way_Updater\<close> and
  \<^verbatim>\<open>api06::Relation_Updater\<close>
  (\<^verbatim>\<open>include/cgimap/api06/changeset_upload/{node,way,relation}_updater.hpp\<close>) towards the
  \<^verbatim>\<open>OSMChange_Handler\<close>: what each of the three processing steps promises of the database,
  of the change tracking and of the pending vectors. The locale is interpreted on each of the
  three database updaters; the handler's lemmas are proved from it.
\<close>

section \<open>What a step accounts for\<close>

lemma accounted_created:
  assumes "created_ids t ct' = cs @ created_mappings (ids_mapping s (map e_old_id es))" "e \<in> set es"
  shows "accounted ct' (change_item op_create t e)"
proof -
  have "e_old_id e \<in> set (map snd (ids_mapping s (map e_old_id es)))" using assms(2) by simp
  then have "e_old_id e \<in> set (map om_old_id (created_mappings (ids_mapping s (map e_old_id es))))"
    by (simp only: created_mappings_ids)
  then show ?thesis using assms(1) by (auto simp: accounted_def change_item_def)
qed

lemma accounted_modified:
  assumes "modified_by mps e" "set mps \<subseteq> set (modified_ids t ct')"
  shows "accounted ct' (change_item op_modify t e)"
proof -
  from assms(1) obtain i where "i \<in> set mps" "om_old_id i = e_old_id e"
    "om_new_version i = e_version e + 1" "is_u32 (e_version e + 1)" by (auto simp: modified_by_def)
  moreover from this have "u32 (e_version e + 1) = e_version e + 1" by (simp add: u32_id)
  ultimately show ?thesis
    using assms(2) by (simp add: accounted_def change_item_def image_iff) (metis subsetD)
qed

lemma accounted_deleted:
  "e_old_id e \<in> set (deleted_ids t ct') \<or> e_if_unused e \<and> e_old_id e \<in> om_old_id ` set (skip_deleted_ids t ct') \<Longrightarrow>
     accounted ct' (change_item op_delete t e)"
  by (auto simp: accounted_def change_item_def)

text \<open>Elements that keep the fields of their request keep being accounted for.\<close>

lemma change_item_cong:
  "e_old_id f = e_old_id e \<Longrightarrow> e_version f = e_version e \<Longrightarrow> e_if_unused f = e_if_unused e \<Longrightarrow>
     change_item op t f = change_item op t e"
  by (simp add: change_item_def)

lemma created_ok_same:
  "created_ok s0 d ct \<Longrightarrow> (\<And>t. created_ids t ct' = created_ids t ct \<and> id_seq t d' = id_seq t d) \<Longrightarrow>
     created_ok s0 d' ct'"
  by (simp add: created_ok_def)

lemma created_ok_alias_free:
  assumes inv: "upload_inv s0 d ct" and res: "resolved (created_ids t ct) es fs"
    and named: "\<forall>e\<in>set es. named_ok (s0 t) e"
  shows "alias_free fs"
proof (rule resolved_alias_free [OF res])
  show "distinct (map om_new_id (created_ids t ct))"
    using inv unfolding upload_inv_def created_ok_def by blast
  show "s0 t < om_new_id i" if "i \<in> set (created_ids t ct)" for i
    using inv that unfolding upload_inv_def created_ok_def by blast
  show "named_ok (s0 t) e" if "e \<in> set es" for e using named that by blast
qed

section \<open>The interface\<close>

locale element_updater =
  fixes t :: object_type
    and p_new p_modify p_delete ::
      "db \<times> OSMChange_Tracking \<times> 'u \<Rightarrow> (db \<times> OSMChange_Tracking \<times> 'u) result"
    and creates modifies deletes :: "'u \<Rightarrow> 'a elem_t_scheme list"
    and del_ok :: "'a elem_t_scheme list \<Rightarrow> bool"
  assumes new_inv: "p_new (d, ct, u) = Inr (d', ct', u') \<Longrightarrow> upload_inv s0 d ct \<Longrightarrow>
        \<forall>e\<in>set (creates u). creates_ok e \<Longrightarrow> upload_inv s0 d' ct'"
    and new_ct: "p_new (d, ct, u) = Inr (d', ct', u') \<Longrightarrow> upload_inv s0 d ct \<Longrightarrow>
        \<forall>e\<in>set (creates u). creates_ok e \<Longrightarrow>
        ct_extends ct ct' \<and> (\<forall>e\<in>set (creates u). accounted ct' (change_item op_create t e))"
    and new_buffers: "p_new (d, ct, u) = Inr (d', ct', u') \<Longrightarrow>
        creates u' = [] \<and> modifies u' = modifies u \<and> deletes u' = deletes u"
    and modify_inv: "p_modify (d, ct, u) = Inr (d', ct', u') \<Longrightarrow> upload_inv s0 d ct \<Longrightarrow>
        upload_inv s0 d' ct'"
    and modify_ct: "p_modify (d, ct, u) = Inr (d', ct', u') \<Longrightarrow> upload_inv s0 d ct \<Longrightarrow>
        ct_extends ct ct' \<and> (\<forall>e\<in>set (modifies u). accounted ct' (change_item op_modify t e))"
    and modify_buffers: "p_modify (d, ct, u) = Inr (d', ct', u') \<Longrightarrow>
        modifies u' = [] \<and> creates u' = creates u \<and> deletes u' = deletes u"
    and delete_inv: "p_delete (d, ct, u) = Inr (d', ct', u') \<Longrightarrow> upload_inv s0 d ct \<Longrightarrow>
        del_ok (deletes u) \<Longrightarrow> upload_inv s0 d' ct'"
    and delete_ct: "p_delete (d, ct, u) = Inr (d', ct', u') \<Longrightarrow> upload_inv s0 d ct \<Longrightarrow>
        del_ok (deletes u) \<Longrightarrow> \<forall>e\<in>set (deletes u). named_ok (s0 t) e \<Longrightarrow>
        ct_extends ct ct' \<and> (\<forall>e\<in>set (deletes u). accounted ct' (change_item op_delete t e))"
    and delete_buffers: "p_delete (d, ct, u) = Inr (d', ct', u') \<Longrightarrow>
        deletes u' = [] \<and> creates u' = creates u \<and> modifies u' = modifies u"
    and del_ok_Nil: "del_ok []"
begin

text \<open>The requests an updater still holds, as they stand in the sequence of the message.\<close>

definition pending :: "'u \<Rightarrow> osmchange_t set" where
  "pending u = change_item op_create t ` set (creates u) \<union> change_item op_modify t ` set (modifies u) \<union>
     change_item op_delete t ` set (deletes u)"

definition wf_pending :: "(object_type \<Rightarrow> int) \<Rightarrow> 'u \<Rightarrow> bool" where
  "wf_pending s0 u \<longleftrightarrow> (\<forall>e\<in>set (creates u). creates_ok e) \<and>
     (\<forall>e\<in>set (modifies u) \<union> set (deletes u). named_ok (s0 t) e) \<and> del_ok (deletes u)"

text \<open>Everything in the sequence is accounted for, held by this updater, or somewhere else.\<close>

definition covered :: "osmchange_t set \<Rightarrow> OSMChange_Tracking \<Rightarrow> 'u \<Rightarrow> bool" where
  "covered elsewhere ct u \<longleftrightarrow>
     (\<forall>item\<in>set (osmchange_orig_sequence ct). accounted ct item \<or> item \<in> pending u \<or> item \<in> elsewhere)"

definition step_ok :: "(object_type \<Rightarrow> int) \<Rightarrow> osmchange_t set \<Rightarrow> db \<times> OSMChange_Tracking \<times> 'u \<Rightarrow> bool" where
  "step_ok s0 elsewhere = (\<lambda>(d, ct, u). upload_inv s0 d ct \<and> wf_pending s0 u \<and> covered elsewhere ct u)"

lemma covered_step:
  assumes "covered elsewhere ct u" "ct_extends ct ct'"
    and "\<And>item. item \<in> pending u \<Longrightarrow> accounted ct' item \<or> item \<in> pending u'"
  shows "covered elsewhere ct' u'"
  unfolding covered_def ct_extends_sequence [OF assms(2)]
proof
  fix item assume "item \<in> set (osmchange_orig_sequence ct)"
  with assms(1) consider "accounted ct item" | "item \<in> pending u" | "item \<in> elsewhere"
    unfolding covered_def by blast
  then show "accounted ct' item \<or> item \<in> pending u' \<or> item \<in> elsewhere"
    using accounted_mono [OF assms(2), of item] assms(3) by cases blast+
qed

lemma new_step:
  assumes run: "p_new (d, ct, u) = Inr (d', ct', u')" and ok: "step_ok s0 elsewhere (d, ct, u)"
  shows "step_ok s0 elsewhere (d', ct', u')"
proof -
  from ok have inv: "upload_inv s0 d ct" and wf: "wf_pending s0 u" and cov: "covered elsewhere ct u"
    by (simp_all add: step_ok_def)
  from wf have cr: "\<forall>e\<in>set (creates u). creates_ok e" by (simp add: wf_pending_def)
  note b = new_buffers [OF run]
  from new_ct [OF run inv cr] have ext: "ct_extends ct ct'"
    and acc: "\<forall>e\<in>set (creates u). accounted ct' (change_item op_create t e)" by blast+
  have "covered elsewhere ct' u'"
    by (rule covered_step [OF cov ext]) (use acc b in \<open>auto simp: pending_def\<close>)
  with new_inv [OF run inv cr] wf b show ?thesis by (auto simp: step_ok_def wf_pending_def)
qed

lemma modify_step:
  assumes run: "p_modify (d, ct, u) = Inr (d', ct', u')" and ok: "step_ok s0 elsewhere (d, ct, u)"
  shows "step_ok s0 elsewhere (d', ct', u')"
proof -
  from ok have inv: "upload_inv s0 d ct" and wf: "wf_pending s0 u" and cov: "covered elsewhere ct u"
    by (simp_all add: step_ok_def)
  note b = modify_buffers [OF run]
  from modify_ct [OF run inv] have ext: "ct_extends ct ct'"
    and acc: "\<forall>e\<in>set (modifies u). accounted ct' (change_item op_modify t e)" by blast+
  have "covered elsewhere ct' u'"
    by (rule covered_step [OF cov ext]) (use acc b in \<open>auto simp: pending_def\<close>)
  with modify_inv [OF run inv] wf b show ?thesis by (auto simp: step_ok_def wf_pending_def)
qed

lemma delete_step:
  assumes run: "p_delete (d, ct, u) = Inr (d', ct', u')" and ok: "step_ok s0 elsewhere (d, ct, u)"
  shows "step_ok s0 elsewhere (d', ct', u')"
proof -
  from ok have inv: "upload_inv s0 d ct" and wf: "wf_pending s0 u" and cov: "covered elsewhere ct u"
    by (simp_all add: step_ok_def)
  from wf have del: "del_ok (deletes u)" and named: "\<forall>e\<in>set (deletes u). named_ok (s0 t) e"
    by (simp_all add: wf_pending_def)
  note b = delete_buffers [OF run]
  from delete_ct [OF run inv del named] have ext: "ct_extends ct ct'"
    and acc: "\<forall>e\<in>set (deletes u). accounted ct' (change_item op_delete t e)" by blast+
  have "covered elsewhere ct' u'"
    by (rule covered_step [OF cov ext]) (use acc b in \<open>auto simp: pending_def\<close>)
  with delete_inv [OF run inv del] wf b del_ok_Nil show ?thesis by (auto simp: step_ok_def wf_pending_def)
qed

lemma step_sequence:
  assumes "p = p_new \<or> p = p_modify \<or> p = p_delete" "p (d, ct, u) = Inr (d', ct', u')"
    and "step_ok s0 elsewhere (d, ct, u)"
  shows "osmchange_orig_sequence ct' = osmchange_orig_sequence ct"
proof (rule ct_extends_sequence)
  from assms(3) have inv: "upload_inv s0 d ct" and wf: "wf_pending s0 u" by (simp_all add: step_ok_def)
  then have "\<forall>e\<in>set (creates u). creates_ok e" "\<forall>e\<in>set (deletes u). named_ok (s0 t) e" "del_ok (deletes u)"
    by (simp_all add: wf_pending_def)
  with assms(1,2) inv new_ct modify_ct delete_ct show "ct_extends ct ct'" by metis
qed

text \<open>
  Recording a request: it enters the sequence and one of the pending vectors, and nothing
  else of the tracking changes.
\<close>

lemma request_step:
  assumes ok: "step_ok s0 elsewhere (d, ct, u)" and wf: "wf_pending s0 u'"
    and pend: "pending u \<subseteq> pending u'" "change_item op t e \<in> pending u'"
  shows "step_ok s0 elsewhere (d, track op t e ct, u')"
proof -
  have same: "created_ids t' (track op t e ct) = created_ids t' ct"
    "modified_ids t' (track op t e ct) = modified_ids t' ct" "deleted_ids t' (track op t e ct) = deleted_ids t' ct"
    "skip_deleted_ids t' (track op t e ct) = skip_deleted_ids t' ct" for t'
    by (cases t'; simp add: track_def)+
  have acc: "accounted (track op t e ct) item = accounted ct item" for item
    by (cases "oc_op item") (simp_all add: accounted_def same)
  from ok have "upload_inv s0 d (track op t e ct)" by (simp add: step_ok_def upload_inv_def created_ok_def same)
  moreover have "covered elsewhere (track op t e ct) u'"
    unfolding covered_def acc
  proof
    fix item assume "item \<in> set (osmchange_orig_sequence (track op t e ct))"
    then have "item \<in> set (osmchange_orig_sequence ct) \<or> item = change_item op t e" by (auto simp: track_def)
    with ok pend show "accounted ct item \<or> item \<in> pending u' \<or> item \<in> elsewhere"
      by (auto simp: step_ok_def covered_def)
  qed
  ultimately show ?thesis using wf by (simp add: step_ok_def)
qed

end

end
