(* ===== verification/Node_Correct.thy ===== *)
theory Node_Correct
  imports Node_Updater Updater_Interface
begin

text \<open>
  The node updater keeps the upload invariant, accounts for every pending node it processes,
  and its batched modification equals the modifications applied one by one.
\<close>

section \<open>Frame\<close>

text \<open>What no step of the node updater writes.\<close>

definition node_frame :: "db \<Rightarrow> db \<Rightarrow> bool" where
  "node_frame d d' \<longleftrightarrow>
     current_ways d' = current_ways d \<and> current_way_nodes d' = current_way_nodes d \<and>
     ways_tbl d' = ways_tbl d \<and> way_id_seq d' = way_id_seq d \<and>
     current_relations d' = current_relations d \<and>
     current_relation_members d' = current_relation_members d \<and>
     relations_tbl d' = relations_tbl d \<and> relation_id_seq d' = relation_id_seq d \<and>
     db_now d' = db_now d"

lemma node_frame_refl [simp]: "node_frame d d"
  by (simp add: node_frame_def)

lemma node_frame_trans: "node_frame a b \<Longrightarrow> node_frame b c \<Longrightarrow> node_frame a c"
  by (simp add: node_frame_def)

lemma db_ok_node_frame:
  assumes "db_ok d" "node_frame d d'" "nodes_ok d'"
    and vis: "\<And>i. visible_id (current_nodes d) i \<Longrightarrow>
      i \<in> (\<lambda>(w, n, s). n) ` set (current_way_nodes d) \<or>
      i \<in> m_member_id ` set (filter (\<lambda>m. m_member_type m = ''Node'') (current_relation_members d)) \<Longrightarrow>
      visible_id (current_nodes d') i"
  shows "db_ok d'"
proof -
  have "refs_ok d'"
    unfolding refs_ok_def
  proof (intro conjI ballI)
    fix t assume t: "t \<in> set (current_way_nodes d')"
    obtain w n s where wns: "t = (w, n, s)" by (cases t)
    from t assms(2) have t': "t \<in> set (current_way_nodes d)" by (simp add: node_frame_def)
    with assms(1) wns have "visible_id (current_nodes d) n" "visible_id (current_ways d) w"
      by (auto simp: db_ok_def refs_ok_def)
    moreover from t' wns have "n \<in> (\<lambda>(w, n, s). n) ` set (current_way_nodes d)" by force
    ultimately show "case t of (w, n, s) \<Rightarrow> visible_id (current_nodes d') n \<and> visible_id (current_ways d') w"
      using vis wns assms(2) by (simp add: node_frame_def)
  next
    fix m assume "m \<in> set (current_relation_members d')"
    then have m: "m \<in> set (current_relation_members d)" using assms(2) by (simp add: node_frame_def)
    with assms(1) have mv: "member_visible d (m_member_type m) (m_member_id m)"
      and "visible_id (current_relations d) (m_relation_id m)"
      by (simp_all add: db_ok_def refs_ok_def)
    then show "visible_id (current_relations d') (m_relation_id m)" using assms(2) by (simp add: node_frame_def)
    from mv m vis [of "m_member_id m"] assms(2)
    show "member_visible d' (m_member_type m) (m_member_id m)"
      by (auto simp: member_visible_def node_frame_def)
  qed
  with assms(1-3) show ?thesis
    by (auto simp: db_ok_def ways_ok_def relations_ok_def node_frame_def)
qed

section \<open>The steps, one by one\<close>

lemma insert_new_nodes_Inr:
  assumes "insert_new_nodes_to_current_table ns (d, ct) = Inr (d', ct')"
    and "distinct (map r_id (current_nodes d))"
  obtains new where
    "d' = d\<lparr>current_nodes := current_nodes d @ new,
            node_id_seq := node_id_seq d + int (length ns)\<rparr>"
    "distinct (map r_id (current_nodes d @ new))"
    "r_id ` set new = {node_id_seq d<..node_id_seq d + int (length ns)}"
    "\<forall>r\<in>set new. r_visible r \<and> r_version r = 1"
    "ct' = ct\<lparr>created_node_ids := created_node_ids ct @
       created_mappings (ids_mapping (node_id_seq d) (map e_old_id ns))\<rparr>"
proof -
  let ?rows = "joined_rows (new_node_row (db_now d)) ns (ids_mapping (node_id_seq d) (map e_old_id ns))"
  have ids: "r_id ` set ?rows = {node_id_seq d<..node_id_seq d + int (length ns)}"
    by (rule joined_rows_ids) (simp add: new_node_row_def)
  have rows: "\<forall>r\<in>set ?rows. r_visible r \<and> r_version r = 1"
    by (rule joined_rows_all) (simp add: new_node_row_def)
  show ?thesis
  proof (rule that [of ?rows])
    show "distinct (map r_id (current_nodes d @ ?rows))"
      using assms by (cases "ns = []") (auto simp: insert_new_nodes_to_current_table_def Let_def
          result_simps insert_rows_Inr)
  qed (use assms ids rows in \<open>auto simp: insert_new_nodes_to_current_table_def Let_def
        result_simps insert_rows_Inr created_mappings_def split: if_splits\<close>)
qed

lemma insert_node_tags_Inr:
  "insert_new_current_node_tags ns d = Inr (ids, d') \<Longrightarrow>
     \<exists>t. d' = d\<lparr>current_node_tags := t\<rparr>"
  by (auto simp: insert_new_current_node_tags_def result_simps split: if_splits)
     (metis db.surjective db.update_convs(2))

lemma delete_node_tags_eq: "\<exists>t. delete_current_node_tags ids d = d\<lparr>current_node_tags := t\<rparr>"
proof (cases "ids = []")
  case True
  then have "delete_current_node_tags ids d = d\<lparr>current_node_tags := current_node_tags d\<rparr>"
    by (simp add: delete_current_node_tags_def)
  then show ?thesis by blast
qed (auto simp: delete_current_node_tags_def)

lemma save_nodes_Inr:
  assumes "save_current_nodes_to_history ids d = Inr d'"
    and "distinct (map (\<lambda>r. (r_id r, r_version r)) (nodes_tbl d))"
  shows "d' = d\<lparr>nodes_tbl := nodes_tbl d @ select_any ids (current_nodes d)\<rparr>"
    and "distinct (map (\<lambda>r. (r_id r, r_version r)) (nodes_tbl d @ select_any ids (current_nodes d)))"
  using assms
  by (auto simp: save_current_nodes_to_history_def Let_def result_simps insert_rows_Inr
      select_any_def split: if_splits)

lemma save_node_tags_Inr:
  "save_current_node_tags_to_history ids d = Inr d' \<Longrightarrow> \<exists>t. d' = d\<lparr>node_tags_tbl := t\<rparr>"
  by (auto simp: save_current_node_tags_to_history_def result_simps split: if_splits)
     (metis db.surjective db.update_convs(4))

lemma replace_old_ids_in_nodes_Inr:
  "replace_old_ids_in_nodes ns created = Inr fs \<Longrightarrow> resolved created ns fs"
  by (auto simp: replace_old_ids_in_nodes_def result_simps intro!: resolvedI resolves_own_id)

section \<open>New nodes\<close>

text \<open>The effect of \<^verbatim>\<open>process_new_nodes\<close> on the tables, the tracking and the vectors.\<close>

lemma process_new_nodes_Inr:
  assumes "process_new_nodes (d, ct, u) = Inr (d', ct', u')"
    and ok: "nodes_ok d" and cr: "\<forall>n\<in>set (create_nodes u). creates_ok n"
  obtains new ids where
    "current_nodes d' = current_nodes d @ new" "distinct (map r_id (current_nodes d @ new))"
    "r_id ` set new = {node_id_seq d<..node_id_seq d + int (length (create_nodes u))}"
    "\<forall>r\<in>set new. r_visible r \<and> r_version r = 1"
    "nodes_tbl d' = nodes_tbl d @ select_any ids (current_nodes d')" "set ids = r_id ` set new"
    "distinct (map (\<lambda>r. (r_id r, r_version r)) (nodes_tbl d'))"
    "node_id_seq d' = node_id_seq d + int (length (create_nodes u))" "node_frame d d'"
    "ct' = ct\<lparr>created_node_ids := created_node_ids ct @
       created_mappings (ids_mapping (node_id_seq d) (map e_old_id (create_nodes u)))\<rparr>"
    "create_nodes u' = []" "modify_nodes u' = modify_nodes u" "delete_nodes u' = delete_nodes u"
    "nu_bbox u' = expand (nu_bbox u) (calc_node_bbox ids d')"
    "distinct (map om_old_id (created_node_ids ct'))"
proof -
  let ?ns = "create_nodes u"
  from assms(1) obtain d1 ct1 fs ids_t d2 d3 where
    s1: "insert_new_nodes_to_current_table ?ns (d, ct) = Inr (d1, ct1)" and
    s2: "replace_old_ids_in_nodes ?ns (created_node_ids ct1) = Inr fs" and
    s3: "insert_new_current_node_tags fs d1 = Inr (ids_t, d2)" and
    s4: "save_current_nodes_to_history (sort_unique (map e_id fs)) d2 = Inr d3" and
    s5: "save_current_node_tags_to_history ids_t d3 = Inr d'" and
    ct': "ct' = ct1" and
    u': "create_nodes u' = []" "modify_nodes u' = modify_nodes u" "delete_nodes u' = delete_nodes u"
      "nu_bbox u' = expand (nu_bbox u) (calc_node_bbox (sort_unique (map e_id fs)) d')"
    by (auto simp: process_new_nodes_def Let_def result_simps split: prod.splits)
  from ok have "distinct (map r_id (current_nodes d))" by (simp add: nodes_ok_def hist_ok_def)
  from insert_new_nodes_Inr [OF s1 this] obtain new where
    d1: "d1 = d\<lparr>current_nodes := current_nodes d @ new, node_id_seq := node_id_seq d + int (length ?ns)\<rparr>"
    and new: "distinct (map r_id (current_nodes d @ new))"
      "r_id ` set new = {node_id_seq d<..node_id_seq d + int (length ?ns)}"
      "\<forall>r\<in>set new. r_visible r \<and> r_version r = 1"
    and ct1: "ct1 = ct\<lparr>created_node_ids := created_node_ids ct @
       created_mappings (ids_mapping (node_id_seq d) (map e_old_id ?ns))\<rparr>" .
  from insert_node_tags_Inr [OF s3] obtain t2 where d2: "d2 = d1\<lparr>current_node_tags := t2\<rparr>" by blast
  have h: "distinct (map (\<lambda>r. (r_id r, r_version r)) (nodes_tbl d2))"
    using ok by (simp add: d2 d1 nodes_ok_def hist_ok_def)
  note d3 = save_nodes_Inr [OF s4 h]
  from save_node_tags_Inr [OF s5] obtain t4 where d': "d' = d3\<lparr>node_tags_tbl := t4\<rparr>" by blast
  note res = replace_old_ids_in_nodes_Inr [OF s2]
  have ids: "e_id ` set fs = {node_id_seq d<..node_id_seq d + int (length ?ns)}"
    by (rule resolved_batch_ids [of "created_node_ids ct"]) (use res cr in \<open>simp_all add: ct1 creates_ok_def\<close>)
  have old: "distinct (map om_old_id (created_node_ids ct'))"
    using res ct' by (simp add: resolved_def)
  show ?thesis
    by (rule that [of new "sort_unique (map e_id fs)"])
      (use new ids d3 u' ct1 ct' old in \<open>simp_all add: d' d2 d1 node_frame_def\<close>)
qed

lemma process_new_nodes_inv:
  assumes "process_new_nodes (d, ct, u) = Inr (d', ct', u')"
    and inv: "upload_inv s0 d ct" and cr: "\<forall>n\<in>set (create_nodes u). creates_ok n"
  shows "upload_inv s0 d' ct'"
proof -
  have ok: "nodes_ok d" using inv by (simp add: upload_inv_def db_ok_def)
  from process_new_nodes_Inr [OF assms(1) ok cr] obtain new ids where
    e: "current_nodes d' = current_nodes d @ new" "distinct (map r_id (current_nodes d @ new))"
    "r_id ` set new = {node_id_seq d<..node_id_seq d + int (length (create_nodes u))}"
    "\<forall>r\<in>set new. r_visible r \<and> r_version r = 1"
    "nodes_tbl d' = nodes_tbl d @ select_any ids (current_nodes d')" "set ids = r_id ` set new"
    "distinct (map (\<lambda>r. (r_id r, r_version r)) (nodes_tbl d'))"
    "node_id_seq d' = node_id_seq d + int (length (create_nodes u))" "node_frame d d'"
    "ct' = ct\<lparr>created_node_ids := created_node_ids ct @
       created_mappings (ids_mapping (node_id_seq d) (map e_old_id (create_nodes u)))\<rparr>" .
  have "nodes_ok d'"
    unfolding nodes_ok_def
  proof
    show "hist_ok (current_nodes d') (nodes_tbl d')"
      using hist_ok_insert [of "current_nodes d" "nodes_tbl d" new ids] e ok
      by (simp add: nodes_ok_def)
    have "r_id r \<le> node_id_seq d'" if "r \<in> set new" for r
    proof -
      from that have "r_id r \<in> r_id ` set new" by simp
      with e(3,8) show ?thesis by simp
    qed
    then show "\<forall>r\<in>set (current_nodes d'). r_id r \<le> node_id_seq d'"
      using ok e(1,8) by (fastforce simp: nodes_ok_def)
  qed
  then have "db_ok d'"
    using db_ok_node_frame [of d d'] inv e(1,9) visible_id_append
    by (metis upload_inv_def)
  moreover have "created_ok s0 d' ct'"
  proof (rule created_ok_extend [where t = ot_node and olds = "map e_old_id (create_nodes u)"])
    show "created_ok s0 d ct" using inv by (simp add: upload_inv_def)
    fix t' assume "t' \<noteq> ot_node"
    then show "created_ids t' ct' = created_ids t' ct \<and> id_seq t' d' = id_seq t' d"
      using e(9) by (cases t') (simp_all add: e(10) node_frame_def)
  qed (use e in simp_all)
  ultimately show ?thesis by (simp add: upload_inv_def)
qed

section \<open>Modified nodes\<close>

interpretation mod_node: row_update "modified_node_row now" for now
  by unfold_locales (simp_all add: modified_node_row_def)

interpretation del_node: row_update "deleted_node_row now" for now
  by unfold_locales (simp_all add: deleted_node_row_def)

lemma check_current_node_versions_Inr:
  "check_current_node_versions ns d = Inr () \<longleftrightarrow>
     (\<forall>n\<in>set ns. \<forall>r\<in>set (current_nodes d). r_id r = e_id n \<longrightarrow> r_version r = e_version n)"
  using version_mismatch_Nil [of "map (\<lambda>n. (e_id n, e_version n)) ns" "current_nodes d"]
  by (auto simp: check_current_node_versions_def split: list.split)

lemma lock_current_nodes_Inr:
  "lock_current_nodes ids d = Inr () \<longleftrightarrow> set ids \<subseteq> r_id ` set (current_nodes d)"
  by (auto simp: lock_current_nodes_def Let_def throw_if_def except_ids_Nil select_any_def)

lemma update_current_nodes_Inr:
  assumes "update_current_nodes ns (d, ct) = Inr (d', ct')"
    and "distinct (map r_id (current_nodes d))"
  obtains mps where
    "d' = d\<lparr>current_nodes := fst (update_from elem_match (modified_node_row (db_now d)) ns (current_nodes d))\<rparr>"
    "length (snd (update_from elem_match (modified_node_row (db_now d)) ns (current_nodes d))) = length ns"
    "ct' = ct\<lparr>modified_node_ids := modified_node_ids ct @ mps\<rparr>"
    "\<forall>n\<in>set ns. modified_by mps n"
proof (cases "ns = []")
  case True
  with assms show ?thesis by (intro that [of "[]"]) (auto simp: update_current_nodes_def)
next
  case False
  let ?u = "update_from elem_match (modified_node_row (db_now d)) ns (current_nodes d)"
  from False assms(1) obtain mps where len: "length (snd ?u) = length ns"
    and mps: "mapE (row_mapping ns) (snd ?u) = Inr mps"
    and d': "d' = d\<lparr>current_nodes := fst ?u\<rparr>" "ct' = ct\<lparr>modified_node_ids := modified_node_ids ct @ mps\<rparr>"
    by (auto simp: update_current_nodes_def Let_def result_simps split: prod.splits if_splits)
  with mod_node.recorded_mappings [OF assms(2) len mps] show ?thesis
    by (intro that) (auto simp: modified_by_def)
qed

text \<open>The effect of one package.\<close>

definition node_pos :: "node_row \<Rightarrow> int \<times> int" where
  "node_pos r = (r_latitude r, r_longitude r)"

lemma calc_node_bbox_contains:
  "r \<in> set (current_nodes d) \<Longrightarrow> r_id r \<in> set ids \<Longrightarrow> in_bbox (node_pos r) (calc_node_bbox ids d)"
  by (auto simp: calc_node_bbox_def node_pos_def intro!: aggregate_bbox_contains)

definition modify_step :: "node_t list \<Rightarrow> db \<times> OSMChange_Tracking \<times> bbox_t \<Rightarrow> db \<times> OSMChange_Tracking \<times> bbox_t \<Rightarrow> bool" where
  "modify_step ns = (\<lambda>(d, ct, bb) (d', ct', bb').
     nodes_ok d' \<and> node_frame d d' \<and> node_id_seq d' = node_id_seq d \<and>
     apply_all (modified_node_row (db_now d)) ns (current_nodes d) = Some (current_nodes d') \<and>
     (\<exists>mps. ct' = ct\<lparr>modified_node_ids := modified_node_ids ct @ mps\<rparr> \<and>
        (\<forall>n\<in>set ns. modified_by mps n)) \<and>
     (\<forall>i. visible_id (current_nodes d) i \<longrightarrow> visible_id (current_nodes d') i) \<and>
     bbox_le bb bb' \<and>
     (\<forall>r\<in>set (current_nodes d) \<union> set (current_nodes d').
        r_id r \<in> e_id ` set ns \<longrightarrow> in_bbox (node_pos r) bb'))"

lemma modify_nodes_package_step:
  assumes "modify_nodes_package ns (d, ct, bb) = Inr (d', ct', bb')" and ok: "nodes_ok d"
  shows "modify_step ns (d, ct, bb) (d', ct', bb')"
proof -
  let ?ids = "sort_unique (map e_id ns)"
  let ?u = "update_from elem_match (modified_node_row (db_now d)) ns (current_nodes d)"
  define d1 where "d1 = delete_current_node_tags ?ids d"
  from assms(1) obtain d2 ids_t d3 d4 where
    s1: "update_current_nodes ns (d1, ct) = Inr (d2, ct')" and
    s2: "insert_new_current_node_tags ns d2 = Inr (ids_t, d3)" and
    s3: "save_current_nodes_to_history ?ids d3 = Inr d4" and
    s4: "save_current_node_tags_to_history ids_t d4 = Inr d'" and
    bb': "bb' = expand (expand bb (calc_node_bbox ?ids d)) (calc_node_bbox ?ids d')"
    by (auto simp: modify_nodes_package_def Let_def result_simps d1_def split: prod.splits)
  obtain t1 where d1: "d1 = d\<lparr>current_node_tags := t1\<rparr>"
    unfolding d1_def using delete_node_tags_eq by blast
  have dist: "distinct (map r_id (current_nodes d))" using ok by (simp add: nodes_ok_def hist_ok_def)
  have dist1: "distinct (map r_id (current_nodes d1))" using dist by (simp add: d1)
  from update_current_nodes_Inr [OF s1 dist1] obtain mps where
    d2: "d2 = d1\<lparr>current_nodes := fst ?u\<rparr>" and len: "length (snd ?u) = length ns"
    and ct': "ct' = ct\<lparr>modified_node_ids := modified_node_ids ct @ mps\<rparr>"
    and mps: "\<forall>n\<in>set ns. modified_by mps n"
    by (auto simp: d1)
  from insert_node_tags_Inr [OF s2] obtain t3 where d3: "d3 = d2\<lparr>current_node_tags := t3\<rparr>" by blast
  have h: "distinct (map (\<lambda>r. (r_id r, r_version r)) (nodes_tbl d3))"
    using ok by (simp add: d3 d2 d1 nodes_ok_def hist_ok_def)
  note d4 = save_nodes_Inr [OF s3 h]
  from save_node_tags_Inr [OF s4] obtain t5 where d': "d' = d4\<lparr>node_tags_tbl := t5\<rparr>" by blast
  have cur: "current_nodes d' = fst ?u" by (simp add: d' d4(1) d3 d2)
  have hist: "nodes_tbl d' = nodes_tbl d @ select_any ?ids (fst ?u)" by (simp add: d' d4(1) d3 d2 d1)
  have "nodes_ok d'"
    unfolding nodes_ok_def cur hist
  proof
    show "hist_ok (fst ?u) (nodes_tbl d @ select_any ?ids (fst ?u))"
      using mod_node.batch_hist_ok [of "current_nodes d" "nodes_tbl d" ns ?ids "db_now d"] ok d4(2)
      by (simp add: nodes_ok_def d3 d2 d1)
    show "\<forall>r\<in>set (fst ?u). r_id r \<le> node_id_seq d'"
      using ok by (intro mod_node.batch_id_bound) (simp add: nodes_ok_def d' d4(1) d3 d2 d1)
  qed
  moreover have "in_bbox (node_pos r) bb'"
    if "r \<in> set (current_nodes d) \<union> set (current_nodes d')" "r_id r \<in> e_id ` set ns" for r
    using that calc_node_bbox_contains [of r d ?ids] calc_node_bbox_contains [of r d' ?ids]
    by (auto simp: bb' intro: in_bbox_expand)
  moreover have "visible_id (current_nodes d') i" if "visible_id (current_nodes d) i" for i
    unfolding cur by (rule mod_node.batch_visible [OF that]) (simp add: modified_node_row_def)
  moreover have "bbox_le bb bb'" unfolding bb' by (intro bbox_le_expandI1 bbox_le_refl)
  ultimately show ?thesis
    using mod_node.batch_is_sequential [OF dist len] mps ct'
    by (auto simp: modify_step_def cur node_frame_def d' d4(1) d3 d2 d1)
qed

lemma modify_step_Nil: "nodes_ok d \<Longrightarrow> modify_step [] (d, ct, bb) (d, ct, bb)"
  by (auto simp: modify_step_def intro: exI [of _ "[]"])

lemma modify_step_append:
  assumes 1: "modify_step ns (d, ct, bb) (d1, ct1, bb1)" and 2: "modify_step ms (d1, ct1, bb1) (d2, ct2, bb2)"
    and ok: "nodes_ok d"
  shows "modify_step (ns @ ms) (d, ct, bb) (d2, ct2, bb2)"
proof -
  have now: "db_now d1 = db_now d" using 1 by (simp add: modify_step_def node_frame_def)
  have a1: "apply_all (modified_node_row (db_now d)) ns (current_nodes d) = Some (current_nodes d1)"
    and a2: "apply_all (modified_node_row (db_now d)) ms (current_nodes d1) = Some (current_nodes d2)"
    using 1 2 now by (simp_all add: modify_step_def)
  have dist: "distinct (map r_id (current_nodes d))" "distinct (map r_id (current_nodes d1))"
    using ok 1 by (simp_all add: modify_step_def nodes_ok_def hist_ok_def)
  obtain is1 is2 where
    ct: "ct1 = ct\<lparr>modified_node_ids := modified_node_ids ct @ is1\<rparr>"
      "ct2 = ct1\<lparr>modified_node_ids := modified_node_ids ct1 @ is2\<rparr>" and
    acc: "\<forall>n\<in>set ns. modified_by is1 n"
      "\<forall>n\<in>set ms. modified_by is2 n"
    using 1 2 by (auto simp: modify_step_def)
  have "in_bbox (node_pos r) bb2"
    if r: "r \<in> set (current_nodes d) \<union> set (current_nodes d2)" "r_id r \<in> e_id ` set (ns @ ms)" for r
  proof -
    have le: "bbox_le bb1 bb2" using 2 by (simp add: modify_step_def)
    have in1: "in_bbox (node_pos r) bb2"
      if "r \<in> set (current_nodes d) \<union> set (current_nodes d1)" "r_id r \<in> e_id ` set ns"
    proof -
      from 1 that have "in_bbox (node_pos r) bb1" unfolding modify_step_def by blast
      then show ?thesis by (rule in_bbox_mono [OF _ le])
    qed
    have in2: "in_bbox (node_pos r) bb2"
      if "r \<in> set (current_nodes d1) \<union> set (current_nodes d2)" "r_id r \<in> e_id ` set ms"
      using 2 that unfolding modify_step_def by blast
    show ?thesis
    proof (cases "r \<in> set (current_nodes d)")
      case True
      show ?thesis
      proof (cases "r_id r \<in> e_id ` set ns")
        case False
        with mod_node.apply_all_untouched [OF a1 dist(1)] True have "r \<in> set (current_nodes d1)"
          by simp
        with False r(2) in2 show ?thesis by auto
      qed (use True in1 in simp)
    next
      case False
      with r(1) have r2: "r \<in> set (current_nodes d2)" by simp
      show ?thesis
      proof (cases "r_id r \<in> e_id ` set ms")
        case False
        with mod_node.apply_all_untouched [OF a2 dist(2)] r2 have "r \<in> set (current_nodes d1)"
          by simp
        with False r(2) in1 show ?thesis by auto
      qed (use r2 in2 in simp)
    qed
  qed
  moreover have "apply_all (modified_node_row (db_now d)) (ns @ ms) (current_nodes d) = Some (current_nodes d2)"
    by (simp add: apply_all_append a1 a2)
  moreover have "\<exists>mps. ct2 = ct\<lparr>modified_node_ids := modified_node_ids ct @ mps\<rparr> \<and>
        (\<forall>n\<in>set (ns @ ms). modified_by mps n)"
    using acc by (intro exI [of _ "is1 @ is2"]) (auto simp: ct modified_by_def)
  ultimately show ?thesis
    using 1 2 by (auto simp: modify_step_def intro: node_frame_trans bbox_le_trans)
qed

lemma modify_packages:
  "foldE modify_nodes_package ps (d, ct, bb) = Inr (d', ct', bb') \<Longrightarrow> nodes_ok d \<Longrightarrow>
     modify_step (concat ps) (d, ct, bb) (d', ct', bb')"
proof (induction ps arbitrary: d ct bb)
  case Nil
  then show ?case by (simp add: modify_step_Nil)
next
  case (Cons p ps)
  from Cons.prems(1) obtain d1 ct1 bb1 where
    p: "modify_nodes_package p (d, ct, bb) = Inr (d1, ct1, bb1)" and
    ps: "foldE modify_nodes_package ps (d1, ct1, bb1) = Inr (d', ct', bb')"
    by (auto simp: result_simps)
  have 1: "modify_step p (d, ct, bb) (d1, ct1, bb1)"
    by (rule modify_nodes_package_step [OF p Cons.prems(2)])
  then have "nodes_ok d1" by (simp add: modify_step_def)
  from Cons.IH [OF ps this] 1 Cons.prems(2) show ?case by (auto intro: modify_step_append)
qed

lemma modify_step_regroup:
  assumes "modify_step fs (d, ct, bb) (d', ct', bb')" "nodes_ok d"
    and "\<And>i. occurrences e_id i fs = occurrences e_id i ns" "set fs = set ns"
  shows "modify_step ns (d, ct, bb) (d', ct', bb')"
proof -
  have "distinct (map r_id (current_nodes d))" using assms(2) by (simp add: nodes_ok_def hist_ok_def)
  from mod_node.apply_all_regroup [OF this assms(3,4)] assms(1,4) show ?thesis
    by (auto simp: modify_step_def)
qed

lemma process_modify_nodes_Inr:
  assumes "process_modify_nodes (d, ct, u) = Inr (d', ct', u')" and ok: "nodes_ok d"
  obtains ns where
    "replace_old_ids_in_nodes (modify_nodes u) (created_node_ids ct) = Inr ns"
    "modify_step ns (d, ct, nu_bbox u) (d', ct', nu_bbox u')"
    "modify_nodes u' = []" "create_nodes u' = create_nodes u" "delete_nodes u' = delete_nodes u"
proof -
  from assms(1) obtain ns ps bb where
    ns: "replace_old_ids_in_nodes (modify_nodes u) (created_node_ids ct) = Inr ns" and
    ps: "build_packages_by e_id ns = Inr ps" and
    run: "foldE modify_nodes_package ps (d, ct, nu_bbox u) = Inr (d', ct', bb)" and
    u': "u' = u\<lparr>nu_bbox := bb, modify_nodes := []\<rparr>"
    by (auto simp: process_modify_nodes_def node_build_packages_def result_simps split: prod.splits)
  have "modify_step ns (d, ct, nu_bbox u) (d', ct', bb)"
    by (rule modify_step_regroup [OF modify_packages [OF run ok] ok])
      (simp_all only: build_packages_by_Inr(2) [OF ps] build_packages_by_set [OF ps])
  with ns u' show ?thesis by (intro that) simp_all
qed

lemma process_modify_nodes_inv:
  assumes "process_modify_nodes (d, ct, u) = Inr (d', ct', u')" and inv: "upload_inv s0 d ct"
  shows "upload_inv s0 d' ct'"
proof -
  have ok: "nodes_ok d" and db: "db_ok d" using inv by (simp_all add: upload_inv_def db_ok_def)
  from process_modify_nodes_Inr [OF assms(1) ok] obtain ns where
    step: "modify_step ns (d, ct, nu_bbox u) (d', ct', nu_bbox u')" .
  have "db_ok d'"
    by (rule db_ok_node_frame [OF db]) (use step in \<open>auto simp: modify_step_def\<close>)
  moreover have "created_ok s0 d' ct'"
  proof (rule created_ok_same)
    show "created_ok s0 d ct" using inv by (simp add: upload_inv_def)
    fix t show "created_ids t ct' = created_ids t ct \<and> id_seq t d' = id_seq t d"
      using step by (cases t) (auto simp: modify_step_def node_frame_def)
  qed
  ultimately show ?thesis by (simp add: upload_inv_def)
qed

section \<open>Deleted nodes\<close>

lemma determine_already_deleted_nodes_Inr:
  assumes "determine_already_deleted_nodes ns (d, ct) = Inr (found, ct')"
  obtains new where
    "found = {i \<in> e_id ` set ns. \<exists>r\<in>set (current_nodes d). r_id r = i \<and> \<not> r_visible r}"
    "found \<inter> ids_without_if_unused ns = {}"
    "ct' = ct\<lparr>skip_deleted_node_ids := skip_deleted_node_ids ct @ new\<rparr>"
    "\<forall>i\<in>found. i \<in> ids_if_unused ns \<longrightarrow> map_at (id_to_old_id ns) i \<in> om_old_id ` set new"
proof (cases "ns = []")
  case True
  with assms show ?thesis
    by (intro that [of "[]"]) (auto simp: determine_already_deleted_nodes_def)
next
  case False
  with assms obtain skipped where
    run: "foldE (already_deleted_step ''node'' ns)
       (filter (\<lambda>r. \<not> r_visible r) (select_any (map e_id ns) (current_nodes d)))
       ({}, skip_deleted_node_ids ct) = Inr (found, skipped)"
    and ct': "ct' = ct\<lparr>skip_deleted_node_ids := skipped\<rparr>"
    by (auto simp: determine_already_deleted_nodes_def result_simps split: prod.splits)
  from already_deleted_select [OF run] obtain new where
    "found = {i \<in> e_id ` set ns. \<exists>r\<in>set (current_nodes d). r_id r = i \<and> \<not> r_visible r}"
    "found \<inter> ids_without_if_unused ns = {}" "skipped = skip_deleted_node_ids ct @ new"
    "\<forall>i\<in>found. i \<in> ids_if_unused ns \<longrightarrow> map_at (id_to_old_id ns) i \<in> om_old_id ` set new" .
  with ct' show ?thesis by (intro that) simp_all
qed

lemma is_node_still_referenced_Inr:
  assumes "is_node_still_referenced ns (d, ct) = Inr (ns', ct')"
    and dist: "distinct (map r_id (current_nodes d))"
  obtains excl new where
    "excl = ids_if_unused ns \<inter> (fst ` set (node_refs_by_way d) \<union> fst ` set (member_refs ''Node'' d))"
    "ids_without_if_unused ns \<inter> (fst ` set (node_refs_by_way d) \<union> fst ` set (member_refs ''Node'' d)) = {}"
    "ns' = filter (\<lambda>n. e_id n \<notin> excl) ns"
    "ct' = ct\<lparr>skip_deleted_node_ids := skip_deleted_node_ids ct @ new\<rparr>"
    "\<forall>i\<in>excl. map_at (id_to_old_id ns) i \<in> om_old_id ` set (skip_deleted_node_ids ct')"
proof (cases "ns = []")
  case True
  with assms show ?thesis
    by (intro that [of "{}" "[]"])
      (auto simp: is_node_still_referenced_def ids_if_unused_def ids_without_if_unused_def)
next
  case False
  let ?w = "referenced_by (map e_id ns) (node_refs_by_way d)"
  let ?m = "referenced_by (map e_id ns) (member_refs ''Node'' d)"
  from assms(1) False obtain excl1 excl skipped where
    s1: "foldE (still_referenced_step ''Node'' ''ways'' ns) ?w {} = Inr excl1" and
    s2: "foldE (still_referenced_step ''Node'' ''relations'' ns) ?m excl1 = Inr excl" and
    s3: "exclude_referenced ''nodes'' ns excl (current_nodes d) (skip_deleted_node_ids ct) = Inr (ns', skipped)" and
    ct': "ct' = ct\<lparr>skip_deleted_node_ids := skipped\<rparr>"
    by (auto simp: is_node_still_referenced_def result_simps split: prod.splits)
  have sub: "ids_if_unused ns \<subseteq> e_id ` set ns" "ids_without_if_unused ns \<subseteq> e_id ` set ns"
    by (auto simp: ids_if_unused_def ids_without_if_unused_def)
  from still_referenced_Inr [OF s1] still_referenced_Inr [OF s2]
  have excl: "excl = ids_if_unused ns \<inter> (fst ` set ?w \<union> fst ` set ?m)"
    and none: "ids_without_if_unused ns \<inter> (fst ` set ?w \<union> fst ` set ?m) = {}" by auto
  note x = exclude_referenced_Inr [OF s3]
  from x(2) obtain new where new: "skipped = skip_deleted_node_ids ct @ new" by blast
  have fin: "finite excl" unfolding excl by simp
  show ?thesis
  proof (rule that [of excl new])
    show "\<forall>i\<in>excl. map_at (id_to_old_id ns) i \<in> om_old_id ` set (skip_deleted_node_ids ct')"
      using x(3) [OF dist fin] ct' by simp
    show "excl = ids_if_unused ns \<inter> (fst ` set (node_refs_by_way d) \<union> fst ` set (member_refs ''Node'' d))"
      using excl sub by (auto simp: referenced_by_keys)
    show "ids_without_if_unused ns \<inter> (fst ` set (node_refs_by_way d) \<union> fst ` set (member_refs ''Node'' d)) = {}"
      using none sub by (auto simp: referenced_by_keys)
  qed (use x(1) ct' new in simp_all)
qed

lemma delete_current_nodes_Inr:
  assumes "delete_current_nodes ns (d, ct) = Inr (d', ct')"
  shows "d' = d\<lparr>current_nodes := fst (update_from elem_match (deleted_node_row (db_now d)) ns (current_nodes d))\<rparr>"
    and "length (snd (update_from elem_match (deleted_node_row (db_now d)) ns (current_nodes d))) = length ns"
    and "ct' = ct\<lparr>deleted_node_ids := deleted_node_ids ct @
           map (\<lambda>r. map_at (id_to_old_id ns) (r_id r))
             (snd (update_from elem_match (deleted_node_row (db_now d)) ns (current_nodes d)))\<rparr>"
  using assms
  by (cases "ns = []"; auto simp: delete_current_nodes_def Let_def result_simps split: prod.splits)+

text \<open>The effect of \<^verbatim>\<open>process_delete_nodes\<close>: \<open>dead\<close> are the nodes really deleted.\<close>

definition node_refs :: "db \<Rightarrow> int set" where
  "node_refs d = fst ` set (node_refs_by_way d) \<union> fst ` set (member_refs ''Node'' d)"

lemma node_refs_eq: "node_refs d = (\<lambda>(w, n, s). n) ` set (current_way_nodes d) \<union>
    m_member_id ` set (filter (\<lambda>m. m_member_type m = ''Node'') (current_relation_members d))"
  by (simp add: node_refs_def node_refs_by_way_def member_refs_def image_image split_def)

definition delete_step :: "node_t list \<Rightarrow> node_t list \<Rightarrow> db \<times> OSMChange_Tracking \<Rightarrow> db \<times> OSMChange_Tracking \<Rightarrow> bool" where
  "delete_step ns dead = (\<lambda>(d, ct) (d', ct').
     nodes_ok d' \<and> node_frame d d' \<and> node_id_seq d' = node_id_seq d \<and>
     set dead \<subseteq> set ns \<and> e_id ` set ns \<subseteq> r_id ` set (current_nodes d) \<and>
     e_id ` set dead \<inter> node_refs d = {} \<and>
     (\<forall>n\<in>set dead. \<exists>r\<in>set (current_nodes d). r_id r = e_id n \<and> r_visible r \<and> r_version r = e_version n) \<and>
     apply_all (deleted_node_row (db_now d)) dead (current_nodes d) = Some (current_nodes d') \<and>
     (\<forall>i. visible_id (current_nodes d) i \<longrightarrow> i \<notin> e_id ` set dead \<longrightarrow> visible_id (current_nodes d') i) \<and>
     (\<exists>del skip. ct' = ct\<lparr>deleted_node_ids := deleted_node_ids ct @ del,
                        skip_deleted_node_ids := skip_deleted_node_ids ct @ skip\<rparr> \<and>
        set del = e_old_id ` set dead \<and>
        (alias_free ns \<longrightarrow> (\<forall>n\<in>set ns. n \<in> set dead \<or>
           e_if_unused n \<and> e_old_id n \<in> om_old_id ` set (skip_deleted_node_ids ct @ skip)))))"

lemma delete_nodes_selected:
  assumes ok: "nodes_ok d"
    and lock: "lock_current_nodes (sort_unique (map e_id ns)) d = Inr ()"
    and s1: "determine_already_deleted_nodes ns (d, ct) = Inr (found, ct1)"
    and s2: "is_node_still_referenced (filter (\<lambda>n. e_id n \<notin> found) ns) (d, ct1) = Inr (dead, ct2)"
    and s3: "delete_current_nodes dead (d, ct2) = Inr (d1, ct')"
    and s4: "save_current_nodes_to_history (map e_id dead) (delete_current_node_tags (map e_id dead) d1) = Inr d'"
  shows "delete_step ns dead (d, ct) (d', ct')"
proof -
  let ?vis = "filter (\<lambda>n. e_id n \<notin> found) ns"
  let ?u = "update_from elem_match (deleted_node_row (db_now d)) dead (current_nodes d)"
  have dist: "distinct (map r_id (current_nodes d))" using ok by (simp add: nodes_ok_def hist_ok_def)
  from determine_already_deleted_nodes_Inr [OF s1] obtain new1 where
    found: "found = {i \<in> e_id ` set ns. \<exists>r\<in>set (current_nodes d). r_id r = i \<and> \<not> r_visible r}"
      "found \<inter> ids_without_if_unused ns = {}"
    and ct1: "ct1 = ct\<lparr>skip_deleted_node_ids := skip_deleted_node_ids ct @ new1\<rparr>"
    and acc1: "\<forall>i\<in>found. i \<in> ids_if_unused ns \<longrightarrow> map_at (id_to_old_id ns) i \<in> om_old_id ` set new1" .
  from is_node_still_referenced_Inr [OF s2 dist] obtain excl new2 where
    excl: "excl = ids_if_unused ?vis \<inter> node_refs d" "ids_without_if_unused ?vis \<inter> node_refs d = {}"
    and dead: "dead = filter (\<lambda>n. e_id n \<notin> excl) ?vis"
    and ct2: "ct2 = ct1\<lparr>skip_deleted_node_ids := skip_deleted_node_ids ct1 @ new2\<rparr>"
    and acc2: "\<forall>i\<in>excl. map_at (id_to_old_id ?vis) i \<in> om_old_id ` set (skip_deleted_node_ids ct2)"
    unfolding node_refs_def .
  note del = delete_current_nodes_Inr [OF s3]
  note served = del_node.served [OF dist del(2)]
  obtain t where d2: "delete_current_node_tags (map e_id dead) d1 = d1\<lparr>current_node_tags := t\<rparr>"
    using delete_node_tags_eq by blast
  have h: "distinct (map (\<lambda>r. (r_id r, r_version r)) (nodes_tbl (delete_current_node_tags (map e_id dead) d1)))"
    unfolding d2 unfolding del(1) using ok by (simp add: nodes_ok_def hist_ok_def)
  note sv = save_nodes_Inr [OF s4 h]
  have d': "d' = d\<lparr>current_nodes := fst ?u, current_node_tags := t,
      nodes_tbl := nodes_tbl d @ select_any (map e_id dead) (fst ?u)\<rparr>"
    unfolding sv(1) unfolding d2 unfolding del(1) by simp
  let ?S = "om_old_id ` set (skip_deleted_node_ids ct @ new1 @ new2)"
  have acc: "n \<in> set dead \<or> e_if_unused n \<and> e_old_id n \<in> ?S" if af: "alias_free ns" and n: "n \<in> set ns" for n
  proof -
    have "e_id n \<notin> found \<and> e_id n \<notin> excl \<or> e_if_unused n \<and> e_old_id n \<in> ?S"
    proof (rule skipped_or_kept [OF af n found(2)])
      show "\<forall>i\<in>found. i \<in> ids_if_unused ns \<longrightarrow> map_at (id_to_old_id ns) i \<in> ?S" using acc1 by auto
      show "excl \<inter> ids_without_if_unused ?vis = {}" using excl by blast
      show "\<forall>i\<in>excl. map_at (id_to_old_id ?vis) i \<in> ?S" using acc2 by (simp add: ct2 ct1)
    qed
    with n dead show ?thesis by simp
  qed
  have unref: "e_id ` set dead \<inter> node_refs d = {}"
    using kept_unreferenced [of ?vis "node_refs d" excl] excl by (auto simp: dead)
  have vis: "\<exists>r\<in>set (current_nodes d). r_id r = e_id n \<and> r_visible r \<and> r_version r = e_version n"
    if n: "n \<in> set dead" for n
  proof -
    from served(2) [OF n] obtain r where r: "r \<in> set (current_nodes d)" "r_id r = e_id n"
      "r_version r = e_version n" by blast
    from n dead have "e_id n \<notin> found" "n \<in> set ns" by auto
    with found(1) r have "r_visible r" by auto
    with r show ?thesis by blast
  qed
  have "nodes_ok d'"
    unfolding nodes_ok_def
  proof
    show "hist_ok (current_nodes d') (nodes_tbl d')"
      using del_node.batch_hist_ok [of "current_nodes d" "nodes_tbl d" dead "map e_id dead" "db_now d"] ok sv(2)
      unfolding d' d2 unfolding del(1) by (simp add: nodes_ok_def)
    show "\<forall>r\<in>set (current_nodes d'). r_id r \<le> node_id_seq d'"
      using ok unfolding d' by simp (intro del_node.batch_id_bound, simp add: nodes_ok_def)
  qed
  moreover have "e_id ` set ns \<subseteq> r_id ` set (current_nodes d)" using lock by (simp add: lock_current_nodes_Inr)
  moreover have "visible_id (current_nodes d') i" if "visible_id (current_nodes d) i" "i \<notin> e_id ` set dead" for i
    using del_node.batch_visible [OF that(1)] that(2) by (auto simp: d')
  moreover have "set (map (\<lambda>r. map_at (id_to_old_id dead) (r_id r)) (snd ?u)) = e_old_id ` set dead"
    by (simp add: del_node.recorded_set [OF dist del(2)])
  moreover have "set dead \<subseteq> set ns" using dead by auto
  ultimately show ?thesis
    using unref vis acc del_node.batch_is_sequential [OF dist del(2)]
    unfolding delete_step_def prod.case
    by (intro conjI exI [of _ "map (\<lambda>r. map_at (id_to_old_id dead) (r_id r)) (snd ?u)"]
          exI [of _ "new1 @ new2"])
      (simp_all add: d' node_frame_def del(3) ct2 ct1)
qed

lemma process_delete_nodes_Inr:
  assumes "process_delete_nodes (d, ct, u) = Inr (d', ct', u')" and ok: "nodes_ok d"
  obtains ns dead new where
    "replace_old_ids_in_nodes (delete_nodes u) (created_node_ids ct) = Inr ns"
    "delete_step ns dead (d, ct) (d', ct')"
    "delete_nodes u' = []" "create_nodes u' = create_nodes u" "modify_nodes u' = modify_nodes u"
    "nu_bbox u' = expand (nu_bbox u) (calc_node_bbox (sort_unique (map e_id ns)) d)"
proof -
  from assms(1) obtain ns found ct1 dead ct2 d1 where
    ns: "replace_old_ids_in_nodes (delete_nodes u) (created_node_ids ct) = Inr ns" and
    lock: "lock_current_nodes (sort_unique (map e_id ns)) d = Inr ()" and
    s1: "determine_already_deleted_nodes ns (d, ct) = Inr (found, ct1)" and
    s2: "is_node_still_referenced (filter (\<lambda>n. e_id n \<notin> found) ns) (d, ct1) = Inr (dead, ct2)" and
    s3: "delete_current_nodes dead (d, ct2) = Inr (d1, ct')" and
    s4: "save_current_nodes_to_history (map e_id dead) (delete_current_node_tags (map e_id dead) d1) = Inr d'" and
    u': "u' = u\<lparr>nu_bbox := expand (nu_bbox u) (calc_node_bbox (sort_unique (map e_id ns)) d), delete_nodes := []\<rparr>"
    by (auto simp: process_delete_nodes_def Let_def result_simps split: prod.splits)
  have "delete_step ns dead (d, ct) (d', ct')"
    by (rule delete_nodes_selected [OF ok lock s1 s2 s3 s4])
  with ns u' show ?thesis by (intro that) auto
qed

lemma process_delete_nodes_inv:
  assumes "process_delete_nodes (d, ct, u) = Inr (d', ct', u')" and inv: "upload_inv s0 d ct"
  shows "upload_inv s0 d' ct'"
proof -
  have ok: "nodes_ok d" and db: "db_ok d" using inv by (simp_all add: upload_inv_def db_ok_def)
  from process_delete_nodes_Inr [OF assms(1) ok] obtain ns dead where
    step: "delete_step ns dead (d, ct) (d', ct')" .
  have "db_ok d'"
  proof (rule db_ok_node_frame [OF db])
    fix i assume vis: "visible_id (current_nodes d) i"
      and "i \<in> (\<lambda>(w, n, s). n) ` set (current_way_nodes d) \<or>
        i \<in> m_member_id ` set (filter (\<lambda>m. m_member_type m = ''Node'') (current_relation_members d))"
    then have "i \<in> node_refs d" by (simp add: node_refs_eq)
    with step vis show "visible_id (current_nodes d') i" unfolding delete_step_def by blast
  qed (use step in \<open>auto simp: delete_step_def\<close>)
  moreover have "created_ok s0 d' ct'"
  proof (rule created_ok_same)
    show "created_ok s0 d ct" using inv by (simp add: upload_inv_def)
    fix t show "created_ids t ct' = created_ids t ct \<and> id_seq t d' = id_seq t d"
      using step by (cases t) (auto simp: delete_step_def node_frame_def)
  qed
  ultimately show ?thesis by (simp add: upload_inv_def)
qed

section \<open>The node updater fulfils the interface\<close>

lemma process_new_nodes_ct:
  assumes "process_new_nodes (d, ct, u) = Inr (d', ct', u')" "upload_inv s0 d ct"
    "\<forall>n\<in>set (create_nodes u). creates_ok n"
  shows "ct_extends ct ct' \<and> (\<forall>n\<in>set (create_nodes u). accounted ct' (change_item op_create ot_node n))"
proof -
  have ok: "nodes_ok d" using assms(2) by (simp add: upload_inv_def db_ok_def)
  from process_new_nodes_Inr [OF assms(1) ok assms(3)] have
    ct': "ct' = ct\<lparr>created_node_ids := created_node_ids ct @
       created_mappings (ids_mapping (node_id_seq d) (map e_old_id (create_nodes u)))\<rparr>" by metis
  have "accounted ct' (change_item op_create ot_node n)" if "n \<in> set (create_nodes u)" for n
    by (rule accounted_created [OF _ that]) (simp add: ct')
  moreover have "ct_extends ct ct'" by (simp add: ct' ct_extends_def all_object_type)
  ultimately show ?thesis by blast
qed

lemma process_modify_nodes_ct:
  assumes "process_modify_nodes (d, ct, u) = Inr (d', ct', u')" "upload_inv s0 d ct"
  shows "ct_extends ct ct' \<and> (\<forall>n\<in>set (modify_nodes u). accounted ct' (change_item op_modify ot_node n))"
proof -
  have ok: "nodes_ok d" using assms(2) by (simp add: upload_inv_def db_ok_def)
  from process_modify_nodes_Inr [OF assms(1) ok] obtain ns where
    ns: "replace_old_ids_in_nodes (modify_nodes u) (created_node_ids ct) = Inr ns" and
    step: "modify_step ns (d, ct, nu_bbox u) (d', ct', nu_bbox u')" .
  from step obtain mps where ct': "ct' = ct\<lparr>modified_node_ids := modified_node_ids ct @ mps\<rparr>"
    and mps: "\<forall>n\<in>set ns. modified_by mps n" by (auto simp: modify_step_def)
  show ?thesis
  proof (intro conjI ballI)
  show "ct_extends ct ct'" by (simp add: ct' ct_extends_def all_object_type)
  fix n assume n: "n \<in> set (modify_nodes u)"
  from replace_old_ids_in_nodes_Inr [OF ns] n obtain f where f: "f \<in> set ns"
    "e_old_id f = e_old_id n" "e_version f = e_version n" "e_if_unused f = e_if_unused n"
    by (metis resolved_from)
  have "accounted ct' (change_item op_modify ot_node f)"
    by (rule accounted_modified [of mps]) (use mps f(1) ct' in auto)
  then show "accounted ct' (change_item op_modify ot_node n)"
    by (simp only: change_item_cong [OF f(2-4)])
  qed
qed

lemma process_delete_nodes_ct:
  assumes "process_delete_nodes (d, ct, u) = Inr (d', ct', u')" and inv: "upload_inv s0 d ct"
    and named: "\<forall>n\<in>set (delete_nodes u). named_ok (s0 ot_node) n"
  shows "ct_extends ct ct' \<and> (\<forall>n\<in>set (delete_nodes u). accounted ct' (change_item op_delete ot_node n))"
proof -
  have ok: "nodes_ok d" using inv by (simp add: upload_inv_def db_ok_def)
  from process_delete_nodes_Inr [OF assms(1) ok] obtain ns dead where
    ns: "replace_old_ids_in_nodes (delete_nodes u) (created_node_ids ct) = Inr ns" and
    step: "delete_step ns dead (d, ct) (d', ct')" .
  note res = replace_old_ids_in_nodes_Inr [OF ns]
  have af: "alias_free ns" by (rule created_ok_alias_free [OF inv res [folded created_ids.simps(1)] named])
  from step obtain del skip where
    ct': "ct' = ct\<lparr>deleted_node_ids := deleted_node_ids ct @ del,
                  skip_deleted_node_ids := skip_deleted_node_ids ct @ skip\<rparr>"
    and del: "set del = e_old_id ` set dead"
    and acc: "\<forall>n\<in>set ns. n \<in> set dead \<or>
           e_if_unused n \<and> e_old_id n \<in> om_old_id ` set (skip_deleted_node_ids ct @ skip)"
    using af unfolding delete_step_def by auto
  show ?thesis
  proof (intro conjI ballI)
  show "ct_extends ct ct'" by (simp add: ct' ct_extends_def all_object_type)
  fix n assume n: "n \<in> set (delete_nodes u)"
  from resolved_from [OF res n] obtain f where f: "f \<in> set ns"
    "e_old_id f = e_old_id n" "e_version f = e_version n" "e_if_unused f = e_if_unused n" by blast
  have "accounted ct' (change_item op_delete ot_node f)"
    by (rule accounted_deleted) (use acc f(1) del ct' in auto)
  then show "accounted ct' (change_item op_delete ot_node n)"
    by (simp only: change_item_cong [OF f(2-4)])
  qed
qed

lemma process_nodes_buffers:
  "process_new_nodes (d, ct, u) = Inr (d', ct', u') \<Longrightarrow>
     create_nodes u' = [] \<and> modify_nodes u' = modify_nodes u \<and> delete_nodes u' = delete_nodes u"
  "process_modify_nodes (d, ct, u) = Inr (d', ct', u') \<Longrightarrow>
     modify_nodes u' = [] \<and> create_nodes u' = create_nodes u \<and> delete_nodes u' = delete_nodes u"
  "process_delete_nodes (d, ct, u) = Inr (d', ct', u') \<Longrightarrow>
     delete_nodes u' = [] \<and> create_nodes u' = create_nodes u \<and> modify_nodes u' = modify_nodes u"
  by (auto simp: process_new_nodes_def process_modify_nodes_def process_delete_nodes_def Let_def
      result_simps split: prod.splits)

interpretation node_upd: element_updater ot_node process_new_nodes process_modify_nodes
    process_delete_nodes create_nodes modify_nodes delete_nodes "\<lambda>_. True"
  by (unfold_locales;
      (rule TrueI | erule process_new_nodes_inv | erule process_new_nodes_ct | erule process_modify_nodes_inv |
       erule process_modify_nodes_ct | erule process_delete_nodes_inv | erule process_delete_nodes_ct |
       erule process_nodes_buffers); assumption)

end
