(* ===== verification/Way_Updater.thy ===== *)
theory Way_Updater
  imports Row_Update
begin

text \<open>
  \<^verbatim>\<open>ApiDB_Way_Updater\<close> (\<^verbatim>\<open>src/backend/apidb/changeset_upload/way_updater.cpp\<close>): pending ways
  with their node lists, the requests that fill them, and the processing steps. A way may refer
  to nodes created earlier in the upload by their placeholder; every node of a way is locked and
  must be visible before the way's node rows are written.
\<close>

section \<open>State\<close>

record way_node_t =
  wn_node_id :: osm_nwr_id_t
  wn_sequence_id :: osm_sequence_id_t
  wn_old_node_id :: osm_nwr_signed_id_t

record way_t = elem_t +
  w_way_nodes :: "way_node_t list"

record way_updater =
  wu_bbox :: bbox_t
  create_ways :: "way_t list"
  modify_ways :: "way_t list"
  delete_ways :: "way_t list"
  wu_create_placeholder_ids :: "int set"

definition init_way_updater :: way_updater where
  "init_way_updater = \<lparr>wu_bbox = default_bbox, create_ways = [], modify_ways = [],
                       delete_ways = [], wu_create_placeholder_ids = {}\<rparr>"

section \<open>Requests\<close>

text \<open>The loop that numbers the node references of a way from 1.\<close>

definition way_nodes_of :: "osm_nwr_signed_id_t list \<Rightarrow> way_node_t list" where
  "way_nodes_of refs =
     map (\<lambda>(k, n). \<lparr>wn_node_id = (if n < 0 then 0 else n), wn_sequence_id = int k + 1,
                    wn_old_node_id = n\<rparr>) (List.enumerate 0 refs)"

text \<open>The two assertions on the number of nodes; \<open>max_nodes\<close> is \<^verbatim>\<open>get_way_max_nodes()\<close>.\<close>

definition assert_way_nodes :: "nat \<Rightarrow> osm_nwr_signed_id_t list \<Rightarrow> unit result" where
  "assert_way_nodes max_nodes refs =
     bindE (throw_if (refs = []) (assertion_failed ''nodes.size() > 0'')) (\<lambda>_.
     throw_if (length refs > max_nodes) (assertion_failed ''nodes.size() <= get_way_max_nodes()''))"

definition add_way :: "nat \<Rightarrow> osm_changeset_id_t \<Rightarrow> osm_nwr_signed_id_t \<Rightarrow> osm_nwr_signed_id_t list \<Rightarrow>
    (string \<times> string) list \<Rightarrow> OSMChange_Tracking \<times> way_updater \<Rightarrow>
    (OSMChange_Tracking \<times> way_updater) result" where
  "add_way max_nodes changeset_id old_id refs tags = (\<lambda>(ct, u).
     if 0 \<le> old_id
     then Inl (bad_request ''Placeholder IDs must be negative for created elements.'')
     else bindE (assert_way_nodes max_nodes refs) (\<lambda>_.
          let new_way = \<lparr>e_id = 0, e_version = 1, e_changeset_id = changeset_id, e_old_id = old_id,
                         e_tags = tags, e_if_unused = False, w_way_nodes = way_nodes_of refs\<rparr>
          in Inr (track op_create ot_way new_way ct, u\<lparr>create_ways := create_ways u @ [new_way]\<rparr>)))"

definition modify_way :: "nat \<Rightarrow> osm_changeset_id_t \<Rightarrow> osm_nwr_id_t \<Rightarrow> osm_version_t \<Rightarrow>
    osm_nwr_signed_id_t list \<Rightarrow> (string \<times> string) list \<Rightarrow> OSMChange_Tracking \<times> way_updater \<Rightarrow>
    (OSMChange_Tracking \<times> way_updater) result" where
  "modify_way max_nodes changeset_id i version refs tags = (\<lambda>(ct, u).
     bindE (assert_way_nodes max_nodes refs) (\<lambda>_.
     let w = \<lparr>e_id = i, e_version = version, e_changeset_id = changeset_id, e_old_id = s64 i,
              e_tags = tags, e_if_unused = False, w_way_nodes = way_nodes_of refs\<rparr>
     in Inr (track op_modify ot_way w ct, u\<lparr>modify_ways := modify_ways u @ [w]\<rparr>)))"

definition delete_way :: "osm_changeset_id_t \<Rightarrow> osm_nwr_id_t \<Rightarrow> osm_version_t \<Rightarrow> bool \<Rightarrow>
    OSMChange_Tracking \<times> way_updater \<Rightarrow> (OSMChange_Tracking \<times> way_updater) result" where
  "delete_way changeset_id i version if_unused = (\<lambda>(ct, u).
     let w = \<lparr>e_id = i, e_version = version, e_changeset_id = changeset_id, e_old_id = s64 i,
              e_tags = [], e_if_unused = if_unused, w_way_nodes = []\<rparr>
     in Inr (track op_delete ot_way w ct, u\<lparr>delete_ways := delete_ways u @ [w]\<rparr>))"

section \<open>Database steps\<close>

definition replace_old_ids_in_way_member :: "way_t \<Rightarrow> (int \<rightharpoonup> int) \<Rightarrow> way_t result" where
  "replace_old_ids_in_way_member cw map_nodes =
     bindE (mapE (\<lambda>wn. if 0 \<le> wn_old_node_id wn then Inr wn
                       else case map_nodes (wn_old_node_id wn) of
                              None \<Rightarrow> Inl (bad_request (''Placeholder node not found for reference '' @
                                       fmt_d (wn_old_node_id wn) @ '' in way '' @ fmt_d (e_old_id cw)))
                            | Some i \<Rightarrow> Inr (wn\<lparr>wn_node_id := i\<rparr>)) (w_way_nodes cw))
       (\<lambda>wns. Inr (cw\<lparr>w_way_nodes := wns\<rparr>))"

definition replace_old_ids_in_ways ::
    "way_t list \<Rightarrow> object_id_mapping_t list \<Rightarrow> object_id_mapping_t list \<Rightarrow> way_t list result" where
  "replace_old_ids_in_ways ws created_nodes created_ways =
     bindE (placeholder_map ''way'' created_ways) (\<lambda>map_ways.
     bindE (placeholder_map ''node'' created_nodes) (\<lambda>map_nodes.
     mapE (\<lambda>cw. bindE (replace_own_id ''way'' map_ways cw)
                   (\<lambda>cw. replace_old_ids_in_way_member cw map_nodes)) ws))"

definition way_check_unique_placeholder_ids :: "way_t list \<Rightarrow> int set \<Rightarrow> int set result" where
  "way_check_unique_placeholder_ids ws ids = check_unique_placeholders ws ids"

definition insert_new_ways_to_current_table ::
    "way_t list \<Rightarrow> db \<times> OSMChange_Tracking \<Rightarrow> (db \<times> OSMChange_Tracking) result" where
  "insert_new_ways_to_current_table ws = (\<lambda>(d, ct).
     let mp = ids_mapping (way_id_seq d) (map e_old_id ws);
         rows = joined_rows (new_elem_row (db_now d)) ws mp
     in bindE (insert_rows r_id rows (current_ways d)) (\<lambda>tbl.
        bindE (throw_if (length mp \<noteq> length ws)
                 (server_error ''Could not create all new ways in current table'')) (\<lambda>_.
        Inr (d\<lparr>current_ways := tbl, way_id_seq := way_id_seq d + int (length ws)\<rparr>,
             ct\<lparr>created_way_ids := created_way_ids ct @ created_mappings mp\<rparr>))))"

text \<open>The positions of the nodes of the given ways, by the join of the three tables.\<close>

definition way_positions :: "int list \<Rightarrow> db \<Rightarrow> (int \<times> int) list" where
  "way_positions ids d =
     concat (map (\<lambda>cn. concat (map (\<lambda>(way_id, node_id, _).
         map (\<lambda>_. (r_latitude cn, r_longitude cn))
           (filter (\<lambda>w. r_id cn = node_id \<and> way_id = r_id w \<and> r_id w \<in> set ids) (current_ways d)))
       (current_way_nodes d))) (current_nodes d))"

definition calc_way_bbox :: "int list \<Rightarrow> db \<Rightarrow> bbox_t" where
  "calc_way_bbox ids d =
     (if ids = [] then default_bbox
      else extract_bbox_from_row (aggregate_bbox (way_positions ids d)) default_bbox)"

definition lock_current_ways :: "int list \<Rightarrow> db \<Rightarrow> unit result" where
  "lock_current_ways ids d =
     (if ids = [] then Inr ()
      else let missing = except_ids ids (map r_id (select_any ids (current_ways d))) in
        throw_if (missing \<noteq> [])
          (not_found (''The following way ids are unknown: '' @ join_comma (map fmt_d missing))))"

definition way_build_packages :: "way_t list \<Rightarrow> way_t list list result" where
  "way_build_packages ws = build_packages_by e_id ws"

definition check_current_way_versions :: "way_t list \<Rightarrow> db \<Rightarrow> unit result" where
  "check_current_way_versions ws d =
     (if ws = [] then Inr ()
      else case version_mismatch (map (\<lambda>w. (e_id w, e_version w)) ws) (current_ways d) of
             [] \<Rightarrow> Inr ()
           | (i, expected, actual) # _ \<Rightarrow>
               Inl (conflict (''Version mismatch: Provided '' @ fmt_d expected @ '', server had: '' @
                              fmt_d actual @ '' of Way '' @ fmt_d i)))"

definition determine_already_deleted_ways ::
    "way_t list \<Rightarrow> db \<times> OSMChange_Tracking \<Rightarrow> (int set \<times> OSMChange_Tracking) result" where
  "determine_already_deleted_ways ws = (\<lambda>(d, ct).
     if ws = [] then Inr ({}, ct)
     else bindE (foldE (already_deleted_step ''way'' ws)
                   (filter (\<lambda>r. \<not> r_visible r) (select_any (map e_id ws) (current_ways d)))
                   ({}, skip_deleted_way_ids ct))
            (\<lambda>(found, skipped). Inr (found, ct\<lparr>skip_deleted_way_ids := skipped\<rparr>)))"

definition way_refs :: "way_t \<Rightarrow> int list" where
  "way_refs w = map wn_node_id (w_way_nodes w)"

definition lock_future_nodes :: "way_t list \<Rightarrow> db \<Rightarrow> unit result" where
  "lock_future_nodes ws d =
     require_visible ''Way'' ''nodes'' way_refs ws (concat (map way_refs ws)) (current_nodes d)"

definition update_current_ways ::
    "way_t list \<Rightarrow> bool \<Rightarrow> db \<times> OSMChange_Tracking \<Rightarrow> (db \<times> OSMChange_Tracking) result" where
  "update_current_ways ws visible = (\<lambda>(d, ct).
     if ws = [] then Inr (d, ct)
     else
       let (tbl, returned) = update_from elem_match (updated_elem_row (db_now d) visible) ws (current_ways d)
       in bindE (throw_if (length returned \<noteq> length ws)
                   (server_error ''Could not update all current ways'')) (\<lambda>_.
          if visible
          then bindE (mapE (row_mapping ws) returned) (\<lambda>mps.
               Inr (d\<lparr>current_ways := tbl\<rparr>, ct\<lparr>modified_way_ids := modified_way_ids ct @ mps\<rparr>))
          else Inr (d\<lparr>current_ways := tbl\<rparr>,
                    ct\<lparr>deleted_way_ids := deleted_way_ids ct @
                         map (\<lambda>r. map_at (id_to_old_id ws) (r_id r)) returned\<rparr>)))"

definition insert_new_current_way_tags :: "way_t list \<Rightarrow> db \<Rightarrow> (int list \<times> db) result" where
  "insert_new_current_way_tags ws d =
     (if ws = [] then Inr ([], d)
      else bindE (insert_rows (\<lambda>(i, k, _). (i, k)) (elem_tag_rows ws) (current_way_tags d)) (\<lambda>tbl.
           Inr (sort_unique (map fst (elem_tag_rows ws)), d\<lparr>current_way_tags := tbl\<rparr>)))"

definition way_node_rows :: "way_t list \<Rightarrow> way_node_row list" where
  "way_node_rows ws = concat (map (\<lambda>w. map (\<lambda>wn. (e_id w, wn_node_id wn, wn_sequence_id wn)) (w_way_nodes w)) ws)"

definition insert_new_current_way_nodes :: "way_t list \<Rightarrow> db \<Rightarrow> db result" where
  "insert_new_current_way_nodes ws d =
     (if ws = [] then Inr d
      else bindE (insert_rows (\<lambda>(w, _, s). (w, s)) (way_node_rows ws) (current_way_nodes d)) (\<lambda>tbl.
           Inr (d\<lparr>current_way_nodes := tbl\<rparr>)))"

definition save_current_ways_to_history :: "int list \<Rightarrow> db \<Rightarrow> db result" where
  "save_current_ways_to_history ids d =
     (if ids = [] then Inr d
      else let rows = select_any ids (current_ways d) in
        bindE (insert_rows (\<lambda>r. (r_id r, r_version r)) rows (ways_tbl d)) (\<lambda>tbl.
        bindE (throw_if (length rows \<noteq> length ids)
                 (server_error ''Could not save current ways to history'')) (\<lambda>_.
        Inr (d\<lparr>ways_tbl := tbl\<rparr>))))"

definition way_nodes_to_history :: "int list \<Rightarrow> way_node_row list \<Rightarrow> way_row list \<Rightarrow> hist_way_node_row list" where
  "way_nodes_to_history ids wns ws =
     concat (map (\<lambda>(w, n, s). map (\<lambda>r. (w, n, r_version r, s))
       (filter (\<lambda>r. w = r_id r \<and> r_id r \<in> set ids) ws)) wns)"

definition save_current_way_nodes_to_history :: "int list \<Rightarrow> db \<Rightarrow> db result" where
  "save_current_way_nodes_to_history ids d =
     (if ids = [] then Inr d
      else bindE (insert_rows (\<lambda>(w, _, ver, s). (w, ver, s))
                    (way_nodes_to_history ids (current_way_nodes d) (current_ways d)) (way_nodes_tbl d)) (\<lambda>tbl.
           Inr (d\<lparr>way_nodes_tbl := tbl\<rparr>)))"

definition save_current_way_tags_to_history :: "int list \<Rightarrow> db \<Rightarrow> db result" where
  "save_current_way_tags_to_history ids d =
     (if ids = [] then Inr d
      else bindE (insert_rows (\<lambda>(i, ver, k, _). (i, ver, k))
                    (tags_to_history ids (current_way_tags d) (current_ways d)) (way_tags_tbl d)) (\<lambda>tbl.
           Inr (d\<lparr>way_tags_tbl := tbl\<rparr>)))"

definition is_way_still_referenced ::
    "way_t list \<Rightarrow> db \<times> OSMChange_Tracking \<Rightarrow> (way_t list \<times> OSMChange_Tracking) result" where
  "is_way_still_referenced ws = (\<lambda>(d, ct).
     if ws = [] then Inr (ws, ct)
     else
       bindE (foldE (still_referenced_step ''Way'' ''relations'' ws)
                (referenced_by (map e_id ws) (member_refs ''Way'' d)) {}) (\<lambda>excl.
       bindE (exclude_referenced ''ways'' ws excl (current_ways d) (skip_deleted_way_ids ct)) (\<lambda>(ws', skipped).
       Inr (ws', ct\<lparr>skip_deleted_way_ids := skipped\<rparr>))))"

definition delete_current_way_tags :: "int list \<Rightarrow> db \<Rightarrow> db" where
  "delete_current_way_tags ids d =
     (if ids = [] then d
      else d\<lparr>current_way_tags := delete_tags_any ids (current_way_tags d)\<rparr>)"

definition delete_current_way_nodes :: "int list \<Rightarrow> db \<Rightarrow> db" where
  "delete_current_way_nodes ids d =
     (if ids = [] then d
      else d\<lparr>current_way_nodes := filter (\<lambda>(w, _). w \<notin> set ids) (current_way_nodes d)\<rparr>)"

section \<open>Processing\<close>

definition process_new_ways ::
    "db \<times> OSMChange_Tracking \<times> way_updater \<Rightarrow> (db \<times> OSMChange_Tracking \<times> way_updater) result" where
  "process_new_ways = (\<lambda>(d, ct, u).
     bindE (way_check_unique_placeholder_ids (create_ways u) (wu_create_placeholder_ids u)) (\<lambda>phs.
     bindE (insert_new_ways_to_current_table (create_ways u) (d, ct)) (\<lambda>(d1, ct1).
     bindE (replace_old_ids_in_ways (create_ways u) (created_node_ids ct1) (created_way_ids ct1)) (\<lambda>ws.
     let ids = sort_unique (map e_id ws) in
     bindE (lock_future_nodes ws d1) (\<lambda>_.
     bindE (insert_new_current_way_tags ws d1) (\<lambda>(ids_with_tags, d2).
     bindE (insert_new_current_way_nodes ws d2) (\<lambda>d3.
     bindE (save_current_ways_to_history ids d3) (\<lambda>d4.
     bindE (save_current_way_tags_to_history ids_with_tags d4) (\<lambda>d5.
     bindE (save_current_way_nodes_to_history ids d5) (\<lambda>d6.
     Inr (d6, ct1, u\<lparr>wu_bbox := expand (wu_bbox u) (calc_way_bbox ids d6),
                     create_ways := [], wu_create_placeholder_ids := phs\<rparr>)))))))))))"

text \<open>
  The body of the loop over the packages; \<open>all_ids\<close> are the ids of all modified ways, which
  the box after the update covers.
\<close>

definition modify_ways_package ::
    "int list \<Rightarrow> way_t list \<Rightarrow> db \<times> OSMChange_Tracking \<times> bbox_t \<Rightarrow>
       (db \<times> OSMChange_Tracking \<times> bbox_t) result" where
  "modify_ways_package all_ids ws = (\<lambda>(d, ct, bb).
     let ids = sort_unique (map e_id ws) in
     bindE (check_current_way_versions ws d) (\<lambda>_.
     bindE (lock_future_nodes ws d) (\<lambda>_.
     let bb1 = expand bb (calc_way_bbox ids d);
         d1 = delete_current_way_nodes ids (delete_current_way_tags ids d) in
     bindE (update_current_ways ws True (d1, ct)) (\<lambda>(d2, ct2).
     bindE (insert_new_current_way_tags ws d2) (\<lambda>(ids_with_tags, d3).
     bindE (insert_new_current_way_nodes ws d3) (\<lambda>d4.
     bindE (save_current_ways_to_history ids d4) (\<lambda>d5.
     bindE (save_current_way_tags_to_history ids_with_tags d5) (\<lambda>d6.
     bindE (save_current_way_nodes_to_history ids d6) (\<lambda>d7.
     Inr (d7, ct2, expand bb1 (calc_way_bbox all_ids d7)))))))))))"

definition process_modify_ways ::
    "db \<times> OSMChange_Tracking \<times> way_updater \<Rightarrow> (db \<times> OSMChange_Tracking \<times> way_updater) result" where
  "process_modify_ways = (\<lambda>(d, ct, u).
     bindE (replace_old_ids_in_ways (modify_ways u) (created_node_ids ct) (created_way_ids ct)) (\<lambda>ws.
     let ids = sort_unique (map e_id ws) in
     bindE (lock_current_ways ids d) (\<lambda>_.
     bindE (way_build_packages ws) (\<lambda>packages.
     bindE (foldE (modify_ways_package ids) packages (d, ct, wu_bbox u)) (\<lambda>(d1, ct1, bb).
     Inr (d1, ct1, u\<lparr>wu_bbox := bb, modify_ways := []\<rparr>))))))"

definition process_delete_ways ::
    "db \<times> OSMChange_Tracking \<times> way_updater \<Rightarrow> (db \<times> OSMChange_Tracking \<times> way_updater) result" where
  "process_delete_ways = (\<lambda>(d, ct, u).
     bindE (replace_old_ids_in_ways (delete_ways u) (created_node_ids ct) (created_way_ids ct)) (\<lambda>ws.
     let ids = sort_unique (map e_id ws) in
     bindE (lock_current_ways ids d) (\<lambda>_.
     bindE (determine_already_deleted_ways ws (d, ct)) (\<lambda>(already_deleted, ct1).
     let visible = filter (\<lambda>w. e_id w \<notin> already_deleted) ws in
     bindE (check_current_way_versions visible d) (\<lambda>_.
     bindE (is_way_still_referenced visible (d, ct1)) (\<lambda>(unreferenced, ct2).
     let bb = expand (wu_bbox u) (calc_way_bbox ids d) in
     bindE (update_current_ways unreferenced False (d, ct2)) (\<lambda>(d1, ct3).
     let ids_unreferenced = map e_id unreferenced in
     bindE (save_current_ways_to_history ids_unreferenced
              (delete_current_way_nodes ids_unreferenced
                (delete_current_way_tags ids_unreferenced d1))) (\<lambda>d2.
     Inr (d2, ct3, u\<lparr>wu_bbox := bb, delete_ways := []\<rparr>)))))))))"

end
