(* ===== verification/Way_Correct.thy ===== *)
theory Way_Correct
  imports Way_Updater Updater_Interface
begin

text \<open>
  The way updater keeps the upload invariant (the nodes of every current way stay visible),
  accounts for every pending way it processes, and its batched modification equals the
  modifications applied one by one, on the way rows and on the node lists.
\<close>

section \<open>Frame\<close>

definition way_frame :: "db \<Rightarrow> db \<Rightarrow> bool" where
  "way_frame d d' \<longleftrightarrow>
     current_nodes d' = current_nodes d \<and> nodes_tbl d' = nodes_tbl d \<and> node_id_seq d' = node_id_seq d \<and>
     current_relations d' = current_relations d \<and>
     current_relation_members d' = current_relation_members d \<and>
     relations_tbl d' = relations_tbl d \<and> relation_id_seq d' = relation_id_seq d \<and>
     db_now d' = db_now d"

lemma way_frame_refl [simp]: "way_frame d d"
  by (simp add: way_frame_def)

lemma way_frame_trans: "way_frame a b \<Longrightarrow> way_frame b c \<Longrightarrow> way_frame a c"
  by (simp add: way_frame_def)

definition way_nodes_ok :: "db \<Rightarrow> bool" where
  "way_nodes_ok d \<longleftrightarrow> (\<forall>(w, n, s)\<in>set (current_way_nodes d).
     visible_id (current_nodes d) n \<and> visible_id (current_ways d) w)"

lemma db_ok_way_frame:
  assumes "db_ok d" "way_frame d d'" "ways_ok d'" "way_nodes_ok d'"
    and vis: "\<And>i. visible_id (current_ways d) i \<Longrightarrow> i \<in> fst ` set (member_refs ''Way'' d) \<Longrightarrow>
      visible_id (current_ways d') i"
  shows "db_ok d'"
proof -
  have "member_visible d' (m_member_type m) (m_member_id m) \<and> visible_id (current_relations d') (m_relation_id m)"
    if "m \<in> set (current_relation_members d')" for m
  proof -
    from that assms(2) have m: "m \<in> set (current_relation_members d)" by (simp add: way_frame_def)
    with assms(1) have "member_visible d (m_member_type m) (m_member_id m)"
      "visible_id (current_relations d) (m_relation_id m)" by (simp_all add: db_ok_def refs_ok_def)
    moreover have "m_member_type m = ''Way'' \<Longrightarrow> m_member_id m \<in> fst ` set (member_refs ''Way'' d)"
      using m by (force simp: member_refs_def)
    ultimately show ?thesis using vis assms(2) by (auto simp: member_visible_def way_frame_def)
  qed
  with assms(1-4) show ?thesis
    by (auto simp: db_ok_def nodes_ok_def relations_ok_def way_frame_def refs_ok_def way_nodes_ok_def)
qed

section \<open>The steps, one by one\<close>

lemma insert_new_ways_Inr:
  assumes "insert_new_ways_to_current_table ws (d, ct) = Inr (d', ct')"
  obtains new where
    "d' = d\<lparr>current_ways := current_ways d @ new, way_id_seq := way_id_seq d + int (length ws)\<rparr>"
    "distinct (map r_id (current_ways d @ new))"
    "r_id ` set new = {way_id_seq d<..way_id_seq d + int (length ws)}"
    "\<forall>r\<in>set new. r_visible r \<and> r_version r = 1"
    "ct' = ct\<lparr>created_way_ids := created_way_ids ct @
       created_mappings (ids_mapping (way_id_seq d) (map e_old_id ws))\<rparr>"
proof -
  let ?rows = "joined_rows (new_elem_row (db_now d)) ws (ids_mapping (way_id_seq d) (map e_old_id ws))"
  have ids: "r_id ` set ?rows = {way_id_seq d<..way_id_seq d + int (length ws)}"
    by (rule joined_rows_ids) (simp add: new_elem_row_def)
  have rows: "\<forall>r\<in>set ?rows. r_visible r \<and> r_version r = 1"
    by (rule joined_rows_all) (simp add: new_elem_row_def)
  show ?thesis
    by (rule that [of ?rows])
      (use assms ids rows in \<open>auto simp: insert_new_ways_to_current_table_def Let_def
        result_simps insert_rows_Inr\<close>)
qed

lemma insert_way_tags_Inr:
  "insert_new_current_way_tags ws d = Inr (ids, d') \<Longrightarrow> \<exists>t. d' = d\<lparr>current_way_tags := t\<rparr>"
  by (auto simp: insert_new_current_way_tags_def result_simps split: if_splits)
     (metis db.surjective db.update_convs(6))

lemma insert_way_nodes_Inr:
  "insert_new_current_way_nodes ws d = Inr d' \<Longrightarrow>
     d' = d\<lparr>current_way_nodes := current_way_nodes d @ way_node_rows ws\<rparr>"
  by (auto simp: insert_new_current_way_nodes_def result_simps insert_rows_Inr way_node_rows_def split: if_splits)

lemma delete_way_tags_eq: "\<exists>t. delete_current_way_tags ids d = d\<lparr>current_way_tags := t\<rparr>"
proof (cases "ids = []")
  case True
  then have "delete_current_way_tags ids d = d\<lparr>current_way_tags := current_way_tags d\<rparr>"
    by (simp add: delete_current_way_tags_def)
  then show ?thesis by blast
qed (auto simp: delete_current_way_tags_def)

lemma delete_way_nodes_eq:
  "delete_current_way_nodes ids d =
     d\<lparr>current_way_nodes := filter (\<lambda>(w, _). w \<notin> set ids) (current_way_nodes d)\<rparr>"
  by (cases "ids = []") (simp_all add: delete_current_way_nodes_def)

lemma save_ways_Inr:
  assumes "save_current_ways_to_history ids d = Inr d'"
    and "distinct (map (\<lambda>r. (r_id r, r_version r)) (ways_tbl d))"
  shows "d' = d\<lparr>ways_tbl := ways_tbl d @ select_any ids (current_ways d)\<rparr>"
    and "distinct (map (\<lambda>r. (r_id r, r_version r)) (ways_tbl d @ select_any ids (current_ways d)))"
  using assms
  by (auto simp: save_current_ways_to_history_def Let_def result_simps insert_rows_Inr
      select_any_def split: if_splits)

lemma save_way_tags_Inr:
  "save_current_way_tags_to_history ids d = Inr d' \<Longrightarrow> \<exists>t. d' = d\<lparr>way_tags_tbl := t\<rparr>"
  by (auto simp: save_current_way_tags_to_history_def result_simps split: if_splits)
     (metis db.surjective db.update_convs(9))

lemma save_way_nodes_Inr:
  "save_current_way_nodes_to_history ids d = Inr d' \<Longrightarrow> \<exists>t. d' = d\<lparr>way_nodes_tbl := t\<rparr>"
  by (auto simp: save_current_way_nodes_to_history_def result_simps split: if_splits)
     (metis db.surjective db.update_convs(10))

lemma replace_way_member_same:
  "replace_old_ids_in_way_member w m = Inr w' \<Longrightarrow> same_elem w w'"
  by (auto simp: replace_old_ids_in_way_member_def result_simps same_elem_def)

lemma replace_old_ids_in_ways_Inr:
  "replace_old_ids_in_ways ws cn cw = Inr fs \<Longrightarrow> resolved cw ws fs"
  by (auto simp: replace_old_ids_in_ways_def result_simps intro!: resolvedI)
    (metis resolves_same resolves_own_id replace_way_member_same)

text \<open>Locking succeeds exactly when all nodes are there and visible, and never misbehaves.\<close>

lemma lock_future_nodes_Inr:
  "lock_future_nodes ws d = Inr () \<longleftrightarrow> (\<forall>w\<in>set ws. \<forall>n\<in>set (way_refs w). visible_id (current_nodes d) n)"
  by (auto simp: lock_future_nodes_def require_visible_Inr)

lemma lock_future_nodes_error:
  "lock_future_nodes ws d = Inl e \<Longrightarrow> \<exists>msg. e = precondition_failed msg"
  unfolding lock_future_nodes_def by (rule require_visible_error) auto

lemma check_current_way_versions_Inr:
  "check_current_way_versions ws d = Inr () \<longleftrightarrow>
     (\<forall>w\<in>set ws. \<forall>r\<in>set (current_ways d). r_id r = e_id w \<longrightarrow> r_version r = e_version w)"
  using version_mismatch_Nil [of "map (\<lambda>w. (e_id w, e_version w)) ws" "current_ways d"]
  by (auto simp: check_current_way_versions_def split: list.split)

lemma lock_current_ways_Inr:
  "lock_current_ways ids d = Inr () \<longleftrightarrow> set ids \<subseteq> r_id ` set (current_ways d)"
  by (auto simp: lock_current_ways_def Let_def throw_if_def except_ids_Nil select_any_def)

section \<open>New ways\<close>

lemma set_way_node_rows:
  "set (way_node_rows ws) = {(e_id w, wn_node_id n, wn_sequence_id n) |w n. w \<in> set ws \<and> n \<in> set (w_way_nodes w)}"
  by (auto simp: way_node_rows_def)

lemma process_new_ways_Inr:
  assumes "process_new_ways (d, ct, u) = Inr (d', ct', u')"
    and ok: "ways_ok d" and cr: "\<forall>w\<in>set (create_ways u). creates_ok w"
  obtains new ws where
    "current_ways d' = current_ways d @ new" "distinct (map r_id (current_ways d @ new))"
    "r_id ` set new = {way_id_seq d<..way_id_seq d + int (length (create_ways u))}"
    "\<forall>r\<in>set new. r_visible r \<and> r_version r = 1"
    "ways_tbl d' = ways_tbl d @ select_any (sort_unique (map e_id ws)) (current_ways d')"
    "e_id ` set ws = r_id ` set new"
    "distinct (map (\<lambda>r. (r_id r, r_version r)) (ways_tbl d'))"
    "way_id_seq d' = way_id_seq d + int (length (create_ways u))" "way_frame d d'"
    "current_way_nodes d' = current_way_nodes d @ way_node_rows ws"
    "\<forall>w\<in>set ws. \<forall>n\<in>set (way_refs w). visible_id (current_nodes d) n"
    "ct' = ct\<lparr>created_way_ids := created_way_ids ct @
       created_mappings (ids_mapping (way_id_seq d) (map e_old_id (create_ways u)))\<rparr>"
    "replace_old_ids_in_ways (create_ways u) (created_node_ids ct') (created_way_ids ct') = Inr ws"
    "wu_bbox u' = expand (wu_bbox u) (calc_way_bbox (sort_unique (map e_id ws)) d')"
proof -
  let ?ws = "create_ways u"
  from assms(1) obtain d1 ws ids_t d2 d3 d4 d5 where
    s1: "insert_new_ways_to_current_table ?ws (d, ct) = Inr (d1, ct')" and
    s2: "replace_old_ids_in_ways ?ws (created_node_ids ct') (created_way_ids ct') = Inr ws" and
    lk: "lock_future_nodes ws d1 = Inr ()" and
    s3: "insert_new_current_way_tags ws d1 = Inr (ids_t, d2)" and
    s4: "insert_new_current_way_nodes ws d2 = Inr d3" and
    s5: "save_current_ways_to_history (sort_unique (map e_id ws)) d3 = Inr d4" and
    s6: "save_current_way_tags_to_history ids_t d4 = Inr d5" and
    s7: "save_current_way_nodes_to_history (sort_unique (map e_id ws)) d5 = Inr d'" and
    u': "wu_bbox u' = expand (wu_bbox u) (calc_way_bbox (sort_unique (map e_id ws)) d')"
    by (auto simp: process_new_ways_def Let_def result_simps split: prod.splits)
  from insert_new_ways_Inr [OF s1] obtain new where
    d1: "d1 = d\<lparr>current_ways := current_ways d @ new, way_id_seq := way_id_seq d + int (length ?ws)\<rparr>"
    and new: "distinct (map r_id (current_ways d @ new))"
      "r_id ` set new = {way_id_seq d<..way_id_seq d + int (length ?ws)}"
      "\<forall>r\<in>set new. r_visible r \<and> r_version r = 1"
    and ct': "ct' = ct\<lparr>created_way_ids := created_way_ids ct @
       created_mappings (ids_mapping (way_id_seq d) (map e_old_id ?ws))\<rparr>" .
  from insert_way_tags_Inr [OF s3] obtain t2 where d2: "d2 = d1\<lparr>current_way_tags := t2\<rparr>" by blast
  note d3 = insert_way_nodes_Inr [OF s4]
  have h: "distinct (map (\<lambda>r. (r_id r, r_version r)) (ways_tbl d3))"
    using ok by (simp add: d3 d2 d1 ways_ok_def hist_ok_def)
  note d4 = save_ways_Inr [OF s5 h]
  from save_way_tags_Inr [OF s6] obtain t5 where d5: "d5 = d4\<lparr>way_tags_tbl := t5\<rparr>" by blast
  from save_way_nodes_Inr [OF s7] obtain t6 where d': "d' = d5\<lparr>way_nodes_tbl := t6\<rparr>" by blast
  note res = replace_old_ids_in_ways_Inr [OF s2]
  have ids: "e_id ` set ws = {way_id_seq d<..way_id_seq d + int (length ?ws)}"
    by (rule resolved_batch_ids [of "created_way_ids ct"]) (use res cr in \<open>simp_all add: ct' creates_ok_def\<close>)
  have vis: "\<forall>w\<in>set ws. \<forall>n\<in>set (way_refs w). visible_id (current_nodes d) n"
    using lk by (simp add: lock_future_nodes_Inr d1)
  show ?thesis
    by (rule that [of new ws])
      (use new ids vis d4 u' ct' s2 in \<open>simp_all add: d' d5 d3 d2 d1 way_frame_def\<close>)
qed

lemma process_new_ways_inv:
  assumes "process_new_ways (d, ct, u) = Inr (d', ct', u')"
    and inv: "upload_inv s0 d ct" and cr: "\<forall>w\<in>set (create_ways u). creates_ok w"
  shows "upload_inv s0 d' ct'"
proof -
  have ok: "ways_ok d" and db: "db_ok d" using inv by (simp_all add: upload_inv_def db_ok_def)
  from process_new_ways_Inr [OF assms(1) ok cr] obtain new ws where
    e: "current_ways d' = current_ways d @ new" "distinct (map r_id (current_ways d @ new))"
    "r_id ` set new = {way_id_seq d<..way_id_seq d + int (length (create_ways u))}"
    "\<forall>r\<in>set new. r_visible r \<and> r_version r = 1"
    "ways_tbl d' = ways_tbl d @ select_any (sort_unique (map e_id ws)) (current_ways d')"
    "e_id ` set ws = r_id ` set new"
    "distinct (map (\<lambda>r. (r_id r, r_version r)) (ways_tbl d'))"
    "way_id_seq d' = way_id_seq d + int (length (create_ways u))" "way_frame d d'"
    "current_way_nodes d' = current_way_nodes d @ way_node_rows ws"
    "\<forall>w\<in>set ws. \<forall>n\<in>set (way_refs w). visible_id (current_nodes d) n"
    "ct' = ct\<lparr>created_way_ids := created_way_ids ct @
       created_mappings (ids_mapping (way_id_seq d) (map e_old_id (create_ways u)))\<rparr>" .
  have "ways_ok d'"
    unfolding ways_ok_def
  proof
    show "hist_ok (current_ways d') (ways_tbl d')"
      using hist_ok_insert [of "current_ways d" "ways_tbl d" new "sort_unique (map e_id ws)"] e ok
      by (simp add: ways_ok_def)
    have "r_id r \<le> way_id_seq d'" if "r \<in> set new" for r
    proof -
      from that e(3) have "r_id r \<in> {way_id_seq d<..way_id_seq d + int (length (create_ways u))}" by blast
      with e(8) show ?thesis by simp
    qed
    then show "\<forall>r\<in>set (current_ways d'). r_id r \<le> way_id_seq d'"
      using ok e(1,8) by (fastforce simp: ways_ok_def)
  qed
  moreover have "way_nodes_ok d'"
  proof -
    have vis: "visible_id (current_ways d') (e_id w)" if "w \<in> set ws" for w
    proof -
      from that e(6) obtain r where "r \<in> set new" "r_id r = e_id w" by (metis imageE imageI)
      with e(1,4) show ?thesis by (auto simp: visible_id_def)
    qed
    have "way_nodes_ok d" using db by (simp add: way_nodes_ok_def db_ok_def refs_ok_def)
    with vis e(1,9,10,11) show ?thesis
      by (auto simp: way_nodes_ok_def set_way_node_rows way_frame_def way_refs_def intro: visible_id_append)
  qed
  ultimately have "db_ok d'"
    by (intro db_ok_way_frame [OF db e(9)]) (simp_all add: e(1) visible_id_append)
  moreover have "created_ok s0 d' ct'"
  proof (rule created_ok_extend [where t = ot_way and olds = "map e_old_id (create_ways u)"])
    show "created_ok s0 d ct" using inv by (simp add: upload_inv_def)
    fix t' assume "t' \<noteq> ot_way"
    then show "created_ids t' ct' = created_ids t' ct \<and> id_seq t' d' = id_seq t' d"
      using e(9) by (cases t') (simp_all add: e(12) way_frame_def)
  qed (use e in simp_all)
  ultimately show ?thesis by (simp add: upload_inv_def)
qed

section \<open>Modified ways\<close>

lemma update_current_ways_Inr:
  assumes "update_current_ways ws v (d, ct) = Inr (d', ct')"
    and "distinct (map r_id (current_ways d))"
  obtains mps del where
    "d' = d\<lparr>current_ways := fst (update_from elem_match (updated_elem_row (db_now d) v) ws (current_ways d))\<rparr>"
    "length (snd (update_from elem_match (updated_elem_row (db_now d) v) ws (current_ways d))) = length ws"
    "ct' = ct\<lparr>modified_way_ids := modified_way_ids ct @ mps, deleted_way_ids := deleted_way_ids ct @ del\<rparr>"
    "v \<Longrightarrow> del = [] \<and> (\<forall>w\<in>set ws. modified_by mps w)"
    "\<not> v \<Longrightarrow> mps = [] \<and> set del = e_old_id ` set ws"
proof (cases "ws = []")
  case True
  with assms show ?thesis by (intro that [of "[]" "[]"]) (auto simp: update_current_ways_def)
next
  case False
  let ?u = "update_from elem_match (updated_elem_row (db_now d) v) ws (current_ways d)"
  from False assms(1) have len: "length (snd ?u) = length ws" and d': "d' = d\<lparr>current_ways := fst ?u\<rparr>"
    by (auto simp: update_current_ways_def Let_def result_simps split: prod.splits if_splits)
  show ?thesis
  proof (cases v)
    case True
    with False assms(1) obtain mps where mps: "mapE (row_mapping ws) (snd ?u) = Inr mps"
      and ct': "ct' = ct\<lparr>modified_way_ids := modified_way_ids ct @ mps\<rparr>"
      by (auto simp: update_current_ways_def Let_def result_simps split: prod.splits if_splits)
    with upd_elem.recorded_mappings [OF assms(2) len mps] d' len True show ?thesis
      by (intro that [where mps = mps and del = "[]"]) auto
  next
    case v: False
    with False assms(1) have
      "ct' = ct\<lparr>deleted_way_ids := deleted_way_ids ct @ map (\<lambda>r. map_at (id_to_old_id ws) (r_id r)) (snd ?u)\<rparr>"
      by (auto simp: update_current_ways_def Let_def result_simps split: prod.splits if_splits)
    with upd_elem.recorded_set [OF assms(2) len] d' len v show ?thesis
      by (intro that [where mps = "[]" and del = "map (\<lambda>r. map_at (id_to_old_id ws) (r_id r)) (snd ?u)"]) auto
  qed
qed

text \<open>The node rows of one way, and the rows a sequence of modifications leaves for it.\<close>

definition rows_of_way :: "int \<Rightarrow> way_node_row list \<Rightarrow> way_node_row list" where
  "rows_of_way i rows = filter (\<lambda>(w, _). w = i) rows"

definition last_rows :: "way_t list \<Rightarrow> int \<Rightarrow> way_node_row list \<Rightarrow> way_node_row list" where
  "last_rows ws i rows =
     (if occurrences e_id i ws = [] then rows_of_way i rows
      else way_node_rows [last (occurrences e_id i ws)])"

lemma rows_of_way_rows: "(w, n, s) \<in> set rows \<longleftrightarrow> (w, n, s) \<in> set (rows_of_way w rows)"
  by (auto simp: rows_of_way_def)

lemma rows_of_way_append: "rows_of_way i (xs @ ys) = rows_of_way i xs @ rows_of_way i ys"
  by (simp add: rows_of_way_def)

lemma rows_of_new_ways:
  "rows_of_way i (way_node_rows ws) = concat (map (\<lambda>w. way_node_rows [w]) (occurrences e_id i ws))"
  by (induction ws) (auto simp: rows_of_way_def way_node_rows_def filter_empty_conv filter_id_conv)

lemma rows_of_kept_ways:
  "rows_of_way i (filter (\<lambda>(w, _). w \<notin> S) rows) = (if i \<in> S then [] else rows_of_way i rows)"
  by (induction rows) (auto simp: rows_of_way_def)

text \<open>One package: the old rows of its ways are deleted, the new ones appended.\<close>

lemma package_rows:
  assumes "distinct (map e_id ws)" "S = e_id ` set ws"
  shows "rows_of_way i (filter (\<lambda>(w, _). w \<notin> S) rows @ way_node_rows ws) = last_rows ws i rows"
proof (cases "i \<in> e_id ` set ws")
  case True
  then obtain w where "w \<in> set ws" "e_id w = i" by auto
  with occurrences_distinct [OF assms(1) this(1)] True assms(2) show ?thesis
    by (simp add: rows_of_way_append rows_of_kept_ways rows_of_new_ways last_rows_def)
next
  case False
  with occurrences_eq_Nil [of e_id i ws] assms(2) show ?thesis
    by (simp add: rows_of_way_append rows_of_kept_ways rows_of_new_ways last_rows_def)
qed

lemma last_rows_append:
  assumes "rows_of_way i rows1 = last_rows ws i rows"
  shows "last_rows vs i rows1 = last_rows (ws @ vs) i rows"
  using assms by (simp add: last_rows_def)

lemma last_rows_nodes:
  assumes "(i, n, s) \<in> set (last_rows ws i rows)"
  shows "(i, n, s) \<in> set rows \<and> i \<notin> e_id ` set ws \<or> (\<exists>w\<in>set ws. e_id w = i \<and> n \<in> set (way_refs w))"
proof (cases "occurrences e_id i ws = []")
  case True
  with assms show ?thesis by (auto simp: last_rows_def rows_of_way_def occurrences_eq_Nil)
next
  case False
  then have "last (occurrences e_id i ws) \<in> set (occurrences e_id i ws)" by simp
  then have "last (occurrences e_id i ws) \<in> set ws" "e_id (last (occurrences e_id i ws)) = i"
    by (auto simp: set_occurrences)
  with assms False show ?thesis
    by (auto simp: last_rows_def way_node_rows_def way_refs_def)
qed

text \<open>The positions a way covers, and the box of a set of ways.\<close>

definition way_covers :: "int \<Rightarrow> db \<Rightarrow> (int \<times> int) set" where
  "way_covers i d = {(r_latitude r, r_longitude r) |r n s. r \<in> set (current_nodes d) \<and>
     r_id r = n \<and> (i, n, s) \<in> set (current_way_nodes d)}"

lemma way_positions_iff:
  "p \<in> set (way_positions ids d) \<longleftrightarrow>
     (\<exists>cn\<in>set (current_nodes d). \<exists>t\<in>set (current_way_nodes d). \<exists>w\<in>set (current_ways d).
        r_id cn = fst (snd t) \<and> fst t = r_id w \<and> r_id w \<in> set ids \<and> p = (r_latitude cn, r_longitude cn))"
  by (auto simp: way_positions_def split_def)

lemma calc_way_bbox_contains:
  assumes "p \<in> way_covers i d" "i \<in> set ids" "i \<in> r_id ` set (current_ways d)"
  shows "in_bbox p (calc_way_bbox ids d)"
proof -
  from assms(1) obtain r s where r: "r \<in> set (current_nodes d)"
    "(i, r_id r, s) \<in> set (current_way_nodes d)" "p = (r_latitude r, r_longitude r)"
    by (auto simp: way_covers_def)
  from assms(3) obtain w where "w \<in> set (current_ways d)" "r_id w = i" by auto
  with r assms(2) have "p \<in> set (way_positions ids d)"
    unfolding way_positions_iff by force
  with assms(2) show ?thesis by (auto simp: calc_way_bbox_def intro: aggregate_bbox_contains)
qed

lemma way_covers_cong:
  "current_nodes d' = current_nodes d \<Longrightarrow>
   rows_of_way i (current_way_nodes d') = rows_of_way i (current_way_nodes d) \<Longrightarrow>
   way_covers i d' = way_covers i d"
  unfolding way_covers_def by (metis (no_types, lifting) rows_of_way_rows)

text \<open>The effect of a package, and of any sequence of packages.\<close>

definition way_modify_step ::
    "way_t list \<Rightarrow> db \<times> OSMChange_Tracking \<times> bbox_t \<Rightarrow> db \<times> OSMChange_Tracking \<times> bbox_t \<Rightarrow> bool" where
  "way_modify_step ws = (\<lambda>(d, ct, bb) (d', ct', bb').
     ways_ok d' \<and> way_frame d d' \<and> way_id_seq d' = way_id_seq d \<and>
     apply_all (updated_elem_row (db_now d) True) ws (current_ways d) = Some (current_ways d') \<and>
     (\<forall>i. rows_of_way i (current_way_nodes d') = last_rows ws i (current_way_nodes d)) \<and>
     (\<forall>w\<in>set ws. visible_id (current_ways d') (e_id w) \<and>
        (\<forall>n\<in>set (way_refs w). visible_id (current_nodes d) n)) \<and>
     (\<exists>mps. ct' = ct\<lparr>modified_way_ids := modified_way_ids ct @ mps\<rparr> \<and> (\<forall>w\<in>set ws. modified_by mps w)) \<and>
     (\<forall>i. visible_id (current_ways d) i \<longrightarrow> visible_id (current_ways d') i) \<and>
     bbox_le bb bb' \<and>
     (\<forall>i\<in>e_id ` set ws. \<forall>p\<in>way_covers i d \<union> way_covers i d'. in_bbox p bb'))"

lemma modify_ways_package_step:
  assumes "modify_ways_package all_ids ws (d, ct, bb) = Inr (d', ct', bb')" and ok: "ways_ok d"
    and all: "e_id ` set ws \<subseteq> set all_ids"
  shows "way_modify_step ws (d, ct, bb) (d', ct', bb')"
proof -
  let ?ids = "sort_unique (map e_id ws)"
  let ?u = "update_from elem_match (updated_elem_row (db_now d) True) ws (current_ways d)"
  define d1 where "d1 = delete_current_way_nodes ?ids (delete_current_way_tags ?ids d)"
  from assms(1) obtain d2 ids_t d3 d4 d5 d6 where
    lk: "lock_future_nodes ws d = Inr ()" and
    s1: "update_current_ways ws True (d1, ct) = Inr (d2, ct')" and
    s2: "insert_new_current_way_tags ws d2 = Inr (ids_t, d3)" and
    s3: "insert_new_current_way_nodes ws d3 = Inr d4" and
    s4: "save_current_ways_to_history ?ids d4 = Inr d5" and
    s5: "save_current_way_tags_to_history ids_t d5 = Inr d6" and
    s6: "save_current_way_nodes_to_history ?ids d6 = Inr d'" and
    bb': "bb' = expand (expand bb (calc_way_bbox ?ids d)) (calc_way_bbox all_ids d')"
    by (auto simp: modify_ways_package_def Let_def result_simps d1_def split: prod.splits)
  obtain t1 where d1: "d1 = d\<lparr>current_way_tags := t1,
      current_way_nodes := filter (\<lambda>(w, _). w \<notin> e_id ` set ws) (current_way_nodes d)\<rparr>"
    unfolding d1_def delete_way_nodes_eq using delete_way_tags_eq [of ?ids d] by auto
  have dist: "distinct (map r_id (current_ways d))" using ok by (simp add: ways_ok_def hist_ok_def)
  have dist1: "distinct (map r_id (current_ways d1))" using dist by (simp add: d1)
  from update_current_ways_Inr [OF s1 dist1] obtain mps where
    d2: "d2 = d1\<lparr>current_ways := fst ?u\<rparr>" and len: "length (snd ?u) = length ws"
    and ct': "ct' = ct\<lparr>modified_way_ids := modified_way_ids ct @ mps\<rparr>"
    and mps: "\<forall>w\<in>set ws. modified_by mps w"
    by (auto simp: d1)
  from insert_way_tags_Inr [OF s2] obtain t3 where d3: "d3 = d2\<lparr>current_way_tags := t3\<rparr>" by blast
  note d4 = insert_way_nodes_Inr [OF s3]
  have h: "distinct (map (\<lambda>r. (r_id r, r_version r)) (ways_tbl d4))"
    using ok by (simp add: d4 d3 d2 d1 ways_ok_def hist_ok_def)
  note d5 = save_ways_Inr [OF s4 h]
  from save_way_tags_Inr [OF s5] obtain t6 where d6: "d6 = d5\<lparr>way_tags_tbl := t6\<rparr>" by blast
  from save_way_nodes_Inr [OF s6] obtain t7 where d': "d' = d6\<lparr>way_nodes_tbl := t7\<rparr>" by blast
  have cur: "current_ways d' = fst ?u" by (simp add: d' d6 d5(1) d4 d3 d2)
  have wn: "current_way_nodes d' =
      filter (\<lambda>(w, _). w \<notin> e_id ` set ws) (current_way_nodes d) @ way_node_rows ws"
    by (simp add: d' d6 d5(1) d4 d3 d2 d1)
  have hist: "ways_tbl d' = ways_tbl d @ select_any ?ids (fst ?u)" by (simp add: d' d6 d5(1) d4 d3 d2 d1)
  note served = upd_elem.served [OF dist len]
  have "ways_ok d'"
    unfolding ways_ok_def cur hist
  proof
    show "hist_ok (fst ?u) (ways_tbl d @ select_any ?ids (fst ?u))"
      using upd_elem.batch_hist_ok [of "current_ways d" "ways_tbl d" ws ?ids "db_now d" True] ok d5(2)
      by (simp add: ways_ok_def d4 d3 d2 d1)
    show "\<forall>r\<in>set (fst ?u). r_id r \<le> way_id_seq d'"
      using ok by (intro upd_elem.batch_id_bound) (simp add: ways_ok_def d' d6 d5(1) d4 d3 d2 d1)
  qed
  moreover have "rows_of_way i (current_way_nodes d') = last_rows ws i (current_way_nodes d)" for i
    unfolding wn by (rule package_rows [OF served(1) refl])
  moreover have exists: "e_id w \<in> r_id ` set (current_ways d)" if "w \<in> set ws" for w
    using served(2) [OF that] by force
  moreover have "visible_id (current_ways d') (e_id w)" if "w \<in> set ws" for w
    using upd_elem.batch_sets_visible [OF dist len that] by (simp add: cur updated_elem_row_def)
  moreover have "visible_id (current_ways d') i" if "visible_id (current_ways d) i" for i
    unfolding cur by (rule upd_elem.batch_visible [OF that]) (simp add: updated_elem_row_def)
  moreover have "bbox_le bb bb'" unfolding bb' by (intro bbox_le_expandI1 bbox_le_refl)
  moreover have "in_bbox p bb'" if i: "w \<in> set ws" and p: "p \<in> way_covers (e_id w) d \<union> way_covers (e_id w) d'" for p w
  proof -
    have inids: "e_id w \<in> r_id ` set (current_ways d')" "e_id w \<in> set all_ids" "e_id w \<in> set ?ids"
      using exists [OF i] i all upd_elem.batch_ids [of "db_now d" True ws "current_ways d"] by (auto simp: cur)
    from p have "in_bbox p (calc_way_bbox ?ids d) \<or> in_bbox p (calc_way_bbox all_ids d')"
    proof
      assume "p \<in> way_covers (e_id w) d"
      from calc_way_bbox_contains [OF this inids(3) exists [OF i]] show ?thesis ..
    next
      assume "p \<in> way_covers (e_id w) d'"
      from calc_way_bbox_contains [OF this inids(2,1)] show ?thesis ..
    qed
    then show ?thesis unfolding bb' by (blast intro: in_bbox_expand)
  qed
  ultimately show ?thesis
    using upd_elem.batch_is_sequential [OF dist len] mps ct' lk
    by (auto simp: way_modify_step_def cur way_frame_def d' d6 d5(1) d4 d3 d2 d1 lock_future_nodes_Inr)
qed

lemma way_modify_step_Nil: "ways_ok d \<Longrightarrow> way_modify_step [] (d, ct, bb) (d, ct, bb)"
  by (auto simp: way_modify_step_def last_rows_def intro: exI [of _ "[]"])

text \<open>What a step leaves alone, it covers as before.\<close>

lemma way_modify_step_covers:
  "way_modify_step ws (d, ct, bb) (d', ct', bb') \<Longrightarrow> i \<notin> e_id ` set ws \<Longrightarrow> way_covers i d' = way_covers i d"
  by (rule way_covers_cong) (auto simp: way_modify_step_def way_frame_def last_rows_def occurrences_eq_Nil)

lemma way_modify_step_append:
  assumes 1: "way_modify_step ws (d, ct, bb) (d1, ct1, bb1)" and 2: "way_modify_step vs (d1, ct1, bb1) (d2, ct2, bb2)"
  shows "way_modify_step (ws @ vs) (d, ct, bb) (d2, ct2, bb2)"
proof -
  have fr: "way_frame d d1" "way_frame d1 d2" using 1 2 by (simp_all add: way_modify_step_def)
  then have now: "db_now d1 = db_now d" "current_nodes d1 = current_nodes d" by (simp_all add: way_frame_def)
  have le: "bbox_le bb1 bb2" using 2 by (simp add: way_modify_step_def)
  obtain is1 is2 where
    ct: "ct1 = ct\<lparr>modified_way_ids := modified_way_ids ct @ is1\<rparr>"
      "ct2 = ct1\<lparr>modified_way_ids := modified_way_ids ct1 @ is2\<rparr>" and
    acc: "\<forall>w\<in>set ws. modified_by is1 w" "\<forall>w\<in>set vs. modified_by is2 w"
    using 1 2 by (auto simp: way_modify_step_def)
  have c1: "in_bbox p bb2" if "i \<in> e_id ` set ws" "p \<in> way_covers i d \<union> way_covers i d1" for i p
    using 1 that unfolding way_modify_step_def by (blast intro: in_bbox_mono [OF _ le])
  have c2: "in_bbox p bb2" if "i \<in> e_id ` set vs" "p \<in> way_covers i d1 \<union> way_covers i d2" for i p
    using 2 that unfolding way_modify_step_def by blast
  have "in_bbox p bb2" if "i \<in> e_id ` set (ws @ vs)" "p \<in> way_covers i d \<union> way_covers i d2" for i p
    using that c1 [of i p] c2 [of i p] way_modify_step_covers [OF 1, of i] way_modify_step_covers [OF 2, of i]
    unfolding set_append image_Un by blast
  moreover have "apply_all (updated_elem_row (db_now d) True) (ws @ vs) (current_ways d) = Some (current_ways d2)"
    using 1 2 now by (simp add: way_modify_step_def apply_all_append)
  moreover have "rows_of_way i (current_way_nodes d2) = last_rows (ws @ vs) i (current_way_nodes d)" for i
    using 1 2 last_rows_append [of i "current_way_nodes d1" ws "current_way_nodes d" vs]
    by (simp add: way_modify_step_def)
  moreover have "\<forall>w\<in>set (ws @ vs). visible_id (current_ways d2) (e_id w) \<and>
        (\<forall>n\<in>set (way_refs w). visible_id (current_nodes d) n)"
    using 1 2 now by (auto simp: way_modify_step_def)
  moreover have "\<exists>mps. ct2 = ct\<lparr>modified_way_ids := modified_way_ids ct @ mps\<rparr> \<and>
      (\<forall>w\<in>set (ws @ vs). modified_by mps w)"
    using acc by (intro exI [of _ "is1 @ is2"]) (auto simp: ct modified_by_def)
  ultimately show ?thesis
    using 1 2 by (auto simp: way_modify_step_def intro: way_frame_trans bbox_le_trans)
qed

lemma modify_way_packages:
  "foldE (modify_ways_package all_ids) ps (d, ct, bb) = Inr (d', ct', bb') \<Longrightarrow> ways_ok d \<Longrightarrow>
     e_id ` set (concat ps) \<subseteq> set all_ids \<Longrightarrow> way_modify_step (concat ps) (d, ct, bb) (d', ct', bb')"
proof (induction ps arbitrary: d ct bb)
  case Nil
  then show ?case by (simp add: way_modify_step_Nil)
next
  case (Cons p ps)
  from Cons.prems(1) obtain d1 ct1 bb1 where
    p: "modify_ways_package all_ids p (d, ct, bb) = Inr (d1, ct1, bb1)" and
    ps: "foldE (modify_ways_package all_ids) ps (d1, ct1, bb1) = Inr (d', ct', bb')"
    by (auto simp: result_simps)
  have 1: "way_modify_step p (d, ct, bb) (d1, ct1, bb1)"
    by (rule modify_ways_package_step [OF p Cons.prems(2)]) (use Cons.prems(3) in auto)
  then have "ways_ok d1" by (simp add: way_modify_step_def)
  from Cons.IH [OF ps this] Cons.prems(3) have "way_modify_step (concat ps) (d1, ct1, bb1) (d', ct', bb')"
    by (simp add: image_Un)
  from way_modify_step_append [OF 1 this] show ?case by simp
qed

lemma way_modify_step_regroup:
  assumes "way_modify_step fs (d, ct, bb) (d', ct', bb')" "ways_ok d"
    and "\<And>i. occurrences e_id i fs = occurrences e_id i ws" "set fs = set ws"
  shows "way_modify_step ws (d, ct, bb) (d', ct', bb')"
proof -
  have "distinct (map r_id (current_ways d))" using assms(2) by (simp add: ways_ok_def hist_ok_def)
  from upd_elem.apply_all_regroup [OF this assms(3,4)] assms(1,3,4) show ?thesis
    by (simp add: way_modify_step_def last_rows_def)
qed

lemma process_modify_ways_Inr:
  assumes "process_modify_ways (d, ct, u) = Inr (d', ct', u')" and ok: "ways_ok d"
  obtains ws where
    "replace_old_ids_in_ways (modify_ways u) (created_node_ids ct) (created_way_ids ct) = Inr ws"
    "way_modify_step ws (d, ct, wu_bbox u) (d', ct', wu_bbox u')"
proof -
  from assms(1) obtain ws ps bb where
    ws: "replace_old_ids_in_ways (modify_ways u) (created_node_ids ct) (created_way_ids ct) = Inr ws" and
    ps: "build_packages_by e_id ws = Inr ps" and
    run: "foldE (modify_ways_package (sort_unique (map e_id ws))) ps (d, ct, wu_bbox u) = Inr (d', ct', bb)" and
    u': "u' = u\<lparr>wu_bbox := bb, modify_ways := []\<rparr>"
    by (auto simp: process_modify_ways_def way_build_packages_def Let_def result_simps split: prod.splits)
  have "way_modify_step (concat ps) (d, ct, wu_bbox u) (d', ct', bb)"
    by (rule modify_way_packages [OF run ok]) (use build_packages_by_set [OF ps] in simp)
  then have "way_modify_step ws (d, ct, wu_bbox u) (d', ct', bb)"
    by (rule way_modify_step_regroup [OF _ ok])
      (simp_all only: build_packages_by_Inr(2) [OF ps] build_packages_by_set [OF ps])
  with ws u' show ?thesis by (intro that) simp_all
qed

lemma way_modify_step_nodes_ok:
  assumes step: "way_modify_step ws (d, ct, bb) (d', ct', bb')" and ok: "way_nodes_ok d"
  shows "way_nodes_ok d'"
  unfolding way_nodes_ok_def
proof (intro ballI)
  fix t assume "t \<in> set (current_way_nodes d')"
  moreover obtain i n s where t: "t = (i, n, s)" by (cases t)
  ultimately have "(i, n, s) \<in> set (last_rows ws i (current_way_nodes d))"
    using step rows_of_way_rows [of i n s "current_way_nodes d'"] by (simp add: way_modify_step_def)
  then consider "(i, n, s) \<in> set (current_way_nodes d)" | w where "w \<in> set ws" "e_id w = i" "n \<in> set (way_refs w)"
    using last_rows_nodes by blast
  then have "visible_id (current_nodes d) n \<and> visible_id (current_ways d') i"
  proof cases
    case 1
    with ok have "visible_id (current_nodes d) n" "visible_id (current_ways d) i" by (auto simp: way_nodes_ok_def)
    with step show ?thesis by (simp add: way_modify_step_def)
  next
    case 2
    with step show ?thesis by (auto simp: way_modify_step_def)
  qed
  with step t show "case t of (w, n, s) \<Rightarrow> visible_id (current_nodes d') n \<and> visible_id (current_ways d') w"
    by (simp add: way_modify_step_def way_frame_def)
qed

lemma process_modify_ways_inv:
  assumes "process_modify_ways (d, ct, u) = Inr (d', ct', u')" and inv: "upload_inv s0 d ct"
  shows "upload_inv s0 d' ct'"
proof -
  have ok: "ways_ok d" and db: "db_ok d" and wn: "way_nodes_ok d"
    using inv by (simp_all add: upload_inv_def db_ok_def way_nodes_ok_def refs_ok_def)
  from process_modify_ways_Inr [OF assms(1) ok] obtain ws where
    step: "way_modify_step ws (d, ct, wu_bbox u) (d', ct', wu_bbox u')" .
  have "db_ok d'"
    by (rule db_ok_way_frame [OF db _ _ way_modify_step_nodes_ok [OF step wn]])
      (use step in \<open>auto simp: way_modify_step_def\<close>)
  moreover have "created_ok s0 d' ct'"
  proof (rule created_ok_same)
    show "created_ok s0 d ct" using inv by (simp add: upload_inv_def)
    fix t show "created_ids t ct' = created_ids t ct \<and> id_seq t d' = id_seq t d"
      using step by (cases t) (auto simp: way_modify_step_def way_frame_def)
  qed
  ultimately show ?thesis by (simp add: upload_inv_def)
qed

section \<open>Deleted ways\<close>

lemma determine_already_deleted_ways_Inr:
  assumes "determine_already_deleted_ways ws (d, ct) = Inr (found, ct')"
  obtains new where
    "found = {i \<in> e_id ` set ws. \<exists>r\<in>set (current_ways d). r_id r = i \<and> \<not> r_visible r}"
    "found \<inter> ids_without_if_unused ws = {}"
    "ct' = ct\<lparr>skip_deleted_way_ids := skip_deleted_way_ids ct @ new\<rparr>"
    "\<forall>i\<in>found. i \<in> ids_if_unused ws \<longrightarrow> map_at (id_to_old_id ws) i \<in> om_old_id ` set new"
proof (cases "ws = []")
  case True
  with assms show ?thesis by (intro that [of "[]"]) (auto simp: determine_already_deleted_ways_def)
next
  case False
  with assms obtain skipped where
    run: "foldE (already_deleted_step ''way'' ws)
       (filter (\<lambda>r. \<not> r_visible r) (select_any (map e_id ws) (current_ways d)))
       ({}, skip_deleted_way_ids ct) = Inr (found, skipped)"
    and ct': "ct' = ct\<lparr>skip_deleted_way_ids := skipped\<rparr>"
    by (auto simp: determine_already_deleted_ways_def result_simps split: prod.splits)
  from already_deleted_select [OF run] obtain new where
    "found = {i \<in> e_id ` set ws. \<exists>r\<in>set (current_ways d). r_id r = i \<and> \<not> r_visible r}"
    "found \<inter> ids_without_if_unused ws = {}" "skipped = skip_deleted_way_ids ct @ new"
    "\<forall>i\<in>found. i \<in> ids_if_unused ws \<longrightarrow> map_at (id_to_old_id ws) i \<in> om_old_id ` set new" .
  with ct' show ?thesis by (intro that) simp_all
qed

lemma is_way_still_referenced_Inr:
  assumes "is_way_still_referenced ws (d, ct) = Inr (ws', ct')"
    and dist: "distinct (map r_id (current_ways d))"
  obtains excl new where
    "excl = ids_if_unused ws \<inter> fst ` set (member_refs ''Way'' d)"
    "ids_without_if_unused ws \<inter> fst ` set (member_refs ''Way'' d) = {}"
    "ws' = filter (\<lambda>w. e_id w \<notin> excl) ws"
    "ct' = ct\<lparr>skip_deleted_way_ids := skip_deleted_way_ids ct @ new\<rparr>"
    "\<forall>i\<in>excl. map_at (id_to_old_id ws) i \<in> om_old_id ` set (skip_deleted_way_ids ct')"
proof (cases "ws = []")
  case True
  with assms show ?thesis
    by (intro that [of "{}" "[]"])
      (auto simp: is_way_still_referenced_def ids_if_unused_def ids_without_if_unused_def)
next
  case False
  let ?m = "referenced_by (map e_id ws) (member_refs ''Way'' d)"
  from assms(1) False obtain excl skipped where
    s1: "foldE (still_referenced_step ''Way'' ''relations'' ws) ?m {} = Inr excl" and
    s2: "exclude_referenced ''ways'' ws excl (current_ways d) (skip_deleted_way_ids ct) = Inr (ws', skipped)" and
    ct': "ct' = ct\<lparr>skip_deleted_way_ids := skipped\<rparr>"
    by (auto simp: is_way_still_referenced_def result_simps split: prod.splits)
  have sub: "ids_if_unused ws \<subseteq> e_id ` set ws" "ids_without_if_unused ws \<subseteq> e_id ` set ws"
    by (auto simp: ids_if_unused_def ids_without_if_unused_def)
  from still_referenced_Inr [OF s1]
  have excl: "excl = ids_if_unused ws \<inter> fst ` set ?m"
    and none: "ids_without_if_unused ws \<inter> fst ` set ?m = {}" by auto
  note x = exclude_referenced_Inr [OF s2]
  from x(2) obtain new where new: "skipped = skip_deleted_way_ids ct @ new" by blast
  have fin: "finite excl" unfolding excl by simp
  show ?thesis
  proof (rule that [of excl new])
    show "\<forall>i\<in>excl. map_at (id_to_old_id ws) i \<in> om_old_id ` set (skip_deleted_way_ids ct')"
      using x(3) [OF dist fin] ct' by simp
    show "excl = ids_if_unused ws \<inter> fst ` set (member_refs ''Way'' d)"
      using excl sub by (auto simp: referenced_by_keys)
    show "ids_without_if_unused ws \<inter> fst ` set (member_refs ''Way'' d) = {}"
      using none sub by (auto simp: referenced_by_keys)
  qed (use x(1) ct' new in simp_all)
qed

definition way_delete_step ::
    "way_t list \<Rightarrow> way_t list \<Rightarrow> db \<times> OSMChange_Tracking \<Rightarrow> db \<times> OSMChange_Tracking \<Rightarrow> bool" where
  "way_delete_step ws dead = (\<lambda>(d, ct) (d', ct').
     ways_ok d' \<and> way_frame d d' \<and> way_id_seq d' = way_id_seq d \<and>
     set dead \<subseteq> set ws \<and> e_id ` set ws \<subseteq> r_id ` set (current_ways d) \<and>
     e_id ` set dead \<inter> fst ` set (member_refs ''Way'' d) = {} \<and>
     (\<forall>w\<in>set dead. \<exists>r\<in>set (current_ways d). r_id r = e_id w \<and> r_visible r \<and> r_version r = e_version w) \<and>
     apply_all (updated_elem_row (db_now d) False) dead (current_ways d) = Some (current_ways d') \<and>
     current_way_nodes d' = filter (\<lambda>(w, _). w \<notin> e_id ` set dead) (current_way_nodes d) \<and>
     (\<forall>i. visible_id (current_ways d) i \<longrightarrow> i \<notin> e_id ` set dead \<longrightarrow> visible_id (current_ways d') i) \<and>
     (\<exists>del skip. ct' = ct\<lparr>deleted_way_ids := deleted_way_ids ct @ del,
                        skip_deleted_way_ids := skip_deleted_way_ids ct @ skip\<rparr> \<and>
        set del = e_old_id ` set dead \<and>
        (alias_free ws \<longrightarrow> (\<forall>w\<in>set ws. w \<in> set dead \<or>
           e_if_unused w \<and> e_old_id w \<in> om_old_id ` set (skip_deleted_way_ids ct @ skip)))))"

lemma delete_ways_selected:
  assumes ok: "ways_ok d"
    and lock: "lock_current_ways (sort_unique (map e_id ws)) d = Inr ()"
    and s1: "determine_already_deleted_ways ws (d, ct) = Inr (found, ct1)"
    and s2: "is_way_still_referenced (filter (\<lambda>w. e_id w \<notin> found) ws) (d, ct1) = Inr (dead, ct2)"
    and s3: "update_current_ways dead False (d, ct2) = Inr (d1, ct')"
    and s4: "save_current_ways_to_history (map e_id dead)
        (delete_current_way_nodes (map e_id dead) (delete_current_way_tags (map e_id dead) d1)) = Inr d'"
  shows "way_delete_step ws dead (d, ct) (d', ct')"
proof -
  let ?vis = "filter (\<lambda>w. e_id w \<notin> found) ws"
  let ?R = "fst ` set (member_refs ''Way'' d)"
  let ?u = "update_from elem_match (updated_elem_row (db_now d) False) dead (current_ways d)"
  have dist: "distinct (map r_id (current_ways d))" using ok by (simp add: ways_ok_def hist_ok_def)
  from determine_already_deleted_ways_Inr [OF s1] obtain new1 where
    found: "found = {i \<in> e_id ` set ws. \<exists>r\<in>set (current_ways d). r_id r = i \<and> \<not> r_visible r}"
      "found \<inter> ids_without_if_unused ws = {}"
    and ct1: "ct1 = ct\<lparr>skip_deleted_way_ids := skip_deleted_way_ids ct @ new1\<rparr>"
    and acc1: "\<forall>i\<in>found. i \<in> ids_if_unused ws \<longrightarrow> map_at (id_to_old_id ws) i \<in> om_old_id ` set new1" .
  from is_way_still_referenced_Inr [OF s2 dist] obtain excl new2 where
    excl: "excl = ids_if_unused ?vis \<inter> ?R" "ids_without_if_unused ?vis \<inter> ?R = {}"
    and dead: "dead = filter (\<lambda>w. e_id w \<notin> excl) ?vis"
    and ct2: "ct2 = ct1\<lparr>skip_deleted_way_ids := skip_deleted_way_ids ct1 @ new2\<rparr>"
    and acc2: "\<forall>i\<in>excl. map_at (id_to_old_id ?vis) i \<in> om_old_id ` set (skip_deleted_way_ids ct2)" .
  from update_current_ways_Inr [OF s3 dist] obtain del where
    d1: "d1 = d\<lparr>current_ways := fst ?u\<rparr>" and len: "length (snd ?u) = length dead"
    and ct': "ct' = ct2\<lparr>deleted_way_ids := deleted_way_ids ct2 @ del\<rparr>" and del: "set del = e_old_id ` set dead"
    by auto
  note served = upd_elem.served [OF dist len]
  obtain t where d2: "delete_current_way_nodes (map e_id dead) (delete_current_way_tags (map e_id dead) d1) =
      d\<lparr>current_ways := fst ?u, current_way_tags := t,
        current_way_nodes := filter (\<lambda>(w, _). w \<notin> e_id ` set dead) (current_way_nodes d)\<rparr>"
    using delete_way_tags_eq [of "map e_id dead" d1] by (auto simp: delete_way_nodes_eq d1)
  have h: "distinct (map (\<lambda>r. (r_id r, r_version r)) (ways_tbl
      (delete_current_way_nodes (map e_id dead) (delete_current_way_tags (map e_id dead) d1))))"
    unfolding d2 using ok by (simp add: ways_ok_def hist_ok_def)
  note sv = save_ways_Inr [OF s4 h]
  have d': "d' = d\<lparr>current_ways := fst ?u, current_way_tags := t,
      current_way_nodes := filter (\<lambda>(w, _). w \<notin> e_id ` set dead) (current_way_nodes d),
      ways_tbl := ways_tbl d @ select_any (map e_id dead) (fst ?u)\<rparr>"
    unfolding sv(1) unfolding d2 by simp
  let ?S = "om_old_id ` set (skip_deleted_way_ids ct @ new1 @ new2)"
  have acc: "w \<in> set dead \<or> e_if_unused w \<and> e_old_id w \<in> ?S" if af: "alias_free ws" and w: "w \<in> set ws" for w
  proof -
    have "e_id w \<notin> found \<and> e_id w \<notin> excl \<or> e_if_unused w \<and> e_old_id w \<in> ?S"
    proof (rule skipped_or_kept [OF af w found(2)])
      show "\<forall>i\<in>found. i \<in> ids_if_unused ws \<longrightarrow> map_at (id_to_old_id ws) i \<in> ?S" using acc1 by auto
      show "excl \<inter> ids_without_if_unused ?vis = {}" using excl by blast
      show "\<forall>i\<in>excl. map_at (id_to_old_id ?vis) i \<in> ?S" using acc2 by (simp add: ct2 ct1)
    qed
    with w dead show ?thesis by simp
  qed
  have unref: "e_id ` set dead \<inter> ?R = {}"
    using kept_unreferenced [of ?vis ?R excl] excl by (auto simp: dead)
  have vis: "\<exists>r\<in>set (current_ways d). r_id r = e_id w \<and> r_visible r \<and> r_version r = e_version w"
    if w: "w \<in> set dead" for w
  proof -
    from served(2) [OF w] obtain r where r: "r \<in> set (current_ways d)" "r_id r = e_id w"
      "r_version r = e_version w" by blast
    from w dead have "e_id w \<notin> found" "w \<in> set ws" by auto
    with found(1) r have "r_visible r" by auto
    with r show ?thesis by blast
  qed
  have "ways_ok d'"
    unfolding ways_ok_def
  proof
    show "hist_ok (current_ways d') (ways_tbl d')"
      using upd_elem.batch_hist_ok [of "current_ways d" "ways_tbl d" dead "map e_id dead" "db_now d" False] ok sv(2)
      unfolding d' d2 by (simp add: ways_ok_def)
    show "\<forall>r\<in>set (current_ways d'). r_id r \<le> way_id_seq d'"
      using ok unfolding d' by simp (intro upd_elem.batch_id_bound, simp add: ways_ok_def)
  qed
  moreover have "e_id ` set ws \<subseteq> r_id ` set (current_ways d)" using lock by (simp add: lock_current_ways_Inr)
  moreover have "visible_id (current_ways d') i" if "visible_id (current_ways d) i" "i \<notin> e_id ` set dead" for i
    using upd_elem.batch_visible [OF that(1)] that(2) by (auto simp: d')
  moreover have "set dead \<subseteq> set ws" using dead by auto
  ultimately show ?thesis
    using unref vis acc del upd_elem.batch_is_sequential [OF dist len]
    unfolding way_delete_step_def prod.case
    by (intro conjI exI [of _ del] exI [of _ "new1 @ new2"])
      (simp_all add: d' way_frame_def ct' ct2 ct1)
qed

lemma process_delete_ways_Inr:
  assumes "process_delete_ways (d, ct, u) = Inr (d', ct', u')" and ok: "ways_ok d"
  obtains ws dead where
    "replace_old_ids_in_ways (delete_ways u) (created_node_ids ct) (created_way_ids ct) = Inr ws"
    "way_delete_step ws dead (d, ct) (d', ct')"
    "wu_bbox u' = expand (wu_bbox u) (calc_way_bbox (sort_unique (map e_id ws)) d)"
proof -
  from assms(1) obtain ws found ct1 dead ct2 d1 where
    ws: "replace_old_ids_in_ways (delete_ways u) (created_node_ids ct) (created_way_ids ct) = Inr ws" and
    lock: "lock_current_ways (sort_unique (map e_id ws)) d = Inr ()" and
    s1: "determine_already_deleted_ways ws (d, ct) = Inr (found, ct1)" and
    s2: "is_way_still_referenced (filter (\<lambda>w. e_id w \<notin> found) ws) (d, ct1) = Inr (dead, ct2)" and
    s3: "update_current_ways dead False (d, ct2) = Inr (d1, ct')" and
    s4: "save_current_ways_to_history (map e_id dead)
        (delete_current_way_nodes (map e_id dead) (delete_current_way_tags (map e_id dead) d1)) = Inr d'" and
    u': "u' = u\<lparr>wu_bbox := expand (wu_bbox u) (calc_way_bbox (sort_unique (map e_id ws)) d), delete_ways := []\<rparr>"
    by (auto simp: process_delete_ways_def Let_def result_simps split: prod.splits)
  have "way_delete_step ws dead (d, ct) (d', ct')"
    by (rule delete_ways_selected [OF ok lock s1 s2 s3 s4])
  with ws u' show ?thesis by (intro that) auto
qed

lemma process_delete_ways_inv:
  assumes "process_delete_ways (d, ct, u) = Inr (d', ct', u')" and inv: "upload_inv s0 d ct"
  shows "upload_inv s0 d' ct'"
proof -
  have ok: "ways_ok d" and db: "db_ok d" and wn: "way_nodes_ok d"
    using inv by (simp_all add: upload_inv_def db_ok_def way_nodes_ok_def refs_ok_def)
  from process_delete_ways_Inr [OF assms(1) ok] obtain ws dead where
    step: "way_delete_step ws dead (d, ct) (d', ct')" .
  have "way_nodes_ok d'"
    using wn step unfolding way_nodes_ok_def way_delete_step_def way_frame_def by fastforce
  moreover have "visible_id (current_ways d') i"
    if "visible_id (current_ways d) i" "i \<in> fst ` set (member_refs ''Way'' d)" for i
    using step that unfolding way_delete_step_def by blast
  ultimately have "db_ok d'"
    by (intro db_ok_way_frame [OF db]) (use step in \<open>auto simp: way_delete_step_def\<close>)
  moreover have "created_ok s0 d' ct'"
  proof (rule created_ok_same)
    show "created_ok s0 d ct" using inv by (simp add: upload_inv_def)
    fix t show "created_ids t ct' = created_ids t ct \<and> id_seq t d' = id_seq t d"
      using step by (cases t) (auto simp: way_delete_step_def way_frame_def)
  qed
  ultimately show ?thesis by (simp add: upload_inv_def)
qed

section \<open>The way updater fulfils the interface\<close>

lemma process_new_ways_ct:
  assumes "process_new_ways (d, ct, u) = Inr (d', ct', u')" "upload_inv s0 d ct"
    "\<forall>w\<in>set (create_ways u). creates_ok w"
  shows "ct_extends ct ct' \<and> (\<forall>w\<in>set (create_ways u). accounted ct' (change_item op_create ot_way w))"
proof -
  have ok: "ways_ok d" using assms(2) by (simp add: upload_inv_def db_ok_def)
  from process_new_ways_Inr [OF assms(1) ok assms(3)] have
    ct': "ct' = ct\<lparr>created_way_ids := created_way_ids ct @
       created_mappings (ids_mapping (way_id_seq d) (map e_old_id (create_ways u)))\<rparr>" by metis
  have "accounted ct' (change_item op_create ot_way w)" if "w \<in> set (create_ways u)" for w
    by (rule accounted_created [OF _ that]) (simp add: ct')
  moreover have "ct_extends ct ct'" by (simp add: ct' ct_extends_def all_object_type)
  ultimately show ?thesis by blast
qed

lemma process_modify_ways_ct:
  assumes "process_modify_ways (d, ct, u) = Inr (d', ct', u')" "upload_inv s0 d ct"
  shows "ct_extends ct ct' \<and> (\<forall>w\<in>set (modify_ways u). accounted ct' (change_item op_modify ot_way w))"
proof -
  have ok: "ways_ok d" using assms(2) by (simp add: upload_inv_def db_ok_def)
  from process_modify_ways_Inr [OF assms(1) ok] obtain ws where
    ws: "replace_old_ids_in_ways (modify_ways u) (created_node_ids ct) (created_way_ids ct) = Inr ws" and
    step: "way_modify_step ws (d, ct, wu_bbox u) (d', ct', wu_bbox u')" .
  from step obtain mps where ct': "ct' = ct\<lparr>modified_way_ids := modified_way_ids ct @ mps\<rparr>"
    and mps: "\<forall>w\<in>set ws. modified_by mps w" by (auto simp: way_modify_step_def)
  have "accounted ct' (change_item op_modify ot_way w)" if w: "w \<in> set (modify_ways u)" for w
  proof -
    from resolved_from [OF replace_old_ids_in_ways_Inr [OF ws] w] obtain f where f: "f \<in> set ws"
      "e_old_id f = e_old_id w" "e_version f = e_version w" "e_if_unused f = e_if_unused w" by blast
    have "accounted ct' (change_item op_modify ot_way f)"
      by (rule accounted_modified [of mps]) (use mps f(1) ct' in auto)
    then show ?thesis by (simp only: change_item_cong [OF f(2-4)])
  qed
  moreover have "ct_extends ct ct'" by (simp add: ct' ct_extends_def all_object_type)
  ultimately show ?thesis by blast
qed

lemma process_delete_ways_ct:
  assumes "process_delete_ways (d, ct, u) = Inr (d', ct', u')" and inv: "upload_inv s0 d ct"
    and named: "\<forall>w\<in>set (delete_ways u). named_ok (s0 ot_way) w"
  shows "ct_extends ct ct' \<and> (\<forall>w\<in>set (delete_ways u). accounted ct' (change_item op_delete ot_way w))"
proof -
  have ok: "ways_ok d" using inv by (simp add: upload_inv_def db_ok_def)
  from process_delete_ways_Inr [OF assms(1) ok] obtain ws dead where
    ws: "replace_old_ids_in_ways (delete_ways u) (created_node_ids ct) (created_way_ids ct) = Inr ws" and
    step: "way_delete_step ws dead (d, ct) (d', ct')" .
  note res = replace_old_ids_in_ways_Inr [OF ws]
  have af: "alias_free ws" by (rule created_ok_alias_free [OF inv res [folded created_ids.simps(2)] named])
  from step obtain del skip where
    ct': "ct' = ct\<lparr>deleted_way_ids := deleted_way_ids ct @ del,
                  skip_deleted_way_ids := skip_deleted_way_ids ct @ skip\<rparr>"
    and del: "set del = e_old_id ` set dead"
    and acc: "\<forall>w\<in>set ws. w \<in> set dead \<or>
           e_if_unused w \<and> e_old_id w \<in> om_old_id ` set (skip_deleted_way_ids ct @ skip)"
    using af unfolding way_delete_step_def by auto
  have "accounted ct' (change_item op_delete ot_way w)" if w: "w \<in> set (delete_ways u)" for w
  proof -
    from resolved_from [OF res w] obtain f where f: "f \<in> set ws"
      "e_old_id f = e_old_id w" "e_version f = e_version w" "e_if_unused f = e_if_unused w" by blast
    have "accounted ct' (change_item op_delete ot_way f)"
      by (rule accounted_deleted) (use acc f(1) del ct' in auto)
    then show ?thesis by (simp only: change_item_cong [OF f(2-4)])
  qed
  moreover have "ct_extends ct ct'" by (simp add: ct' ct_extends_def all_object_type)
  ultimately show ?thesis by blast
qed

lemma process_ways_buffers:
  "process_new_ways (d, ct, u) = Inr (d', ct', u') \<Longrightarrow>
     create_ways u' = [] \<and> modify_ways u' = modify_ways u \<and> delete_ways u' = delete_ways u"
  "process_modify_ways (d, ct, u) = Inr (d', ct', u') \<Longrightarrow>
     modify_ways u' = [] \<and> create_ways u' = create_ways u \<and> delete_ways u' = delete_ways u"
  "process_delete_ways (d, ct, u) = Inr (d', ct', u') \<Longrightarrow>
     delete_ways u' = [] \<and> create_ways u' = create_ways u \<and> modify_ways u' = modify_ways u"
  by (auto simp: process_new_ways_def process_modify_ways_def process_delete_ways_def Let_def
      result_simps split: prod.splits)

interpretation way_upd: element_updater ot_way process_new_ways process_modify_ways
    process_delete_ways create_ways modify_ways delete_ways "\<lambda>_. True"
  by (unfold_locales;
      (rule TrueI | erule process_new_ways_inv | erule process_new_ways_ct | erule process_modify_ways_inv |
       erule process_modify_ways_ct | erule process_delete_ways_inv | erule process_delete_ways_ct |
       erule process_ways_buffers); assumption)

end
