(* ===== verification/Relation_Updater.thy ===== *)
theory Relation_Updater
  imports Way_Updater
begin

text \<open>
  \<^verbatim>\<open>ApiDB_Relation_Updater\<close> (\<^verbatim>\<open>src/backend/apidb/changeset_upload/relation_updater.cpp\<close>):
  pending relations with their members, the requests that fill them, and the processing steps.
  Relations may contain each other, so a deletion with the if-unused flag has to leave the
  members of a relation that stays in place alone, down to the leaves.
\<close>

section \<open>State\<close>

record member_t =
  mb_type :: string
  mb_id :: osm_nwr_id_t
  mb_role :: string
  mb_sequence_id :: osm_sequence_id_t
  mb_old_id :: osm_nwr_signed_id_t

record relation_t = elem_t +
  rel_members :: "member_t list"

record rel_member_difference_t =
  df_member_type :: string
  df_member_id :: osm_nwr_id_t
  df_new_member :: bool

record relation_updater =
  ru_bbox :: bbox_t
  create_relations :: "relation_t list"
  modify_relations :: "relation_t list"
  delete_relations :: "relation_t list"
  ru_create_placeholder_ids :: "int set"

definition init_relation_updater :: relation_updater where
  "init_relation_updater = \<lparr>ru_bbox = default_bbox, create_relations = [], modify_relations = [],
                            delete_relations = [], ru_create_placeholder_ids = {}\<rparr>"

section \<open>Requests\<close>

text \<open>
  A member of the message is its type, reference and role; the loop numbers the members
  from 1.
\<close>

type_synonym member_in = "string \<times> osm_nwr_signed_id_t \<times> string"

definition members_of :: "member_in list \<Rightarrow> member_t list" where
  "members_of ms =
     map (\<lambda>(k, ty, ref, role). \<lparr>mb_type = ty, mb_id = (if ref < 0 then 0 else ref), mb_role = role,
                                mb_sequence_id = int k + 1, mb_old_id = ref\<rparr>) (List.enumerate 0 ms)"

definition add_relation :: "osm_changeset_id_t \<Rightarrow> osm_nwr_signed_id_t \<Rightarrow> member_in list \<Rightarrow>
    (string \<times> string) list \<Rightarrow> OSMChange_Tracking \<times> relation_updater \<Rightarrow>
    (OSMChange_Tracking \<times> relation_updater) result" where
  "add_relation changeset_id old_id members tags = (\<lambda>(ct, u).
     if 0 \<le> old_id
     then Inl (bad_request ''Placeholder IDs must be negative for created elements.'')
     else let new_relation = \<lparr>e_id = 0, e_version = 1, e_changeset_id = changeset_id,
                              e_old_id = old_id, e_tags = tags, e_if_unused = False,
                              rel_members = members_of members\<rparr>
          in Inr (track op_create ot_relation new_relation ct,
                  u\<lparr>create_relations := create_relations u @ [new_relation]\<rparr>))"

definition modify_relation :: "osm_changeset_id_t \<Rightarrow> osm_nwr_id_t \<Rightarrow> osm_version_t \<Rightarrow>
    member_in list \<Rightarrow> (string \<times> string) list \<Rightarrow> OSMChange_Tracking \<times> relation_updater \<Rightarrow>
    (OSMChange_Tracking \<times> relation_updater) result" where
  "modify_relation changeset_id i version members tags = (\<lambda>(ct, u).
     let r = \<lparr>e_id = i, e_version = version, e_changeset_id = changeset_id, e_old_id = s64 i,
              e_tags = tags, e_if_unused = False, rel_members = members_of members\<rparr>
     in Inr (track op_modify ot_relation r ct, u\<lparr>modify_relations := modify_relations u @ [r]\<rparr>))"

definition delete_relation :: "osm_changeset_id_t \<Rightarrow> osm_nwr_id_t \<Rightarrow> osm_version_t \<Rightarrow> bool \<Rightarrow>
    OSMChange_Tracking \<times> relation_updater \<Rightarrow> (OSMChange_Tracking \<times> relation_updater) result" where
  "delete_relation changeset_id i version if_unused = (\<lambda>(ct, u).
     let r = \<lparr>e_id = i, e_version = version, e_changeset_id = changeset_id, e_old_id = s64 i,
              e_tags = [], e_if_unused = if_unused, rel_members = []\<rparr>
     in Inr (track op_delete ot_relation r ct, u\<lparr>delete_relations := delete_relations u @ [r]\<rparr>))"

section \<open>Placeholders\<close>

definition replace_member_id :: "(int \<rightharpoonup> int) \<Rightarrow> string \<Rightarrow> relation_t \<Rightarrow> member_t \<Rightarrow> member_t result" where
  "replace_member_id m what cr mbr =
     (case m (mb_old_id mbr) of
        None \<Rightarrow> Inl (bad_request (''Placeholder '' @ what @ '' not found for reference '' @
                 fmt_d (mb_old_id mbr) @ '' in relation '' @ fmt_d (e_old_id cr)))
      | Some i \<Rightarrow> Inr (mbr\<lparr>mb_id := i\<rparr>))"

definition replace_old_ids_in_relation_member ::
    "relation_t \<Rightarrow> (int \<rightharpoonup> int) \<Rightarrow> (int \<rightharpoonup> int) \<Rightarrow> (int \<rightharpoonup> int) \<Rightarrow> relation_t result" where
  "replace_old_ids_in_relation_member cr map_nodes map_ways map_relations =
     bindE (mapE (\<lambda>mbr. if 0 \<le> mb_old_id mbr then Inr mbr
                        else if mb_type mbr = ''Node'' then replace_member_id map_nodes ''node'' cr mbr
                        else if mb_type mbr = ''Way'' then replace_member_id map_ways ''way'' cr mbr
                        else if mb_type mbr = ''Relation''
                        then replace_member_id map_relations ''relation'' cr mbr
                        else Inr mbr) (rel_members cr))
       (\<lambda>mbs. Inr (cr\<lparr>rel_members := mbs\<rparr>))"

definition replace_old_ids_in_relations ::
    "relation_t list \<Rightarrow> object_id_mapping_t list \<Rightarrow> object_id_mapping_t list \<Rightarrow>
       object_id_mapping_t list \<Rightarrow> relation_t list result" where
  "replace_old_ids_in_relations rs created_nodes created_ways created_relations =
     bindE (placeholder_map ''relation'' created_relations) (\<lambda>map_relations.
     bindE (placeholder_map ''way'' created_ways) (\<lambda>map_ways.
     bindE (placeholder_map ''node'' created_nodes) (\<lambda>map_nodes.
     mapE (\<lambda>cr. bindE (replace_own_id ''relation'' map_relations cr)
                   (\<lambda>cr. replace_old_ids_in_relation_member cr map_nodes map_ways map_relations)) rs)))"

definition relation_check_unique_placeholder_ids :: "relation_t list \<Rightarrow> int set \<Rightarrow> int set result" where
  "relation_check_unique_placeholder_ids rs ids = check_unique_placeholders rs ids"

text \<open>
  A new relation may refer to new relations only backwards: the placeholders seen so far do
  not contain its own.
\<close>

definition check_forward_step :: "relation_t \<Rightarrow> int set \<Rightarrow> int set result" where
  "check_forward_step cr seen =
     bindE (foldE (\<lambda>mbr _. throw_if (mb_old_id mbr < 0 \<and> mb_type mbr = ''Relation'' \<and> mb_old_id mbr \<notin> seen)
                     (bad_request (''Placeholder relation not found for reference '' @
                        fmt_d (mb_old_id mbr) @ '' in relation '' @ fmt_d (e_old_id cr))))
              (rel_members cr) ())
       (\<lambda>_. Inr (if e_old_id cr < 0 then insert (e_old_id cr) seen else seen))"

definition check_forward_relation_placeholders :: "relation_t list \<Rightarrow> unit result" where
  "check_forward_relation_placeholders rs = bindE (foldE check_forward_step rs {}) (\<lambda>_. Inr ())"

section \<open>Database steps\<close>

definition insert_new_relations_to_current_table ::
    "relation_t list \<Rightarrow> db \<times> OSMChange_Tracking \<Rightarrow> (db \<times> OSMChange_Tracking) result" where
  "insert_new_relations_to_current_table rs = (\<lambda>(d, ct).
     let mp = ids_mapping (relation_id_seq d) (map e_old_id rs);
         rows = joined_rows (new_elem_row (db_now d)) rs mp
     in bindE (insert_rows r_id rows (current_relations d)) (\<lambda>tbl.
        bindE (throw_if (length mp \<noteq> length rs)
                 (server_error ''Could not create all new relations in current table'')) (\<lambda>_.
        Inr (d\<lparr>current_relations := tbl, relation_id_seq := relation_id_seq d + int (length rs)\<rparr>,
             ct\<lparr>created_relation_ids := created_relation_ids ct @ created_mappings mp\<rparr>))))"

definition lock_current_relations :: "int list \<Rightarrow> db \<Rightarrow> unit result" where
  "lock_current_relations ids d =
     (if ids = [] then Inr ()
      else let missing = except_ids ids (map r_id (select_any ids (current_relations d))) in
        throw_if (missing \<noteq> [])
          (not_found (''The following relation ids are unknown: '' @ join_comma (map fmt_d missing))))"

definition relation_build_packages :: "relation_t list \<Rightarrow> relation_t list list result" where
  "relation_build_packages rs = build_packages_by e_id rs"

definition check_current_relation_versions :: "relation_t list \<Rightarrow> db \<Rightarrow> unit result" where
  "check_current_relation_versions rs d =
     (if rs = [] then Inr ()
      else case version_mismatch (map (\<lambda>r. (e_id r, e_version r)) rs) (current_relations d) of
             [] \<Rightarrow> Inr ()
           | (i, expected, actual) # _ \<Rightarrow>
               Inl (conflict (''Version mismatch: Provided '' @ fmt_d expected @ '', server had: '' @
                              fmt_d actual @ '' of Relation '' @ fmt_d i)))"

definition determine_already_deleted_relations ::
    "relation_t list \<Rightarrow> db \<times> OSMChange_Tracking \<Rightarrow> (int set \<times> OSMChange_Tracking) result" where
  "determine_already_deleted_relations rs = (\<lambda>(d, ct).
     if rs = [] then Inr ({}, ct)
     else bindE (foldE (already_deleted_step ''relation'' rs)
                   (filter (\<lambda>r. \<not> r_visible r) (select_any (map e_id rs) (current_relations d)))
                   ({}, skip_deleted_relation_ids ct))
            (\<lambda>(found, skipped). Inr (found, ct\<lparr>skip_deleted_relation_ids := skipped\<rparr>)))"

definition member_ids :: "string \<Rightarrow> relation_t \<Rightarrow> int list" where
  "member_ids ty r = map mb_id (filter (\<lambda>m. mb_type m = ty) (rel_members r))"

definition lock_future_members_nodes :: "int list \<Rightarrow> relation_t list \<Rightarrow> db \<Rightarrow> unit result" where
  "lock_future_members_nodes ids rs d =
     require_visible ''Relation'' ''nodes'' (member_ids ''Node'') rs ids (current_nodes d)"

definition lock_future_members_ways :: "int list \<Rightarrow> relation_t list \<Rightarrow> db \<Rightarrow> unit result" where
  "lock_future_members_ways ids rs d =
     require_visible ''Relation'' ''ways'' (member_ids ''Way'') rs ids (current_ways d)"

definition lock_future_members_relations :: "int list \<Rightarrow> relation_t list \<Rightarrow> db \<Rightarrow> unit result" where
  "lock_future_members_relations ids rs d =
     require_visible ''Relation'' ''relations'' (member_ids ''Relation'') rs ids (current_relations d)"

definition lock_future_members :: "relation_t list \<Rightarrow> int list \<Rightarrow> db \<Rightarrow> unit result" where
  "lock_future_members rs already_locked d =
     (let node_ids = concat (map (member_ids ''Node'') rs);
          way_ids = concat (map (member_ids ''Way'') rs);
          relation_ids = filter (\<lambda>i. i \<notin> set already_locked) (concat (map (member_ids ''Relation'') rs))
      in if node_ids = [] \<and> way_ids = [] \<and> relation_ids = [] then Inr ()
         else bindE (lock_future_members_nodes node_ids rs d) (\<lambda>_.
              bindE (lock_future_members_ways way_ids rs d) (\<lambda>_.
              lock_future_members_relations relation_ids rs d)))"

section \<open>Changes that count towards the bounding box\<close>

text \<open>The pairs of relation and member relation that the current table does not have.\<close>

definition relations_with_new_relation_members :: "relation_t list \<Rightarrow> db \<Rightarrow> int set" where
  "relations_with_new_relation_members rs d =
     (let tmp = concat (map (\<lambda>r. map (Pair (e_id r)) (member_ids ''Relation'' r)) rs)
      in fst ` set (filter (\<lambda>(r, i). \<not> list_ex (\<lambda>m. m_relation_id m = r \<and> m_member_id m = i \<and>
              m_member_type m = ''Relation'') (current_relation_members d)) tmp))"

text \<open>
  The tags go through \<^verbatim>\<open>escape\<close> into an array literal, which the server reads back as the
  same strings. The first part of the union are tags of the message the current table does not
  have, the second part current tags that the message does not have, of relations that have a
  tag in the message.
\<close>

definition relations_with_changed_relation_tags :: "relation_t list \<Rightarrow> db \<Rightarrow> int set" where
  "relations_with_changed_relation_tags rs d =
     (let tmp = elem_tag_rows rs;
          cur = current_relation_tags d
      in fst ` set (filter (\<lambda>t. t \<notin> set cur) tmp) \<union>
         fst ` set (filter (\<lambda>c. list_ex (\<lambda>t1. fst t1 = fst c) tmp \<and> c \<notin> set tmp) cur))"

definition relations_with_changed_way_node_members :: "relation_t list \<Rightarrow> db \<Rightarrow> rel_member_difference_t list" where
  "relations_with_changed_way_node_members rs d =
     (let tmp = concat (map (\<lambda>r. map (\<lambda>m. (e_id r, mb_type m, mb_id m))
                  (filter (\<lambda>m. mb_type m = ''Node'' \<or> mb_type m = ''Way'') (rel_members r))) rs);
          cur = current_relation_members d;
          key = (\<lambda>m. (m_relation_id m, m_member_type m, m_member_id m))
      in map (\<lambda>(_, ty, i). \<lparr>df_member_type = ty, df_member_id = i, df_new_member = True\<rparr>)
             (filter (\<lambda>t. t \<notin> set (map key cur)) tmp) @
         map (\<lambda>m. \<lparr>df_member_type = m_member_type m, df_member_id = m_member_id m, df_new_member = False\<rparr>)
             (filter (\<lambda>m. m_relation_id m \<in> fst ` set tmp \<and> key m \<notin> set tmp) cur))"

definition calc_rel_member_difference_bbox :: "rel_member_difference_t list \<Rightarrow> bool \<Rightarrow> db \<Rightarrow> bbox_t" where
  "calc_rel_member_difference_bbox diff process_new_elements d =
     (let counted = filter (\<lambda>f. df_new_member f = process_new_elements) diff;
          node_ids = map df_member_id (filter (\<lambda>f. df_member_type f = ''Node'') counted);
          way_ids = map df_member_id (filter (\<lambda>f. df_member_type f = ''Way'') counted);
          bb1 = (if node_ids = [] then default_bbox
                 else expand default_bbox (extract_bbox_from_row (aggregate_bbox
                   (map (\<lambda>r. (r_latitude r, r_longitude r)) (select_any node_ids (current_nodes d)))) default_bbox))
      in if way_ids = [] then bb1
         else expand bb1 (extract_bbox_from_row (aggregate_bbox (way_positions way_ids d)) default_bbox))"

text \<open>The positions of the node members, and of the nodes of the way members, of relations.\<close>

definition node_member_positions :: "int list \<Rightarrow> db \<Rightarrow> (int \<times> int) list" where
  "node_member_positions ids d =
     concat (map (\<lambda>cn. map (\<lambda>_. (r_latitude cn, r_longitude cn))
       (filter (\<lambda>m. m_member_id m = r_id cn \<and> m_member_type m = ''Node'' \<and> m_relation_id m \<in> set ids)
          (current_relation_members d))) (current_nodes d))"

definition way_member_positions :: "int list \<Rightarrow> db \<Rightarrow> (int \<times> int) list" where
  "way_member_positions ids d =
     concat (map (\<lambda>m. way_positions [m_member_id m] d)
       (filter (\<lambda>m. m_member_type m = ''Way'' \<and> m_relation_id m \<in> set ids) (current_relation_members d)))"

definition calc_relation_bbox :: "int list \<Rightarrow> db \<Rightarrow> bbox_t" where
  "calc_relation_bbox ids d =
     (if ids = [] then default_bbox
      else expand (extract_bbox_from_row (aggregate_bbox (node_member_positions ids d)) default_bbox)
             (extract_bbox_from_row (aggregate_bbox (way_member_positions ids d)) default_bbox))"

section \<open>Writes\<close>

definition update_current_relations ::
    "relation_t list \<Rightarrow> bool \<Rightarrow> db \<times> OSMChange_Tracking \<Rightarrow> (db \<times> OSMChange_Tracking) result" where
  "update_current_relations rs visible = (\<lambda>(d, ct).
     if rs = [] then Inr (d, ct)
     else
       let (tbl, returned) = update_from elem_match (updated_elem_row (db_now d) visible) rs (current_relations d)
       in bindE (throw_if (length returned \<noteq> length rs)
                   (server_error ''Could not update all current relations'')) (\<lambda>_.
          if visible
          then bindE (mapE (row_mapping rs) returned) (\<lambda>mps.
               Inr (d\<lparr>current_relations := tbl\<rparr>,
                    ct\<lparr>modified_relation_ids := modified_relation_ids ct @ mps\<rparr>))
          else Inr (d\<lparr>current_relations := tbl\<rparr>,
                    ct\<lparr>deleted_relation_ids := deleted_relation_ids ct @
                         map (\<lambda>r. map_at (id_to_old_id rs) (r_id r)) returned\<rparr>)))"

definition insert_new_current_relation_tags :: "relation_t list \<Rightarrow> db \<Rightarrow> (int list \<times> db) result" where
  "insert_new_current_relation_tags rs d =
     (if rs = [] then Inr ([], d)
      else bindE (insert_rows (\<lambda>(i, k, _). (i, k)) (elem_tag_rows rs) (current_relation_tags d)) (\<lambda>tbl.
           Inr (sort_unique (map fst (elem_tag_rows rs)), d\<lparr>current_relation_tags := tbl\<rparr>)))"

definition member_rows :: "relation_t list \<Rightarrow> member_row list" where
  "member_rows rs = concat (map (\<lambda>r. map (\<lambda>m.
     \<lparr>m_relation_id = e_id r, m_member_type = mb_type m, m_member_id = mb_id m,
      m_member_role = mb_role m, m_sequence_id = mb_sequence_id m\<rparr>) (rel_members r)) rs)"

definition insert_new_current_relation_members :: "relation_t list \<Rightarrow> db \<Rightarrow> db result" where
  "insert_new_current_relation_members rs d =
     (if rs = [] then Inr d
      else bindE (insert_rows (\<lambda>m. (m_relation_id m, m_sequence_id m)) (member_rows rs)
                    (current_relation_members d)) (\<lambda>tbl.
           Inr (d\<lparr>current_relation_members := tbl\<rparr>)))"

definition save_current_relations_to_history :: "int list \<Rightarrow> db \<Rightarrow> db result" where
  "save_current_relations_to_history ids d =
     (if ids = [] then Inr d
      else let rows = select_any ids (current_relations d) in
        bindE (insert_rows (\<lambda>r. (r_id r, r_version r)) rows (relations_tbl d)) (\<lambda>tbl.
        bindE (throw_if (length rows \<noteq> length ids)
                 (server_error ''Could not save current relations to history'')) (\<lambda>_.
        Inr (d\<lparr>relations_tbl := tbl\<rparr>))))"

definition save_current_relation_tags_to_history :: "int list \<Rightarrow> db \<Rightarrow> db result" where
  "save_current_relation_tags_to_history ids d =
     (if ids = [] then Inr d
      else bindE (insert_rows (\<lambda>(i, ver, k, _). (i, ver, k))
                    (tags_to_history ids (current_relation_tags d) (current_relations d))
                    (relation_tags_tbl d)) (\<lambda>tbl.
           Inr (d\<lparr>relation_tags_tbl := tbl\<rparr>)))"

definition members_to_history :: "int list \<Rightarrow> member_row list \<Rightarrow> relation_row list \<Rightarrow> hist_member_row list" where
  "members_to_history ids ms rs =
     concat (map (\<lambda>m. map (\<lambda>r. member_row.extend m \<lparr>m_version = r_version r\<rparr>)
       (filter (\<lambda>r. m_relation_id m = r_id r \<and> r_id r \<in> set ids) rs)) ms)"

definition save_current_relation_members_to_history :: "int list \<Rightarrow> db \<Rightarrow> db result" where
  "save_current_relation_members_to_history ids d =
     (if ids = [] then Inr d
      else bindE (insert_rows (\<lambda>m. (m_relation_id m, m_version m, m_sequence_id m))
                    (members_to_history ids (current_relation_members d) (current_relations d))
                    (relation_members_tbl d)) (\<lambda>tbl.
           Inr (d\<lparr>relation_members_tbl := tbl\<rparr>)))"

section \<open>Deletions among nested relations\<close>

text \<open>\<^verbatim>\<open>calc_child_relation_ids_for_relation_ids\<close>: the member relations of existing relations.\<close>

definition child_relation_ids :: "int set \<Rightarrow> db \<Rightarrow> int set" where
  "child_relation_ids ids d =
     m_member_id ` set (filter (\<lambda>m. m_relation_id m \<in> ids \<and> m_member_type m = ''Relation'' \<and>
        m_relation_id m \<in> r_id ` set (current_relations d)) (current_relation_members d))"

text \<open>
  The \<^verbatim>\<open>do ... while\<close> loop of \<^verbatim>\<open>collect_recursive_relation_rel_member_ids\<close>: \<open>todo\<close> are the
  relations whose children are fetched, \<open>acc\<close> the children found so far. It ends because
  every further round has found a new child.
\<close>

function collect_children :: "db \<Rightarrow> int set \<Rightarrow> int set \<Rightarrow> int set" where
  "collect_children d todo acc =
     (let kids = child_relation_ids todo d in
      if kids - acc = {} then acc \<union> kids
      else collect_children d (kids - acc) (acc \<union> kids))"
  by auto
termination
proof (relation "measure (\<lambda>(d, _, acc). card (m_member_id ` set (current_relation_members d) - acc))")
  fix d :: db and todo acc kids :: "int set"
  assume kids: "kids = child_relation_ids todo d" and new: "kids - acc \<noteq> {}"
  let ?all = "m_member_id ` set (current_relation_members d)"
  have "kids \<subseteq> ?all" unfolding kids child_relation_ids_def by auto
  with new have "?all - (acc \<union> kids) \<subset> ?all - acc" by blast
  then show "((d, kids - acc, acc \<union> kids), d, todo, acc)
      \<in> measure (\<lambda>(d, _, acc). card (m_member_id ` set (current_relation_members d) - acc))"
    by (auto intro!: psubset_card_mono)
qed simp

declare collect_children.simps [simp del]

definition collect_recursive_relation_rel_member_ids :: "int set \<Rightarrow> db \<Rightarrow> int set" where
  "collect_recursive_relation_rel_member_ids direct d =
     (if direct = {} then {} else collect_children d direct {})"

definition extend_deletion_block_to_relation_children :: "int set \<Rightarrow> int set \<Rightarrow> int set \<Rightarrow> db \<Rightarrow> int set" where
  "extend_deletion_block_to_relation_children direct if_unused excl d =
     (if direct = {} \<or> if_unused = {} then excl
      else excl \<union> (collect_recursive_relation_rel_member_ids direct d \<inter> if_unused))"

text \<open>
  \<^verbatim>\<open>relation_still_referenced_by_relation\<close>: the pairs of a relation to be deleted and a visible
  relation outside the list that has it as a member, by the joins of the statement, and the
  grouping with \<^verbatim>\<open>string_agg\<close>.
\<close>

definition outside_references :: "int list \<Rightarrow> db \<Rightarrow> (int \<times> int) list" where
  "outside_references ids d =
     concat (map (\<lambda>cr. concat (map (\<lambda>m. map (\<lambda>_. (m_member_id m, r_id cr))
         (filter (\<lambda>c. m_member_id m = c) ids))
       (filter (\<lambda>m. m_relation_id m = r_id cr \<and> m_member_type m = ''Relation'') (current_relation_members d))))
       (filter (\<lambda>cr. r_visible cr \<and> r_id cr \<notin> set ids) (current_relations d)))"

definition group_refs :: "(int \<times> int) list \<Rightarrow> (int \<times> string) list" where
  "group_refs ps = map (\<lambda>k. (k, join_comma (map (\<lambda>p. fmt_d (snd p)) (filter (\<lambda>p. fst p = k) ps))))
     (remdups (map fst ps))"

definition is_relation_still_referenced ::
    "relation_t list \<Rightarrow> db \<times> OSMChange_Tracking \<Rightarrow> (relation_t list \<times> OSMChange_Tracking) result" where
  "is_relation_still_referenced rs = (\<lambda>(d, ct).
     if rs = [] then Inr (rs, ct)
     else
       let r = group_refs (outside_references (map e_id rs) d) in
       bindE (foldE (still_referenced_by (\<lambda>i refs. ''The relation '' @ fmt_d i @ '' is used in relations '' @ refs @ ''.'') rs)
                r {}) (\<lambda>excl1.
       let direct = fst ` set r;
           excl = extend_deletion_block_to_relation_children direct (ids_if_unused rs) excl1 d in
       bindE (exclude_referenced ''relations'' rs excl (current_relations d) (skip_deleted_relation_ids ct)) (\<lambda>(rs', skipped).
       Inr (rs', ct\<lparr>skip_deleted_relation_ids := skipped\<rparr>))))"

definition delete_current_relation_members :: "int list \<Rightarrow> db \<Rightarrow> db" where
  "delete_current_relation_members ids d =
     (if ids = [] then d
      else d\<lparr>current_relation_members :=
               filter (\<lambda>m. m_relation_id m \<notin> set ids) (current_relation_members d)\<rparr>)"

definition delete_current_relation_tags :: "int list \<Rightarrow> db \<Rightarrow> db" where
  "delete_current_relation_tags ids d =
     (if ids = [] then d
      else d\<lparr>current_relation_tags := delete_tags_any ids (current_relation_tags d)\<rparr>)"

section \<open>Processing\<close>

definition process_new_relations ::
    "db \<times> OSMChange_Tracking \<times> relation_updater \<Rightarrow> (db \<times> OSMChange_Tracking \<times> relation_updater) result" where
  "process_new_relations = (\<lambda>(d, ct, u).
     bindE (relation_check_unique_placeholder_ids (create_relations u) (ru_create_placeholder_ids u)) (\<lambda>phs.
     bindE (check_forward_relation_placeholders (create_relations u)) (\<lambda>_.
     bindE (insert_new_relations_to_current_table (create_relations u) (d, ct)) (\<lambda>(d1, ct1).
     bindE (replace_old_ids_in_relations (create_relations u) (created_node_ids ct1)
              (created_way_ids ct1) (created_relation_ids ct1)) (\<lambda>rs.
     let ids = sort_unique (map e_id rs) in
     bindE (lock_future_members rs ids d1) (\<lambda>_.
     bindE (insert_new_current_relation_tags rs d1) (\<lambda>(ids_with_tags, d2).
     bindE (insert_new_current_relation_members rs d2) (\<lambda>d3.
     bindE (save_current_relations_to_history ids d3) (\<lambda>d4.
     bindE (save_current_relation_tags_to_history ids_with_tags d4) (\<lambda>d5.
     bindE (save_current_relation_members_to_history ids d5) (\<lambda>d6.
     Inr (d6, ct1, u\<lparr>ru_bbox := expand (ru_bbox u) (calc_relation_bbox ids d6),
                     create_relations := [], ru_create_placeholder_ids := phs\<rparr>))))))))))))"

text \<open>
  The body of the loop over the packages; \<open>all_ids\<close> are the locked ids of all modified
  relations, which need not be visible yet to be members.
\<close>

definition modify_relations_package ::
    "int list \<Rightarrow> relation_t list \<Rightarrow> db \<times> OSMChange_Tracking \<times> bbox_t \<Rightarrow>
       (db \<times> OSMChange_Tracking \<times> bbox_t) result" where
  "modify_relations_package all_ids rs = (\<lambda>(d, ct, bb).
     let ids = sort_unique (map e_id rs) in
     bindE (check_current_relation_versions rs d) (\<lambda>_.
     bindE (lock_future_members rs all_ids d) (\<lambda>_.
     let full = sorted_list_of_set (relations_with_new_relation_members rs d \<union>
                                    relations_with_changed_relation_tags rs d);
         bb1 = expand bb (calc_relation_bbox full d);
         partial = relations_with_changed_way_node_members rs d;
         bb2 = expand bb1 (calc_rel_member_difference_bbox partial False d);
         d1 = delete_current_relation_members ids (delete_current_relation_tags ids d) in
     bindE (update_current_relations rs True (d1, ct)) (\<lambda>(d2, ct2).
     bindE (insert_new_current_relation_tags rs d2) (\<lambda>(ids_with_tags, d3).
     bindE (insert_new_current_relation_members rs d3) (\<lambda>d4.
     bindE (save_current_relations_to_history ids d4) (\<lambda>d5.
     bindE (save_current_relation_tags_to_history ids_with_tags d5) (\<lambda>d6.
     bindE (save_current_relation_members_to_history ids d6) (\<lambda>d7.
     Inr (d7, ct2, expand (expand bb2 (calc_relation_bbox full d7))
                     (calc_rel_member_difference_bbox partial True d7)))))))))))"

definition process_modify_relations ::
    "db \<times> OSMChange_Tracking \<times> relation_updater \<Rightarrow> (db \<times> OSMChange_Tracking \<times> relation_updater) result" where
  "process_modify_relations = (\<lambda>(d, ct, u).
     bindE (replace_old_ids_in_relations (modify_relations u) (created_node_ids ct)
              (created_way_ids ct) (created_relation_ids ct)) (\<lambda>rs.
     let ids = sort_unique (map e_id rs) in
     bindE (lock_current_relations ids d) (\<lambda>_.
     bindE (relation_build_packages rs) (\<lambda>packages.
     bindE (foldE (modify_relations_package ids) packages (d, ct, ru_bbox u)) (\<lambda>(d1, ct1, bb).
     Inr (d1, ct1, u\<lparr>ru_bbox := bb, modify_relations := []\<rparr>))))))"

definition process_delete_relations ::
    "db \<times> OSMChange_Tracking \<times> relation_updater \<Rightarrow> (db \<times> OSMChange_Tracking \<times> relation_updater) result" where
  "process_delete_relations = (\<lambda>(d, ct, u).
     bindE (replace_old_ids_in_relations (delete_relations u) (created_node_ids ct)
              (created_way_ids ct) (created_relation_ids ct)) (\<lambda>rs.
     let ids = sort_unique (map e_id rs) in
     bindE (lock_current_relations ids d) (\<lambda>_.
     bindE (determine_already_deleted_relations rs (d, ct)) (\<lambda>(already_deleted, ct1).
     let visible = filter (\<lambda>r. e_id r \<notin> already_deleted) rs in
     bindE (check_current_relation_versions visible d) (\<lambda>_.
     bindE (is_relation_still_referenced visible (d, ct1)) (\<lambda>(unreferenced, ct2).
     let bb = expand (ru_bbox u) (calc_relation_bbox ids d) in
     bindE (update_current_relations unreferenced False (d, ct2)) (\<lambda>(d1, ct3).
     let ids_unreferenced = map e_id unreferenced in
     bindE (save_current_relations_to_history ids_unreferenced
              (delete_current_relation_members ids_unreferenced
                (delete_current_relation_tags ids_unreferenced d1))) (\<lambda>d2.
     Inr (d2, ct3, u\<lparr>ru_bbox := bb, delete_relations := []\<rparr>)))))))))"

end
