(* ===== verification/Relation_Correct.thy ===== *)
theory Relation_Correct
  imports Relation_Updater Updater_Interface
begin

text \<open>
  The relation updater keeps the upload invariant (the members of every current relation stay
  visible), accounts for every pending relation it processes, and its batched modification
  equals the modifications applied one by one. For deletions this needs the pending deletions
  to agree on the if-unused flag.
\<close>

section \<open>Frame\<close>

definition relation_frame :: "db \<Rightarrow> db \<Rightarrow> bool" where
  "relation_frame d d' \<longleftrightarrow>
     current_nodes d' = current_nodes d \<and> nodes_tbl d' = nodes_tbl d \<and> node_id_seq d' = node_id_seq d \<and>
     current_ways d' = current_ways d \<and> current_way_nodes d' = current_way_nodes d \<and>
     ways_tbl d' = ways_tbl d \<and> way_id_seq d' = way_id_seq d \<and> db_now d' = db_now d"

lemma relation_frame_refl [simp]: "relation_frame d d"
  by (simp add: relation_frame_def)

lemma relation_frame_trans: "relation_frame a b \<Longrightarrow> relation_frame b c \<Longrightarrow> relation_frame a c"
  by (simp add: relation_frame_def)

definition members_ok :: "db \<Rightarrow> bool" where
  "members_ok d \<longleftrightarrow> (\<forall>m\<in>set (current_relation_members d).
     member_visible d (m_member_type m) (m_member_id m) \<and>
     visible_id (current_relations d) (m_relation_id m))"

lemma db_ok_relation_frame:
  "db_ok d \<Longrightarrow> relation_frame d d' \<Longrightarrow> relations_ok d' \<Longrightarrow> members_ok d' \<Longrightarrow> db_ok d'"
  by (auto simp: db_ok_def nodes_ok_def ways_ok_def refs_ok_def members_ok_def relation_frame_def)

section \<open>The steps, one by one\<close>

lemma insert_new_relations_Inr:
  assumes "insert_new_relations_to_current_table rs (d, ct) = Inr (d', ct')"
  obtains new where
    "d' = d\<lparr>current_relations := current_relations d @ new, relation_id_seq := relation_id_seq d + int (length rs)\<rparr>"
    "distinct (map r_id (current_relations d @ new))"
    "r_id ` set new = {relation_id_seq d<..relation_id_seq d + int (length rs)}"
    "\<forall>r\<in>set new. r_visible r \<and> r_version r = 1"
    "ct' = ct\<lparr>created_relation_ids := created_relation_ids ct @
       created_mappings (ids_mapping (relation_id_seq d) (map e_old_id rs))\<rparr>"
proof -
  let ?rows = "joined_rows (new_elem_row (db_now d)) rs (ids_mapping (relation_id_seq d) (map e_old_id rs))"
  have ids: "r_id ` set ?rows = {relation_id_seq d<..relation_id_seq d + int (length rs)}"
    by (rule joined_rows_ids) (simp add: new_elem_row_def)
  have rows: "\<forall>r\<in>set ?rows. r_visible r \<and> r_version r = 1"
    by (rule joined_rows_all) (simp add: new_elem_row_def)
  show ?thesis
    by (rule that [of ?rows])
      (use assms ids rows in \<open>auto simp: insert_new_relations_to_current_table_def Let_def
        result_simps insert_rows_Inr\<close>)
qed

lemma insert_relation_tags_Inr:
  "insert_new_current_relation_tags rs d = Inr (ids, d') \<Longrightarrow> \<exists>t. d' = d\<lparr>current_relation_tags := t\<rparr>"
  by (auto simp: insert_new_current_relation_tags_def result_simps split: if_splits)
     (metis db.surjective db.update_convs(12))

lemma insert_relation_members_Inr:
  "insert_new_current_relation_members rs d = Inr d' \<Longrightarrow>
     d' = d\<lparr>current_relation_members := current_relation_members d @ member_rows rs\<rparr>"
  by (auto simp: insert_new_current_relation_members_def result_simps insert_rows_Inr member_rows_def
      split: if_splits)

lemma delete_relation_tags_eq: "\<exists>t. delete_current_relation_tags ids d = d\<lparr>current_relation_tags := t\<rparr>"
proof (cases "ids = []")
  case True
  then have "delete_current_relation_tags ids d = d\<lparr>current_relation_tags := current_relation_tags d\<rparr>"
    by (simp add: delete_current_relation_tags_def)
  then show ?thesis by blast
qed (auto simp: delete_current_relation_tags_def)

lemma delete_relation_members_eq:
  "delete_current_relation_members ids d =
     d\<lparr>current_relation_members := filter (\<lambda>m. m_relation_id m \<notin> set ids) (current_relation_members d)\<rparr>"
  by (cases "ids = []") (simp_all add: delete_current_relation_members_def)

lemma save_relations_Inr:
  assumes "save_current_relations_to_history ids d = Inr d'"
    and "distinct (map (\<lambda>r. (r_id r, r_version r)) (relations_tbl d))"
  shows "d' = d\<lparr>relations_tbl := relations_tbl d @ select_any ids (current_relations d)\<rparr>"
    and "distinct (map (\<lambda>r. (r_id r, r_version r)) (relations_tbl d @ select_any ids (current_relations d)))"
  using assms
  by (auto simp: save_current_relations_to_history_def Let_def result_simps insert_rows_Inr
      select_any_def split: if_splits)

lemma save_relation_tags_Inr:
  "save_current_relation_tags_to_history ids d = Inr d' \<Longrightarrow> \<exists>t. d' = d\<lparr>relation_tags_tbl := t\<rparr>"
  by (auto simp: save_current_relation_tags_to_history_def result_simps split: if_splits)
     (metis db.surjective db.update_convs(15))

lemma save_relation_members_Inr:
  "save_current_relation_members_to_history ids d = Inr d' \<Longrightarrow> \<exists>t. d' = d\<lparr>relation_members_tbl := t\<rparr>"
  by (auto simp: save_current_relation_members_to_history_def result_simps split: if_splits)
     (metis db.surjective db.update_convs(16))

lemma replace_relation_member_same:
  "replace_old_ids_in_relation_member r mn mw mr = Inr r' \<Longrightarrow> same_elem r r'"
  by (auto simp: replace_old_ids_in_relation_member_def result_simps same_elem_def)

lemma replace_old_ids_in_relations_Inr:
  "replace_old_ids_in_relations rs cn cw cr = Inr fs \<Longrightarrow> resolved cr rs fs"
  by (auto simp: replace_old_ids_in_relations_def result_simps intro!: resolvedI)
    (metis resolves_same resolves_own_id replace_relation_member_same)

text \<open>The future members of a vector of relations, and what their lock guarantees.\<close>

definition members_visible_or :: "int set \<Rightarrow> db \<Rightarrow> relation_row list \<Rightarrow> relation_t \<Rightarrow> bool" where
  "members_visible_or locked d rels r \<longleftrightarrow>
     (\<forall>i\<in>set (member_ids ''Node'' r). visible_id (current_nodes d) i) \<and>
     (\<forall>i\<in>set (member_ids ''Way'' r). visible_id (current_ways d) i) \<and>
     (\<forall>i\<in>set (member_ids ''Relation'' r). visible_id rels i \<or> i \<in> locked)"

lemma members_visible_or_mono:
  assumes "members_visible_or locked d rels r" "\<And>i. visible_id rels i \<Longrightarrow> visible_id rels' i"
    and "current_nodes d' = current_nodes d" "current_ways d' = current_ways d"
  shows "members_visible_or locked d' rels' r"
  using assms unfolding members_visible_or_def by metis

lemma lock_future_members_Inr:
  "lock_future_members rs locked d = Inr () \<longleftrightarrow>
     (\<forall>r\<in>set rs. members_visible_or (set locked) d (current_relations d) r)"
proof -
  let ?n = "concat (map (member_ids ''Node'') rs)" and ?w = "concat (map (member_ids ''Way'') rs)"
  let ?r = "filter (\<lambda>i. i \<notin> set locked) (concat (map (member_ids ''Relation'') rs))"
  have "lock_future_members rs locked d = Inr () \<longleftrightarrow>
      (\<forall>i\<in>set ?n. visible_id (current_nodes d) i) \<and> (\<forall>i\<in>set ?w. visible_id (current_ways d) i) \<and>
      (\<forall>i\<in>set ?r. visible_id (current_relations d) i)"
    unfolding lock_future_members_def Let_def lock_future_members_nodes_def lock_future_members_ways_def
      lock_future_members_relations_def
    by (simp only: bindE_Inr_iff require_visible_Inr split: if_split) auto
  then show ?thesis by (auto simp: members_visible_or_def)
qed

lemma lock_future_members_error:
  assumes "lock_future_members rs locked d = Inl e"
  shows "\<exists>msg. e = precondition_failed msg"
proof -
  let ?u = "\<lambda>ty. \<Union>r\<in>set rs. set (member_ids ty r)"
  have sub: "set (concat (map (member_ids ty) rs)) \<subseteq> ?u ty"
    "set (filter P (concat (map (member_ids ty) rs))) \<subseteq> ?u ty" for ty P by auto
  from assms show ?thesis
    unfolding lock_future_members_def Let_def lock_future_members_nodes_def lock_future_members_ways_def
      lock_future_members_relations_def
    by (auto simp only: bindE_Inl_iff split: if_splits elim!: require_visible_error [OF _ sub(1)]
        require_visible_error [OF _ sub(2)])
qed

lemma lock_current_relations_Inr:
  "lock_current_relations ids d = Inr () \<longleftrightarrow> set ids \<subseteq> r_id ` set (current_relations d)"
  by (auto simp: lock_current_relations_def Let_def throw_if_def except_ids_Nil select_any_def)

section \<open>New relations\<close>

lemma member_row_visible:
  assumes "m \<in> set (member_rows rs)" "\<forall>r\<in>set rs. members_visible_or locked d (current_relations d) r"
    "current_nodes d' = current_nodes d" "current_ways d' = current_ways d"
    "\<And>i. visible_id (current_relations d) i \<Longrightarrow> visible_id (current_relations d') i"
    "\<And>i. i \<in> locked \<Longrightarrow> visible_id (current_relations d') i"
    "\<And>r. r \<in> set rs \<Longrightarrow> visible_id (current_relations d') (e_id r)"
  shows "member_visible d' (m_member_type m) (m_member_id m) \<and> visible_id (current_relations d') (m_relation_id m)"
proof -
  from assms(1) obtain r mb where r: "r \<in> set rs" "mb \<in> set (rel_members r)" "m_relation_id m = e_id r"
    "m_member_type m = mb_type mb" "m_member_id m = mb_id mb" by (auto simp: member_rows_def)
  then have "m_member_id m \<in> set (member_ids (m_member_type m) r)" by (auto simp: member_ids_def)
  moreover from assms(2) r(1) have "members_visible_or locked d (current_relations d) r" by blast
  ultimately show ?thesis using r(1,3) assms(3-7)
    unfolding members_visible_or_def member_visible_def by metis
qed

lemma process_new_relations_Inr:
  assumes "process_new_relations (d, ct, u) = Inr (d', ct', u')"
    and ok: "relations_ok d" and cr: "\<forall>r\<in>set (create_relations u). creates_ok r"
  obtains new rs where
    "current_relations d' = current_relations d @ new" "distinct (map r_id (current_relations d @ new))"
    "r_id ` set new = {relation_id_seq d<..relation_id_seq d + int (length (create_relations u))}"
    "\<forall>r\<in>set new. r_visible r \<and> r_version r = 1"
    "relations_tbl d' = relations_tbl d @ select_any (sort_unique (map e_id rs)) (current_relations d')"
    "e_id ` set rs = r_id ` set new"
    "distinct (map (\<lambda>r. (r_id r, r_version r)) (relations_tbl d'))"
    "relation_id_seq d' = relation_id_seq d + int (length (create_relations u))" "relation_frame d d'"
    "current_relation_members d' = current_relation_members d @ member_rows rs"
    "\<forall>r\<in>set rs. members_visible_or (e_id ` set rs) d' (current_relations d') r"
    "ct' = ct\<lparr>created_relation_ids := created_relation_ids ct @
       created_mappings (ids_mapping (relation_id_seq d) (map e_old_id (create_relations u)))\<rparr>"
proof -
  let ?rs = "create_relations u"
  from assms(1) obtain d1 rs ids_t d2 d3 d4 d5 where
    s1: "insert_new_relations_to_current_table ?rs (d, ct) = Inr (d1, ct')" and
    s2: "replace_old_ids_in_relations ?rs (created_node_ids ct') (created_way_ids ct')
           (created_relation_ids ct') = Inr rs" and
    lk: "lock_future_members rs (sort_unique (map e_id rs)) d1 = Inr ()" and
    s3: "insert_new_current_relation_tags rs d1 = Inr (ids_t, d2)" and
    s4: "insert_new_current_relation_members rs d2 = Inr d3" and
    s5: "save_current_relations_to_history (sort_unique (map e_id rs)) d3 = Inr d4" and
    s6: "save_current_relation_tags_to_history ids_t d4 = Inr d5" and
    s7: "save_current_relation_members_to_history (sort_unique (map e_id rs)) d5 = Inr d'"
    by (auto simp: process_new_relations_def Let_def result_simps split: prod.splits)
  from insert_new_relations_Inr [OF s1] obtain new where
    d1: "d1 = d\<lparr>current_relations := current_relations d @ new,
                relation_id_seq := relation_id_seq d + int (length ?rs)\<rparr>"
    and new: "distinct (map r_id (current_relations d @ new))"
      "r_id ` set new = {relation_id_seq d<..relation_id_seq d + int (length ?rs)}"
      "\<forall>r\<in>set new. r_visible r \<and> r_version r = 1"
    and ct': "ct' = ct\<lparr>created_relation_ids := created_relation_ids ct @
       created_mappings (ids_mapping (relation_id_seq d) (map e_old_id ?rs))\<rparr>" .
  from insert_relation_tags_Inr [OF s3] obtain t2 where d2: "d2 = d1\<lparr>current_relation_tags := t2\<rparr>" by blast
  note d3 = insert_relation_members_Inr [OF s4]
  have h: "distinct (map (\<lambda>r. (r_id r, r_version r)) (relations_tbl d3))"
    using ok by (simp add: d3 d2 d1 relations_ok_def hist_ok_def)
  note d4 = save_relations_Inr [OF s5 h]
  from save_relation_tags_Inr [OF s6] obtain t5 where d5: "d5 = d4\<lparr>relation_tags_tbl := t5\<rparr>" by blast
  from save_relation_members_Inr [OF s7] obtain t6 where d': "d' = d5\<lparr>relation_members_tbl := t6\<rparr>" by blast
  note res = replace_old_ids_in_relations_Inr [OF s2]
  have ids: "e_id ` set rs = {relation_id_seq d<..relation_id_seq d + int (length ?rs)}"
    by (rule resolved_batch_ids [of "created_relation_ids ct"]) (use res cr in \<open>simp_all add: ct' creates_ok_def\<close>)
  have vis: "\<forall>r\<in>set rs. members_visible_or (e_id ` set rs) d' (current_relations d') r"
    using lk by (simp add: lock_future_members_Inr members_visible_or_def d' d5 d4(1) d3 d2 d1)
  show ?thesis
    by (rule that [of new rs])
      (use new ids vis d4 ct' in \<open>simp_all add: d' d5 d3 d2 d1 relation_frame_def\<close>)
qed

lemma process_new_relations_inv:
  assumes "process_new_relations (d, ct, u) = Inr (d', ct', u')"
    and inv: "upload_inv s0 d ct" and cr: "\<forall>r\<in>set (create_relations u). creates_ok r"
  shows "upload_inv s0 d' ct'"
proof -
  have ok: "relations_ok d" and db: "db_ok d" and mem: "members_ok d"
    using inv by (simp_all add: upload_inv_def db_ok_def members_ok_def refs_ok_def)
  from process_new_relations_Inr [OF assms(1) ok cr] obtain new rs where
    e: "current_relations d' = current_relations d @ new" "distinct (map r_id (current_relations d @ new))"
    "r_id ` set new = {relation_id_seq d<..relation_id_seq d + int (length (create_relations u))}"
    "\<forall>r\<in>set new. r_visible r \<and> r_version r = 1"
    "relations_tbl d' = relations_tbl d @ select_any (sort_unique (map e_id rs)) (current_relations d')"
    "e_id ` set rs = r_id ` set new"
    "distinct (map (\<lambda>r. (r_id r, r_version r)) (relations_tbl d'))"
    "relation_id_seq d' = relation_id_seq d + int (length (create_relations u))" "relation_frame d d'"
    "current_relation_members d' = current_relation_members d @ member_rows rs"
    "\<forall>r\<in>set rs. members_visible_or (e_id ` set rs) d' (current_relations d') r"
    "ct' = ct\<lparr>created_relation_ids := created_relation_ids ct @
       created_mappings (ids_mapping (relation_id_seq d) (map e_old_id (create_relations u)))\<rparr>" .
  have "relations_ok d'"
    unfolding relations_ok_def
  proof
    show "hist_ok (current_relations d') (relations_tbl d')"
      using hist_ok_insert [of "current_relations d" "relations_tbl d" new "sort_unique (map e_id rs)"] e ok
      by (simp add: relations_ok_def)
    have "r_id r \<le> relation_id_seq d'" if "r \<in> set new" for r
    proof -
      from that e(3) have "r_id r \<in> {relation_id_seq d<..relation_id_seq d + int (length (create_relations u))}"
        by blast
      with e(8) show ?thesis by simp
    qed
    then show "\<forall>r\<in>set (current_relations d'). r_id r \<le> relation_id_seq d'"
      using ok e(1,8) by (fastforce simp: relations_ok_def)
  qed
  moreover have "members_ok d'"
    unfolding members_ok_def
  proof
    fix m assume "m \<in> set (current_relation_members d')"
    then consider "m \<in> set (current_relation_members d)" | "m \<in> set (member_rows rs)" using e(10) by auto
    then show "member_visible d' (m_member_type m) (m_member_id m) \<and>
        visible_id (current_relations d') (m_relation_id m)"
    proof cases
      case 1
      with mem e(1,9) show ?thesis
        by (auto simp: members_ok_def member_visible_def relation_frame_def intro: visible_id_append)
    next
      case 2
      have new_vis: "visible_id (current_relations d') i" if "i \<in> e_id ` set rs" for i
        using that e(1,4) unfolding e(6) by (auto simp: visible_id_def)
      show ?thesis
        by (rule member_row_visible [OF 2 e(11)]) (auto intro: new_vis)
    qed
  qed
  ultimately have "db_ok d'" by (rule db_ok_relation_frame [OF db e(9)])
  moreover have "created_ok s0 d' ct'"
  proof (rule created_ok_extend [where t = ot_relation and olds = "map e_old_id (create_relations u)"])
    show "created_ok s0 d ct" using inv by (simp add: upload_inv_def)
    fix t' assume "t' \<noteq> ot_relation"
    then show "created_ids t' ct' = created_ids t' ct \<and> id_seq t' d' = id_seq t' d"
      using e(9) by (cases t') (simp_all add: e(12) relation_frame_def)
  qed (use e in simp_all)
  ultimately show ?thesis by (simp add: upload_inv_def)
qed

section \<open>Modified relations\<close>

lemma update_current_relations_Inr:
  assumes "update_current_relations rs v (d, ct) = Inr (d', ct')"
    and "distinct (map r_id (current_relations d))"
  obtains mps del where
    "d' = d\<lparr>current_relations := fst (update_from elem_match (updated_elem_row (db_now d) v) rs (current_relations d))\<rparr>"
    "length (snd (update_from elem_match (updated_elem_row (db_now d) v) rs (current_relations d))) = length rs"
    "ct' = ct\<lparr>modified_relation_ids := modified_relation_ids ct @ mps,
             deleted_relation_ids := deleted_relation_ids ct @ del\<rparr>"
    "v \<Longrightarrow> del = [] \<and> (\<forall>r\<in>set rs. modified_by mps r)"
    "\<not> v \<Longrightarrow> mps = [] \<and> set del = e_old_id ` set rs"
proof (cases "rs = []")
  case True
  with assms show ?thesis by (intro that [of "[]" "[]"]) (auto simp: update_current_relations_def)
next
  case False
  let ?u = "update_from elem_match (updated_elem_row (db_now d) v) rs (current_relations d)"
  from False assms(1) have len: "length (snd ?u) = length rs" and d': "d' = d\<lparr>current_relations := fst ?u\<rparr>"
    by (auto simp: update_current_relations_def Let_def result_simps split: prod.splits if_splits)
  show ?thesis
  proof (cases v)
    case True
    with False assms(1) obtain mps where mps: "mapE (row_mapping rs) (snd ?u) = Inr mps"
      and ct': "ct' = ct\<lparr>modified_relation_ids := modified_relation_ids ct @ mps\<rparr>"
      by (auto simp: update_current_relations_def Let_def result_simps split: prod.splits if_splits)
    with upd_elem.recorded_mappings [OF assms(2) len mps] d' len True show ?thesis
      by (intro that [where mps = mps and del = "[]"]) auto
  next
    case v: False
    with False assms(1) have
      "ct' = ct\<lparr>deleted_relation_ids := deleted_relation_ids ct @
        map (\<lambda>r. map_at (id_to_old_id rs) (r_id r)) (snd ?u)\<rparr>"
      by (auto simp: update_current_relations_def Let_def result_simps split: prod.splits if_splits)
    with upd_elem.recorded_set [OF assms(2) len] d' len v show ?thesis
      by (intro that [where mps = "[]" and del = "map (\<lambda>r. map_at (id_to_old_id rs) (r_id r)) (snd ?u)"]) auto
  qed
qed

text \<open>The member rows of one relation, and the rows a sequence of modifications leaves for it.\<close>

definition rows_of_relation :: "int \<Rightarrow> member_row list \<Rightarrow> member_row list" where
  "rows_of_relation i rows = filter (\<lambda>m. m_relation_id m = i) rows"

definition last_member_rows :: "relation_t list \<Rightarrow> int \<Rightarrow> member_row list \<Rightarrow> member_row list" where
  "last_member_rows rs i rows =
     (if occurrences e_id i rs = [] then rows_of_relation i rows
      else member_rows [last (occurrences e_id i rs)])"

lemma rows_of_new_relations:
  "rows_of_relation i (member_rows rs) = concat (map (\<lambda>r. member_rows [r]) (occurrences e_id i rs))"
  by (induction rs) (auto simp: rows_of_relation_def member_rows_def filter_empty_conv filter_id_conv)

lemma package_member_rows:
  assumes "distinct (map e_id rs)" "S = e_id ` set rs"
  shows "rows_of_relation i (filter (\<lambda>m. m_relation_id m \<notin> S) rows @ member_rows rs) = last_member_rows rs i rows"
proof -
  have kept: "rows_of_relation i (filter (\<lambda>m. m_relation_id m \<notin> T) rows) =
      (if i \<in> T then [] else rows_of_relation i rows)" for T
    by (induction rows) (auto simp: rows_of_relation_def)
  have app: "rows_of_relation i (xs @ ys) = rows_of_relation i xs @ rows_of_relation i ys" for xs ys
    by (simp add: rows_of_relation_def)
  show ?thesis
  proof (cases "i \<in> e_id ` set rs")
    case True
    then obtain r where "r \<in> set rs" "e_id r = i" by auto
    with occurrences_distinct [OF assms(1) this(1)] True assms(2) show ?thesis
      by (simp add: app kept rows_of_new_relations last_member_rows_def)
  next
    case False
    with occurrences_eq_Nil [of e_id i rs] assms(2) show ?thesis
      by (simp add: app kept rows_of_new_relations last_member_rows_def)
  qed
qed

lemma last_member_rows_append:
  "rows_of_relation i rows1 = last_member_rows rs i rows \<Longrightarrow>
     last_member_rows qs i rows1 = last_member_rows (rs @ qs) i rows"
  by (simp add: last_member_rows_def)

lemma last_member_rows_origin:
  assumes "m \<in> set (last_member_rows rs i rows)"
  shows "m \<in> set rows \<or> m \<in> set (member_rows rs)"
proof (cases "occurrences e_id i rs = []")
  case True
  with assms show ?thesis by (simp add: last_member_rows_def rows_of_relation_def)
next
  case False
  then have "last (occurrences e_id i rs) \<in> set (occurrences e_id i rs)" by simp
  then have "last (occurrences e_id i rs) \<in> set rs" by (simp add: set_occurrences)
  with assms False show ?thesis by (auto simp: last_member_rows_def member_rows_def)
qed

text \<open>
  The effect of a package, and of any sequence of packages. A member relation is visible
  afterwards or among the locked ones.
\<close>

definition relation_modify_step ::
    "int set \<Rightarrow> relation_t list \<Rightarrow> db \<times> OSMChange_Tracking \<times> bbox_t \<Rightarrow> db \<times> OSMChange_Tracking \<times> bbox_t \<Rightarrow> bool" where
  "relation_modify_step locked rs = (\<lambda>(d, ct, bb) (d', ct', bb').
     relations_ok d' \<and> relation_frame d d' \<and> relation_id_seq d' = relation_id_seq d \<and>
     apply_all (updated_elem_row (db_now d) True) rs (current_relations d) = Some (current_relations d') \<and>
     (\<forall>i. rows_of_relation i (current_relation_members d') = last_member_rows rs i (current_relation_members d)) \<and>
     (\<forall>r\<in>set rs. visible_id (current_relations d') (e_id r) \<and>
        members_visible_or locked d (current_relations d') r) \<and>
     (\<exists>mps. ct' = ct\<lparr>modified_relation_ids := modified_relation_ids ct @ mps\<rparr> \<and> (\<forall>r\<in>set rs. modified_by mps r)) \<and>
     (\<forall>i. visible_id (current_relations d) i \<longrightarrow> visible_id (current_relations d') i) \<and>
     bbox_le bb bb')"

lemma modify_relations_package_step:
  assumes "modify_relations_package all_ids rs (d, ct, bb) = Inr (d', ct', bb')" and ok: "relations_ok d"
  shows "relation_modify_step (set all_ids) rs (d, ct, bb) (d', ct', bb')"
proof -
  let ?ids = "sort_unique (map e_id rs)"
  let ?u = "update_from elem_match (updated_elem_row (db_now d) True) rs (current_relations d)"
  define d1 where "d1 = delete_current_relation_members ?ids (delete_current_relation_tags ?ids d)"
  from assms(1) obtain d2 ids_t d3 d4 d5 d6 full partial where
    lk: "lock_future_members rs all_ids d = Inr ()" and
    s1: "update_current_relations rs True (d1, ct) = Inr (d2, ct')" and
    s2: "insert_new_current_relation_tags rs d2 = Inr (ids_t, d3)" and
    s3: "insert_new_current_relation_members rs d3 = Inr d4" and
    s4: "save_current_relations_to_history ?ids d4 = Inr d5" and
    s5: "save_current_relation_tags_to_history ids_t d5 = Inr d6" and
    s6: "save_current_relation_members_to_history ?ids d6 = Inr d'" and
    bb': "bb' = expand (expand (expand (expand bb (calc_relation_bbox full d))
        (calc_rel_member_difference_bbox partial False d)) (calc_relation_bbox full d'))
        (calc_rel_member_difference_bbox partial True d')"
    unfolding modify_relations_package_def Let_def prod.case d1_def
    by (auto simp: result_simps split: prod.splits)
  obtain t1 where d1: "d1 = d\<lparr>current_relation_tags := t1,
      current_relation_members := filter (\<lambda>m. m_relation_id m \<notin> e_id ` set rs) (current_relation_members d)\<rparr>"
    unfolding d1_def delete_relation_members_eq using delete_relation_tags_eq [of ?ids d] by auto
  have dist: "distinct (map r_id (current_relations d))" using ok by (simp add: relations_ok_def hist_ok_def)
  have dist1: "distinct (map r_id (current_relations d1))" using dist by (simp add: d1)
  from update_current_relations_Inr [OF s1 dist1] obtain mps where
    d2: "d2 = d1\<lparr>current_relations := fst ?u\<rparr>" and len: "length (snd ?u) = length rs"
    and ct': "ct' = ct\<lparr>modified_relation_ids := modified_relation_ids ct @ mps\<rparr>"
    and mps: "\<forall>r\<in>set rs. modified_by mps r"
    by (auto simp: d1)
  from insert_relation_tags_Inr [OF s2] obtain t3 where d3: "d3 = d2\<lparr>current_relation_tags := t3\<rparr>" by blast
  note d4 = insert_relation_members_Inr [OF s3]
  have h: "distinct (map (\<lambda>r. (r_id r, r_version r)) (relations_tbl d4))"
    using ok by (simp add: d4 d3 d2 d1 relations_ok_def hist_ok_def)
  note d5 = save_relations_Inr [OF s4 h]
  from save_relation_tags_Inr [OF s5] obtain t6 where d6: "d6 = d5\<lparr>relation_tags_tbl := t6\<rparr>" by blast
  from save_relation_members_Inr [OF s6] obtain t7 where d': "d' = d6\<lparr>relation_members_tbl := t7\<rparr>" by blast
  have cur: "current_relations d' = fst ?u" by (simp add: d' d6 d5(1) d4 d3 d2)
  have mem: "current_relation_members d' =
      filter (\<lambda>m. m_relation_id m \<notin> e_id ` set rs) (current_relation_members d) @ member_rows rs"
    by (simp add: d' d6 d5(1) d4 d3 d2 d1)
  have hist: "relations_tbl d' = relations_tbl d @ select_any ?ids (fst ?u)"
    by (simp add: d' d6 d5(1) d4 d3 d2 d1)
  have "relations_ok d'"
    unfolding relations_ok_def cur hist
  proof
    show "hist_ok (fst ?u) (relations_tbl d @ select_any ?ids (fst ?u))"
      using upd_elem.batch_hist_ok [of "current_relations d" "relations_tbl d" rs ?ids "db_now d" True] ok d5(2)
      by (simp add: relations_ok_def d4 d3 d2 d1)
    show "\<forall>r\<in>set (fst ?u). r_id r \<le> relation_id_seq d'"
      using ok by (intro upd_elem.batch_id_bound) (simp add: relations_ok_def d' d6 d5(1) d4 d3 d2 d1)
  qed
  moreover have "rows_of_relation i (current_relation_members d') = last_member_rows rs i (current_relation_members d)" for i
    unfolding mem by (rule package_member_rows [OF upd_elem.served(1) [OF dist len] refl])
  moreover have "visible_id (current_relations d') (e_id r)" if "r \<in> set rs" for r
    using upd_elem.batch_sets_visible [OF dist len that] by (simp add: cur updated_elem_row_def)
  moreover have vis: "visible_id (current_relations d') i" if "visible_id (current_relations d) i" for i
    unfolding cur by (rule upd_elem.batch_visible [OF that]) (simp add: updated_elem_row_def)
  moreover have "members_visible_or (set all_ids) d (current_relations d') r" if "r \<in> set rs" for r
    by (rule members_visible_or_mono [OF _ vis]) (use lk that in \<open>simp_all add: lock_future_members_Inr\<close>)
  moreover have "bbox_le bb bb'" unfolding bb' by (intro bbox_le_expandI1 bbox_le_refl)
  ultimately show ?thesis
    using upd_elem.batch_is_sequential [OF dist len] mps ct'
    by (auto simp: relation_modify_step_def cur relation_frame_def d' d6 d5(1) d4 d3 d2 d1)
qed

lemma relation_modify_step_Nil: "relations_ok d \<Longrightarrow> relation_modify_step locked [] (d, ct, bb) (d, ct, bb)"
  by (auto simp: relation_modify_step_def last_member_rows_def intro: exI [of _ "[]"])

lemma relation_modify_step_append:
  assumes 1: "relation_modify_step locked rs (d, ct, bb) (d1, ct1, bb1)"
    and 2: "relation_modify_step locked qs (d1, ct1, bb1) (d2, ct2, bb2)"
  shows "relation_modify_step locked (rs @ qs) (d, ct, bb) (d2, ct2, bb2)"
proof -
  have fr: "relation_frame d d1" "relation_frame d1 d2" using 1 2 by (simp_all add: relation_modify_step_def)
  then have now: "db_now d1 = db_now d" "current_nodes d1 = current_nodes d" "current_ways d1 = current_ways d"
    by (simp_all add: relation_frame_def)
  obtain is1 is2 where
    ct: "ct1 = ct\<lparr>modified_relation_ids := modified_relation_ids ct @ is1\<rparr>"
      "ct2 = ct1\<lparr>modified_relation_ids := modified_relation_ids ct1 @ is2\<rparr>" and
    acc: "\<forall>r\<in>set rs. modified_by is1 r" "\<forall>r\<in>set qs. modified_by is2 r"
    using 1 2 by (auto simp: relation_modify_step_def)
  have "apply_all (updated_elem_row (db_now d) True) (rs @ qs) (current_relations d) = Some (current_relations d2)"
    using 1 2 now by (simp add: relation_modify_step_def apply_all_append)
  moreover have "rows_of_relation i (current_relation_members d2) =
      last_member_rows (rs @ qs) i (current_relation_members d)" for i
    using 1 2 last_member_rows_append [of i "current_relation_members d1" rs "current_relation_members d" qs]
    by (simp add: relation_modify_step_def)
  moreover have "visible_id (current_relations d2) (e_id r) \<and> members_visible_or locked d (current_relations d2) r"
    if "r \<in> set (rs @ qs)" for r
  proof (cases "r \<in> set rs")
    case True
    with 1 2 have "visible_id (current_relations d2) (e_id r)" "members_visible_or locked d (current_relations d1) r"
      by (simp_all add: relation_modify_step_def)
    moreover from this(2) have "members_visible_or locked d (current_relations d2) r"
      by (rule members_visible_or_mono) (use 2 in \<open>simp_all add: relation_modify_step_def\<close>)
    ultimately show ?thesis by simp
  next
    case False
    with that 2 have "visible_id (current_relations d2) (e_id r)" "members_visible_or locked d1 (current_relations d2) r"
      by (simp_all add: relation_modify_step_def)
    moreover from this(2) have "members_visible_or locked d (current_relations d2) r"
      by (rule members_visible_or_mono) (simp_all add: now)
    ultimately show ?thesis by simp
  qed
  moreover have "\<exists>mps. ct2 = ct\<lparr>modified_relation_ids := modified_relation_ids ct @ mps\<rparr> \<and>
      (\<forall>r\<in>set (rs @ qs). modified_by mps r)"
    using acc by (intro exI [of _ "is1 @ is2"]) (auto simp: ct modified_by_def)
  ultimately show ?thesis
    using 1 2 by (auto simp: relation_modify_step_def intro: relation_frame_trans bbox_le_trans)
qed

lemma modify_relation_packages:
  "foldE (modify_relations_package all_ids) ps (d, ct, bb) = Inr (d', ct', bb') \<Longrightarrow> relations_ok d \<Longrightarrow>
     relation_modify_step (set all_ids) (concat ps) (d, ct, bb) (d', ct', bb')"
proof (induction ps arbitrary: d ct bb)
  case Nil
  then show ?case by (simp add: relation_modify_step_Nil)
next
  case (Cons p ps)
  from Cons.prems(1) obtain d1 ct1 bb1 where
    p: "modify_relations_package all_ids p (d, ct, bb) = Inr (d1, ct1, bb1)" and
    ps: "foldE (modify_relations_package all_ids) ps (d1, ct1, bb1) = Inr (d', ct', bb')"
    by (auto simp: result_simps)
  note 1 = modify_relations_package_step [OF p Cons.prems(2)]
  then have "relations_ok d1" by (simp add: relation_modify_step_def)
  from relation_modify_step_append [OF 1 Cons.IH [OF ps this]] show ?case by simp
qed

lemma relation_modify_step_regroup:
  assumes "relation_modify_step locked fs (d, ct, bb) (d', ct', bb')" "relations_ok d"
    and "\<And>i. occurrences e_id i fs = occurrences e_id i rs" "set fs = set rs"
  shows "relation_modify_step locked rs (d, ct, bb) (d', ct', bb')"
proof -
  have "distinct (map r_id (current_relations d))" using assms(2) by (simp add: relations_ok_def hist_ok_def)
  from upd_elem.apply_all_regroup [OF this assms(3,4)] assms(1,3,4) show ?thesis
    by (simp add: relation_modify_step_def last_member_rows_def)
qed

lemma process_modify_relations_Inr:
  assumes "process_modify_relations (d, ct, u) = Inr (d', ct', u')" and ok: "relations_ok d"
  obtains rs where
    "replace_old_ids_in_relations (modify_relations u) (created_node_ids ct) (created_way_ids ct)
       (created_relation_ids ct) = Inr rs"
    "relation_modify_step (e_id ` set rs) rs (d, ct, ru_bbox u) (d', ct', ru_bbox u')"
proof -
  from assms(1) obtain rs ps bb where
    rs: "replace_old_ids_in_relations (modify_relations u) (created_node_ids ct) (created_way_ids ct)
       (created_relation_ids ct) = Inr rs" and
    ps: "build_packages_by e_id rs = Inr ps" and
    run: "foldE (modify_relations_package (sort_unique (map e_id rs))) ps (d, ct, ru_bbox u) = Inr (d', ct', bb)" and
    u': "u' = u\<lparr>ru_bbox := bb, modify_relations := []\<rparr>"
    by (auto simp: process_modify_relations_def relation_build_packages_def Let_def result_simps split: prod.splits)
  have "relation_modify_step (e_id ` set rs) rs (d, ct, ru_bbox u) (d', ct', bb)"
    by (rule relation_modify_step_regroup [OF _ ok, of _ "concat ps"])
      (use modify_relation_packages [OF run ok] in
        \<open>simp_all only: build_packages_by_Inr(2) [OF ps] build_packages_by_set [OF ps] set_sort_unique set_map\<close>)
  with rs u' show ?thesis by (intro that) simp_all
qed

lemma relation_modify_step_members_ok:
  assumes step: "relation_modify_step (e_id ` set rs) rs (d, ct, bb) (d', ct', bb')" and ok: "members_ok d"
  shows "members_ok d'"
  unfolding members_ok_def
proof
  fix m assume "m \<in> set (current_relation_members d')"
  then have "m \<in> set (rows_of_relation (m_relation_id m) (current_relation_members d'))"
    by (simp add: rows_of_relation_def)
  then have "m \<in> set (last_member_rows rs (m_relation_id m) (current_relation_members d))"
    using step by (simp add: relation_modify_step_def)
  then consider "m \<in> set (current_relation_members d)" | "m \<in> set (member_rows rs)"
    using last_member_rows_origin by blast
  then show "member_visible d' (m_member_type m) (m_member_id m) \<and>
      visible_id (current_relations d') (m_relation_id m)"
  proof cases
    case 1
    with ok step show ?thesis
      by (auto simp: members_ok_def relation_modify_step_def relation_frame_def member_visible_def)
  next
    case 2
    have vis: "\<forall>r\<in>set rs. members_visible_or (e_id ` set rs) d' (current_relations d') r"
      using step by (auto simp: relation_modify_step_def relation_frame_def members_visible_or_def)
    show ?thesis
      by (rule member_row_visible [OF 2 vis]) (use step in \<open>auto simp: relation_modify_step_def\<close>)
  qed
qed

lemma process_modify_relations_inv:
  assumes "process_modify_relations (d, ct, u) = Inr (d', ct', u')" and inv: "upload_inv s0 d ct"
  shows "upload_inv s0 d' ct'"
proof -
  have ok: "relations_ok d" and db: "db_ok d" and mem: "members_ok d"
    using inv by (simp_all add: upload_inv_def db_ok_def members_ok_def refs_ok_def)
  from process_modify_relations_Inr [OF assms(1) ok] obtain rs where
    step: "relation_modify_step (e_id ` set rs) rs (d, ct, ru_bbox u) (d', ct', ru_bbox u')" .
  have "db_ok d'"
    by (rule db_ok_relation_frame [OF db _ _ relation_modify_step_members_ok [OF step mem]])
      (use step in \<open>auto simp: relation_modify_step_def\<close>)
  moreover have "created_ok s0 d' ct'"
  proof (rule created_ok_same)
    show "created_ok s0 d ct" using inv by (simp add: upload_inv_def)
    fix t show "created_ids t ct' = created_ids t ct \<and> id_seq t d' = id_seq t d"
      using step by (cases t) (auto simp: relation_modify_step_def relation_frame_def)
  qed
  ultimately show ?thesis by (simp add: upload_inv_def)
qed

section \<open>The transitive members of relations\<close>

definition child_rel :: "db \<Rightarrow> (int \<times> int) set" where
  "child_rel d = {(p, c). c \<in> child_relation_ids {p} d}"

lemma child_relation_ids_Un: "child_relation_ids (A \<union> B) d = child_relation_ids A d \<union> child_relation_ids B d"
  by (auto simp: child_relation_ids_def)

lemma child_relation_ids_Image: "child_relation_ids S d = child_rel d `` S"
  by (auto simp: child_rel_def child_relation_ids_def)

lemma child_relation_ids_mono: "A \<subseteq> B \<Longrightarrow> child_relation_ids A d \<subseteq> child_relation_ids B d"
  by (auto simp: child_relation_ids_def)

text \<open>
  The loop returns a set that contains the children of where it starts and is closed under
  children; \<open>D\<close> are the relations whose children were fetched in earlier rounds.
\<close>

lemma collect_children_closed:
  assumes "acc \<subseteq> D \<union> todo" "child_relation_ids D d \<subseteq> acc"
  shows "acc \<union> child_relation_ids todo d \<subseteq> collect_children d todo acc \<and>
    child_relation_ids (collect_children d todo acc) d \<subseteq> collect_children d todo acc"
  using assms
proof (induction d todo acc arbitrary: D rule: collect_children.induct)
  case (1 d todo acc)
  let ?kids = "child_relation_ids todo d"
  show ?case
  proof (cases "?kids - acc = {}")
    case True
    then have R: "collect_children d todo acc = acc \<union> ?kids"
      by (subst collect_children.simps) (simp add: Let_def)
    have "child_relation_ids (acc \<union> ?kids) d \<subseteq> child_relation_ids (D \<union> todo) d"
      by (rule child_relation_ids_mono) (use True 1(2) in blast)
    with 1(3) show ?thesis unfolding R child_relation_ids_Un by blast
  next
    case False
    then have R: "collect_children d todo acc = collect_children d (?kids - acc) (acc \<union> ?kids)"
      by (subst collect_children.simps) (simp add: Let_def)
    have "acc \<union> ?kids \<subseteq> (D \<union> todo) \<union> (?kids - acc)" "child_relation_ids (D \<union> todo) d \<subseteq> acc \<union> ?kids"
      using 1(2,3) by (auto simp: child_relation_ids_Un)
    from 1(1) [OF refl False this] show ?thesis unfolding R by blast
  qed
qed

lemma collect_children_bounded:
  assumes "child_relation_ids todo d \<subseteq> T" "child_relation_ids T d \<subseteq> T" "acc \<subseteq> T"
  shows "collect_children d todo acc \<subseteq> T"
  using assms
proof (induction d todo acc rule: collect_children.induct)
  case (1 d todo acc)
  let ?kids = "child_relation_ids todo d"
  show ?case
  proof (cases "?kids - acc = {}")
    case True
    with 1(2,4) show ?thesis by (subst collect_children.simps) (simp add: Let_def)
  next
    case False
    have "child_relation_ids (?kids - acc) d \<subseteq> T"
      using child_relation_ids_mono [of "?kids - acc" T d] 1(2,3) by blast
    from 1(1) [OF refl False this 1(3)] 1(2,4) False show ?thesis
      by (subst collect_children.simps) (simp add: Let_def)
  qed
qed

text \<open>The function computes the transitive closure of the member relation.\<close>

lemma collect_recursive_trancl:
  "collect_recursive_relation_rel_member_ids direct d = (child_rel d)\<^sup>+ `` direct"
proof (cases "direct = {}")
  case False
  let ?R = "collect_children d direct {}" and ?T = "(child_rel d)\<^sup>+ `` direct"
  have c: "child_relation_ids direct d \<subseteq> ?R" "child_relation_ids ?R d \<subseteq> ?R"
    using collect_children_closed [of "{}" "{}" direct d] by (auto simp: child_relation_ids_def)
  have "?R \<subseteq> ?T"
  proof (rule collect_children_bounded)
    show "child_relation_ids direct d \<subseteq> ?T" unfolding child_relation_ids_Image by auto
    show "child_relation_ids ?T d \<subseteq> ?T" unfolding child_relation_ids_Image by (auto intro: trancl_into_trancl)
  qed simp
  moreover have "?T \<subseteq> ?R"
  proof
    fix c assume "c \<in> ?T"
    then obtain p where p: "p \<in> direct" "(p, c) \<in> (child_rel d)\<^sup>+" by blast
    from p(2) show "c \<in> ?R"
    proof (induction rule: trancl_induct)
      case (base y)
      with p(1) c(1) show ?case unfolding child_relation_ids_Image by blast
    next
      case (step y z)
      with c(2) show ?case unfolding child_relation_ids_Image by blast
    qed
  qed
  ultimately show ?thesis using False by (simp add: collect_recursive_relation_rel_member_ids_def)
qed (simp add: collect_recursive_relation_rel_member_ids_def)

section \<open>Deleted relations\<close>

definition uniform_flags :: "'a elem_t_scheme list \<Rightarrow> bool" where
  "uniform_flags es \<longleftrightarrow> (\<forall>e\<in>set es. e_if_unused e) \<or> (\<forall>e\<in>set es. \<not> e_if_unused e)"

lemma uniform_flags_subset: "uniform_flags es \<Longrightarrow> set fs \<subseteq> set es \<Longrightarrow> uniform_flags fs"
  by (auto simp: uniform_flags_def)

lemma uniform_flags_ids:
  "uniform_flags es \<Longrightarrow> ids_if_unused es = {} \<or> ids_without_if_unused es = {}"
  by (auto simp: uniform_flags_def ids_if_unused_def ids_without_if_unused_def)

lemma determine_already_deleted_relations_Inr:
  assumes "determine_already_deleted_relations rs (d, ct) = Inr (found, ct')"
  obtains new where
    "found = {i \<in> e_id ` set rs. \<exists>r\<in>set (current_relations d). r_id r = i \<and> \<not> r_visible r}"
    "found \<inter> ids_without_if_unused rs = {}"
    "ct' = ct\<lparr>skip_deleted_relation_ids := skip_deleted_relation_ids ct @ new\<rparr>"
    "\<forall>i\<in>found. i \<in> ids_if_unused rs \<longrightarrow> map_at (id_to_old_id rs) i \<in> om_old_id ` set new"
proof (cases "rs = []")
  case True
  with assms show ?thesis by (intro that [of "[]"]) (auto simp: determine_already_deleted_relations_def)
next
  case False
  with assms obtain skipped where
    run: "foldE (already_deleted_step ''relation'' rs)
       (filter (\<lambda>r. \<not> r_visible r) (select_any (map e_id rs) (current_relations d)))
       ({}, skip_deleted_relation_ids ct) = Inr (found, skipped)"
    and ct': "ct' = ct\<lparr>skip_deleted_relation_ids := skipped\<rparr>"
    by (auto simp: determine_already_deleted_relations_def result_simps split: prod.splits)
  from already_deleted_select [OF run] obtain new where
    "found = {i \<in> e_id ` set rs. \<exists>r\<in>set (current_relations d). r_id r = i \<and> \<not> r_visible r}"
    "found \<inter> ids_without_if_unused rs = {}" "skipped = skip_deleted_relation_ids ct @ new"
    "\<forall>i\<in>found. i \<in> ids_if_unused rs \<longrightarrow> map_at (id_to_old_id rs) i \<in> om_old_id ` set new" .
  with ct' show ?thesis by (intro that) simp_all
qed

text \<open>The relations to be deleted that a visible relation outside the list contains.\<close>

definition outside_children :: "int set \<Rightarrow> db \<Rightarrow> int set" where
  "outside_children ids d = {i \<in> ids. \<exists>m\<in>set (current_relation_members d). m_member_id m = i \<and>
     m_member_type m = ''Relation'' \<and> m_relation_id m \<notin> ids \<and> visible_id (current_relations d) (m_relation_id m)}"

lemma outside_childrenI:
  "m \<in> set (current_relation_members d) \<Longrightarrow> m_member_type m = ''Relation'' \<Longrightarrow> m_member_id m \<in> ids \<Longrightarrow>
   m_relation_id m \<notin> ids \<Longrightarrow> visible_id (current_relations d) (m_relation_id m) \<Longrightarrow>
   m_member_id m \<in> outside_children ids d"
  unfolding outside_children_def by (intro CollectI conjI bexI [of _ m]) simp_all

lemma outside_references_keys: "fst ` set (group_refs (outside_references ids d)) = outside_children (set ids) d"
proof -
  have "fst ` set (group_refs ps) = fst ` set ps" for ps :: "(int \<times> int) list"
    by (force simp: group_refs_def)
  moreover have mem: "(i, p) \<in> set (outside_references ids d) \<longleftrightarrow>
      (\<exists>cr\<in>set (current_relations d). \<exists>m\<in>set (current_relation_members d). r_visible cr \<and> r_id cr \<notin> set ids \<and>
         m_relation_id m = r_id cr \<and> m_member_type m = ''Relation'' \<and> m_member_id m \<in> set ids \<and>
         i = m_member_id m \<and> p = r_id cr)" for i p
    by (simp add: outside_references_def) blast
  have "fst ` set (outside_references ids d) = outside_children (set ids) d"
  proof (intro equalityI subsetI)
    fix i assume "i \<in> fst ` set (outside_references ids d)"
    then obtain p where "(i, p) \<in> set (outside_references ids d)" by auto
    then obtain cr m where "cr \<in> set (current_relations d)" "m \<in> set (current_relation_members d)" "r_visible cr"
      "r_id cr \<notin> set ids" "m_relation_id m = r_id cr" "m_member_type m = ''Relation''" "m_member_id m \<in> set ids"
      "i = m_member_id m" unfolding mem by blast
    then show "i \<in> outside_children (set ids) d" by (auto intro!: outside_childrenI simp: visible_id_def)
  next
    fix i assume "i \<in> outside_children (set ids) d"
    then obtain m cr where m: "m \<in> set (current_relation_members d)" "m_member_id m = i" "i \<in> set ids"
      "m_member_type m = ''Relation''" "m_relation_id m \<notin> set ids" "cr \<in> set (current_relations d)"
      "r_id cr = m_relation_id m" "r_visible cr" unfolding outside_children_def visible_id_def by blast
    then have "(i, r_id cr) \<in> set (outside_references ids d)"
      unfolding mem by (intro bexI [of _ cr] bexI [of _ m]) simp_all
    then show "i \<in> fst ` set (outside_references ids d)" by (metis fst_conv imageI)
  qed
  ultimately show ?thesis by simp
qed

lemma is_relation_still_referenced_Inr:
  assumes "is_relation_still_referenced rs (d, ct) = Inr (rs', ct')"
    and dist: "distinct (map r_id (current_relations d))"
  obtains excl new where
    "excl = ids_if_unused rs \<inter> (child_rel d)\<^sup>* `` outside_children (e_id ` set rs) d"
    "ids_without_if_unused rs \<inter> outside_children (e_id ` set rs) d = {}"
    "rs' = filter (\<lambda>r. e_id r \<notin> excl) rs"
    "ct' = ct\<lparr>skip_deleted_relation_ids := skip_deleted_relation_ids ct @ new\<rparr>"
    "\<forall>i\<in>excl. map_at (id_to_old_id rs) i \<in> om_old_id ` set (skip_deleted_relation_ids ct')"
proof (cases "rs = []")
  case True
  with assms show ?thesis
    by (intro that [of "{}" "[]"])
      (auto simp: is_relation_still_referenced_def ids_if_unused_def ids_without_if_unused_def)
next
  case False
  define r where "r = group_refs (outside_references (map e_id rs) d)"
  let ?dir = "outside_children (e_id ` set rs) d"
  have keys: "fst ` set r = ?dir" using outside_references_keys [of "map e_id rs" d] by (simp add: r_def)
  from assms(1) False obtain excl1 skipped where
    s1: "foldE (still_referenced_by (\<lambda>i refs. ''The relation '' @ fmt_d i @ '' is used in relations '' @ refs @ ''.'') rs)
        r {} = Inr excl1" and
    s2: "exclude_referenced ''relations'' rs
        (extend_deletion_block_to_relation_children (fst ` set r) (ids_if_unused rs) excl1 d)
        (current_relations d) (skip_deleted_relation_ids ct) = Inr (rs', skipped)" and
    ct': "ct' = ct\<lparr>skip_deleted_relation_ids := skipped\<rparr>"
    by (auto simp: is_relation_still_referenced_def Let_def result_simps r_def split: prod.splits)
  define excl where "excl = extend_deletion_block_to_relation_children (fst ` set r) (ids_if_unused rs) excl1 d"
  from still_referenced_by_Inr [OF s1] keys have e1: "excl1 = ids_if_unused rs \<inter> ?dir"
    and none: "ids_without_if_unused rs \<inter> ?dir = {}" by auto
  have excl: "excl = ids_if_unused rs \<inter> (child_rel d)\<^sup>* `` ?dir"
    unfolding excl_def extend_deletion_block_to_relation_children_def keys e1 collect_recursive_trancl
    by (auto simp: rtrancl_eq_or_trancl)
  note x = exclude_referenced_Inr [OF s2 [folded excl_def]]
  from x(2) obtain new where new: "skipped = skip_deleted_relation_ids ct @ new" by blast
  have fin: "finite excl" unfolding excl by simp
  show ?thesis
  proof (rule that [of excl new])
    show "\<forall>i\<in>excl. map_at (id_to_old_id rs) i \<in> om_old_id ` set (skip_deleted_relation_ids ct')"
      using x(3) [OF dist fin] ct' by simp
  qed (use x(1) ct' new excl none in simp_all)
qed

text \<open>
  What is deleted is closed under containing relations: a visible relation that contains a
  deleted one is deleted too.
\<close>

lemma deleted_upward_closed:
  assumes uni: "uniform_flags rs"
    and excl: "excl = ids_if_unused rs \<inter> (child_rel d)\<^sup>* `` outside_children (e_id ` set rs) d"
    and none: "ids_without_if_unused rs \<inter> outside_children (e_id ` set rs) d = {}"
    and m: "m \<in> set (current_relation_members d)" "m_member_type m = ''Relation''"
      "visible_id (current_relations d) (m_relation_id m)"
    and dead: "r \<in> set rs" "e_id r \<notin> excl" "e_id r = m_member_id m"
  shows "m_relation_id m \<in> e_id ` set (filter (\<lambda>r. e_id r \<notin> excl) rs)"
proof (rule ccontr)
  let ?dir = "outside_children (e_id ` set rs) d"
  assume "m_relation_id m \<notin> e_id ` set (filter (\<lambda>r. e_id r \<notin> excl) rs)"
  then consider "m_relation_id m \<notin> e_id ` set rs" | "m_relation_id m \<in> excl" by force
  then show False
  proof cases
    case 1
    have "m_member_id m \<in> ?dir"
      by (rule outside_childrenI [OF m(1,2) _ 1 m(3)]) (use dead(1,3) in \<open>metis imageI\<close>)
    then have "e_id r \<in> ?dir" by (simp add: dead(3))
    moreover from this none have "e_id r \<notin> ids_without_if_unused rs" by blast
    from in_if_unusedI [OF dead(1) not_in_withoutD [OF this dead(1)]] have "e_id r \<in> ids_if_unused rs" .
    ultimately show False using dead(2) excl by blast
  next
    case 2
    then have "ids_if_unused rs \<noteq> {}" using excl by blast
    with uniform_flags_ids [OF uni] have "e_id r \<notin> ids_without_if_unused rs" by blast
    from in_if_unusedI [OF dead(1) not_in_withoutD [OF this dead(1)]] have un: "e_id r \<in> ids_if_unused rs" .
    have "m_relation_id m \<in> r_id ` set (current_relations d)" using m(3) by (force simp: visible_id_def)
    with m(1,2) dead(3) have "(m_relation_id m, e_id r) \<in> child_rel d"
      by (auto simp: child_rel_def child_relation_ids_def)
    with 2 excl have "e_id r \<in> (child_rel d)\<^sup>* `` ?dir" by (auto intro: rtrancl_into_rtrancl)
    with un excl dead(2) show False by blast
  qed
qed

definition relation_delete_step ::
    "relation_t list \<Rightarrow> relation_t list \<Rightarrow> db \<times> OSMChange_Tracking \<Rightarrow> db \<times> OSMChange_Tracking \<Rightarrow> bool" where
  "relation_delete_step rs dead = (\<lambda>(d, ct) (d', ct').
     relations_ok d' \<and> relation_frame d d' \<and> relation_id_seq d' = relation_id_seq d \<and>
     set dead \<subseteq> set rs \<and> e_id ` set rs \<subseteq> r_id ` set (current_relations d) \<and>
     (uniform_flags rs \<longrightarrow> (\<forall>m\<in>set (current_relation_members d). m_member_type m = ''Relation'' \<longrightarrow>
        m_member_id m \<in> e_id ` set dead \<longrightarrow> visible_id (current_relations d) (m_relation_id m) \<longrightarrow>
        m_relation_id m \<in> e_id ` set dead)) \<and>
     (\<forall>r\<in>set dead. \<exists>q\<in>set (current_relations d). r_id q = e_id r \<and> r_visible q \<and> r_version q = e_version r) \<and>
     apply_all (updated_elem_row (db_now d) False) dead (current_relations d) = Some (current_relations d') \<and>
     current_relation_members d' = filter (\<lambda>m. m_relation_id m \<notin> e_id ` set dead) (current_relation_members d) \<and>
     (\<forall>i. visible_id (current_relations d) i \<longrightarrow> i \<notin> e_id ` set dead \<longrightarrow> visible_id (current_relations d') i) \<and>
     (\<exists>del skip. ct' = ct\<lparr>deleted_relation_ids := deleted_relation_ids ct @ del,
                        skip_deleted_relation_ids := skip_deleted_relation_ids ct @ skip\<rparr> \<and>
        set del = e_old_id ` set dead \<and>
        (alias_free rs \<longrightarrow> uniform_flags rs \<longrightarrow> (\<forall>r\<in>set rs. r \<in> set dead \<or>
           e_if_unused r \<and> e_old_id r \<in> om_old_id ` set (skip_deleted_relation_ids ct @ skip)))))"

lemma delete_relations_selected:
  assumes ok: "relations_ok d"
    and lock: "lock_current_relations (sort_unique (map e_id rs)) d = Inr ()"
    and s1: "determine_already_deleted_relations rs (d, ct) = Inr (found, ct1)"
    and s2: "is_relation_still_referenced (filter (\<lambda>r. e_id r \<notin> found) rs) (d, ct1) = Inr (dead, ct2)"
    and s3: "update_current_relations dead False (d, ct2) = Inr (d1, ct')"
    and s4: "save_current_relations_to_history (map e_id dead)
        (delete_current_relation_members (map e_id dead) (delete_current_relation_tags (map e_id dead) d1)) = Inr d'"
  shows "relation_delete_step rs dead (d, ct) (d', ct')"
proof -
  let ?vis = "filter (\<lambda>r. e_id r \<notin> found) rs"
  let ?O = "outside_children (e_id ` set ?vis) d"
  let ?u = "update_from elem_match (updated_elem_row (db_now d) False) dead (current_relations d)"
  have dist: "distinct (map r_id (current_relations d))" using ok by (simp add: relations_ok_def hist_ok_def)
  from determine_already_deleted_relations_Inr [OF s1] obtain new1 where
    found: "found = {i \<in> e_id ` set rs. \<exists>r\<in>set (current_relations d). r_id r = i \<and> \<not> r_visible r}"
      "found \<inter> ids_without_if_unused rs = {}"
    and ct1: "ct1 = ct\<lparr>skip_deleted_relation_ids := skip_deleted_relation_ids ct @ new1\<rparr>"
    and acc1: "\<forall>i\<in>found. i \<in> ids_if_unused rs \<longrightarrow> map_at (id_to_old_id rs) i \<in> om_old_id ` set new1" .
  from is_relation_still_referenced_Inr [OF s2 dist] obtain excl new2 where
    excl: "excl = ids_if_unused ?vis \<inter> (child_rel d)\<^sup>* `` ?O" "ids_without_if_unused ?vis \<inter> ?O = {}"
    and dead: "dead = filter (\<lambda>r. e_id r \<notin> excl) ?vis"
    and ct2: "ct2 = ct1\<lparr>skip_deleted_relation_ids := skip_deleted_relation_ids ct1 @ new2\<rparr>"
    and acc2: "\<forall>i\<in>excl. map_at (id_to_old_id ?vis) i \<in> om_old_id ` set (skip_deleted_relation_ids ct2)" .
  from update_current_relations_Inr [OF s3 dist] obtain del where
    d1: "d1 = d\<lparr>current_relations := fst ?u\<rparr>" and len: "length (snd ?u) = length dead"
    and ct': "ct' = ct2\<lparr>deleted_relation_ids := deleted_relation_ids ct2 @ del\<rparr>"
    and del: "set del = e_old_id ` set dead"
    by auto
  note served = upd_elem.served [OF dist len]
  obtain t where d2: "delete_current_relation_members (map e_id dead) (delete_current_relation_tags (map e_id dead) d1) =
      d\<lparr>current_relations := fst ?u, current_relation_tags := t,
        current_relation_members := filter (\<lambda>m. m_relation_id m \<notin> e_id ` set dead) (current_relation_members d)\<rparr>"
    using delete_relation_tags_eq [of "map e_id dead" d1] by (auto simp: delete_relation_members_eq d1)
  have h: "distinct (map (\<lambda>r. (r_id r, r_version r)) (relations_tbl
      (delete_current_relation_members (map e_id dead) (delete_current_relation_tags (map e_id dead) d1))))"
    unfolding d2 using ok by (simp add: relations_ok_def hist_ok_def)
  note sv = save_relations_Inr [OF s4 h]
  have d': "d' = d\<lparr>current_relations := fst ?u, current_relation_tags := t,
      current_relation_members := filter (\<lambda>m. m_relation_id m \<notin> e_id ` set dead) (current_relation_members d),
      relations_tbl := relations_tbl d @ select_any (map e_id dead) (fst ?u)\<rparr>"
    unfolding sv(1) unfolding d2 by simp
  let ?S = "om_old_id ` set (skip_deleted_relation_ids ct @ new1 @ new2)"
  have acc: "r \<in> set dead \<or> e_if_unused r \<and> e_old_id r \<in> ?S"
    if af: "alias_free rs" and uni: "uniform_flags rs" and r: "r \<in> set rs" for r
  proof -
    have "e_id r \<notin> found \<and> e_id r \<notin> excl \<or> e_if_unused r \<and> e_old_id r \<in> ?S"
    proof (rule skipped_or_kept [OF af r found(2)])
      show "\<forall>i\<in>found. i \<in> ids_if_unused rs \<longrightarrow> map_at (id_to_old_id rs) i \<in> ?S" using acc1 by auto
      show "excl \<inter> ids_without_if_unused ?vis = {}"
        using uniform_flags_ids [OF uniform_flags_subset [OF uni, of ?vis]] excl(1) by auto
      show "\<forall>i\<in>excl. map_at (id_to_old_id ?vis) i \<in> ?S" using acc2 by (simp add: ct2 ct1)
    qed
    with r dead show ?thesis by simp
  qed
  have closed: "m_relation_id m \<in> e_id ` set dead"
    if uni: "uniform_flags rs" and m: "m \<in> set (current_relation_members d)" "m_member_type m = ''Relation''"
      "m_member_id m \<in> e_id ` set dead" "visible_id (current_relations d) (m_relation_id m)" for m
  proof -
    from m(3) dead obtain r where r: "r \<in> set ?vis" "e_id r \<notin> excl" "e_id r = m_member_id m" by auto
    show ?thesis
      unfolding dead
      by (rule deleted_upward_closed [OF uniform_flags_subset [OF uni] excl m(1,2,4) r]) auto
  qed
  have vis: "\<exists>q\<in>set (current_relations d). r_id q = e_id r \<and> r_visible q \<and> r_version q = e_version r"
    if r: "r \<in> set dead" for r
  proof -
    from served(2) [OF r] obtain q where q: "q \<in> set (current_relations d)" "r_id q = e_id r"
      "r_version q = e_version r" by blast
    from r dead have "e_id r \<notin> found" "r \<in> set rs" by auto
    with found(1) q have "r_visible q" by auto
    with q show ?thesis by blast
  qed
  have "relations_ok d'"
    unfolding relations_ok_def
  proof
    show "hist_ok (current_relations d') (relations_tbl d')"
      using upd_elem.batch_hist_ok [of "current_relations d" "relations_tbl d" dead "map e_id dead" "db_now d" False] ok sv(2)
      unfolding d' d2 by (simp add: relations_ok_def)
    show "\<forall>r\<in>set (current_relations d'). r_id r \<le> relation_id_seq d'"
      using ok unfolding d' by simp (intro upd_elem.batch_id_bound, simp add: relations_ok_def)
  qed
  moreover have "e_id ` set rs \<subseteq> r_id ` set (current_relations d)" using lock by (simp add: lock_current_relations_Inr)
  moreover have "visible_id (current_relations d') i" if "visible_id (current_relations d) i" "i \<notin> e_id ` set dead" for i
    using upd_elem.batch_visible [OF that(1)] that(2) by (auto simp: d')
  moreover have "set dead \<subseteq> set rs" using dead by auto
  ultimately show ?thesis
    using closed vis acc del upd_elem.batch_is_sequential [OF dist len]
    unfolding relation_delete_step_def prod.case
    by (intro conjI exI [of _ del] exI [of _ "new1 @ new2"])
      (simp_all add: d' relation_frame_def ct' ct2 ct1)
qed

lemma process_delete_relations_Inr:
  assumes "process_delete_relations (d, ct, u) = Inr (d', ct', u')" and ok: "relations_ok d"
  obtains rs dead where
    "replace_old_ids_in_relations (delete_relations u) (created_node_ids ct) (created_way_ids ct)
       (created_relation_ids ct) = Inr rs"
    "relation_delete_step rs dead (d, ct) (d', ct')"
proof -
  from assms(1) obtain rs found ct1 dead ct2 d1 where
    rs: "replace_old_ids_in_relations (delete_relations u) (created_node_ids ct) (created_way_ids ct)
       (created_relation_ids ct) = Inr rs" and
    lock: "lock_current_relations (sort_unique (map e_id rs)) d = Inr ()" and
    s1: "determine_already_deleted_relations rs (d, ct) = Inr (found, ct1)" and
    s2: "is_relation_still_referenced (filter (\<lambda>r. e_id r \<notin> found) rs) (d, ct1) = Inr (dead, ct2)" and
    s3: "update_current_relations dead False (d, ct2) = Inr (d1, ct')" and
    s4: "save_current_relations_to_history (map e_id dead)
        (delete_current_relation_members (map e_id dead) (delete_current_relation_tags (map e_id dead) d1)) = Inr d'"
    by (auto simp: process_delete_relations_def Let_def result_simps split: prod.splits)
  have "relation_delete_step rs dead (d, ct) (d', ct')"
    by (rule delete_relations_selected [OF ok lock s1 s2 s3 s4])
  with rs show ?thesis by (intro that) auto
qed

lemma resolved_uniform_flags: "resolved created es fs \<Longrightarrow> uniform_flags es \<Longrightarrow> uniform_flags fs"
  unfolding uniform_flags_def by (metis resolved_to resolves_def)

lemma process_delete_relations_inv:
  assumes "process_delete_relations (d, ct, u) = Inr (d', ct', u')" and inv: "upload_inv s0 d ct"
    and uni: "uniform_flags (delete_relations u)"
  shows "upload_inv s0 d' ct'"
proof -
  have ok: "relations_ok d" and db: "db_ok d" and mem: "members_ok d"
    using inv by (simp_all add: upload_inv_def db_ok_def members_ok_def refs_ok_def)
  from process_delete_relations_Inr [OF assms(1) ok] obtain rs dead where
    rs: "replace_old_ids_in_relations (delete_relations u) (created_node_ids ct) (created_way_ids ct)
       (created_relation_ids ct) = Inr rs" and
    step: "relation_delete_step rs dead (d, ct) (d', ct')" .
  have uni': "uniform_flags rs" by (rule resolved_uniform_flags [OF replace_old_ids_in_relations_Inr [OF rs] uni])
  have kept: "visible_id (current_relations d') i" if "visible_id (current_relations d) i" "i \<notin> e_id ` set dead" for i
    using step that unfolding relation_delete_step_def by blast
  have "members_ok d'"
    unfolding members_ok_def
  proof
    fix m assume "m \<in> set (current_relation_members d')"
    with step have m: "m \<in> set (current_relation_members d)" "m_relation_id m \<notin> e_id ` set dead"
      by (auto simp: relation_delete_step_def)
    with mem have v: "member_visible d (m_member_type m) (m_member_id m)"
      "visible_id (current_relations d) (m_relation_id m)" by (simp_all add: members_ok_def)
    have "m_member_type m = ''Relation'' \<Longrightarrow> m_member_id m \<notin> e_id ` set dead"
      using step uni' m v(2) unfolding relation_delete_step_def by blast
    with kept v m(2) step show "member_visible d' (m_member_type m) (m_member_id m) \<and>
        visible_id (current_relations d') (m_relation_id m)"
      by (auto simp: member_visible_def relation_delete_step_def relation_frame_def)
  qed
  then have "db_ok d'"
    by (intro db_ok_relation_frame [OF db]) (use step in \<open>auto simp: relation_delete_step_def\<close>)
  moreover have "created_ok s0 d' ct'"
  proof (rule created_ok_same)
    show "created_ok s0 d ct" using inv by (simp add: upload_inv_def)
    fix t show "created_ids t ct' = created_ids t ct \<and> id_seq t d' = id_seq t d"
      using step by (cases t) (auto simp: relation_delete_step_def relation_frame_def)
  qed
  ultimately show ?thesis by (simp add: upload_inv_def)
qed

section \<open>The relation updater fulfils the interface\<close>

lemma process_new_relations_ct:
  assumes "process_new_relations (d, ct, u) = Inr (d', ct', u')" "upload_inv s0 d ct"
    "\<forall>r\<in>set (create_relations u). creates_ok r"
  shows "ct_extends ct ct' \<and> (\<forall>r\<in>set (create_relations u). accounted ct' (change_item op_create ot_relation r))"
proof -
  have ok: "relations_ok d" using assms(2) by (simp add: upload_inv_def db_ok_def)
  from process_new_relations_Inr [OF assms(1) ok assms(3)] have
    ct': "ct' = ct\<lparr>created_relation_ids := created_relation_ids ct @
       created_mappings (ids_mapping (relation_id_seq d) (map e_old_id (create_relations u)))\<rparr>" by metis
  have "accounted ct' (change_item op_create ot_relation r)" if "r \<in> set (create_relations u)" for r
    by (rule accounted_created [OF _ that]) (simp add: ct')
  moreover have "ct_extends ct ct'" by (simp add: ct' ct_extends_def all_object_type)
  ultimately show ?thesis by blast
qed

lemma process_modify_relations_ct:
  assumes "process_modify_relations (d, ct, u) = Inr (d', ct', u')" "upload_inv s0 d ct"
  shows "ct_extends ct ct' \<and> (\<forall>r\<in>set (modify_relations u). accounted ct' (change_item op_modify ot_relation r))"
proof -
  have ok: "relations_ok d" using assms(2) by (simp add: upload_inv_def db_ok_def)
  from process_modify_relations_Inr [OF assms(1) ok] obtain rs where
    rs: "replace_old_ids_in_relations (modify_relations u) (created_node_ids ct) (created_way_ids ct)
       (created_relation_ids ct) = Inr rs" and
    step: "relation_modify_step (e_id ` set rs) rs (d, ct, ru_bbox u) (d', ct', ru_bbox u')" .
  from step obtain mps where ct': "ct' = ct\<lparr>modified_relation_ids := modified_relation_ids ct @ mps\<rparr>"
    and mps: "\<forall>r\<in>set rs. modified_by mps r" by (auto simp: relation_modify_step_def)
  have "accounted ct' (change_item op_modify ot_relation r)" if r: "r \<in> set (modify_relations u)" for r
  proof -
    from resolved_from [OF replace_old_ids_in_relations_Inr [OF rs] r] obtain f where f: "f \<in> set rs"
      "e_old_id f = e_old_id r" "e_version f = e_version r" "e_if_unused f = e_if_unused r" by blast
    have "accounted ct' (change_item op_modify ot_relation f)"
      by (rule accounted_modified [of mps]) (use mps f(1) ct' in auto)
    then show ?thesis by (simp only: change_item_cong [OF f(2-4)])
  qed
  moreover have "ct_extends ct ct'" by (simp add: ct' ct_extends_def all_object_type)
  ultimately show ?thesis by blast
qed

lemma process_delete_relations_ct:
  assumes "process_delete_relations (d, ct, u) = Inr (d', ct', u')" and inv: "upload_inv s0 d ct"
    and uni: "uniform_flags (delete_relations u)"
    and named: "\<forall>r\<in>set (delete_relations u). named_ok (s0 ot_relation) r"
  shows "ct_extends ct ct' \<and> (\<forall>r\<in>set (delete_relations u). accounted ct' (change_item op_delete ot_relation r))"
proof -
  have ok: "relations_ok d" using inv by (simp add: upload_inv_def db_ok_def)
  from process_delete_relations_Inr [OF assms(1) ok] obtain rs dead where
    rs: "replace_old_ids_in_relations (delete_relations u) (created_node_ids ct) (created_way_ids ct)
       (created_relation_ids ct) = Inr rs" and
    step: "relation_delete_step rs dead (d, ct) (d', ct')" .
  note res = replace_old_ids_in_relations_Inr [OF rs]
  have af: "alias_free rs" by (rule created_ok_alias_free [OF inv res [folded created_ids.simps(3)] named])
  from step obtain del skip where
    ct': "ct' = ct\<lparr>deleted_relation_ids := deleted_relation_ids ct @ del,
                  skip_deleted_relation_ids := skip_deleted_relation_ids ct @ skip\<rparr>"
    and del: "set del = e_old_id ` set dead"
    and acc: "\<forall>r\<in>set rs. r \<in> set dead \<or>
           e_if_unused r \<and> e_old_id r \<in> om_old_id ` set (skip_deleted_relation_ids ct @ skip)"
    using af resolved_uniform_flags [OF res uni] unfolding relation_delete_step_def by auto
  have "accounted ct' (change_item op_delete ot_relation r)" if r: "r \<in> set (delete_relations u)" for r
  proof -
    from resolved_from [OF res r] obtain f where f: "f \<in> set rs"
      "e_old_id f = e_old_id r" "e_version f = e_version r" "e_if_unused f = e_if_unused r" by blast
    have "accounted ct' (change_item op_delete ot_relation f)"
      by (rule accounted_deleted) (use acc f(1) del ct' in auto)
    then show ?thesis by (simp only: change_item_cong [OF f(2-4)])
  qed
  moreover have "ct_extends ct ct'" by (simp add: ct' ct_extends_def all_object_type)
  ultimately show ?thesis by blast
qed

lemma process_relations_buffers:
  "process_new_relations (d, ct, u) = Inr (d', ct', u') \<Longrightarrow>
     create_relations u' = [] \<and> modify_relations u' = modify_relations u \<and> delete_relations u' = delete_relations u"
  "process_modify_relations (d, ct, u) = Inr (d', ct', u') \<Longrightarrow>
     modify_relations u' = [] \<and> create_relations u' = create_relations u \<and> delete_relations u' = delete_relations u"
  "process_delete_relations (d, ct, u) = Inr (d', ct', u') \<Longrightarrow>
     delete_relations u' = [] \<and> create_relations u' = create_relations u \<and> modify_relations u' = modify_relations u"
  by (auto simp: process_new_relations_def process_modify_relations_def process_delete_relations_def Let_def
      result_simps split: prod.splits)

interpretation relation_upd: element_updater ot_relation process_new_relations process_modify_relations
    process_delete_relations create_relations modify_relations delete_relations uniform_flags
  by (unfold_locales;
      ((simp add: uniform_flags_def; fail) | erule process_new_relations_inv | erule process_new_relations_ct | erule process_modify_relations_inv |
       erule process_modify_relations_ct | erule process_delete_relations_inv | erule process_delete_relations_ct |
       erule process_relations_buffers); assumption)

section \<open>Forward references among new relations\<close>

lemma check_forward_members:
  "foldE (\<lambda>mbr _. throw_if (P mbr) (ex mbr)) ms () = Inr () \<longleftrightarrow> (\<forall>m\<in>set ms. \<not> P m)"
  by (induction ms) (auto simp: result_simps)

lemma check_forward_fold:
  "foldE check_forward_step rs {} = Inr s \<longleftrightarrow> s = {i \<in> e_old_id ` set rs. i < 0} \<and>
     (\<forall>k<length rs. \<forall>m\<in>set (rel_members (rs ! k)).
        mb_type m = ''Relation'' \<and> mb_old_id m < 0 \<longrightarrow> mb_old_id m \<in> e_old_id ` set (take k rs))"
proof (induction rs arbitrary: s rule: rev_induct)
  case (snoc r rs)
  let ?seen = "{i \<in> e_old_id ` set rs. i < 0}"
  have step: "check_forward_step r ?seen = Inr s \<longleftrightarrow> s = {i \<in> e_old_id ` set (rs @ [r]). i < 0} \<and>
      (\<forall>m\<in>set (rel_members r). mb_type m = ''Relation'' \<and> mb_old_id m < 0 \<longrightarrow> mb_old_id m \<in> e_old_id ` set rs)"
    by (auto simp: check_forward_step_def result_simps check_forward_members)
  have "foldE check_forward_step (rs @ [r]) {} = Inr s \<longleftrightarrow>
      (\<exists>s1. foldE check_forward_step rs {} = Inr s1 \<and> check_forward_step r s1 = Inr s)"
    by (auto simp: foldE_append result_simps foldE_single simp del: foldE.simps)
  also have "\<dots> \<longleftrightarrow> check_forward_step r ?seen = Inr s \<and> (\<forall>k<length rs. \<forall>m\<in>set (rel_members (rs ! k)).
        mb_type m = ''Relation'' \<and> mb_old_id m < 0 \<longrightarrow> mb_old_id m \<in> e_old_id ` set (take k rs))"
    unfolding snoc.IH by auto
  finally show ?case unfolding step by (auto simp: less_Suc_eq nth_append)
qed auto

end
