(* ===== verification/OSM_Objects.thy ===== *)
theory OSM_Objects
  imports Tracking Coordinates
begin

text \<open>
  The elements of an osmChange message as the parser hands them to the handler:
  \<^verbatim>\<open>OSMObject\<close>, \<^verbatim>\<open>Node\<close>, \<^verbatim>\<open>Way\<close>, \<^verbatim>\<open>RelationMember\<close> and \<^verbatim>\<open>Relation\<close> of
  \<^verbatim>\<open>include/cgimap/api06/changeset_upload/\<close>, with their integer setters and validity checks.
  A missing attribute is \<^verbatim>\<open>std::nullopt\<close>; reading it is undefined behaviour.
\<close>

section \<open>Numbers in attributes\<close>

text \<open>
  \<^verbatim>\<open>std::from_chars\<close> for a signed 64-bit integer: an optional minus sign and the longest run
  of digits. What follows the digits is not looked at.
\<close>

datatype parse_error = invalid_argument | result_out_of_range

definition is_digit :: "char \<Rightarrow> bool" where
  "is_digit c \<longleftrightarrow> CHR ''0'' \<le> c \<and> c \<le> CHR ''9''"

definition digits_value :: "string \<Rightarrow> int" where
  "digits_value ds = fold (\<lambda>c v. 10 * v + int (of_char c - 48)) ds 0"

definition from_chars_s64 :: "string \<Rightarrow> parse_error + int" where
  "from_chars_s64 s =
     (let neg = (s \<noteq> [] \<and> hd s = CHR ''-'');
          ds = takeWhile is_digit (if neg then tl s else s);
          v = (if neg then - digits_value ds else digits_value ds)
      in if ds = [] then Inl invalid_argument
         else if is_s64 v then Inr v else Inl result_out_of_range)"

definition parse_attr :: "string \<Rightarrow> string \<Rightarrow> string \<Rightarrow> int result" where
  "parse_attr not_numeric too_large s =
     (case from_chars_s64 s of
        Inr v \<Rightarrow> Inr v
      | Inl invalid_argument \<Rightarrow> Inl (payload_error not_numeric)
      | Inl result_out_of_range \<Rightarrow> Inl (payload_error too_large))"

text \<open>Reading an optional value: \<^verbatim>\<open>*m_x\<close>.\<close>

definition deref :: "'a option \<Rightarrow> 'a result" where
  "deref v = (case v of None \<Rightarrow> Inl (undefined_behaviour ''dereferenced an empty optional'') | Some x \<Rightarrow> Inr x)"

lemma deref_Inr [result_simps]: "deref v = Inr x \<longleftrightarrow> v = Some x"
  by (cases v) (auto simp: deref_def)

section \<open>Objects\<close>

record limits =
  element_max_tags :: "nat option"
  way_max_nodes :: nat
  relation_max_members :: "nat option"

record OSMObject =
  o_changeset :: "osm_changeset_id_t option"
  o_id :: "osm_nwr_signed_id_t option"
  o_version :: "osm_version_t option"
  o_tags :: "(string \<times> string) list"

record RelationMember =
  rm_role :: string
  rm_ref :: "osm_nwr_signed_id_t option"
  rm_type :: "string option"

record Node = OSMObject +
  o_lat :: "rat option"
  o_lon :: "rat option"

record Way = OSMObject +
  o_way_nodes :: "osm_nwr_signed_id_t list"

record Relation = OSMObject +
  o_members :: "RelationMember list"

section \<open>Setters\<close>

definition set_changeset :: "int \<Rightarrow> 'a OSMObject_scheme \<Rightarrow> 'a OSMObject_scheme result" where
  "set_changeset v o' = bindE (throw_if (v \<le> 0) (payload_error ''Changeset must be a positive number''))
     (\<lambda>_. Inr (o'\<lparr>o_changeset := Some v\<rparr>))"

text \<open>The parameter is a signed 64-bit integer, the member an unsigned 32-bit one.\<close>

definition set_version :: "int \<Rightarrow> 'a OSMObject_scheme \<Rightarrow> 'a OSMObject_scheme result" where
  "set_version v o' = bindE (throw_if (v < 0) (payload_error ''Version may not be negative''))
     (\<lambda>_. Inr (o'\<lparr>o_version := Some (u32 v)\<rparr>))"

definition set_id :: "int \<Rightarrow> 'a OSMObject_scheme \<Rightarrow> 'a OSMObject_scheme result" where
  "set_id v o' = bindE (throw_if (v = 0) (payload_error ''Id must be different from 0''))
     (\<lambda>_. Inr (o'\<lparr>o_id := Some v\<rparr>))"

definition set_changeset_str :: "string \<Rightarrow> 'a OSMObject_scheme \<Rightarrow> 'a OSMObject_scheme result" where
  "set_changeset_str s o' =
     bindE (parse_attr ''Changeset is not numeric'' ''Changeset number is too large'' s) (\<lambda>v. set_changeset v o')"

definition set_version_str :: "string \<Rightarrow> 'a OSMObject_scheme \<Rightarrow> 'a OSMObject_scheme result" where
  "set_version_str s o' =
     bindE (parse_attr ''Version is not numeric'' ''Version value is too large'' s) (\<lambda>v. set_version v o')"

definition set_id_str :: "string \<Rightarrow> 'a OSMObject_scheme \<Rightarrow> 'a OSMObject_scheme result" where
  "set_id_str s o' =
     bindE (parse_attr ''Id is not numeric'' ''Id number is too large'' s) (\<lambda>v. set_id v o')"

text \<open>A \<^verbatim>\<open>double\<close>: the rational number a finite value denotes, an infinity or a NaN.\<close>

datatype double = finite_double rat | infinite_double bool | nan_double

definition set_lat :: "double \<Rightarrow> Node \<Rightarrow> Node result" where
  "set_lat lat n =
     (case lat of
        finite_double x \<Rightarrow> bindE (throw_if (x < - 90 \<or> x > 90) (payload_error ''Latitude outside of valid range''))
          (\<lambda>_. Inr (n\<lparr>o_lat := Some x\<rparr>))
      | infinite_double _ \<Rightarrow> Inl (payload_error ''Latitude outside of valid range'')
      | nan_double \<Rightarrow> Inl (payload_error ''Latitude not a valid finite number''))"

definition set_lon :: "double \<Rightarrow> Node \<Rightarrow> Node result" where
  "set_lon lon n =
     (case lon of
        finite_double x \<Rightarrow> bindE (throw_if (x < - 180 \<or> x > 180) (payload_error ''Longitude outside of valid range''))
          (\<lambda>_. Inr (n\<lparr>o_lon := Some x\<rparr>))
      | infinite_double _ \<Rightarrow> Inl (payload_error ''Longitude outside of valid range'')
      | nan_double \<Rightarrow> Inl (payload_error ''Longitude not a valid finite number''))"

text \<open>\<^verbatim>\<open>iequals\<close> of \<^verbatim>\<open>util.hpp\<close>: comparison without regard to ASCII case.\<close>

definition tolower_ascii :: "char \<Rightarrow> char" where
  "tolower_ascii c = (if CHR ''A'' \<le> c \<and> c \<le> CHR ''Z'' then char_of (of_char c + (32 :: nat)) else c)"

definition iequals :: "string \<Rightarrow> string \<Rightarrow> bool" where
  "iequals a b \<longleftrightarrow> length a = length b \<and> list_all2 (\<lambda>x y. x = y \<or> tolower_ascii x = tolower_ascii y) a b"

text \<open>
  \<^verbatim>\<open>std::from_chars\<close> for a \<^verbatim>\<open>double\<close> in general format: an optional minus sign, then digits
  with an optional point and an optional exponent, or the words for infinity and NaN. A value
  that rounds to infinity, or a non-zero one that rounds to zero, is out of range.
\<close>

definition exponent_of :: "string \<Rightarrow> int" where
  "exponent_of s =
     (case s of
        [] \<Rightarrow> 0
      | c # t \<Rightarrow>
          if c = CHR ''e'' \<or> c = CHR ''E'' then
            let signed = (t \<noteq> [] \<and> (hd t = CHR ''-'' \<or> hd t = CHR ''+''));
                v = digits_value (takeWhile is_digit (if signed then tl t else t))
            in if signed \<and> hd t = CHR ''-'' then - v else v
          else 0)"

definition decimal_value :: "string \<Rightarrow> string \<Rightarrow> int \<Rightarrow> rat" where
  "decimal_value ip fp ex =
     (let m = of_int (digits_value (ip @ fp)); e = ex - int (length fp)
      in if 0 \<le> e then m * 10 ^ nat e else m / 10 ^ nat (- e))"

text \<open>The nearest double, in steps of at least \<open>2 powi (- 1074)\<close>, ties to even.\<close>

definition nearest_double :: "rat \<Rightarrow> rat" where
  "nearest_double x =
     (if x = 0 then 0
      else let ulp = 2 powi (max (bin_exponent \<bar>x\<bar> - 52) (- 1074)) in of_int (round_half_even (x / ulp)) * ulp)"

definition from_chars_double :: "string \<Rightarrow> parse_error + double" where
  "from_chars_double s =
     (let neg = (s \<noteq> [] \<and> hd s = CHR ''-'');
          r = (if neg then tl s else s);
          ip = takeWhile is_digit r;
          r1 = dropWhile is_digit r;
          point = (r1 \<noteq> [] \<and> hd r1 = CHR ''.'');
          fp = (if point then takeWhile is_digit (tl r1) else []);
          r2 = (if point then dropWhile is_digit (tl r1) else r1);
          v = decimal_value ip fp (exponent_of r2)
      in if ip = [] \<and> fp = [] then
           (if iequals (take 3 r) ''inf'' then Inr (infinite_double neg)
            else if iequals (take 3 r) ''nan'' then Inr nan_double
            else Inl invalid_argument)
         else if v \<noteq> 0 \<and> (v \<ge> 2 ^ 1024 - 2 ^ 970 \<or> v \<le> 1 / 2 ^ 1075) then Inl result_out_of_range
         else Inr (finite_double (nearest_double (if neg then - v else v))))"

definition parse_double :: "string \<Rightarrow> string \<Rightarrow> string \<Rightarrow> double result" where
  "parse_double not_numeric too_large s =
     (case from_chars_double s of
        Inr v \<Rightarrow> Inr v
      | Inl invalid_argument \<Rightarrow> Inl (payload_error not_numeric)
      | Inl result_out_of_range \<Rightarrow> Inl (payload_error too_large))"

definition set_lat_str :: "string \<Rightarrow> Node \<Rightarrow> Node result" where
  "set_lat_str s n =
     bindE (parse_double ''Latitude is not numeric'' ''Latitude value is too large'' s) (\<lambda>v. set_lat v n)"

definition set_lon_str :: "string \<Rightarrow> Node \<Rightarrow> Node result" where
  "set_lon_str s n =
     bindE (parse_double ''Longitude is not numeric'' ''Longitude value is too large'' s) (\<lambda>v. set_lon v n)"

definition add_way_node :: "int \<Rightarrow> Way \<Rightarrow> Way result" where
  "add_way_node v w = bindE (throw_if (v = 0) (payload_error ''Way node value may not be 0''))
     (\<lambda>_. Inr (w\<lparr>o_way_nodes := o_way_nodes w @ [v]\<rparr>))"

definition add_way_node_str :: "string \<Rightarrow> Way \<Rightarrow> Way result" where
  "add_way_node_str s w =
     bindE (parse_attr ''Way node is not numeric'' ''Way node value is too large'' s) (\<lambda>v. add_way_node v w)"

definition set_type :: "string \<Rightarrow> RelationMember \<Rightarrow> RelationMember result" where
  "set_type ty m =
     (if iequals ty ''Node'' then Inr (m\<lparr>rm_type := Some ''Node''\<rparr>)
      else if iequals ty ''Way'' then Inr (m\<lparr>rm_type := Some ''Way''\<rparr>)
      else if iequals ty ''Relation'' then Inr (m\<lparr>rm_type := Some ''Relation''\<rparr>)
      else Inl (payload_error (''Invalid type '' @ ty @ '' in member relation'')))"

definition quoted :: "string \<Rightarrow> string" where
  "quoted s = [CHR 0x27] @ s @ [CHR 0x27]"

definition set_ref :: "int \<Rightarrow> RelationMember \<Rightarrow> RelationMember result" where
  "set_ref v m = bindE (throw_if (v = 0) (payload_error (''Relation member '' @ quoted ''ref'' @ '' attribute may not be 0'')))
     (\<lambda>_. Inr (m\<lparr>rm_ref := Some v\<rparr>))"

definition set_ref_str :: "string \<Rightarrow> RelationMember \<Rightarrow> RelationMember result" where
  "set_ref_str s m =
     bindE (parse_attr (''Relation member '' @ quoted ''ref'' @ '' attribute is not numeric'')
              (''Relation member '' @ quoted ''ref'' @ '' attribute value is too large'') s) (\<lambda>v. set_ref v m)"

text \<open>
  \<^verbatim>\<open>unicode_strlen\<close>: \<open>mbslen\<close> stands for \<^verbatim>\<open>std::mbsrtowcs(nullptr, ...)\<close> in the locale of the
  process, with no value for a string that is not valid in it.
\<close>

definition unicode_strlen :: "(string \<Rightarrow> nat option) \<Rightarrow> string \<Rightarrow> nat result" where
  "unicode_strlen mbslen s =
     (case mbslen s of None \<Rightarrow> Inl (bad_request ''Invalid UTF-8 string encountered'') | Some k \<Rightarrow> Inr k)"

definition set_role :: "(string \<Rightarrow> nat option) \<Rightarrow> string \<Rightarrow> RelationMember \<Rightarrow> RelationMember result" where
  "set_role mbslen role m =
     bindE (unicode_strlen mbslen role) (\<lambda>k.
     bindE (throw_if (k > 255) (payload_error ''Relation Role has more than 255 unicode characters'')) (\<lambda>_.
     Inr (m\<lparr>rm_role := role\<rparr>)))"

definition object_to_string :: "string \<Rightarrow> 'a OSMObject_scheme \<Rightarrow> string" where
  "object_to_string type_name o' = type_name @ '' '' @ fmt_d (case o_id o' of None \<Rightarrow> 0 | Some i \<Rightarrow> i)"

text \<open>The tags are a \<^verbatim>\<open>std::map\<close>: an association list in the order of the keys.\<close>

definition add_tag :: "(string \<Rightarrow> nat option) \<Rightarrow> string \<Rightarrow> string \<Rightarrow> string \<Rightarrow> 'a OSMObject_scheme \<Rightarrow>
    'a OSMObject_scheme result" where
  "add_tag mbslen type_name key value o' =
     bindE (throw_if (key = []) (payload_error (''Key may not be empty in '' @ object_to_string type_name o'))) (\<lambda>_.
     bindE (unicode_strlen mbslen key) (\<lambda>klen.
     bindE (throw_if (klen > 255)
       (payload_error (''Key has more than 255 unicode characters in '' @ object_to_string type_name o'))) (\<lambda>_.
     bindE (unicode_strlen mbslen value) (\<lambda>vlen.
     bindE (throw_if (vlen > 255)
       (payload_error (''Value has more than 255 unicode characters in '' @ object_to_string type_name o'))) (\<lambda>_.
     bindE (throw_if (key \<in> set (map fst (o_tags o')))
       (payload_error (object_to_string type_name o' @ '' has duplicate tags with key '' @ key))) (\<lambda>_.
     Inr (o'\<lparr>o_tags := insort_key fst (key, value) (o_tags o')\<rparr>)))))))"

definition member_is_valid :: "RelationMember \<Rightarrow> bool result" where
  "member_is_valid m =
     bindE (throw_if (rm_type m = None) (payload_error (''Missing '' @ quoted ''type'' @ '' attribute in Relation member''))) (\<lambda>_.
     bindE (throw_if (rm_ref m = None) (payload_error (''Missing '' @ quoted ''ref'' @ '' attribute in Relation member''))) (\<lambda>_.
     Inr (rm_ref m \<noteq> None \<and> rm_type m \<noteq> None)))"

definition add_member :: "RelationMember \<Rightarrow> Relation \<Rightarrow> Relation result" where
  "add_member m r =
     bindE (member_is_valid m) (\<lambda>valid.
     bindE (throw_if (\<not> valid) (payload_error ''Relation member does not include all mandatory fields'')) (\<lambda>_.
     Inr (r\<lparr>o_members := o_members r @ [m]\<rparr>)))"

section \<open>Validity\<close>

definition object_is_valid :: "limits \<Rightarrow> operation \<Rightarrow> 'a OSMObject_scheme \<Rightarrow> bool result" where
  "object_is_valid lm op o' =
     bindE (throw_if (o_changeset o' = None)
              (payload_error ''You need to supply a changeset to be able to make a change'')) (\<lambda>_.
     bindE (case element_max_tags lm of
              None \<Rightarrow> Inr ()
            | Some m \<Rightarrow> throw_if (length (o_tags o') > m)
                (payload_error (''OSM element exceeds limit of '' @ fmt_d (int m) @ '' tags''))) (\<lambda>_.
     let valid = (o_changeset o' \<noteq> None \<and> o_id o' \<noteq> None \<and> o_version o' \<noteq> None) in
     bindE (throw_if (valid \<and> op = op_create \<and> 0 \<le> the (o_id o'))
              (payload_error ''Placeholder IDs must be negative for created elements.'')) (\<lambda>_.
     Inr valid)))"

definition node_is_valid :: "limits \<Rightarrow> operation \<Rightarrow> Node \<Rightarrow> bool result" where
  "node_is_valid lm op n =
     (if op = op_delete then object_is_valid lm op n
      else bindE (object_is_valid lm op n) (\<lambda>v. Inr (v \<and> o_lat n \<noteq> None \<and> o_lon n \<noteq> None)))"

definition way_is_valid :: "limits \<Rightarrow> operation \<Rightarrow> Way \<Rightarrow> bool result" where
  "way_is_valid lm op w =
     (if op = op_delete then object_is_valid lm op w
      else
        bindE (throw_if (o_way_nodes w = [])
                 (precondition_failed (''Way '' @ fmt_d (case o_id w of None \<Rightarrow> 0 | Some i \<Rightarrow> i) @
                    '' must have at least one node''))) (\<lambda>_.
        bindE (throw_if (length (o_way_nodes w) > way_max_nodes lm)
                 (bad_request (''You tried to add '' @ fmt_d (int (length (o_way_nodes w))) @ '' nodes to way '' @
                    fmt_d (case o_id w of None \<Rightarrow> 0 | Some i \<Rightarrow> i) @ '', however only '' @
                    fmt_d (int (way_max_nodes lm)) @ '' are allowed''))) (\<lambda>_.
        object_is_valid lm op w)))"

definition relation_is_valid :: "limits \<Rightarrow> operation \<Rightarrow> Relation \<Rightarrow> bool result" where
  "relation_is_valid lm op r =
     (if op = op_delete then object_is_valid lm op r
      else
        bindE (case relation_max_members lm of
                 None \<Rightarrow> Inr ()
               | Some m \<Rightarrow> throw_if (length (o_members r) > m)
                   (bad_request (''You tried to add '' @ fmt_d (int (length (o_members r))) @ '' members to relation '' @
                      fmt_d (case o_id r of None \<Rightarrow> 0 | Some i \<Rightarrow> i) @ '', however only '' @
                      fmt_d (int m) @ '' are allowed''))) (\<lambda>_.
        object_is_valid lm op r))"

section \<open>Lemmas\<close>

text \<open>What a valid object has.\<close>

lemma object_is_valid_True:
  assumes "object_is_valid lm op o' = Inr True"
  obtains cs i v where "o_changeset o' = Some cs" "o_id o' = Some i" "o_version o' = Some v"
    "op = op_create \<Longrightarrow> i < 0"
  using assms by (auto simp: object_is_valid_def Let_def result_simps)

lemma way_is_valid_True:
  "way_is_valid lm op w = Inr True \<Longrightarrow>
     object_is_valid lm op w = Inr True \<and>
     (op \<noteq> op_delete \<longrightarrow> o_way_nodes w \<noteq> [] \<and> length (o_way_nodes w) \<le> way_max_nodes lm)"
  by (auto simp: way_is_valid_def result_simps split: if_splits)

lemma node_is_valid_True:
  "node_is_valid lm op n = Inr True \<Longrightarrow>
     object_is_valid lm op n = Inr True \<and> (op \<noteq> op_delete \<longrightarrow> o_lat n \<noteq> None \<and> o_lon n \<noteq> None)"
  by (auto simp: node_is_valid_def result_simps split: if_splits)

lemma relation_is_valid_True:
  "relation_is_valid lm op r = Inr True \<Longrightarrow> object_is_valid lm op r = Inr True"
  by (auto simp: relation_is_valid_def result_simps split: if_splits)

lemma from_chars_s64_range: "from_chars_s64 s = Inr v \<Longrightarrow> is_s64 v"
  by (auto simp: from_chars_s64_def Let_def split: if_splits)

text \<open>Tags stay sorted with distinct, non-empty keys.\<close>

definition tags_ok :: "(string \<times> string) list \<Rightarrow> bool" where
  "tags_ok ts \<longleftrightarrow> sorted (map fst ts) \<and> distinct (map fst ts) \<and> [] \<notin> set (map fst ts)"

lemma add_tag_ok:
  assumes "add_tag mbslen ty k v ob = Inr ob'" "tags_ok (o_tags ob)"
  shows "tags_ok (o_tags ob')" "map_of (o_tags ob') = (map_of (o_tags ob))(k \<mapsto> v)" "map_of (o_tags ob) k = None"
proof -
  from assms(1) have k: "k \<noteq> []" "k \<notin> fst ` set (o_tags ob)" "ob' = ob\<lparr>o_tags := insort_key fst (k, v) (o_tags ob)\<rparr>"
    by (auto simp: add_tag_def result_simps)
  then show "map_of (o_tags ob) k = None" by (simp add: map_of_eq_None_iff)
  have dist: "distinct (map fst (insort_key fst (k, v) ts))" if "distinct (map fst ts)" "k \<notin> fst ` set ts"
    for ts :: "(string \<times> string) list"
    using that by (induction ts) (auto simp: set_insort_key)
  have get: "map_of (insort_key fst (k, v) ts) = (map_of ts)(k \<mapsto> v)" if "k \<notin> fst ` set ts"
    for ts :: "(string \<times> string) list"
    using that by (induction ts) (auto simp: fun_upd_twist)
  from assms(2) k dist [of "o_tags ob"] show "tags_ok (o_tags ob')"
    by (auto simp: tags_ok_def sorted_insort_key set_insort_key)
  from k get [of "o_tags ob"] show "map_of (o_tags ob') = (map_of (o_tags ob))(k \<mapsto> v)" by simp
qed

text \<open>A decimal number reads back as itself.\<close>

lemma digits_value_snoc: "digits_value (ds @ [c]) = 10 * digits_value ds + int (of_char c - 48)"
  by (simp add: digits_value_def)

lemma digit_char:
  assumes "k < 10"
  shows "is_digit (char_of (48 + k :: nat))" "of_char (char_of (48 + k)) - 48 = k"
  using assms by (simp_all add: is_digit_def less_eq_char_def)

lemma digits_of_value: "digits_value (digits_of n) = int n \<and> list_all is_digit (digits_of n) \<and> digits_of n \<noteq> []"
proof (induction n rule: digits_of.induct)
  case (1 n)
  show ?case
  proof (cases "n < 10")
    case True
    then show ?thesis using digit_char [of n] by (subst (1 2 3) digits_of.simps) (simp add: digits_value_def)
  next
    case False
    with 1 have IH: "digits_value (digits_of (n div 10)) = int (n div 10)" "list_all is_digit (digits_of (n div 10))"
      by simp_all
    have "n mod 10 < 10" by simp
    from digit_char [OF this] IH False show ?thesis
      by (subst (1 2 3) digits_of.simps) (simp add: digits_value_snoc zdiv_int zmod_int)
  qed
qed

lemma from_chars_fmt: "is_s64 v \<Longrightarrow> from_chars_s64 (fmt_d v) = Inr v"
proof -
  assume v: "is_s64 v"
  have ds: "takeWhile is_digit (digits_of n) = digits_of n" for n
    using digits_of_value [of n] by (simp add: list_all_iff takeWhile_eq_all_conv)
  have hd: "hd (digits_of n) \<noteq> CHR ''-''" for n
  proof -
    have "is_digit (hd (digits_of n))" using digits_of_value [of n] by (simp add: list_all_iff)
    then show ?thesis by (auto simp: is_digit_def less_eq_char_def)
  qed
  show "from_chars_s64 (fmt_d v) = Inr v"
    using v digits_of_value [of "nat v"] digits_of_value [of "nat (- v)"] hd [of "nat v"]
    by (simp add: from_chars_s64_def fmt_d_def Let_def ds)
qed

end
