(* ===== verification/Changeset_Updater.thy ===== *)
theory Changeset_Updater
  imports Database
begin

text \<open>
  \<^verbatim>\<open>ApiDB_Changeset_Updater\<close>
  (\<^verbatim>\<open>src/backend/apidb/changeset_upload/changeset_updater.cpp\<close>) and the statistics of
  \<^verbatim>\<open>changeset_stats.hpp\<close>: who may write to a changeset, how many changes it takes, how its
  bounding box grows and when it closes.
\<close>

section \<open>State\<close>

record element_stats =
  num_create :: int
  num_modify :: int
  num_delete :: int

record changeset_upload_stats =
  st_node :: element_stats
  st_way :: element_stats
  st_relation :: element_stats

definition no_stats :: changeset_upload_stats where
  "no_stats = (let z = \<lparr>num_create = 0, num_modify = 0, num_delete = 0\<rparr> in
     \<lparr>st_node = z, st_way = z, st_relation = z\<rparr>)"

definition element_total :: "element_stats \<Rightarrow> int" where
  "element_total s = u64 (u64 (num_create s + num_modify s) + num_delete s)"

definition get_total :: "changeset_upload_stats \<Rightarrow> int" where
  "get_total s = u64 (u64 (element_total (st_node s) + element_total (st_way s)) + element_total (st_relation s))"

text \<open>
  What the updater reads of its surroundings: the user of the request, the settings, whether
  the row lock with \<^verbatim>\<open>NOWAIT\<close> is to be had, and the server's \<^verbatim>\<open>to_char\<close> for timestamps, which
  only goes into messages.
\<close>

record cs_env =
  env_user :: "osm_user_id_t option"
  env_max_elements :: int
  env_timeout_open_max :: int
  env_timeout_idle :: int
  env_enhanced_stats :: bool
  env_lock_free :: bool
  env_to_char :: "int \<Rightarrow> string"

record changeset_updater =
  cs_num_changes :: int
  cs_changeset :: osm_changeset_id_t
  cs_bbox :: bbox_t

definition init_changeset_updater :: "cs_env \<Rightarrow> osm_changeset_id_t \<Rightarrow> changeset_updater result" where
  "init_changeset_updater env cs =
     (case env_user env of
        None \<Rightarrow> Inl (server_error ''Cannot create changeset - no user id'')
      | Some _ \<Rightarrow> Inr \<lparr>cs_num_changes = 0, cs_changeset = cs, cs_bbox = default_bbox\<rparr>)"

text \<open>\<^verbatim>\<open>req_ctx.user->id\<close>, after the constructor's check.\<close>

definition user_id :: "cs_env \<Rightarrow> osm_user_id_t" where
  "user_id env = (case env_user env of Some i \<Rightarrow> i | None \<Rightarrow> 0)"

section \<open>Locking\<close>

definition not_owner :: exn where
  "not_owner = conflict (''The user doesn'' @ [CHR 0x27] @ ''t own that changeset'')"

definition check_user_owns_changeset :: "cs_env \<Rightarrow> changeset_updater \<Rightarrow> db \<Rightarrow> unit result" where
  "check_user_owns_changeset env u d =
     (case filter (\<lambda>c. c_id c = cs_changeset u) (changesets d) of
        [c] \<Rightarrow> throw_if (c_user_id c \<noteq> user_id env) not_owner
      | _ \<Rightarrow> Inl (not_found ''''))"

text \<open>The result is whether the changeset is closed and when, and the updater with the row's values.\<close>

definition lock_cs :: "cs_env \<Rightarrow> changeset_updater \<Rightarrow> db \<Rightarrow> ((bool \<times> int) \<times> changeset_updater) result" where
  "lock_cs env u d =
     (if \<not> env_lock_free env
      then Inl (conflict (''Changeset '' @ fmt_d (cs_changeset u) @ '' is currently locked by another process.''))
      else case filter (\<lambda>c. c_id c = cs_changeset u \<and> c_user_id c = user_id env) (changesets d) of
             [c] \<Rightarrow> Inr ((db_now d > c_closed_at c, c_closed_at c),
                         u\<lparr>cs_num_changes := u32 (c_num_changes c),
                           cs_bbox := (case c_bbox c of None \<Rightarrow> cs_bbox u | Some b \<Rightarrow> b)\<rparr>)
           | _ \<Rightarrow> Inl not_owner)"

definition closed_message :: "cs_env \<Rightarrow> changeset_updater \<Rightarrow> int \<Rightarrow> exn" where
  "closed_message env u t =
     conflict (''The changeset '' @ fmt_d (cs_changeset u) @ '' was closed at '' @ env_to_char env t)"

definition lock_current_changeset :: "cs_env \<Rightarrow> bool \<Rightarrow> changeset_updater \<Rightarrow> db \<Rightarrow> changeset_updater result" where
  "lock_current_changeset env check_max u d =
     bindE (check_user_owns_changeset env u d) (\<lambda>_.
     bindE (lock_cs env u d) (\<lambda>((is_closed, closed_at), u1).
     bindE (throw_if is_closed (closed_message env u closed_at)) (\<lambda>_.
     bindE (throw_if (check_max \<and> cs_num_changes u1 \<ge> env_max_elements env)
              (closed_message env u (db_now d))) (\<lambda>_.
     Inr u1))))"

section \<open>Updating\<close>

text \<open>
  \<^verbatim>\<open>UPDATE changesets SET ... WHERE id = $n\<close> with the check on the number of affected rows.
\<close>

definition update_changeset_row ::
    "string \<Rightarrow> (changeset_row \<Rightarrow> bool) \<Rightarrow> (changeset_row \<Rightarrow> changeset_row) \<Rightarrow> db \<Rightarrow> db result" where
  "update_changeset_row msg sel f d =
     bindE (throw_if (length (filter sel (changesets d)) \<noteq> 1) (server_error msg)) (\<lambda>_.
     Inr (d\<lparr>changesets := map (\<lambda>c. if sel c then f c else c) (changesets d)\<rparr>))"

text \<open>
  The auto-close time: one idle period from now, unless that would keep the changeset open
  for longer than the maximum.
\<close>

definition next_closed_at :: "cs_env \<Rightarrow> int \<Rightarrow> changeset_row \<Rightarrow> int" where
  "next_closed_at env now c =
     (if c_closed_at c - c_created_at c > env_timeout_open_max env - env_timeout_idle env
      then c_created_at c + env_timeout_open_max env else now + env_timeout_idle env)"

definition changeset_update_enhanced_stats ::
    "cs_env \<Rightarrow> changeset_upload_stats \<Rightarrow> changeset_updater \<Rightarrow> db \<Rightarrow> db result" where
  "changeset_update_enhanced_stats env new u d =
     (if env_enhanced_stats env \<and> get_total new > 0 then
        let add = [num_create (st_node new), num_modify (st_node new), num_delete (st_node new),
                   num_create (st_way new), num_modify (st_way new), num_delete (st_way new),
                   num_create (st_relation new), num_modify (st_relation new), num_delete (st_relation new)]
        in update_changeset_row ''Cannot update changeset - changeset_update_enhanced_stats''
             (\<lambda>c. c_id c = cs_changeset u) (\<lambda>c. c\<lparr>c_stats := map2 (+) (c_stats c) add\<rparr>) d
      else Inr d)"

text \<open>
  The number of changes is added up in 32 bits, and the statement casts it to a signed
  32-bit column.
\<close>

definition update_changeset ::
    "cs_env \<Rightarrow> changeset_upload_stats \<Rightarrow> bbox_t \<Rightarrow> changeset_updater \<Rightarrow> db \<Rightarrow> (changeset_updater \<times> db) result" where
  "update_changeset env new bbox u d =
     (let num_new_changes = u32 (get_total new);
          total = u32 (cs_num_changes u + num_new_changes) in
      bindE (throw_if (total > env_max_elements env) (closed_message env u (db_now d))) (\<lambda>_.
      let new_bbox = expand (cs_bbox u) bbox;
          u1 = u\<lparr>cs_num_changes := total, cs_bbox := new_bbox\<rparr>;
          valid_bbox = (new_bbox \<noteq> default_bbox) in
      bindE (throw_if (total \<ge> 2 ^ 31) (sql_error ''integer out of range'')) (\<lambda>_.
      bindE (update_changeset_row ''Cannot update changeset'' (\<lambda>c. c_id c = cs_changeset u)
               (\<lambda>c. c\<lparr>c_num_changes := total,
                      c_bbox := (if valid_bbox then Some new_bbox else c_bbox c),
                      c_closed_at := next_closed_at env (db_now d) c\<rparr>) d) (\<lambda>d1.
      bindE (changeset_update_enhanced_stats env new u1 d1) (\<lambda>d2.
      Inr (u1, d2))))))"

definition changeset_update_users_cs_count :: "cs_env \<Rightarrow> db \<Rightarrow> db result" where
  "changeset_update_users_cs_count env d =
     bindE (throw_if (length (filter (\<lambda>(i, _). i = user_id env) (users_changesets_count d)) \<noteq> 1)
              (server_error ''Cannot create changeset - update changesets_count'')) (\<lambda>_.
     Inr (d\<lparr>users_changesets_count := map (\<lambda>(i, n). if i = user_id env
              then (i, Some ((case n of None \<Rightarrow> 0 | Some k \<Rightarrow> k) + 1)) else (i, n)) (users_changesets_count d)\<rparr>))"

definition changeset_insert_subscriber :: "cs_env \<Rightarrow> changeset_updater \<Rightarrow> db \<Rightarrow> db result" where
  "changeset_insert_subscriber env u d =
     bindE (insert_rows (\<lambda>p. p) [(user_id env, cs_changeset u)] (changesets_subscribers d)) (\<lambda>tbl.
     Inr (d\<lparr>changesets_subscribers := tbl\<rparr>))"

definition changeset_insert_tags :: "(string \<times> string) list \<Rightarrow> changeset_updater \<Rightarrow> db \<Rightarrow> db result" where
  "changeset_insert_tags tags u d =
     (if tags = [] then Inr d
      else bindE (insert_rows (\<lambda>(i, k, _). (i, k)) (map (Pair (cs_changeset u)) tags) (changeset_tags d)) (\<lambda>tbl.
           Inr (d\<lparr>changeset_tags := tbl\<rparr>)))"

definition changeset_delete_tags :: "changeset_updater \<Rightarrow> db \<Rightarrow> db" where
  "changeset_delete_tags u d =
     d\<lparr>changeset_tags := filter (\<lambda>(i, _). i \<noteq> cs_changeset u) (changeset_tags d)\<rparr>"

definition changeset_insert_cs :: "cs_env \<Rightarrow> changeset_updater \<Rightarrow> db \<Rightarrow> (changeset_updater \<times> db) result" where
  "changeset_insert_cs env u d =
     (let i = changeset_id_seq d + 1;
          row = \<lparr>c_id = i, c_user_id = user_id env, c_created_at = db_now d,
                 c_closed_at = db_now d + env_timeout_idle env, c_bbox = None, c_num_changes = 0,
                 c_stats = replicate 9 0\<rparr> in
      bindE (insert_rows c_id [row] (changesets d)) (\<lambda>tbl.
      Inr (u\<lparr>cs_changeset := i\<rparr>, d\<lparr>changesets := tbl, changeset_id_seq := i\<rparr>)))"

section \<open>The API operations\<close>

definition api_create_changeset ::
    "cs_env \<Rightarrow> (string \<times> string) list \<Rightarrow> changeset_updater \<Rightarrow> db \<Rightarrow>
       (osm_changeset_id_t \<times> changeset_updater \<times> db) result" where
  "api_create_changeset env tags u d =
     bindE (changeset_insert_cs env u d) (\<lambda>(u1, d1).
     bindE (changeset_update_users_cs_count env d1) (\<lambda>d2.
     bindE (changeset_insert_tags tags u1 (changeset_delete_tags u1 d2)) (\<lambda>d3.
     bindE (changeset_insert_subscriber env u1 d3) (\<lambda>d4.
     Inr (cs_changeset u1, u1, d4)))))"

definition api_update_changeset ::
    "cs_env \<Rightarrow> (string \<times> string) list \<Rightarrow> changeset_updater \<Rightarrow> db \<Rightarrow> (changeset_updater \<times> db) result" where
  "api_update_changeset env tags u d =
     bindE (lock_current_changeset env False u d) (\<lambda>u1.
     bindE (changeset_insert_tags tags u1 (changeset_delete_tags u1 d)) (\<lambda>d1.
     update_changeset env no_stats default_bbox u1 d1))"

definition api_close_changeset :: "cs_env \<Rightarrow> changeset_updater \<Rightarrow> db \<Rightarrow> (changeset_updater \<times> db) result" where
  "api_close_changeset env u d =
     bindE (lock_current_changeset env False u d) (\<lambda>u1.
     bindE (update_changeset_row ''Cannot close changeset''
              (\<lambda>c. c_id c = cs_changeset u1 \<and> c_user_id c = user_id env)
              (\<lambda>c. c\<lparr>c_closed_at := db_now d\<rparr>) d) (\<lambda>d1.
     Inr (u1, d1)))"

section \<open>Lemmas\<close>

text \<open>The row of a changeset.\<close>

definition cs_row :: "osm_changeset_id_t \<Rightarrow> db \<Rightarrow> changeset_row option" where
  "cs_row i d = find (\<lambda>c. c_id c = i) (changesets d)"

lemma single_filter: "filter P xs = [x] \<Longrightarrow> find P xs = Some x"
  by (induction xs) (auto split: if_splits)

lemma filter_singleD: "filter P xs = [x] \<Longrightarrow> y \<in> set xs \<Longrightarrow> P y \<Longrightarrow> y = x"
  by (metis (mono_tags, lifting) empty_iff empty_set filter_set list.simps(15) mem_Collect_eq set_filter singletonD)

lemma check_user_owns_changeset_Inr:
  assumes "check_user_owns_changeset env u d = Inr ()"
  obtains c where "filter (\<lambda>c. c_id c = cs_changeset u) (changesets d) = [c]" "c_user_id c = user_id env"
  using assms by (auto simp: check_user_owns_changeset_def throw_if_def split: list.splits if_splits)

lemma lock_current_changeset_Inr:
  assumes "lock_current_changeset env chk u d = Inr u1"
  obtains c where "filter (\<lambda>c. c_id c = cs_changeset u) (changesets d) = [c]"
    "c_user_id c = user_id env" "db_now d \<le> c_closed_at c" "env_lock_free env"
    "u1 = u\<lparr>cs_num_changes := u32 (c_num_changes c),
           cs_bbox := (case c_bbox c of None \<Rightarrow> cs_bbox u | Some b \<Rightarrow> b)\<rparr>"
    "chk \<Longrightarrow> u32 (c_num_changes c) < env_max_elements env"
proof -
  from assms obtain closed_at is_closed where
    own: "check_user_owns_changeset env u d = Inr ()" and
    lck: "lock_cs env u d = Inr ((is_closed, closed_at), u1)" and
    open': "\<not> is_closed" and lim: "chk \<Longrightarrow> cs_num_changes u1 < env_max_elements env"
    by (auto simp: lock_current_changeset_def result_simps split: prod.splits)
  from check_user_owns_changeset_Inr [OF own] obtain c where
    c: "filter (\<lambda>c. c_id c = cs_changeset u) (changesets d) = [c]" "c_user_id c = user_id env" .
  have "filter (\<lambda>c. c_id c = cs_changeset u \<and> c_user_id c = user_id env) (changesets d) =
      filter (\<lambda>c. c_user_id c = user_id env) (filter (\<lambda>c. c_id c = cs_changeset u) (changesets d))"
    by (simp add: conj_commute)
  also have "\<dots> = [c]" using c by simp
  finally have f: "filter (\<lambda>c. c_id c = cs_changeset u \<and> c_user_id c = user_id env) (changesets d) = [c]" .
  with lck open' lim c show ?thesis
    by (intro that [of c]) (auto simp: lock_cs_def split: if_splits)
qed

lemma update_changeset_row_Inr:
  "update_changeset_row msg sel f d = Inr d' \<longleftrightarrow>
     length (filter sel (changesets d)) = 1 \<and>
     d' = d\<lparr>changesets := map (\<lambda>c. if sel c then f c else c) (changesets d)\<rparr>"
  by (auto simp: update_changeset_row_def result_simps)

lemma find_map_update:
  assumes "\<And>c. key (f c) = key c"
  shows "find (\<lambda>c. key c = i) (map (\<lambda>c. if key c = i then f c else c) xs) = map_option f (find (\<lambda>c. key c = i) xs)"
  using assms by (induction xs) auto

lemma find_map_other:
  assumes "\<And>c. key (f c) = key c" "j \<noteq> i"
  shows "find (\<lambda>c. key c = j) (map (\<lambda>c. if key c = i then f c else c) xs) = find (\<lambda>c. key c = j) xs"
  using assms by (induction xs) auto

lemma cs_row_update:
  assumes "update_changeset_row msg (\<lambda>c. c_id c = i) f d = Inr d'" "\<And>c. c_id (f c) = c_id c"
  shows "cs_row i d' = map_option f (cs_row i d)" "j \<noteq> i \<Longrightarrow> cs_row j d' = cs_row j d"
  using assms find_map_update [of c_id f i "changesets d"] find_map_other [of c_id f j i "changesets d"]
  by (auto simp: update_changeset_row_Inr cs_row_def)

lemma enhanced_stats_row:
  assumes "changeset_update_enhanced_stats env new u d = Inr d'" "cs_row i d = Some c"
  shows "\<exists>st. cs_row i d' = Some (c\<lparr>c_stats := st\<rparr>)"
proof (cases "env_enhanced_stats env \<and> get_total new > 0")
  case True
  define f where "f = (\<lambda>c :: changeset_row. c\<lparr>c_stats := map2 (+) (c_stats c)
    [num_create (st_node new), num_modify (st_node new), num_delete (st_node new),
     num_create (st_way new), num_modify (st_way new), num_delete (st_way new),
     num_create (st_relation new), num_modify (st_relation new), num_delete (st_relation new)]\<rparr>)"
  have f: "c_id (f c) = c_id c" for c by (simp add: f_def)
  from assms(1) True have u: "update_changeset_row ''Cannot update changeset - changeset_update_enhanced_stats''
      (\<lambda>c. c_id c = cs_changeset u) f d = Inr d'"
    by (simp add: changeset_update_enhanced_stats_def Let_def f_def)
  show ?thesis
  proof (cases "i = cs_changeset u")
    case True
    with cs_row_update(1) [OF u f] assms(2) have "cs_row i d' = Some (f c)" by simp
    then show ?thesis by (auto simp: f_def)
  next
    case False
    with cs_row_update(2) [OF u f] assms(2) have "cs_row i d' = Some (c\<lparr>c_stats := c_stats c\<rparr>)" by simp
    then show ?thesis by blast
  qed
next
  case False
  with assms have "cs_row i d' = Some (c\<lparr>c_stats := c_stats c\<rparr>)"
    by (simp add: changeset_update_enhanced_stats_def)
  then show ?thesis by blast
qed

text \<open>The row of the changeset after a successful update.\<close>

lemma update_changeset_row:
  assumes "update_changeset env new bbox u d = Inr (u', d')" "cs_row (cs_changeset u) d = Some c"
  obtains st where "cs_row (cs_changeset u) d' = Some
    (c\<lparr>c_num_changes := u32 (cs_num_changes u + u32 (get_total new)),
       c_bbox := (if expand (cs_bbox u) bbox \<noteq> default_bbox then Some (expand (cs_bbox u) bbox) else c_bbox c),
       c_closed_at := next_closed_at env (db_now d) c, c_stats := st\<rparr>)"
    "u32 (cs_num_changes u + u32 (get_total new)) \<le> env_max_elements env"
    "u32 (cs_num_changes u + u32 (get_total new)) < 2 ^ 31"
    "cs_bbox u' = expand (cs_bbox u) bbox"
proof -
  let ?t = "u32 (cs_num_changes u + u32 (get_total new))"
  define f where "f = (\<lambda>c :: changeset_row. c\<lparr>c_num_changes := ?t,
     c_bbox := (if expand (cs_bbox u) bbox \<noteq> default_bbox then Some (expand (cs_bbox u) bbox) else c_bbox c),
     c_closed_at := next_closed_at env (db_now d) c\<rparr>)"
  have f: "c_id (f c) = c_id c" for c by (simp add: f_def)
  from assms(1) obtain d1 where lim: "?t \<le> env_max_elements env" "?t < 2 ^ 31" and
    upd: "update_changeset_row ''Cannot update changeset'' (\<lambda>c. c_id c = cs_changeset u) f d = Inr d1" and
    st: "changeset_update_enhanced_stats env new (u\<lparr>cs_num_changes := ?t, cs_bbox := expand (cs_bbox u) bbox\<rparr>) d1 = Inr d'" and
    u': "u' = u\<lparr>cs_num_changes := ?t, cs_bbox := expand (cs_bbox u) bbox\<rparr>"
    by (auto simp: update_changeset_def Let_def result_simps f_def)
  from cs_row_update(1) [OF upd f] assms(2) have "cs_row (cs_changeset u) d1 = Some (f c)" by simp
  from enhanced_stats_row [OF st this] obtain s where
    "cs_row (cs_changeset u) d' = Some ((f c)\<lparr>c_stats := s\<rparr>)" by blast
  with lim u' show ?thesis by (intro that [of s]) (simp_all add: f_def)
qed

text \<open>The life time of a changeset stays within the maximum.\<close>

lemma next_closed_at_bound:
  "now \<le> c_closed_at c \<Longrightarrow> next_closed_at env now c \<le> c_created_at c + env_timeout_open_max env"
  by (auto simp: next_closed_at_def)

lemma filter_map_same: "(\<And>x. P (f x) = P x) \<Longrightarrow> filter P (map f xs) = map f (filter P xs)"
  by (induction xs) auto

text \<open>A changeset closed at the time of the transaction is closed at any later one.\<close>

lemma closed_lock_conflict:
  assumes run: "api_close_changeset env u d = Inr (u', d')" and cs: "changesets d2 = changesets d'" and now: "db_now d < db_now d2"
  shows "\<exists>msg. lock_current_changeset env check_max u d2 = Inl (conflict msg)"
proof -
  from run obtain u1 where lck: "lock_current_changeset env False u d = Inr u1"
    and upd: "update_changeset_row ''Cannot close changeset'' (\<lambda>c. c_id c = cs_changeset u1 \<and> c_user_id c = user_id env)
      (\<lambda>c. c\<lparr>c_closed_at := db_now d\<rparr>) d = Inr d'"
    by (auto simp: api_close_changeset_def result_simps)
  from lock_current_changeset_Inr [OF lck] obtain c where
    f: "filter (\<lambda>c. c_id c = cs_changeset u) (changesets d) = [c]" and own: "c_user_id c = user_id env"
    and u1: "cs_changeset u1 = cs_changeset u"
    by (metis (no_types, lifting) changeset_updater.simps(2) changeset_updater.simps(5) changeset_updater.simps(7)
        changeset_updater.surjective changeset_updater.update_convs(1,3))
  let ?f = "\<lambda>c. if c_id c = cs_changeset u \<and> c_user_id c = user_id env then c\<lparr>c_closed_at := db_now d\<rparr> else c"
  have d': "changesets d' = map ?f (changesets d)" using upd u1 by (auto simp: update_changeset_row_Inr)
  have "filter (\<lambda>c. c_id c = cs_changeset u) (map ?f (changesets d)) = map ?f (filter (\<lambda>c. c_id c = cs_changeset u) (changesets d))"
    by (rule filter_map_same) simp
  also have "\<dots> = [c\<lparr>c_closed_at := db_now d\<rparr>]" using f own filter_eq_ConsD [OF f] by auto
  finally have f2: "filter (\<lambda>c. c_id c = cs_changeset u) (changesets d2) = [c\<lparr>c_closed_at := db_now d\<rparr>]" using cs d' by simp
  have "filter (\<lambda>c. c_id c = cs_changeset u \<and> c_user_id c = user_id env) (changesets d2) =
      filter (\<lambda>c. c_user_id c = user_id env) (filter (\<lambda>c. c_id c = cs_changeset u) (changesets d2))"
    by (simp add: conj_commute)
  with f2 own have "filter (\<lambda>c. c_id c = cs_changeset u \<and> c_user_id c = user_id env) (changesets d2) = [c\<lparr>c_closed_at := db_now d\<rparr>]"
    by simp
  with f2 own now show ?thesis
    by (auto simp: lock_current_changeset_def check_user_owns_changeset_def lock_cs_def closed_message_def)
qed

end
