(* ===== verification/OSMChange_Handler.thy ===== *)
theory OSMChange_Handler
  imports Node_Updater Relation_Updater OSM_Objects Changeset_Updater
begin

text \<open>
  \<^verbatim>\<open>OSMChange_Handler\<close> (\<^verbatim>\<open>src/api06/changeset_upload/osmchange_handler.cpp\<close>): the state machine
  that turns the elements of an osmChange message into requests to the three updaters, and
  flushes the pending requests whenever the kind of request changes.
\<close>

section \<open>State\<close>

datatype state =
    st_initial
  | st_create_node
  | st_create_way
  | st_create_relation
  | st_modify
  | st_delete_node
  | st_delete_way
  | st_delete_relation
  | st_finished

record handler =
  h_state :: state
  h_changeset :: osm_changeset_id_t
  h_db :: db
  h_ct :: OSMChange_Tracking
  h_nodes :: node_updater
  h_ways :: way_updater
  h_relations :: relation_updater

definition init_handler :: "osm_changeset_id_t \<Rightarrow> db \<Rightarrow> handler" where
  "init_handler cs d = \<lparr>h_state = st_initial, h_changeset = cs, h_db = d, h_ct = empty_tracking,
     h_nodes = init_node_updater, h_ways = init_way_updater, h_relations = init_relation_updater\<rparr>"

text \<open>A processing step or a request of one updater, run on the shared database and tracking.\<close>

definition with_nodes ::
    "(db \<times> OSMChange_Tracking \<times> node_updater \<Rightarrow> (db \<times> OSMChange_Tracking \<times> node_updater) result) \<Rightarrow>
       handler \<Rightarrow> handler result" where
  "with_nodes p h = bindE (p (h_db h, h_ct h, h_nodes h))
     (\<lambda>(d, ct, u). Inr (h\<lparr>h_db := d, h_ct := ct, h_nodes := u\<rparr>))"

definition with_ways ::
    "(db \<times> OSMChange_Tracking \<times> way_updater \<Rightarrow> (db \<times> OSMChange_Tracking \<times> way_updater) result) \<Rightarrow>
       handler \<Rightarrow> handler result" where
  "with_ways p h = bindE (p (h_db h, h_ct h, h_ways h))
     (\<lambda>(d, ct, u). Inr (h\<lparr>h_db := d, h_ct := ct, h_ways := u\<rparr>))"

definition with_relations ::
    "(db \<times> OSMChange_Tracking \<times> relation_updater \<Rightarrow> (db \<times> OSMChange_Tracking \<times> relation_updater) result) \<Rightarrow>
       handler \<Rightarrow> handler result" where
  "with_relations p h = bindE (p (h_db h, h_ct h, h_relations h))
     (\<lambda>(d, ct, u). Inr (h\<lparr>h_db := d, h_ct := ct, h_relations := u\<rparr>))"

text \<open>A request leaves the database alone.\<close>

definition request ::
    "(OSMChange_Tracking \<times> 'u \<Rightarrow> (OSMChange_Tracking \<times> 'u) result) \<Rightarrow>
       db \<times> OSMChange_Tracking \<times> 'u \<Rightarrow> (db \<times> OSMChange_Tracking \<times> 'u) result" where
  "request r = (\<lambda>(d, ct, u). bindE (r (ct, u)) (\<lambda>(ct', u'). Inr (d, ct', u')))"

section \<open>Transitions\<close>

definition process_buffers :: "handler \<Rightarrow> handler result" where
  "process_buffers h =
     (case h_state h of
        st_initial \<Rightarrow> Inr h
      | st_create_node \<Rightarrow> with_nodes process_new_nodes h
      | st_create_way \<Rightarrow> with_ways process_new_ways h
      | st_create_relation \<Rightarrow> with_relations process_new_relations h
      | st_modify \<Rightarrow>
          bindE (with_nodes process_modify_nodes h) (\<lambda>h1.
          bindE (with_ways process_modify_ways h1) (\<lambda>h2.
          with_relations process_modify_relations h2))
      | st_delete_node \<Rightarrow> with_nodes process_delete_nodes h
      | st_delete_way \<Rightarrow> with_ways process_delete_ways h
      | st_delete_relation \<Rightarrow> with_relations process_delete_relations h
      | st_finished \<Rightarrow> Inr h)"

definition handle_new_state :: "state \<Rightarrow> handler \<Rightarrow> handler result" where
  "handle_new_state new_state h =
     (if new_state = h_state h then Inr h
      else bindE (process_buffers h) (\<lambda>h1. Inr (h1\<lparr>h_state := new_state\<rparr>)))"

section \<open>Elements of the message\<close>

definition check_osm_object :: "'a OSMObject_scheme \<Rightarrow> handler \<Rightarrow> unit result" where
  "check_osm_object ob h =
     bindE (deref (o_changeset ob)) (\<lambda>cs.
     throw_if (cs \<noteq> h_changeset h)
       (conflict (''Changeset mismatch: Provided '' @ fmt_d cs @ '' but only '' @
                  fmt_d (h_changeset h) @ '' is allowed'')))"

text \<open>The id of a modified or deleted element is passed as an unsigned 64-bit integer.\<close>

definition process_node :: "Node \<Rightarrow> operation \<Rightarrow> bool \<Rightarrow> handler \<Rightarrow> handler result" where
  "process_node n op if_unused h =
     bindE (throw_if (op = op_undefined) (assertion_failed ''op != operation::op_undefined'')) (\<lambda>_.
     bindE (check_osm_object n h) (\<lambda>_.
     case op of
       op_create \<Rightarrow>
         bindE (handle_new_state st_create_node h) (\<lambda>h1.
         bindE (deref (o_lat n)) (\<lambda>lat. bindE (deref (o_lon n)) (\<lambda>lon. bindE (deref (o_id n)) (\<lambda>i.
         with_nodes (request (add_node lat lon (h_changeset h) i (o_tags n))) h1))))
     | op_modify \<Rightarrow>
         bindE (handle_new_state st_modify h) (\<lambda>h1.
         bindE (deref (o_lat n)) (\<lambda>lat. bindE (deref (o_lon n)) (\<lambda>lon. bindE (deref (o_id n)) (\<lambda>i.
         bindE (deref (o_version n)) (\<lambda>v.
         with_nodes (request (modify_node lat lon (h_changeset h) (u64 i) v (o_tags n))) h1)))))
     | op_delete \<Rightarrow>
         bindE (handle_new_state st_delete_node h) (\<lambda>h1.
         bindE (deref (o_id n)) (\<lambda>i. bindE (deref (o_version n)) (\<lambda>v.
         with_nodes (request (delete_node (h_changeset h) (u64 i) v if_unused)) h1)))
     | op_undefined \<Rightarrow> Inr h))"

definition process_way :: "limits \<Rightarrow> Way \<Rightarrow> operation \<Rightarrow> bool \<Rightarrow> handler \<Rightarrow> handler result" where
  "process_way lm w op if_unused h =
     bindE (throw_if (op = op_undefined) (assertion_failed ''op != operation::op_undefined'')) (\<lambda>_.
     bindE (check_osm_object w h) (\<lambda>_.
     case op of
       op_create \<Rightarrow>
         bindE (handle_new_state st_create_way h) (\<lambda>h1.
         bindE (deref (o_id w)) (\<lambda>i.
         with_ways (request (add_way (way_max_nodes lm) (h_changeset h) i (o_way_nodes w) (o_tags w))) h1))
     | op_modify \<Rightarrow>
         bindE (handle_new_state st_modify h) (\<lambda>h1.
         bindE (deref (o_id w)) (\<lambda>i. bindE (deref (o_version w)) (\<lambda>v.
         with_ways (request (modify_way (way_max_nodes lm) (h_changeset h) (u64 i) v
           (o_way_nodes w) (o_tags w))) h1)))
     | op_delete \<Rightarrow>
         bindE (handle_new_state st_delete_way h) (\<lambda>h1.
         bindE (deref (o_id w)) (\<lambda>i. bindE (deref (o_version w)) (\<lambda>v.
         with_ways (request (delete_way (h_changeset h) (u64 i) v if_unused)) h1)))
     | op_undefined \<Rightarrow> Inr h))"

text \<open>The members as the relation updater reads them: \<^verbatim>\<open>type()\<close>, \<^verbatim>\<open>ref()\<close>, \<^verbatim>\<open>role()\<close>.\<close>

definition read_member :: "RelationMember \<Rightarrow> member_in result" where
  "read_member m = bindE (deref (rm_type m)) (\<lambda>ty. bindE (deref (rm_ref m)) (\<lambda>ref. Inr (ty, ref, rm_role m)))"

definition process_relation :: "Relation \<Rightarrow> operation \<Rightarrow> bool \<Rightarrow> handler \<Rightarrow> handler result" where
  "process_relation r op if_unused h =
     bindE (throw_if (op = op_undefined) (assertion_failed ''op != operation::op_undefined'')) (\<lambda>_.
     bindE (check_osm_object r h) (\<lambda>_.
     case op of
       op_create \<Rightarrow>
         bindE (handle_new_state st_create_relation h) (\<lambda>h1.
         bindE (deref (o_id r)) (\<lambda>i. bindE (mapE read_member (o_members r)) (\<lambda>ms.
         with_relations (request (add_relation (h_changeset h) i ms (o_tags r))) h1)))
     | op_modify \<Rightarrow>
         bindE (handle_new_state st_modify h) (\<lambda>h1.
         bindE (deref (o_id r)) (\<lambda>i. bindE (deref (o_version r)) (\<lambda>v. bindE (mapE read_member (o_members r)) (\<lambda>ms.
         with_relations (request (modify_relation (h_changeset h) (u64 i) v ms (o_tags r))) h1))))
     | op_delete \<Rightarrow>
         bindE (handle_new_state st_delete_relation h) (\<lambda>h1.
         bindE (deref (o_id r)) (\<lambda>i. bindE (deref (o_version r)) (\<lambda>v.
         with_relations (request (delete_relation (h_changeset h) (u64 i) v if_unused)) h1)))
     | op_undefined \<Rightarrow> Inr h))"

definition finish_processing :: "handler \<Rightarrow> handler result" where
  "finish_processing h = handle_new_state st_finished h"

section \<open>A whole message\<close>

text \<open>The calls the parser makes, one per element, between start and end of the document.\<close>

datatype change =
    change_node Node operation bool
  | change_way Way operation bool
  | change_relation Relation operation bool

fun process_change :: "limits \<Rightarrow> change \<Rightarrow> handler \<Rightarrow> handler result" where
  "process_change lm (change_node n op unused) h = process_node n op unused h"
| "process_change lm (change_way w op unused) h = process_way lm w op unused h"
| "process_change lm (change_relation r op unused) h = process_relation r op unused h"

definition process_document :: "limits \<Rightarrow> change list \<Rightarrow> handler \<Rightarrow> handler result" where
  "process_document lm cs h = bindE (foldE (process_change lm) cs h) finish_processing"

section \<open>Results\<close>

definition node_stats :: "OSMChange_Tracking \<Rightarrow> element_stats" where
  "node_stats ct = \<lparr>num_create = int (length (created_node_ids ct)),
     num_modify = int (length (modified_node_ids ct)), num_delete = int (length (deleted_node_ids ct))\<rparr>"

definition way_stats :: "OSMChange_Tracking \<Rightarrow> element_stats" where
  "way_stats ct = \<lparr>num_create = int (length (created_way_ids ct)),
     num_modify = int (length (modified_way_ids ct)), num_delete = int (length (deleted_way_ids ct))\<rparr>"

definition relation_stats :: "OSMChange_Tracking \<Rightarrow> element_stats" where
  "relation_stats ct = \<lparr>num_create = int (length (created_relation_ids ct)),
     num_modify = int (length (modified_relation_ids ct)), num_delete = int (length (deleted_relation_ids ct))\<rparr>"

definition get_stats :: "handler \<Rightarrow> changeset_upload_stats" where
  "get_stats h = \<lparr>st_node = node_stats (h_ct h), st_way = way_stats (h_ct h),
                  st_relation = relation_stats (h_ct h)\<rparr>"

definition get_bbox :: "handler \<Rightarrow> bbox_t" where
  "get_bbox h = expand (expand (expand default_bbox (nu_bbox (h_nodes h))) (wu_bbox (h_ways h)))
                  (ru_bbox (h_relations h))"

end
