(* ===== verification/Handler_Correct.thy ===== *)
theory Handler_Correct
  imports Node_Correct Way_Correct Relation_Correct OSMChange_Handler
begin

text \<open>
  The \<^verbatim>\<open>OSMChange_Handler\<close> as a client of the three updaters: requests wait only in the
  vectors that belong to the current state, every transition flushes them, and what the
  message asked for is either accounted for or still waiting. All of it is proved from the
  interpretations of the updater interface.
\<close>

section \<open>Requests wait where the state says\<close>

definition buffers_ok :: "handler \<Rightarrow> bool" where
  "buffers_ok h \<longleftrightarrow>
     (create_nodes (h_nodes h) \<noteq> [] \<longrightarrow> h_state h = st_create_node) \<and>
     (create_ways (h_ways h) \<noteq> [] \<longrightarrow> h_state h = st_create_way) \<and>
     (create_relations (h_relations h) \<noteq> [] \<longrightarrow> h_state h = st_create_relation) \<and>
     (modify_nodes (h_nodes h) \<noteq> [] \<longrightarrow> h_state h = st_modify) \<and>
     (modify_ways (h_ways h) \<noteq> [] \<longrightarrow> h_state h = st_modify) \<and>
     (modify_relations (h_relations h) \<noteq> [] \<longrightarrow> h_state h = st_modify) \<and>
     (delete_nodes (h_nodes h) \<noteq> [] \<longrightarrow> h_state h = st_delete_node) \<and>
     (delete_ways (h_ways h) \<noteq> [] \<longrightarrow> h_state h = st_delete_way) \<and>
     (delete_relations (h_relations h) \<noteq> [] \<longrightarrow> h_state h = st_delete_relation)"

definition no_buffers :: "handler \<Rightarrow> bool" where
  "no_buffers h \<longleftrightarrow>
     create_nodes (h_nodes h) = [] \<and> modify_nodes (h_nodes h) = [] \<and> delete_nodes (h_nodes h) = [] \<and>
     create_ways (h_ways h) = [] \<and> modify_ways (h_ways h) = [] \<and> delete_ways (h_ways h) = [] \<and>
     create_relations (h_relations h) = [] \<and> modify_relations (h_relations h) = [] \<and>
     delete_relations (h_relations h) = []"

lemma with_nodes_Inr:
  "with_nodes p h = Inr h' \<longleftrightarrow> (\<exists>d ct u. p (h_db h, h_ct h, h_nodes h) = Inr (d, ct, u) \<and>
     h' = h\<lparr>h_db := d, h_ct := ct, h_nodes := u\<rparr>)"
  by (auto simp: with_nodes_def result_simps split: prod.splits)

lemma with_ways_Inr:
  "with_ways p h = Inr h' \<longleftrightarrow> (\<exists>d ct u. p (h_db h, h_ct h, h_ways h) = Inr (d, ct, u) \<and>
     h' = h\<lparr>h_db := d, h_ct := ct, h_ways := u\<rparr>)"
  by (auto simp: with_ways_def result_simps split: prod.splits)

lemma with_relations_Inr:
  "with_relations p h = Inr h' \<longleftrightarrow> (\<exists>d ct u. p (h_db h, h_ct h, h_relations h) = Inr (d, ct, u) \<and>
     h' = h\<lparr>h_db := d, h_ct := ct, h_relations := u\<rparr>)"
  by (auto simp: with_relations_def result_simps split: prod.splits)

lemmas with_Inr = with_nodes_Inr with_ways_Inr with_relations_Inr

lemma request_Inr:
  "request r (d, ct, u) = Inr (d', ct', u') \<longleftrightarrow> r (ct, u) = Inr (ct', u') \<and> d' = d"
  by (auto simp: request_def result_simps split: prod.splits)

lemmas updater_buffers =
  node_upd.new_buffers node_upd.modify_buffers node_upd.delete_buffers
  way_upd.new_buffers way_upd.modify_buffers way_upd.delete_buffers
  relation_upd.new_buffers relation_upd.modify_buffers relation_upd.delete_buffers

lemma process_buffers_flushes:
  assumes "process_buffers h = Inr h'" "buffers_ok h"
  shows "no_buffers h' \<and> h_state h' = h_state h \<and> h_changeset h' = h_changeset h"
  using assms
  by (cases "h_state h")
    (auto simp: process_buffers_def with_Inr bindE_Inr_iff buffers_ok_def no_buffers_def dest: updater_buffers)

lemma no_buffers_ok: "no_buffers h \<Longrightarrow> buffers_ok (h\<lparr>h_state := s\<rparr>)"
  by (simp add: no_buffers_def buffers_ok_def)

lemma handle_new_state_buffers:
  assumes "handle_new_state s h = Inr h'" "buffers_ok h"
  shows "buffers_ok h' \<and> h_state h' = s \<and> h_changeset h' = h_changeset h \<and> (s \<noteq> h_state h \<longrightarrow> no_buffers h')"
proof (cases "s = h_state h")
  case True
  with assms show ?thesis by (simp add: handle_new_state_def)
next
  case False
  with assms(1) obtain h1 where h1: "process_buffers h = Inr h1" "h' = h1\<lparr>h_state := s\<rparr>"
    by (auto simp: handle_new_state_def bindE_Inr_iff)
  from process_buffers_flushes [OF h1(1) assms(2)] h1(2) no_buffers_ok [of h1 s] show ?thesis
    by (auto simp: no_buffers_def)
qed


section \<open>Nothing of the message is lost\<close>

text \<open>
  \<open>unused\<close> is the if-unused flag the deletions of relations in this message share.
\<close>

definition pending_requests :: "handler \<Rightarrow> osmchange_t set" where
  "pending_requests h = node_upd.pending (h_nodes h) \<union> way_upd.pending (h_ways h) \<union>
     relation_upd.pending (h_relations h)"

definition handler_ok :: "(object_type \<Rightarrow> int) \<Rightarrow> bool \<Rightarrow> handler \<Rightarrow> bool" where
  "handler_ok s0 unused h \<longleftrightarrow>
     upload_inv s0 (h_db h) (h_ct h) \<and> node_upd.wf_pending s0 (h_nodes h) \<and>
     way_upd.wf_pending s0 (h_ways h) \<and> relation_upd.wf_pending s0 (h_relations h) \<and>
     (\<forall>e\<in>set (delete_relations (h_relations h)). e_if_unused e = unused) \<and>
     (\<forall>item\<in>set (osmchange_orig_sequence (h_ct h)).
        accounted (h_ct h) item \<or> item \<in> pending_requests h)"

text \<open>The invariant as each updater sees it.\<close>

definition others :: "object_type \<Rightarrow> handler \<Rightarrow> osmchange_t set" where
  "others t h =
     (if t = ot_node then {} else node_upd.pending (h_nodes h)) \<union>
     (if t = ot_way then {} else way_upd.pending (h_ways h)) \<union>
     (if t = ot_relation then {} else relation_upd.pending (h_relations h))"

lemma handler_ok_nodes:
  "handler_ok s0 unused (h\<lparr>h_db := d, h_ct := ct, h_nodes := u\<rparr>) \<longleftrightarrow>
     node_upd.step_ok s0 (others ot_node h) (d, ct, u) \<and> way_upd.wf_pending s0 (h_ways h) \<and>
     relation_upd.wf_pending s0 (h_relations h) \<and>
     (\<forall>e\<in>set (delete_relations (h_relations h)). e_if_unused e = unused)"
  by (auto simp: handler_ok_def node_upd.step_ok_def node_upd.covered_def others_def pending_requests_def)

lemma handler_ok_ways:
  "handler_ok s0 unused (h\<lparr>h_db := d, h_ct := ct, h_ways := u\<rparr>) \<longleftrightarrow>
     way_upd.step_ok s0 (others ot_way h) (d, ct, u) \<and> node_upd.wf_pending s0 (h_nodes h) \<and>
     relation_upd.wf_pending s0 (h_relations h) \<and>
     (\<forall>e\<in>set (delete_relations (h_relations h)). e_if_unused e = unused)"
  by (auto simp: handler_ok_def way_upd.step_ok_def way_upd.covered_def others_def pending_requests_def)

lemma handler_ok_relations:
  "handler_ok s0 unused (h\<lparr>h_db := d, h_ct := ct, h_relations := u\<rparr>) \<longleftrightarrow>
     relation_upd.step_ok s0 (others ot_relation h) (d, ct, u) \<and> node_upd.wf_pending s0 (h_nodes h) \<and>
     way_upd.wf_pending s0 (h_ways h) \<and>
     (\<forall>e\<in>set (delete_relations u). e_if_unused e = unused)"
  by (auto simp: handler_ok_def relation_upd.step_ok_def relation_upd.covered_def others_def pending_requests_def)

lemma with_nodes_ok:
  assumes "with_nodes p h = Inr h'" "handler_ok s0 unused h"
    and "\<And>d ct u d' ct' u'. p (d, ct, u) = Inr (d', ct', u') \<Longrightarrow> node_upd.step_ok s0 (others ot_node h) (d, ct, u) \<Longrightarrow>
           node_upd.step_ok s0 (others ot_node h) (d', ct', u')"
  shows "handler_ok s0 unused h'"
proof -
  from assms(1) obtain d ct u where p: "p (h_db h, h_ct h, h_nodes h) = Inr (d, ct, u)"
    and h': "h' = h\<lparr>h_db := d, h_ct := ct, h_nodes := u\<rparr>" by (auto simp: with_Inr)
  from assms(2) have "handler_ok s0 unused (h\<lparr>h_db := h_db h, h_ct := h_ct h, h_nodes := h_nodes h\<rparr>)"
    by simp
  with assms(3) [OF p] show ?thesis unfolding h' handler_ok_nodes by blast
qed

lemma with_ways_ok:
  assumes "with_ways p h = Inr h'" "handler_ok s0 unused h"
    and "\<And>d ct u d' ct' u'. p (d, ct, u) = Inr (d', ct', u') \<Longrightarrow> way_upd.step_ok s0 (others ot_way h) (d, ct, u) \<Longrightarrow>
           way_upd.step_ok s0 (others ot_way h) (d', ct', u')"
  shows "handler_ok s0 unused h'"
proof -
  from assms(1) obtain d ct u where p: "p (h_db h, h_ct h, h_ways h) = Inr (d, ct, u)"
    and h': "h' = h\<lparr>h_db := d, h_ct := ct, h_ways := u\<rparr>" by (auto simp: with_Inr)
  from assms(2) have "handler_ok s0 unused (h\<lparr>h_db := h_db h, h_ct := h_ct h, h_ways := h_ways h\<rparr>)"
    by simp
  with assms(3) [OF p] show ?thesis unfolding h' handler_ok_ways by blast
qed

lemma with_relations_ok:
  assumes "with_relations p h = Inr h'" "handler_ok s0 unused h"
    and "\<And>d ct u d' ct' u'. p (d, ct, u) = Inr (d', ct', u') \<Longrightarrow>
           relation_upd.step_ok s0 (others ot_relation h) (d, ct, u) \<Longrightarrow>
           (\<forall>e\<in>set (delete_relations u). e_if_unused e = unused) \<Longrightarrow>
           relation_upd.step_ok s0 (others ot_relation h) (d', ct', u') \<and>
           (\<forall>e\<in>set (delete_relations u'). e_if_unused e = unused)"
  shows "handler_ok s0 unused h'"
proof -
  from assms(1) obtain d ct u where p: "p (h_db h, h_ct h, h_relations h) = Inr (d, ct, u)"
    and h': "h' = h\<lparr>h_db := d, h_ct := ct, h_relations := u\<rparr>" by (auto simp: with_Inr)
  from assms(2) have "handler_ok s0 unused (h\<lparr>h_db := h_db h, h_ct := h_ct h, h_relations := h_relations h\<rparr>)"
    by simp
  with assms(3) [OF p] show ?thesis unfolding h' handler_ok_relations by blast
qed

lemma process_buffers_ok:
  assumes "process_buffers h = Inr h'" "handler_ok s0 unused h"
  shows "handler_ok s0 unused h'"
proof -
  have nodes: "handler_ok s0 unused h2"
    if "with_nodes p h1 = Inr h2" "p = process_new_nodes \<or> p = process_modify_nodes \<or> p = process_delete_nodes"
       "handler_ok s0 unused h1" for p h1 h2
    by (rule with_nodes_ok [OF that(1,3)])
      (use that(2) in \<open>metis node_upd.new_step node_upd.modify_step node_upd.delete_step\<close>)
  have ways: "handler_ok s0 unused h2"
    if "with_ways p h1 = Inr h2" "p = process_new_ways \<or> p = process_modify_ways \<or> p = process_delete_ways"
       "handler_ok s0 unused h1" for p h1 h2
    by (rule with_ways_ok [OF that(1,3)])
      (use that(2) in \<open>metis way_upd.new_step way_upd.modify_step way_upd.delete_step\<close>)
  have relations: "handler_ok s0 unused h2"
    if "with_relations p h1 = Inr h2"
       "p = process_new_relations \<or> p = process_modify_relations \<or> p = process_delete_relations"
       "handler_ok s0 unused h1" for p h1 h2
  proof (rule with_relations_ok [OF that(1,3)], rule conjI)
    fix d ct u d' ct' u'
    assume run: "p (d, ct, u) = Inr (d', ct', u')"
      and ok: "relation_upd.step_ok s0 (others ot_relation h1) (d, ct, u)"
      and flags: "\<forall>e\<in>set (delete_relations u). e_if_unused e = unused"
    from run ok that(2) show "relation_upd.step_ok s0 (others ot_relation h1) (d', ct', u')"
      by (metis relation_upd.new_step relation_upd.modify_step relation_upd.delete_step)
    from run that(2) have "delete_relations u' = delete_relations u \<or> delete_relations u' = []"
      by (metis relation_upd.new_buffers relation_upd.modify_buffers relation_upd.delete_buffers)
    with flags show "\<forall>e\<in>set (delete_relations u'). e_if_unused e = unused" by auto
  qed
  show ?thesis
  proof (cases "h_state h = st_modify")
    case True
    with assms(1) obtain h1 h2 where "with_nodes process_modify_nodes h = Inr h1"
      "with_ways process_modify_ways h1 = Inr h2" "with_relations process_modify_relations h2 = Inr h'"
      by (auto simp: process_buffers_def bindE_Inr_iff)
    with assms(2) nodes ways relations show ?thesis by metis
  next
    case False
    with assms show ?thesis unfolding process_buffers_def
      by (cases "h_state h") (auto intro: nodes ways relations)
  qed
qed

lemma handle_new_state_ok:
  assumes "handle_new_state s h = Inr h'" "handler_ok s0 unused h"
  shows "handler_ok s0 unused h'"
proof (cases "s = h_state h")
  case True
  with assms show ?thesis by (simp add: handle_new_state_def)
next
  case False
  with assms(1) obtain h1 where h1: "process_buffers h = Inr h1" "h' = h1\<lparr>h_state := s\<rparr>"
    by (auto simp: handle_new_state_def bindE_Inr_iff)
  from process_buffers_ok [OF h1(1) assms(2)] show ?thesis
    by (simp add: h1(2) handler_ok_def pending_requests_def)
qed


section \<open>Requests\<close>

text \<open>
  What the message may name: a changed element is given by a placeholder or by an id the
  sequence had reached before the upload; deletions of relations carry the same flag. The ids
  of the message are what \<^verbatim>\<open>set_id\<close> stores, signed 64-bit integers.
\<close>

definition names_ok :: "int \<Rightarrow> operation \<Rightarrow> 'a OSMObject_scheme \<Rightarrow> bool" where
  "names_ok s op ob \<longleftrightarrow> (case o_id ob of None \<Rightarrow> True
     | Some i \<Rightarrow> is_s64 i \<and> (op = op_modify \<or> op = op_delete \<longrightarrow> i \<le> s))"

fun change_ok :: "(object_type \<Rightarrow> int) \<Rightarrow> bool \<Rightarrow> change \<Rightarrow> bool" where
  "change_ok s0 unused (change_node n op flag) \<longleftrightarrow> names_ok (s0 ot_node) op n"
| "change_ok s0 unused (change_way w op flag) \<longleftrightarrow> names_ok (s0 ot_way) op w"
| "change_ok s0 unused (change_relation r op flag) \<longleftrightarrow> names_ok (s0 ot_relation) op r \<and>
     (op = op_delete \<longrightarrow> flag = unused)"

lemma names_ok_named:
  "names_ok s op ob \<Longrightarrow> o_id ob = Some i \<Longrightarrow> op = op_modify \<or> op = op_delete \<Longrightarrow>
     e_id e = u64 i \<Longrightarrow> e_old_id e = s64 (u64 i) \<Longrightarrow> named_ok s e"
  by (auto simp: names_ok_def named_ok_def s64_u64 is_s64_def is_u64_def intro!: u64_id)


lemma node_requests:
  assumes ok: "node_upd.step_ok s0 elsewhere (d, ct, u)"
  shows "add_node lat lon cs i tags (ct, u) = Inr (ct', u') \<Longrightarrow> node_upd.step_ok s0 elsewhere (d, ct', u')"
    and "modify_node lat lon cs (u64 i) v tags (ct, u) = Inr (ct', u') \<Longrightarrow> names_ok (s0 ot_node) op_modify ob \<Longrightarrow>
           o_id ob = Some i \<Longrightarrow> node_upd.step_ok s0 elsewhere (d, ct', u')"
    and "delete_node cs (u64 i) v flag (ct, u) = Inr (ct', u') \<Longrightarrow> names_ok (s0 ot_node) op_delete ob \<Longrightarrow>
           o_id ob = Some i \<Longrightarrow> node_upd.step_ok s0 elsewhere (d, ct', u')"
proof -
  from ok have wf: "node_upd.wf_pending s0 u" by (simp add: node_upd.step_ok_def)
  show "node_upd.step_ok s0 elsewhere (d, ct', u')" if "add_node lat lon cs i tags (ct, u) = Inr (ct', u')"
    using that wf unfolding add_node_def
    by (auto simp: Let_def result_simps node_upd.wf_pending_def node_upd.pending_def creates_ok_def
        split: if_splits intro!: node_upd.request_step [OF ok])
  show "node_upd.step_ok s0 elsewhere (d, ct', u')"
    if "modify_node lat lon cs (u64 i) v tags (ct, u) = Inr (ct', u')" "names_ok (s0 ot_node) op_modify ob" "o_id ob = Some i"
    using that(1) wf unfolding modify_node_def
    by (auto simp: Let_def result_simps node_upd.wf_pending_def node_upd.pending_def
        intro!: node_upd.request_step [OF ok] names_ok_named [OF that(2,3)])
  show "node_upd.step_ok s0 elsewhere (d, ct', u')"
    if "delete_node cs (u64 i) v flag (ct, u) = Inr (ct', u')" "names_ok (s0 ot_node) op_delete ob" "o_id ob = Some i"
    using that(1) wf unfolding delete_node_def
    by (auto simp: Let_def result_simps node_upd.wf_pending_def node_upd.pending_def
        intro!: node_upd.request_step [OF ok] names_ok_named [OF that(2,3)])
qed

lemma way_requests:
  assumes ok: "way_upd.step_ok s0 elsewhere (d, ct, u)"
  shows "add_way mx cs i refs tags (ct, u) = Inr (ct', u') \<Longrightarrow> way_upd.step_ok s0 elsewhere (d, ct', u')"
    and "modify_way mx cs (u64 i) v refs tags (ct, u) = Inr (ct', u') \<Longrightarrow> names_ok (s0 ot_way) op_modify ob \<Longrightarrow>
           o_id ob = Some i \<Longrightarrow> way_upd.step_ok s0 elsewhere (d, ct', u')"
    and "delete_way cs (u64 i) v flag (ct, u) = Inr (ct', u') \<Longrightarrow> names_ok (s0 ot_way) op_delete ob \<Longrightarrow>
           o_id ob = Some i \<Longrightarrow> way_upd.step_ok s0 elsewhere (d, ct', u')"
proof -
  from ok have wf: "way_upd.wf_pending s0 u" by (simp add: way_upd.step_ok_def)
  show "way_upd.step_ok s0 elsewhere (d, ct', u')" if "add_way mx cs i refs tags (ct, u) = Inr (ct', u')"
    using that wf unfolding add_way_def
    by (auto simp: Let_def result_simps way_upd.wf_pending_def way_upd.pending_def creates_ok_def
        split: if_splits intro!: way_upd.request_step [OF ok])
  show "way_upd.step_ok s0 elsewhere (d, ct', u')"
    if "modify_way mx cs (u64 i) v refs tags (ct, u) = Inr (ct', u')" "names_ok (s0 ot_way) op_modify ob" "o_id ob = Some i"
    using that(1) wf unfolding modify_way_def
    by (auto simp: Let_def result_simps way_upd.wf_pending_def way_upd.pending_def
        intro!: way_upd.request_step [OF ok] names_ok_named [OF that(2,3)])
  show "way_upd.step_ok s0 elsewhere (d, ct', u')"
    if "delete_way cs (u64 i) v flag (ct, u) = Inr (ct', u')" "names_ok (s0 ot_way) op_delete ob" "o_id ob = Some i"
    using that(1) wf unfolding delete_way_def
    by (auto simp: Let_def result_simps way_upd.wf_pending_def way_upd.pending_def
        intro!: way_upd.request_step [OF ok] names_ok_named [OF that(2,3)])
qed

lemma relation_requests:
  assumes ok: "relation_upd.step_ok s0 elsewhere (d, ct, u)"
  shows "add_relation cs i ms tags (ct, u) = Inr (ct', u') \<Longrightarrow> relation_upd.step_ok s0 elsewhere (d, ct', u')"
    and "modify_relation cs (u64 i) v ms tags (ct, u) = Inr (ct', u') \<Longrightarrow> names_ok (s0 ot_relation) op_modify ob \<Longrightarrow>
           o_id ob = Some i \<Longrightarrow> relation_upd.step_ok s0 elsewhere (d, ct', u')"
    and "delete_relation cs (u64 i) v flag (ct, u) = Inr (ct', u') \<Longrightarrow> names_ok (s0 ot_relation) op_delete ob \<Longrightarrow>
           o_id ob = Some i \<Longrightarrow> \<forall>e\<in>set (delete_relations u). e_if_unused e = flag \<Longrightarrow> relation_upd.step_ok s0 elsewhere (d, ct', u')"
proof -
  from ok have wf: "relation_upd.wf_pending s0 u" by (simp add: relation_upd.step_ok_def)
  show "relation_upd.step_ok s0 elsewhere (d, ct', u')" if "add_relation cs i ms tags (ct, u) = Inr (ct', u')"
    using that wf unfolding add_relation_def
    by (auto simp: Let_def result_simps relation_upd.wf_pending_def relation_upd.pending_def creates_ok_def
        split: if_splits intro!: relation_upd.request_step [OF ok])
  show "relation_upd.step_ok s0 elsewhere (d, ct', u')"
    if "modify_relation cs (u64 i) v ms tags (ct, u) = Inr (ct', u')" "names_ok (s0 ot_relation) op_modify ob" "o_id ob = Some i"
    using that(1) wf unfolding modify_relation_def
    by (auto simp: Let_def result_simps relation_upd.wf_pending_def relation_upd.pending_def
        intro!: relation_upd.request_step [OF ok] names_ok_named [OF that(2,3)])
  show "relation_upd.step_ok s0 elsewhere (d, ct', u')"
    if "delete_relation cs (u64 i) v flag (ct, u) = Inr (ct', u')" "names_ok (s0 ot_relation) op_delete ob" "o_id ob = Some i" "\<forall>e\<in>set (delete_relations u). e_if_unused e = flag"
    using that(1) that(4) wf unfolding delete_relation_def
    by (auto simp: Let_def result_simps relation_upd.wf_pending_def relation_upd.pending_def uniform_flags_def
        intro!: relation_upd.request_step [OF ok] names_ok_named [OF that(2,3)])
qed


text \<open>A request waits in the vector of the state it was made in.\<close>

lemma request_buffers:
  assumes "buffers_ok h"
  shows "h_state h = st_create_node \<Longrightarrow> with_nodes (request (add_node lat lon cs i tags)) h = Inr h' \<Longrightarrow> buffers_ok h'"
    and "h_state h = st_modify \<Longrightarrow> with_nodes (request (modify_node lat lon cs j v tags)) h = Inr h' \<Longrightarrow> buffers_ok h'"
    and "h_state h = st_delete_node \<Longrightarrow> with_nodes (request (delete_node cs j v flag)) h = Inr h' \<Longrightarrow> buffers_ok h'"
    and "h_state h = st_create_way \<Longrightarrow> with_ways (request (add_way mx cs i refs tags)) h = Inr h' \<Longrightarrow> buffers_ok h'"
    and "h_state h = st_modify \<Longrightarrow> with_ways (request (modify_way mx cs j v refs tags)) h = Inr h' \<Longrightarrow> buffers_ok h'"
    and "h_state h = st_delete_way \<Longrightarrow> with_ways (request (delete_way cs j v flag)) h = Inr h' \<Longrightarrow> buffers_ok h'"
    and "h_state h = st_create_relation \<Longrightarrow> with_relations (request (add_relation cs i ms tags)) h = Inr h' \<Longrightarrow> buffers_ok h'"
    and "h_state h = st_modify \<Longrightarrow> with_relations (request (modify_relation cs j v ms tags)) h = Inr h' \<Longrightarrow> buffers_ok h'"
    and "h_state h = st_delete_relation \<Longrightarrow> with_relations (request (delete_relation cs j v flag)) h = Inr h' \<Longrightarrow> buffers_ok h'"
  using assms
  by (auto simp: with_Inr request_Inr buffers_ok_def add_node_def modify_node_def delete_node_def
      add_way_def modify_way_def delete_way_def add_relation_def modify_relation_def delete_relation_def
      Let_def result_simps split: if_splits)

lemma request_state:
  "with_nodes (request r) h = Inr h' \<Longrightarrow> h_state h' = h_state h \<and> h_changeset h' = h_changeset h"
  "with_ways (request r2) h = Inr h' \<Longrightarrow> h_state h' = h_state h \<and> h_changeset h' = h_changeset h"
  "with_relations (request r3) h = Inr h' \<Longrightarrow> h_state h' = h_state h \<and> h_changeset h' = h_changeset h"
  by (auto simp: with_Inr)

lemma request_relations_ok:
  assumes "handler_ok s0 unused h"
  shows "with_relations (request (add_relation cs i ms tags)) h = Inr h' \<Longrightarrow> handler_ok s0 unused h'"
    and "with_relations (request (modify_relation cs (u64 i) v ms tags)) h = Inr h' \<Longrightarrow>
           names_ok (s0 ot_relation) op_modify ob \<Longrightarrow> o_id ob = Some i \<Longrightarrow> handler_ok s0 unused h'"
    and "with_relations (request (delete_relation cs (u64 i) v unused)) h = Inr h' \<Longrightarrow>
           names_ok (s0 ot_relation) op_delete ob \<Longrightarrow> o_id ob = Some i \<Longrightarrow> handler_ok s0 unused h'"
proof -
  show "handler_ok s0 unused h'" if "with_relations (request (add_relation cs i ms tags)) h = Inr h'"
    by (rule with_relations_ok [OF that assms])
      (auto simp: request_Inr intro: relation_requests(1), auto simp: add_relation_def Let_def split: if_splits)
  show "handler_ok s0 unused h'" if "with_relations (request (modify_relation cs (u64 i) v ms tags)) h = Inr h'"
    "names_ok (s0 ot_relation) op_modify ob" "o_id ob = Some i"
    by (rule with_relations_ok [OF that(1) assms])
      (use that(2,3) in \<open>auto simp: request_Inr intro: relation_requests(2)\<close>, auto simp: modify_relation_def Let_def)
  show "handler_ok s0 unused h'" if "with_relations (request (delete_relation cs (u64 i) v unused)) h = Inr h'"
    "names_ok (s0 ot_relation) op_delete ob" "o_id ob = Some i"
    by (rule with_relations_ok [OF that(1) assms])
      (use that(2,3) in \<open>auto simp: request_Inr intro: relation_requests(3)\<close>, auto simp: delete_relation_def Let_def)
qed

lemma request_nodes_ok:
  assumes "handler_ok s0 unused h"
  shows "with_nodes (request (add_node lat lon cs i tags)) h = Inr h' \<Longrightarrow> handler_ok s0 unused h'"
    and "with_nodes (request (modify_node lat lon cs (u64 i) v tags)) h = Inr h' \<Longrightarrow>
           names_ok (s0 ot_node) op_modify ob \<Longrightarrow> o_id ob = Some i \<Longrightarrow> handler_ok s0 unused h'"
    and "with_nodes (request (delete_node cs (u64 i) v flag)) h = Inr h' \<Longrightarrow>
           names_ok (s0 ot_node) op_delete ob \<Longrightarrow> o_id ob = Some i \<Longrightarrow> handler_ok s0 unused h'"
  by (erule with_nodes_ok [OF _ assms], auto simp: request_Inr intro: node_requests)+

lemma request_ways_ok:
  assumes "handler_ok s0 unused h"
  shows "with_ways (request (add_way mx cs i refs tags)) h = Inr h' \<Longrightarrow> handler_ok s0 unused h'"
    and "with_ways (request (modify_way mx cs (u64 i) v refs tags)) h = Inr h' \<Longrightarrow>
           names_ok (s0 ot_way) op_modify ob \<Longrightarrow> o_id ob = Some i \<Longrightarrow> handler_ok s0 unused h'"
    and "with_ways (request (delete_way cs (u64 i) v flag)) h = Inr h' \<Longrightarrow>
           names_ok (s0 ot_way) op_delete ob \<Longrightarrow> o_id ob = Some i \<Longrightarrow> handler_ok s0 unused h'"
  by (erule with_ways_ok [OF _ assms], auto simp: request_Inr intro: way_requests)+

section \<open>Elements and documents\<close>

lemma process_change_buffers:
  assumes "process_change lm c h = Inr h'" "buffers_ok h"
  shows "buffers_ok h' \<and> h_changeset h' = h_changeset h"
proof (cases c)
  case (change_node n op flag)
  with assms show ?thesis
    by (cases op) (auto simp: process_node_def result_simps dest!: handle_new_state_buffers
        dest: request_state intro: request_buffers)
next
  case (change_way w op flag)
  with assms show ?thesis
    by (cases op) (auto simp: process_way_def result_simps dest!: handle_new_state_buffers
        dest: request_state intro: request_buffers)
next
  case (change_relation r op flag)
  with assms show ?thesis
    by (cases op) (auto simp: process_relation_def result_simps dest!: handle_new_state_buffers
        dest: request_state intro: request_buffers)
qed

lemma process_change_ok:
  assumes "process_change lm c h = Inr h'" "handler_ok s0 unused h" "change_ok s0 unused c"
  shows "handler_ok s0 unused h'"
proof (cases c)
  case (change_node n op flag)
  with assms show ?thesis
    by (cases op) (auto simp: process_node_def result_simps dest!: handle_new_state_ok intro: request_nodes_ok)
next
  case (change_way w op flag)
  with assms show ?thesis
    by (cases op) (auto simp: process_way_def result_simps dest!: handle_new_state_ok intro: request_ways_ok)
next
  case (change_relation r op flag)
  with assms show ?thesis
    by (cases op) (auto simp: process_relation_def result_simps dest!: handle_new_state_ok intro: request_relations_ok)
qed


subsection \<open>The sequence of the message\<close>

text \<open>The entry an element of the message gets in \<^verbatim>\<open>osmchange_orig_sequence\<close>.\<close>

definition object_item :: "object_type \<Rightarrow> operation \<Rightarrow> bool \<Rightarrow> 'a OSMObject_scheme \<Rightarrow> osmchange_t" where
  "object_item t op flag ob = \<lparr>oc_op = op, oc_obj_type = t, oc_orig_id = the (o_id ob),
     oc_orig_version = (if op = op_create then 1 else the (o_version ob)),
     oc_if_unused = (op = op_delete \<and> flag)\<rparr>"

fun message_item :: "change \<Rightarrow> osmchange_t" where
  "message_item (change_node n op flag) = object_item ot_node op flag n"
| "message_item (change_way w op flag) = object_item ot_way op flag w"
| "message_item (change_relation r op flag) = object_item ot_relation op flag r"

abbreviation message_so_far :: "handler \<Rightarrow> osmchange_t list" where
  "message_so_far h \<equiv> osmchange_orig_sequence (h_ct h)"

lemma with_steps_sequence:
  assumes "handler_ok s0 unused h"
  shows "with_nodes p h = Inr h' \<Longrightarrow> p = process_new_nodes \<or> p = process_modify_nodes \<or> p = process_delete_nodes \<Longrightarrow>
           message_so_far h' = message_so_far h"
    and "with_ways q h = Inr h' \<Longrightarrow> q = process_new_ways \<or> q = process_modify_ways \<or> q = process_delete_ways \<Longrightarrow>
           message_so_far h' = message_so_far h"
    and "with_relations r h = Inr h' \<Longrightarrow> r = process_new_relations \<or> r = process_modify_relations \<or> r = process_delete_relations \<Longrightarrow>
           message_so_far h' = message_so_far h"
proof -
  have n: "node_upd.step_ok s0 (others ot_node h) (h_db h, h_ct h, h_nodes h)"
    using assms handler_ok_nodes [where ?s0.0 = s0 and unused = unused and h = h and d = "h_db h" and ct = "h_ct h" and u = "h_nodes h"] by simp
  have w: "way_upd.step_ok s0 (others ot_way h) (h_db h, h_ct h, h_ways h)"
    using assms handler_ok_ways [where ?s0.0 = s0 and unused = unused and h = h and d = "h_db h" and ct = "h_ct h" and u = "h_ways h"] by simp
  have r: "relation_upd.step_ok s0 (others ot_relation h) (h_db h, h_ct h, h_relations h)"
    using assms handler_ok_relations [where ?s0.0 = s0 and unused = unused and h = h and d = "h_db h" and ct = "h_ct h" and u = "h_relations h"] by simp
  show "message_so_far h' = message_so_far h"
    if "with_nodes p h = Inr h'" "p = process_new_nodes \<or> p = process_modify_nodes \<or> p = process_delete_nodes"
    using that(1) node_upd.step_sequence [OF that(2) _ n] by (auto simp: with_Inr)
  show "message_so_far h' = message_so_far h"
    if "with_ways q h = Inr h'" "q = process_new_ways \<or> q = process_modify_ways \<or> q = process_delete_ways"
    using that(1) way_upd.step_sequence [OF that(2) _ w] by (auto simp: with_Inr)
  show "message_so_far h' = message_so_far h"
    if "with_relations r h = Inr h'"
      "r = process_new_relations \<or> r = process_modify_relations \<or> r = process_delete_relations"
    using that(1) relation_upd.step_sequence [OF that(2) _ r] by (auto simp: with_Inr)
qed


lemma handle_new_state_sequence:
  assumes "handle_new_state s h = Inr h'" "handler_ok s0 unused h"
  shows "message_so_far h' = message_so_far h"
proof (cases "s = h_state h")
  case True
  with assms show ?thesis by (simp add: handle_new_state_def)
next
  case False
  with assms(1) obtain h1 where h1: "process_buffers h = Inr h1" "h' = h1\<lparr>h_state := s\<rparr>"
    by (auto simp: handle_new_state_def bindE_Inr_iff)
  have "message_so_far h1 = message_so_far h"
  proof (cases "h_state h = st_modify")
    case True
    with h1(1) obtain k l where steps: "with_nodes process_modify_nodes h = Inr k"
      "with_ways process_modify_ways k = Inr l" "with_relations process_modify_relations l = Inr h1"
      by (auto simp: process_buffers_def bindE_Inr_iff)
    have k: "handler_ok s0 unused k"
      by (rule with_nodes_ok [OF steps(1) assms(2)]) (rule node_upd.modify_step)
    have l: "handler_ok s0 unused l"
      by (rule with_ways_ok [OF steps(2) k]) (rule way_upd.modify_step)
    from with_steps_sequence(1) [OF assms(2) steps(1)] with_steps_sequence(2) [OF k steps(2)]
      with_steps_sequence(3) [OF l steps(3)] show ?thesis by simp
  next
    case False
    with h1(1) with_steps_sequence [OF assms(2)] show ?thesis
      unfolding process_buffers_def by (cases "h_state h") auto
  qed
  with h1(2) show ?thesis by simp
qed

lemma process_change_sequence:
  assumes "process_change lm c h = Inr h'" "handler_ok s0 unused h" "change_ok s0 unused c"
  shows "message_so_far h' = message_so_far h @ [message_item c]"
proof -
  note keep = handle_new_state_sequence [OF _ assms(2)]
  note defs = with_Inr request_Inr track_def change_item_def object_item_def Let_def result_simps
  show ?thesis
  proof (cases c)
    case (change_node n op flag)
    with assms(1,3) show ?thesis
      by (cases op) (auto simp: process_node_def defs add_node_def modify_node_def delete_node_def names_ok_def s64_u64
          split: if_splits dest!: keep)
  next
    case (change_way w op flag)
    with assms(1,3) show ?thesis
      by (cases op) (auto simp: process_way_def defs add_way_def modify_way_def delete_way_def names_ok_def s64_u64
          split: if_splits dest!: keep)
  next
    case (change_relation r op flag)
    with assms(1,3) show ?thesis
      by (cases op) (auto simp: process_relation_def defs add_relation_def modify_relation_def delete_relation_def
          names_ok_def s64_u64 split: if_splits dest!: keep)
  qed
qed

subsection \<open>Whole documents\<close>

lemma init_handler_buffers: "no_buffers (init_handler cs d)" "buffers_ok (init_handler cs d)"
  by (simp_all add: no_buffers_def buffers_ok_def init_handler_def init_node_updater_def
      init_way_updater_def init_relation_updater_def)

lemma init_handler_ok: "db_ok d \<Longrightarrow> handler_ok (\<lambda>t. id_seq t d) unused (init_handler cs d)"
  by (auto simp: handler_ok_def init_handler_def init_node_updater_def init_way_updater_def
      init_relation_updater_def node_upd.wf_pending_def way_upd.wf_pending_def relation_upd.wf_pending_def
      upload_inv_def created_ok_def empty_tracking_def uniform_flags_def all_object_type)

lemma finished_no_buffers: "buffers_ok h \<Longrightarrow> h_state h = st_finished \<Longrightarrow> no_buffers h"
  by (auto simp: buffers_ok_def no_buffers_def)

lemma process_document_buffers:
  assumes "process_document lm cs h = Inr h'" "buffers_ok h"
  shows "h_state h' = st_finished \<and> no_buffers h' \<and> h_changeset h' = h_changeset h"
proof -
  from assms(1) obtain h1 where h1: "foldE (process_change lm) cs h = Inr h1" "handle_new_state st_finished h1 = Inr h'"
    by (auto simp: process_document_def finish_processing_def result_simps)
  have "buffers_ok h1 \<and> h_changeset h1 = h_changeset h"
    by (rule foldE_invariant [OF h1(1)]) (use assms(2) process_change_buffers in auto)
  with handle_new_state_buffers [OF h1(2)] finished_no_buffers show ?thesis by auto
qed

lemma process_changes_ok:
  assumes "foldE (process_change lm) cs h = Inr h'" "handler_ok s0 unused h" "\<forall>c\<in>set cs. change_ok s0 unused c"
  shows "handler_ok s0 unused h' \<and> message_so_far h' = message_so_far h @ map message_item cs"
  using assms
proof (induction cs arbitrary: h)
  case (Cons c cs)
  then obtain h1 where h1: "process_change lm c h = Inr h1" "foldE (process_change lm) cs h1 = Inr h'"
    by (auto simp: result_simps)
  from Cons.prems have c: "change_ok s0 unused c" by simp
  from Cons.IH [OF h1(2) process_change_ok [OF h1(1) Cons.prems(2) c]] Cons.prems(3)
    process_change_sequence [OF h1(1) Cons.prems(2) c] show ?case by simp
qed auto

lemma no_buffers_pending: "no_buffers h \<Longrightarrow> pending_requests h = {}"
  by (simp add: no_buffers_def pending_requests_def node_upd.pending_def way_upd.pending_def relation_upd.pending_def)

lemma process_document_ok:
  assumes "process_document lm cs h = Inr h'" "handler_ok s0 unused h" "buffers_ok h"
    and "\<forall>c\<in>set cs. change_ok s0 unused c"
  shows "upload_inv s0 (h_db h') (h_ct h') \<and> message_so_far h' = message_so_far h @ map message_item cs \<and>
    (\<forall>item\<in>set (message_so_far h'). accounted (h_ct h') item)"
proof -
  from assms(1) obtain h1 where h1: "foldE (process_change lm) cs h = Inr h1" "handle_new_state st_finished h1 = Inr h'"
    by (auto simp: process_document_def finish_processing_def result_simps)
  from process_changes_ok [OF h1(1) assms(2,4)] have ok: "handler_ok s0 unused h1"
    and seq: "message_so_far h1 = message_so_far h @ map message_item cs" by blast+
  from handle_new_state_ok [OF h1(2) ok] process_document_buffers [OF assms(1,3)] no_buffers_pending [of h']
  have "upload_inv s0 (h_db h') (h_ct h')" "\<forall>item\<in>set (message_so_far h'). accounted (h_ct h') item"
    by (auto simp: handler_ok_def)
  with handle_new_state_sequence [OF h1(2) ok] seq show ?thesis by simp
qed

end
