(* ===== verification/OSMChange_XML.thy ===== *)
theory OSMChange_XML
  imports OSMChange_Handler
begin

text \<open>
  \<^verbatim>\<open>OSMChangeXMLParser\<close>
  (\<^verbatim>\<open>include/cgimap/api06/changeset_upload/osmchange_xml_input_format.hpp\<close>): the state machine
  behind the SAX callbacks. The XML library is outside the model: it is the list of events it
  reports, each with the position the library is at, and the error it ends with, if any.
\<close>

section \<open>Events and state\<close>

type_synonym attrs = "(string \<times> string) list"

datatype sax_event =
    start_element string attrs
  | end_element string

datatype ctx =
    ctx_root
  | ctx_top
  | ctx_create
  | ctx_modify
  | ctx_delete
  | ctx_node
  | ctx_way
  | ctx_relation
  | ctx_object

text \<open>\<open>p_context\<close> is the vector \<^verbatim>\<open>m_context\<close> with its back first.\<close>

record parser =
  p_operation :: operation
  p_context :: "ctx list"
  p_node :: "Node option"
  p_way :: "Way option"
  p_relation :: "Relation option"
  p_if_unused :: bool

definition init_parser :: parser where
  "init_parser = \<lparr>p_operation = op_undefined, p_context = [ctx_root], p_node = None, p_way = None,
                  p_relation = None, p_if_unused = False\<rparr>"

definition new_node :: Node where
  "new_node = \<lparr>o_changeset = None, o_id = None, o_version = None, o_tags = [], o_lat = None, o_lon = None\<rparr>"

definition new_way :: Way where
  "new_way = \<lparr>o_changeset = None, o_id = None, o_version = None, o_tags = [], o_way_nodes = []\<rparr>"

definition new_relation :: Relation where
  "new_relation = \<lparr>o_changeset = None, o_id = None, o_version = None, o_tags = [], o_members = []\<rparr>"

text \<open>
  \<^verbatim>\<open>Parser_Callback\<close>: the elements are passed on one by one, between the start and the end
  of the document. The handler does nothing at the start.
\<close>

record 'h callback =
  cb_element :: "change \<Rightarrow> 'h \<Rightarrow> 'h result"
  cb_end_document :: "'h \<Rightarrow> 'h result"

section \<open>Attributes\<close>

definition init_object_attr :: "string \<times> string \<Rightarrow> 'a OSMObject_scheme \<Rightarrow> 'a OSMObject_scheme result" where
  "init_object_attr = (\<lambda>(name, value) ob.
     if name = ''id'' then set_id_str value ob
     else if name = ''changeset'' then set_changeset_str value ob
     else if name = ''version'' then set_version_str value ob
     else Inr ob)"

definition init_object :: "operation \<Rightarrow> string \<Rightarrow> attrs \<Rightarrow> 'a OSMObject_scheme \<Rightarrow> 'a OSMObject_scheme result" where
  "init_object op type_name attrs ob =
     bindE (foldE init_object_attr attrs ob) (\<lambda>ob.
     bindE (throw_if (o_id ob = None) (payload_error ''Mandatory field id missing in object'')) (\<lambda>_.
     bindE (throw_if (o_changeset ob = None)
              (payload_error (''Changeset id is missing for '' @ object_to_string type_name ob))) (\<lambda>_.
     if op = op_create then set_version 0 ob
     else if op = op_delete \<or> op = op_modify then
       bindE (throw_if (o_version ob = None)
                (payload_error (''Version is required when updating '' @ object_to_string type_name ob))) (\<lambda>_.
       bindE (deref (o_version ob)) (\<lambda>v.
       bindE (throw_if (v < 1)
                (payload_error (''Invalid version number '' @ fmt_d v @ '' in '' @ object_to_string type_name ob))) (\<lambda>_.
       Inr ob)))
     else Inr ob)))"

definition init_node_attr :: "string \<times> string \<Rightarrow> Node \<Rightarrow> Node result" where
  "init_node_attr = (\<lambda>(name, value) n.
     if name = ''lon'' then set_lon_str value n
     else if name = ''lat'' then set_lat_str value n
     else Inr n)"

definition init_node :: "attrs \<Rightarrow> Node \<Rightarrow> Node result" where
  "init_node attrs n = foldE init_node_attr attrs n"

text \<open>The last attribute of a name counts.\<close>

definition last_attr :: "string \<Rightarrow> attrs \<Rightarrow> string option" where
  "last_attr name attrs = map_of (rev attrs) name"

definition add_tag_element :: "(string \<Rightarrow> nat option) \<Rightarrow> string \<Rightarrow> attrs \<Rightarrow> 'a OSMObject_scheme \<Rightarrow>
    'a OSMObject_scheme result" where
  "add_tag_element mbslen type_name attrs ob =
     (case last_attr ''k'' attrs of
        None \<Rightarrow> Inl (payload_error (''Mandatory field k missing in tag element for '' @ object_to_string type_name ob))
      | Some k \<Rightarrow>
          (case last_attr ''v'' attrs of
             None \<Rightarrow> Inl (payload_error (''Mandatory field v missing in tag element for '' @ object_to_string type_name ob))
           | Some v \<Rightarrow> add_tag mbslen type_name k v ob))"

definition add_nd_element :: "attrs \<Rightarrow> Way \<Rightarrow> Way result" where
  "add_nd_element attrs w =
     bindE (foldE (\<lambda>(name, value) (w, found).
                     if name = ''ref'' then bindE (add_way_node_str value w) (\<lambda>w. Inr (w, True)) else Inr (w, found))
              attrs (w, False)) (\<lambda>(w, found).
     bindE (throw_if (\<not> found)
              (payload_error (''Missing mandatory ref field on way node '' @ object_to_string ''Way'' w))) (\<lambda>_.
     Inr w))"

definition member_attr :: "(string \<Rightarrow> nat option) \<Rightarrow> string \<times> string \<Rightarrow> RelationMember \<Rightarrow> RelationMember result" where
  "member_attr mbslen = (\<lambda>(name, value) m.
     if name = ''type'' then set_type value m
     else if name = ''ref'' then set_ref_str value m
     else if name = ''role'' then set_role mbslen value m
     else Inr m)"

definition add_member_element :: "(string \<Rightarrow> nat option) \<Rightarrow> attrs \<Rightarrow> Relation \<Rightarrow> Relation result" where
  "add_member_element mbslen attrs r =
     bindE (foldE (member_attr mbslen) attrs \<lparr>rm_role = '''', rm_ref = None, rm_type = None\<rparr>) (\<lambda>m.
     bindE (member_is_valid m) (\<lambda>valid.
     bindE (throw_if (\<not> valid)
              (payload_error (''Missing mandatory field on relation member in '' @ object_to_string ''Relation'' r))) (\<lambda>_.
     add_member m r)))"

section \<open>Callbacks\<close>

definition null_object :: exn where
  "null_object = undefined_behaviour ''dereferenced a null unique_ptr''"

definition held :: "'a option \<Rightarrow> 'a result" where
  "held v = (case v of None \<Rightarrow> Inl null_object | Some x \<Rightarrow> Inr x)"

definition push :: "ctx \<Rightarrow> parser \<Rightarrow> parser" where
  "push c p = p\<lparr>p_context := c # p_context p\<rparr>"

definition pop :: "parser \<Rightarrow> parser" where
  "pop p = p\<lparr>p_context := tl (p_context p)\<rparr>"

definition start_in_top :: "string \<Rightarrow> attrs \<Rightarrow> parser \<Rightarrow> parser result" where
  "start_in_top name attrs p =
     (if name = ''create'' then Inr ((push ctx_create p)\<lparr>p_operation := op_create\<rparr>)
      else if name = ''modify'' then Inr ((push ctx_modify p)\<lparr>p_operation := op_modify\<rparr>)
      else if name = ''delete'' then
        Inr ((push ctx_delete p)\<lparr>p_operation := op_delete, p_if_unused := (''if-unused'' \<in> set (map fst attrs))\<rparr>)
      else Inl (payload_error (''Unknown action '' @ name @ '', choices are create, modify, delete'')))"

definition start_in_action :: "string \<Rightarrow> attrs \<Rightarrow> parser \<Rightarrow> parser result" where
  "start_in_action name attrs p =
     (if name = ''node'' then
        bindE (init_object (p_operation p) ''Node'' attrs new_node) (\<lambda>n.
        bindE (init_node attrs n) (\<lambda>n.
        Inr (push ctx_node (p\<lparr>p_node := Some n\<rparr>))))
      else if name = ''way'' then
        bindE (init_object (p_operation p) ''Way'' attrs new_way) (\<lambda>w.
        Inr (push ctx_way (p\<lparr>p_way := Some w\<rparr>)))
      else if name = ''relation'' then
        bindE (init_object (p_operation p) ''Relation'' attrs new_relation) (\<lambda>r.
        Inr (push ctx_relation (p\<lparr>p_relation := Some r\<rparr>)))
      else Inl (payload_error (''Unknown element '' @ name @ '', expecting node, way or relation'')))"

definition start_in_node :: "(string \<Rightarrow> nat option) \<Rightarrow> string \<Rightarrow> attrs \<Rightarrow> parser \<Rightarrow> parser result" where
  "start_in_node mbslen name attrs p =
     (if name = ''tag'' then
        bindE (held (p_node p)) (\<lambda>n. bindE (add_tag_element mbslen ''Node'' attrs n) (\<lambda>n.
        Inr (push ctx_object (p\<lparr>p_node := Some n\<rparr>))))
      else Inr (push ctx_object p))"

definition start_in_way :: "(string \<Rightarrow> nat option) \<Rightarrow> string \<Rightarrow> attrs \<Rightarrow> parser \<Rightarrow> parser result" where
  "start_in_way mbslen name attrs p =
     (if name = ''nd'' then
        bindE (held (p_way p)) (\<lambda>w. bindE (add_nd_element attrs w) (\<lambda>w.
        Inr (push ctx_object (p\<lparr>p_way := Some w\<rparr>))))
      else if name = ''tag'' then
        bindE (held (p_way p)) (\<lambda>w. bindE (add_tag_element mbslen ''Way'' attrs w) (\<lambda>w.
        Inr (push ctx_object (p\<lparr>p_way := Some w\<rparr>))))
      else Inr (push ctx_object p))"

definition start_in_relation :: "(string \<Rightarrow> nat option) \<Rightarrow> string \<Rightarrow> attrs \<Rightarrow> parser \<Rightarrow> parser result" where
  "start_in_relation mbslen name attrs p =
     (if name = ''member'' then
        bindE (held (p_relation p)) (\<lambda>r. bindE (add_member_element mbslen attrs r) (\<lambda>r.
        Inr (push ctx_object (p\<lparr>p_relation := Some r\<rparr>))))
      else if name = ''tag'' then
        bindE (held (p_relation p)) (\<lambda>r. bindE (add_tag_element mbslen ''Relation'' attrs r) (\<lambda>r.
        Inr (push ctx_object (p\<lparr>p_relation := Some r\<rparr>))))
      else Inr (push ctx_object p))"

definition on_start_element :: "(string \<Rightarrow> nat option) \<Rightarrow> string \<Rightarrow> attrs \<Rightarrow> parser \<Rightarrow> parser result" where
  "on_start_element mbslen name attrs p =
     (case p_context p of
        [] \<Rightarrow> Inl (assertion_failed ''!m_context.empty()'')
      | ctx_root # _ \<Rightarrow>
          (if name = ''osmChange'' then Inr (push ctx_top p)
           else Inl (payload_error (''Unknown top-level element '' @ name @ '', expecting osmChange'')))
      | ctx_top # _ \<Rightarrow> start_in_top name attrs p
      | ctx_create # _ \<Rightarrow> start_in_action name attrs p
      | ctx_modify # _ \<Rightarrow> start_in_action name attrs p
      | ctx_delete # _ \<Rightarrow> start_in_action name attrs p
      | ctx_node # _ \<Rightarrow> start_in_node mbslen name attrs p
      | ctx_way # _ \<Rightarrow> start_in_way mbslen name attrs p
      | ctx_relation # _ \<Rightarrow> start_in_relation mbslen name attrs p
      | ctx_object # _ \<Rightarrow> Inl (payload_error ''xml file nested too deep''))"

definition assert_element :: "string \<Rightarrow> string \<Rightarrow> unit result" where
  "assert_element name expected = throw_if (name \<noteq> expected) (assertion_failed (''element == '' @ expected))"

definition missing_fields :: "string \<Rightarrow> 'a OSMObject_scheme \<Rightarrow> exn" where
  "missing_fields type_name ob = payload_error (object_to_string type_name ob @ '' does not include all mandatory fields'')"

text \<open>The end of an element in an action: \<open>v\<close> is its validity, \<open>c\<close> what is passed on.\<close>

definition hand_over :: "'h callback \<Rightarrow> bool result \<Rightarrow> exn \<Rightarrow> change \<Rightarrow> parser \<Rightarrow> 'h \<Rightarrow> (parser \<times> 'h) result" where
  "hand_over cb v e c p h =
     bindE v (\<lambda>valid. bindE (throw_if (\<not> valid) e) (\<lambda>_. bindE (cb_element cb c h) (\<lambda>h. Inr (pop p, h))))"

definition on_end_element ::
    "limits \<Rightarrow> 'h callback \<Rightarrow> string \<Rightarrow> parser \<times> 'h \<Rightarrow> (parser \<times> 'h) result" where
  "on_end_element lm cb name = (\<lambda>(p, h).
     case p_context p of
       [] \<Rightarrow> Inl (assertion_failed ''!m_context.empty()'')
     | ctx_root # _ \<Rightarrow> Inl (assertion_failed ''false'')
     | ctx_top # _ \<Rightarrow>
         bindE (assert_element name ''osmChange'') (\<lambda>_.
         bindE (cb_end_document cb h) (\<lambda>h. Inr ((pop p)\<lparr>p_operation := op_undefined\<rparr>, h)))
     | ctx_create # _ \<Rightarrow>
         bindE (assert_element name ''create'') (\<lambda>_. Inr ((pop p)\<lparr>p_operation := op_undefined\<rparr>, h))
     | ctx_modify # _ \<Rightarrow>
         bindE (assert_element name ''modify'') (\<lambda>_. Inr ((pop p)\<lparr>p_operation := op_undefined\<rparr>, h))
     | ctx_delete # _ \<Rightarrow>
         bindE (assert_element name ''delete'') (\<lambda>_.
         Inr ((pop p)\<lparr>p_operation := op_undefined, p_if_unused := False\<rparr>, h))
     | ctx_node # _ \<Rightarrow>
         bindE (assert_element name ''node'') (\<lambda>_. bindE (held (p_node p)) (\<lambda>n.
         hand_over cb (node_is_valid lm (p_operation p) n) (missing_fields ''Node'' n)
           (change_node n (p_operation p) (p_if_unused p)) (p\<lparr>p_node := Some new_node\<rparr>) h))
     | ctx_way # _ \<Rightarrow>
         bindE (assert_element name ''way'') (\<lambda>_. bindE (held (p_way p)) (\<lambda>w.
         hand_over cb (way_is_valid lm (p_operation p) w) (missing_fields ''Way'' w)
           (change_way w (p_operation p) (p_if_unused p)) (p\<lparr>p_way := Some new_way\<rparr>) h))
     | ctx_relation # _ \<Rightarrow>
         bindE (assert_element name ''relation'') (\<lambda>_. bindE (held (p_relation p)) (\<lambda>r.
         hand_over cb (relation_is_valid lm (p_operation p) r) (missing_fields ''Relation'' r)
           (change_relation r (p_operation p) (p_if_unused p)) (p\<lparr>p_relation := Some new_relation\<rparr>) h))
     | ctx_object # _ \<Rightarrow> Inr (pop p, h))"

text \<open>
  \<^verbatim>\<open>on_enhance_exception\<close>: an error in the payload gets the position, when it is known.
\<close>

fun with_location :: "(int \<times> int) option \<Rightarrow> exn \<Rightarrow> exn" where
  "with_location (Some (line, col)) (payload_error msg) =
     payload_error (msg @ '' at line '' @ fmt_d line @ '', column '' @ fmt_d col)"
| "with_location loc e = e"

definition on_event ::
    "(string \<Rightarrow> nat option) \<Rightarrow> limits \<Rightarrow> 'h callback \<Rightarrow> (int \<times> int) option \<times> sax_event \<Rightarrow>
       parser \<times> 'h \<Rightarrow> (parser \<times> 'h) result" where
  "on_event mbslen lm cb = (\<lambda>(loc, ev) (p, h).
     case (case ev of
             start_element name attrs \<Rightarrow> bindE (on_start_element mbslen name attrs p) (\<lambda>p. Inr (p, h))
           | end_element name \<Rightarrow> on_end_element lm cb name (p, h)) of
       Inl e \<Rightarrow> Inl (with_location loc e)
     | Inr s \<Rightarrow> Inr s)"

text \<open>
  What the XML library makes of a message: the events up to the end or up to an error of its
  own, which \<^verbatim>\<open>process_message\<close> rethrows as a bad request. A callback that throws stops it.
\<close>

record sax_run =
  sx_events :: "((int \<times> int) option \<times> sax_event) list"
  sx_error :: "string option"

definition process_message ::
    "(string \<Rightarrow> nat option) \<Rightarrow> limits \<Rightarrow> 'h callback \<Rightarrow> sax_run \<Rightarrow> 'h \<Rightarrow> 'h result" where
  "process_message mbslen lm cb run h =
     bindE (foldE (on_event mbslen lm cb) (sx_events run) (init_parser, h)) (\<lambda>(_, h).
     case sx_error run of None \<Rightarrow> Inr h | Some msg \<Rightarrow> Inl (bad_request msg))"

text \<open>The handler behind the interface.\<close>

definition handler_callback :: "limits \<Rightarrow> handler callback" where
  "handler_callback lm = \<lparr>cb_element = process_change lm, cb_end_document = finish_processing\<rparr>"

end
