(* ===== verification/OSMChange_XML_Correct.thy ===== *)
theory OSMChange_XML_Correct
  imports OSMChange_XML
begin

text \<open>
  The SAX callbacks against a recursive reading of the document tree: on the events of any
  well-formed document the state machine does what a descent over its elements does, in the
  same order and with the same errors. Its assertions never fail there, and everything it
  hands over satisfies what the handler expects.
\<close>

section \<open>Documents\<close>

datatype xml = elem (xml_name: string) (xml_attrs: attrs) (xml_kids: "xml list")

fun events_of :: "xml \<Rightarrow> sax_event list" where
  "events_of (elem name attrs kids) = start_element name attrs # concat (map events_of kids) @ [end_element name]"

definition unlocated :: "sax_event list \<Rightarrow> sax_run" where
  "unlocated evs = \<lparr>sx_events = map (Pair None) evs, sx_error = None\<rparr>"

section \<open>A recursive reading\<close>

definition no_kids :: "xml list \<Rightarrow> unit result" where
  "no_kids kids = throw_if (kids \<noteq> []) (payload_error ''xml file nested too deep'')"

fun read_node_child :: "(string \<Rightarrow> nat option) \<Rightarrow> xml \<Rightarrow> Node \<Rightarrow> Node result" where
  "read_node_child mbslen (elem name attrs kids) n =
     bindE (if name = ''tag'' then add_tag_element mbslen ''Node'' attrs n else Inr n) (\<lambda>n.
     bindE (no_kids kids) (\<lambda>_. Inr n))"

fun read_way_child :: "(string \<Rightarrow> nat option) \<Rightarrow> xml \<Rightarrow> Way \<Rightarrow> Way result" where
  "read_way_child mbslen (elem name attrs kids) w =
     bindE (if name = ''nd'' then add_nd_element attrs w
            else if name = ''tag'' then add_tag_element mbslen ''Way'' attrs w else Inr w) (\<lambda>w.
     bindE (no_kids kids) (\<lambda>_. Inr w))"

fun read_relation_child :: "(string \<Rightarrow> nat option) \<Rightarrow> xml \<Rightarrow> Relation \<Rightarrow> Relation result" where
  "read_relation_child mbslen (elem name attrs kids) r =
     bindE (if name = ''member'' then add_member_element mbslen attrs r
            else if name = ''tag'' then add_tag_element mbslen ''Relation'' attrs r else Inr r) (\<lambda>r.
     bindE (no_kids kids) (\<lambda>_. Inr r))"

definition checked :: "bool result \<Rightarrow> exn \<Rightarrow> change \<Rightarrow> change result" where
  "checked v e c = bindE v (\<lambda>valid. bindE (throw_if (\<not> valid) e) (\<lambda>_. Inr c))"

fun read_element :: "(string \<Rightarrow> nat option) \<Rightarrow> limits \<Rightarrow> operation \<Rightarrow> bool \<Rightarrow> xml \<Rightarrow> change result" where
  "read_element mbslen lm op unused (elem name attrs kids) =
     (if name = ''node'' then
        bindE (init_object op ''Node'' attrs new_node) (\<lambda>n. bindE (init_node attrs n) (\<lambda>n.
        bindE (foldE (read_node_child mbslen) kids n) (\<lambda>n.
        checked (node_is_valid lm op n) (missing_fields ''Node'' n) (change_node n op unused))))
      else if name = ''way'' then
        bindE (init_object op ''Way'' attrs new_way) (\<lambda>w.
        bindE (foldE (read_way_child mbslen) kids w) (\<lambda>w.
        checked (way_is_valid lm op w) (missing_fields ''Way'' w) (change_way w op unused)))
      else if name = ''relation'' then
        bindE (init_object op ''Relation'' attrs new_relation) (\<lambda>r.
        bindE (foldE (read_relation_child mbslen) kids r) (\<lambda>r.
        checked (relation_is_valid lm op r) (missing_fields ''Relation'' r) (change_relation r op unused)))
      else Inl (payload_error (''Unknown element '' @ name @ '', expecting node, way or relation'')))"

fun read_action :: "(string \<Rightarrow> nat option) \<Rightarrow> limits \<Rightarrow> 'h callback \<Rightarrow> xml \<Rightarrow> 'h \<Rightarrow> 'h result" where
  "read_action mbslen lm cb (elem name attrs kids) h =
     (let go = (\<lambda>op unused. foldE (\<lambda>x h. bindE (read_element mbslen lm op unused x) (\<lambda>c. cb_element cb c h)) kids h)
      in if name = ''create'' then go op_create False
         else if name = ''modify'' then go op_modify False
         else if name = ''delete'' then go op_delete (''if-unused'' \<in> set (map fst attrs))
         else Inl (payload_error (''Unknown action '' @ name @ '', choices are create, modify, delete'')))"

fun read_document :: "(string \<Rightarrow> nat option) \<Rightarrow> limits \<Rightarrow> 'h callback \<Rightarrow> xml \<Rightarrow> 'h \<Rightarrow> 'h result" where
  "read_document mbslen lm cb (elem name attrs kids) h =
     (if name = ''osmChange'' then bindE (foldE (read_action mbslen lm cb) kids h) (cb_end_document cb)
      else Inl (payload_error (''Unknown top-level element '' @ name @ '', expecting osmChange'')))"

section \<open>The state machine follows it\<close>

lemma with_location_None [simp]: "with_location None e = e"
  by (cases e) simp_all

lemma on_event_start [simp]:
  "on_event mbslen lm cb (None, start_element name attrs) (p, h) =
     bindE (on_start_element mbslen name attrs p) (\<lambda>p. Inr (p, h))"
  by (cases "on_start_element mbslen name attrs p") (simp_all add: on_event_def)

lemma on_event_end [simp]:
  "on_event mbslen lm cb (None, end_element name) (p, h) = on_end_element lm cb name (p, h)"
  by (simp add: on_event_def split: sum.split)

abbreviation run_events ::
    "(string \<Rightarrow> nat option) \<Rightarrow> limits \<Rightarrow> 'h callback \<Rightarrow> sax_event list \<Rightarrow> parser \<times> 'h \<Rightarrow> (parser \<times> 'h) result" where
  "run_events mbslen lm cb evs \<equiv> foldE (on_event mbslen lm cb) (map (Pair None) evs)"

text \<open>Inside an object: one element deep, and no deeper.\<close>

lemma run_nested:
  assumes "p_context p = ctx_object # cs"
  shows "foldE (on_event mbslen lm cb) (map (Pair None) (concat (map events_of kids)) @ [(None, end_element name)]) (p, h) =
    bindE (no_kids kids) (\<lambda>_. Inr (pop p, h))"
proof (cases kids)
  case Nil
  with assms show ?thesis by (simp add: no_kids_def on_end_element_def)
next
  case (Cons k ks)
  then obtain n a xs where "k = elem n a xs" by (cases k)
  with assms Cons show ?thesis by (simp add: no_kids_def on_start_element_def)
qed

lemma pop_push [simp]: "pop (push c p) = p"
  by (simp add: push_def pop_def)

lemma push_context [simp]: "p_context (push c p) = c # p_context p"
  by (simp add: push_def)

text \<open>
  The children of an object, whatever the object: \<open>held_as p x\<close> says that the parser holds \<open>x\<close>
  in the right context, \<open>store x\<close> puts a new version there.
\<close>

lemma run_children:
  assumes one: "\<And>k p x. held_as p x \<Longrightarrow>
      run_events mbslen lm cb (events_of k) (p, h) = bindE (rd k x) (\<lambda>x. Inr (store x p, h))"
    and held: "\<And>p x y. held_as p x \<Longrightarrow> held_as (store y p) y"
    and store: "\<And>p x y. store y (store x p) = store y p" "\<And>p x. held_as p x \<Longrightarrow> store x p = p"
  shows "held_as p x \<Longrightarrow> run_events mbslen lm cb (concat (map events_of kids)) (p, h) =
    bindE (foldE rd kids x) (\<lambda>x. Inr (store x p, h))"
proof (induction kids arbitrary: p x)
  case (Cons k ks)
  show ?case
  proof (cases "rd k x")
    case (Inr y)
    from Cons.IH [OF held [OF Cons.prems, of y]] one [OF Cons.prems, of k] Inr show ?thesis
      by (simp add: foldE_append store)
  qed (simp add: foldE_append one [OF Cons.prems])
qed (simp add: store)

lemma held_same:
  "p_node p = Some n \<Longrightarrow> p\<lparr>p_node := Some n\<rparr> = p"
  "p_way p = Some w \<Longrightarrow> p\<lparr>p_way := Some w\<rparr> = p"
  "p_relation p = Some r \<Longrightarrow> p\<lparr>p_relation := Some r\<rparr> = p"
  by (cases p; simp)+

lemmas start_defs = on_start_element_def start_in_top_def start_in_action_def start_in_node_def
  start_in_way_def start_in_relation_def held_def

lemma run_node_child:
  assumes "p_context p = ctx_node # cs \<and> p_node p = Some n"
  shows "run_events mbslen lm cb (events_of k) (p, h) =
    bindE (read_node_child mbslen k n) (\<lambda>n. Inr (p\<lparr>p_node := Some n\<rparr>, h))"
  using assms
  by (cases k; cases "add_tag_element mbslen ''Node'' (xml_attrs k) n")
    (auto simp: start_defs run_nested bindE_assoc held_same)

lemma run_way_child:
  assumes "p_context p = ctx_way # cs \<and> p_way p = Some w"
  shows "run_events mbslen lm cb (events_of k) (p, h) =
    bindE (read_way_child mbslen k w) (\<lambda>w. Inr (p\<lparr>p_way := Some w\<rparr>, h))"
  using assms
  by (cases k; cases "add_nd_element (xml_attrs k) w"; cases "add_tag_element mbslen ''Way'' (xml_attrs k) w")
    (auto simp: start_defs run_nested bindE_assoc held_same)

lemma run_relation_child:
  assumes "p_context p = ctx_relation # cs \<and> p_relation p = Some r"
  shows "run_events mbslen lm cb (events_of k) (p, h) =
    bindE (read_relation_child mbslen k r) (\<lambda>r. Inr (p\<lparr>p_relation := Some r\<rparr>, h))"
  using assms
  by (cases k; cases "add_member_element mbslen (xml_attrs k) r"; cases "add_tag_element mbslen ''Relation'' (xml_attrs k) r")
    (auto simp: start_defs run_nested bindE_assoc held_same)

lemma run_node_children:
  assumes "p_context p = ctx_node # cs" "p_node p = Some x"
  shows "run_events mbslen lm cb (concat (map events_of kids)) (p, h) =
    bindE (foldE (read_node_child mbslen) kids x) (\<lambda>x. Inr (p\<lparr>p_node := Some x\<rparr>, h))"
  by (rule run_children [where held_as = "\<lambda>p x. p_context p = ctx_node # cs \<and> p_node p = Some x"
        and store = "\<lambda>x p. p\<lparr>p_node := Some x\<rparr>"])
    (use assms in \<open>simp_all add: held_same run_node_child\<close>)

lemma run_way_children:
  assumes "p_context p = ctx_way # cs" "p_way p = Some x"
  shows "run_events mbslen lm cb (concat (map events_of kids)) (p, h) =
    bindE (foldE (read_way_child mbslen) kids x) (\<lambda>x. Inr (p\<lparr>p_way := Some x\<rparr>, h))"
  by (rule run_children [where held_as = "\<lambda>p x. p_context p = ctx_way # cs \<and> p_way p = Some x"
        and store = "\<lambda>x p. p\<lparr>p_way := Some x\<rparr>"])
    (use assms in \<open>simp_all add: held_same run_way_child\<close>)

lemma run_relation_children:
  assumes "p_context p = ctx_relation # cs" "p_relation p = Some x"
  shows "run_events mbslen lm cb (concat (map events_of kids)) (p, h) =
    bindE (foldE (read_relation_child mbslen) kids x) (\<lambda>x. Inr (p\<lparr>p_relation := Some x\<rparr>, h))"
  by (rule run_children [where held_as = "\<lambda>p x. p_context p = ctx_relation # cs \<and> p_relation p = Some x"
        and store = "\<lambda>x p. p\<lparr>p_relation := Some x\<rparr>"])
    (use assms in \<open>simp_all add: held_same run_relation_child\<close>)

text \<open>
  An element of an action, an action, the document: up to the scratch objects, the parser is
  back where it was.
\<close>

definition same_pos :: "parser \<Rightarrow> parser \<Rightarrow> bool" where
  "same_pos p q \<longleftrightarrow> p_context q = p_context p \<and> p_operation q = p_operation p \<and> p_if_unused q = p_if_unused p"

definition follows :: "parser \<Rightarrow> (parser \<times> 'h) result \<Rightarrow> 'h result \<Rightarrow> bool" where
  "follows p r s \<longleftrightarrow> (case r of Inl e \<Rightarrow> s = Inl e | Inr (q, h) \<Rightarrow> s = Inr h \<and> same_pos p q)"

lemma same_pos_refl [simp]: "same_pos p p" by (simp add: same_pos_def)

lemma follows_Inl [simp]: "follows p (Inl e) s \<longleftrightarrow> s = Inl e" by (simp add: follows_def)
lemma follows_Inr [simp]: "follows p (Inr (q, h)) s \<longleftrightarrow> s = Inr h \<and> same_pos p q" by (simp add: follows_def)

lemma follows_children:
  assumes one: "\<And>k q h. k \<in> set kids \<Longrightarrow> same_pos p q \<Longrightarrow> follows p (run_events mbslen lm cb (events_of k) (q, h)) (rd k h)"
  shows "same_pos p q \<Longrightarrow> follows p (run_events mbslen lm cb (concat (map events_of kids)) (q, h)) (foldE rd kids h)"
  using one
proof (induction kids arbitrary: q h)
  case (Cons k ks)
  from Cons.prems have k: "follows p (run_events mbslen lm cb (events_of k) (q, h)) (rd k h)" by simp
  show ?case
  proof (cases "run_events mbslen lm cb (events_of k) (q, h)")
    case (Inl e)
    with k show ?thesis by (simp add: foldE_append)
  next
    case (Inr s)
    obtain q' h' where s: "s = (q', h')" by (cases s)
    from k Inr s have "rd k h = Inr h'" "same_pos p q'" by simp_all
    with Cons.IH [of q' h'] Cons.prems Inr s show ?thesis by (simp add: foldE_append)
  qed
qed simp

lemma follows_callback:
  assumes "run = bindE r (\<lambda>c. bindE (f c) (\<lambda>h. Inr (q, h)))" "same_pos p q"
  shows "follows p run (bindE r f)"
  using assms by (cases r) (auto simp: follows_def bindE_Inl_iff bindE_Inr_iff split: sum.split)

lemma run_element:
  assumes "p_context p = c # cs" "c = ctx_create \<or> c = ctx_modify \<or> c = ctx_delete"
  shows "follows p (run_events mbslen lm cb (events_of k) (p, h))
    (bindE (read_element mbslen lm (p_operation p) (p_if_unused p) k) (\<lambda>c. cb_element cb c h))"
proof -
  obtain name attrs kids where k: "k = elem name attrs kids" by (cases k)
  have start: "on_start_element mbslen nm as p = start_in_action nm as p" for nm as
    using assms by (auto simp: on_start_element_def)
  note defs = k start start_in_action_def foldE_append on_end_element_def assert_element_def held_def hand_over_def
    checked_def bindE_assoc pop_def push_def run_node_children run_way_children run_relation_children
  consider "name = ''node''" | "name = ''way''" | "name = ''relation''" |
    "name \<noteq> ''node'' \<and> name \<noteq> ''way'' \<and> name \<noteq> ''relation''" by blast
  then show ?thesis
  proof cases
    case 1
    then show ?thesis
      by (intro follows_callback [where q = "p\<lparr>p_node := Some new_node\<rparr>"]) (simp_all add: defs same_pos_def)
  next
    case 2
    then show ?thesis
      by (intro follows_callback [where q = "p\<lparr>p_way := Some new_way\<rparr>"]) (simp_all add: defs same_pos_def)
  next
    case 3
    then show ?thesis
      by (intro follows_callback [where q = "p\<lparr>p_relation := Some new_relation\<rparr>"]) (simp_all add: defs same_pos_def)
  next
    case 4
    then show ?thesis by (simp add: defs)
  qed
qed


lemma run_elements:
  assumes "p_context p = c # cs" "c = ctx_create \<or> c = ctx_modify \<or> c = ctx_delete"
  shows "follows p (run_events mbslen lm cb (concat (map events_of kids)) (p, h))
    (foldE (\<lambda>x h. bindE (read_element mbslen lm (p_operation p) (p_if_unused p) x) (\<lambda>c. cb_element cb c h)) kids h)"
proof (rule follows_children)
  fix k q h assume q: "same_pos p q"
  with assms(1) have "p_context q = c # cs" by (simp add: same_pos_def)
  from run_element [OF this assms(2), of mbslen lm cb k h] q
  show "follows p (run_events mbslen lm cb (events_of k) (q, h))
      (bindE (read_element mbslen lm (p_operation p) (p_if_unused p) k) (\<lambda>c. cb_element cb c h))"
    by (auto simp: same_pos_def follows_def split: sum.splits)
qed simp

text \<open>Between two actions no operation is set, and the flag of the last deletion is gone.\<close>

definition between :: "parser \<Rightarrow> bool" where
  "between p \<longleftrightarrow> p_context p = [ctx_top, ctx_root] \<and> \<not> p_if_unused p"

definition leads :: "(parser \<times> 'h) result \<Rightarrow> 'h result \<Rightarrow> bool" where
  "leads r s \<longleftrightarrow> (case r of Inl e \<Rightarrow> s = Inl e | Inr (q, h) \<Rightarrow> s = Inr h \<and> between q)"

lemma leads_bind:
  assumes "leads r s" "\<And>q h. between q \<Longrightarrow> leads (f (q, h)) (g h)"
  shows "leads (bindE r f) (bindE s g)"
proof (cases r)
  case (Inr x)
  obtain q h where "x = (q, h)" by (cases x)
  with Inr assms(1) assms(2) [of q h] show ?thesis by (simp add: leads_def)
qed (use assms in \<open>simp add: leads_def\<close>)

lemma run_closed_action:
  assumes ctx: "p_context p = c # [ctx_top, ctx_root]"
    and c: "(c = ctx_create \<and> name = ''create'' \<and> \<not> p_if_unused p) \<or>
            (c = ctx_modify \<and> name = ''modify'' \<and> \<not> p_if_unused p) \<or> (c = ctx_delete \<and> name = ''delete'')"
  shows "leads (bindE (run_events mbslen lm cb (concat (map events_of kids)) (p, h))
      (\<lambda>(q, h). on_end_element lm cb name (q, h)))
    (foldE (\<lambda>x h. bindE (read_element mbslen lm (p_operation p) (p_if_unused p) x) (\<lambda>c. cb_element cb c h)) kids h)"
proof -
  from c have "c = ctx_create \<or> c = ctx_modify \<or> c = ctx_delete" by blast
  from run_elements [OF ctx this, of mbslen lm cb kids h] ctx c show ?thesis
    by (auto simp: leads_def follows_def same_pos_def between_def on_end_element_def assert_element_def pop_def
        split: sum.splits)
qed

lemma run_action:
  assumes "between p"
  shows "leads (run_events mbslen lm cb (events_of k) (p, h)) (read_action mbslen lm cb k h)"
proof -
  obtain name attrs kids where k: "k = elem name attrs kids" by (cases k)
  from assms have p: "p_context p = [ctx_top, ctx_root]" "\<not> p_if_unused p" by (simp_all add: between_def)
  have tail: "foldE (on_event mbslen lm cb) [(None, end_element nm)] = (\<lambda>(q, h). on_end_element lm cb nm (q, h))" for nm
    by (rule ext) (auto simp: foldE_single simp del: foldE.simps)
  note run = run_closed_action [where mbslen = mbslen and lm = lm and cb = cb and kids = kids and h = h]
  consider "name = ''create''" | "name = ''modify''" | "name = ''delete''" |
    "name \<noteq> ''create'' \<and> name \<noteq> ''modify'' \<and> name \<noteq> ''delete''" by blast
  then show ?thesis
  proof cases
    case 1
    from run [of "(push ctx_create p)\<lparr>p_operation := op_create\<rparr>" ctx_create "''create''"] 1 p show ?thesis
      by (simp add: k start_defs foldE_append tail push_def)
  next
    case 2
    from run [of "(push ctx_modify p)\<lparr>p_operation := op_modify\<rparr>" ctx_modify "''modify''"] 2 p show ?thesis
      by (simp add: k start_defs foldE_append tail push_def)
  next
    case 3
    from run [of "(push ctx_delete p)\<lparr>p_operation := op_delete, p_if_unused := (''if-unused'' \<in> set (map fst attrs))\<rparr>"
        ctx_delete "''delete''"] 3 p show ?thesis
      by (simp add: k start_defs foldE_append tail push_def)
  next
    case 4
    with p show ?thesis by (simp add: k start_defs leads_def)
  qed
qed


lemma run_actions:
  "between p \<Longrightarrow> leads (run_events mbslen lm cb (concat (map events_of kids)) (p, h)) (foldE (read_action mbslen lm cb) kids h)"
proof (induction kids arbitrary: p h)
  case (Cons k ks)
  show ?case by (simp add: foldE_append) (rule leads_bind, rule run_action [OF Cons.prems], rule Cons.IH)
qed (simp add: leads_def)

lemma process_message_document:
  "process_message mbslen lm cb (unlocated (events_of t)) h = read_document mbslen lm cb t h"
proof -
  obtain name attrs kids where t: "t = elem name attrs kids" by (cases t)
  show ?thesis
  proof (cases "name = ''osmChange''")
    case True
    have "between (push ctx_top init_parser)" by (simp add: between_def init_parser_def push_def)
    from run_actions [OF this, of mbslen lm cb kids h]
    have run: "leads (run_events mbslen lm cb (concat (map events_of kids)) (push ctx_top init_parser, h))
      (foldE (read_action mbslen lm cb) kids h)" .
    have start: "on_start_element mbslen ''osmChange'' attrs init_parser = Inr (push ctx_top init_parser)"
      by (simp add: on_start_element_def init_parser_def)
    from True show ?thesis
    proof (cases "run_events mbslen lm cb (concat (map events_of kids)) (push ctx_top init_parser, h)")
      case (Inl e)
      with run True start show ?thesis
        by (simp add: t process_message_def unlocated_def foldE_append leads_def)
    next
      case (Inr s)
      obtain q h' where s: "s = (q, h')" by (cases s)
      with run Inr have "foldE (read_action mbslen lm cb) kids h = Inr h'" "p_context q = [ctx_top, ctx_root]"
        by (simp_all add: leads_def between_def)
      with Inr s True start show ?thesis
        by (simp add: t process_message_def unlocated_def foldE_append on_end_element_def assert_element_def bindE_assoc)
    qed
  next
    case False
    then show ?thesis by (simp add: t process_message_def unlocated_def start_defs init_parser_def)
  qed
qed


section \<open>What is handed over\<close>

text \<open>The changes of a document, as a function of it: what a callback that only collects gets.\<close>

definition collect :: "change list callback" where
  "collect = \<lparr>cb_element = (\<lambda>c cs. Inr (cs @ [c])), cb_end_document = Inr\<rparr>"

definition changes_of :: "(string \<Rightarrow> nat option) \<Rightarrow> limits \<Rightarrow> xml \<Rightarrow> change list result" where
  "changes_of mbslen lm t = process_message mbslen lm collect (unlocated (events_of t)) []"

text \<open>Reading with any callback succeeds exactly when the changes exist and the callback takes them one by one.\<close>

lemma fold_elements_collect:
  "foldE (\<lambda>x h. bindE (rd x) (\<lambda>c. cb c h)) kids h = Inr h' \<longleftrightarrow>
     (\<exists>cs. mapE rd kids = Inr cs \<and> foldE cb cs h = Inr h')"
  by (induction kids arbitrary: h) (auto simp: bindE_Inr_iff)

fun action_changes :: "(string \<Rightarrow> nat option) \<Rightarrow> limits \<Rightarrow> xml \<Rightarrow> change list result" where
  "action_changes mbslen lm (elem name attrs kids) =
     (let go = (\<lambda>op unused. mapE (read_element mbslen lm op unused) kids)
      in if name = ''create'' then go op_create False
         else if name = ''modify'' then go op_modify False
         else if name = ''delete'' then go op_delete (''if-unused'' \<in> set (map fst attrs))
         else Inl (payload_error (''Unknown action '' @ name @ '', choices are create, modify, delete'')))"

lemma read_action_Inr:
  "read_action mbslen lm cb k h = Inr h' \<longleftrightarrow>
     (\<exists>cs. action_changes mbslen lm k = Inr cs \<and> foldE (cb_element cb) cs h = Inr h')"
  by (cases k) (simp add: Let_def fold_elements_collect)

lemma read_actions_Inr:
  "foldE (read_action mbslen lm cb) kids h = Inr h' \<longleftrightarrow>
     (\<exists>css. mapE (action_changes mbslen lm) kids = Inr css \<and> foldE (cb_element cb) (concat css) h = Inr h')"
  by (induction kids arbitrary: h) (auto simp: bindE_Inr_iff read_action_Inr foldE_append)

lemma read_document_Inr:
  "read_document mbslen lm cb (elem name attrs kids) h = Inr h' \<longleftrightarrow>
     name = ''osmChange'' \<and> (\<exists>css. mapE (action_changes mbslen lm) kids = Inr css \<and>
       bindE (foldE (cb_element cb) (concat css) h) (cb_end_document cb) = Inr h')"
  by (auto simp: bindE_Inr_iff read_actions_Inr)

lemma collect_elements: "foldE (cb_element collect) cs acc = Inr (acc @ cs)"
  by (induction cs arbitrary: acc) (simp_all add: collect_def)

lemma changes_of_Inr:
  "changes_of mbslen lm (elem name attrs kids) = Inr cs \<longleftrightarrow>
     name = ''osmChange'' \<and> (\<exists>css. mapE (action_changes mbslen lm) kids = Inr css \<and> cs = concat css)"
  unfolding changes_of_def process_message_document read_document_Inr collect_elements by (auto simp: collect_def)

lemma process_message_changes:
  "process_message mbslen lm cb (unlocated (events_of t)) h = Inr h' \<longleftrightarrow>
     (\<exists>cs. changes_of mbslen lm t = Inr cs \<and> bindE (foldE (cb_element cb) cs h) (cb_end_document cb) = Inr h')"
proof (cases t)
  case (elem name attrs kids)
  show ?thesis unfolding elem process_message_document read_document_Inr changes_of_Inr by blast
qed

text \<open>Positions change messages, not outcomes.\<close>

lemma on_event_location:
  "on_event mbslen lm cb (loc, ev) s = Inr s' \<longleftrightarrow> on_event mbslen lm cb (None, ev) s = Inr s'"
  by (cases s) (auto simp: on_event_def split: sum.splits)

lemma process_message_location:
  assumes "sx_error run = None" "map snd (sx_events run) = evs"
  shows "process_message mbslen lm cb run h = Inr h' \<longleftrightarrow> process_message mbslen lm cb (unlocated evs) h = Inr h'"
proof -
  have "foldE (on_event mbslen lm cb) levs s = Inr s' \<longleftrightarrow> foldE (on_event mbslen lm cb) (map (Pair None) (map snd levs)) s = Inr s'"
    for levs s s'
  proof (induction levs arbitrary: s)
    case (Cons l levs)
    then show ?case using on_event_location [of mbslen lm cb "fst l" "snd l" s] by (auto simp: bindE_Inr_iff)
  qed simp
  then show ?thesis using assms by (auto simp: process_message_def unlocated_def bindE_Inr_iff)
qed

subsection \<open>Fields\<close>

definition fields_ok :: "'a OSMObject_scheme \<Rightarrow> bool" where
  "fields_ok ob \<longleftrightarrow>
     (\<forall>cs. o_changeset ob = Some cs \<longrightarrow> 0 < cs \<and> is_s64 cs) \<and>
     (\<forall>i. o_id ob = Some i \<longrightarrow> i \<noteq> 0 \<and> is_s64 i) \<and>
     (\<forall>v. o_version ob = Some v \<longrightarrow> is_u32 v) \<and> tags_ok (o_tags ob)"

definition version_ok :: "operation \<Rightarrow> 'a OSMObject_scheme \<Rightarrow> bool" where
  "version_ok op ob \<longleftrightarrow> (case o_version ob of None \<Rightarrow> False
     | Some v \<Rightarrow> (op = op_create \<longrightarrow> v = 0) \<and> (op = op_modify \<or> op = op_delete \<longrightarrow> 1 \<le> v))"

definition coords_ok :: "Node \<Rightarrow> bool" where
  "coords_ok n \<longleftrightarrow> (\<forall>x. o_lat n = Some x \<longrightarrow> - 90 \<le> x \<and> x \<le> 90) \<and> (\<forall>x. o_lon n = Some x \<longrightarrow> - 180 \<le> x \<and> x \<le> 180)"

definition refs_s64 :: "Way \<Rightarrow> bool" where
  "refs_s64 w \<longleftrightarrow> (\<forall>i\<in>set (o_way_nodes w). i \<noteq> 0 \<and> is_s64 i)"

definition member_ok :: "RelationMember \<Rightarrow> bool" where
  "member_ok m \<longleftrightarrow>
     (\<exists>ty. rm_type m = Some ty \<and> (ty = ''Node'' \<or> ty = ''Way'' \<or> ty = ''Relation'')) \<and>
     (\<exists>i. rm_ref m = Some i \<and> i \<noteq> 0 \<and> is_s64 i)"

lemma parse_attr_Inr: "parse_attr a b s = Inr v \<Longrightarrow> is_s64 v"
  using from_chars_s64_range [of s v] by (auto simp: parse_attr_def split: sum.splits parse_error.splits)

lemma init_object_attr_ok:
  "init_object_attr a ob = Inr ob' \<Longrightarrow> fields_ok ob \<Longrightarrow> fields_ok ob'"
  using u32_range
  by (auto simp: init_object_attr_def set_id_str_def set_id_def set_changeset_str_def set_changeset_def
      set_version_str_def set_version_def fields_ok_def result_simps dest: parse_attr_Inr split: prod.splits if_splits)

lemma init_object_ok:
  assumes "init_object op ty attrs ob = Inr ob'" "fields_ok ob" "op \<noteq> op_undefined"
  shows "fields_ok ob' \<and> version_ok op ob'"
proof -
  from assms(1) obtain ob1 where run: "foldE init_object_attr attrs ob = Inr ob1"
    and rest: "op = op_create \<and> ob' = ob1\<lparr>o_version := Some 0\<rparr> \<or>
      op \<noteq> op_create \<and> (op = op_modify \<or> op = op_delete \<longrightarrow> (\<exists>v. o_version ob1 = Some v \<and> 1 \<le> v)) \<and> ob' = ob1"
    by (auto simp: init_object_def set_version_def u32_def result_simps split: if_splits)
  have "fields_ok ob1"
    by (rule foldE_invariant [where I = fields_ok, OF run assms(2)]) (rule init_object_attr_ok)
  with rest assms(3) show ?thesis
    by (cases op) (auto simp: fields_ok_def version_ok_def is_u32_def)
qed

lemma add_tag_element_ok:
  assumes "add_tag_element mbslen ty attrs ob = Inr ob'" "fields_ok ob" "version_ok op ob"
  shows "fields_ok ob' \<and> version_ok op ob' \<and> (\<exists>ts. ob' = ob\<lparr>o_tags := ts\<rparr>)"
proof -
  from assms(1) obtain k v where add: "add_tag mbslen ty k v ob = Inr ob'"
    by (auto simp: add_tag_element_def split: option.splits)
  from add have eq: "ob' = ob\<lparr>o_tags := insort_key fst (k, v) (o_tags ob)\<rparr>"
    by (auto simp: add_tag_def result_simps)
  with add_tag_ok(1) [OF add] assms(2,3) show ?thesis
    by (auto simp: fields_ok_def version_ok_def)
qed

lemma set_lat_str_Inr: "set_lat_str s n = Inr n' \<Longrightarrow> \<exists>x. n' = n\<lparr>o_lat := Some x\<rparr> \<and> - 90 \<le> x \<and> x \<le> 90"
  unfolding set_lat_str_def bindE_Inr_iff
  by (elim exE conjE, rename_tac v, case_tac v) (auto simp: set_lat_def result_simps)

lemma set_lon_str_Inr: "set_lon_str s n = Inr n' \<Longrightarrow> \<exists>x. n' = n\<lparr>o_lon := Some x\<rparr> \<and> - 180 \<le> x \<and> x \<le> 180"
  unfolding set_lon_str_def bindE_Inr_iff
  by (elim exE conjE, rename_tac v, case_tac v) (auto simp: set_lon_def result_simps)

lemma init_node_attr_ok:
  assumes "init_node_attr a n = Inr n'" "fields_ok n \<and> version_ok op n \<and> coords_ok n"
  shows "fields_ok n' \<and> version_ok op n' \<and> coords_ok n'"
proof -
  from assms(1) have "n' = n \<or> (\<exists>x. n' = n\<lparr>o_lat := Some x\<rparr> \<and> - 90 \<le> x \<and> x \<le> 90) \<or>
      (\<exists>x. n' = n\<lparr>o_lon := Some x\<rparr> \<and> - 180 \<le> x \<and> x \<le> 180)"
    using set_lat_str_Inr set_lon_str_Inr unfolding init_node_attr_def by (auto split: prod.splits if_splits)
  with assms(2) show ?thesis by (elim disjE) (auto simp: fields_ok_def version_ok_def coords_ok_def)
qed

lemma init_node_ok:
  assumes "init_node attrs n = Inr n'" "fields_ok n \<and> version_ok op n \<and> coords_ok n"
  shows "fields_ok n' \<and> version_ok op n' \<and> coords_ok n'"
  by (rule foldE_invariant [where I = "\<lambda>n. fields_ok n \<and> version_ok op n \<and> coords_ok n",
        OF assms(1) [unfolded init_node_def] assms(2)]) (rule init_node_attr_ok)

lemma read_node_child_ok:
  assumes "read_node_child mbslen k n = Inr n'" "fields_ok n" "version_ok op n" "coords_ok n"
  shows "fields_ok n' \<and> version_ok op n' \<and> coords_ok n'"
proof (cases k)
  case (elem name attrs kids)
  with assms add_tag_element_ok [of mbslen "''Node''" attrs n n' op] show ?thesis
    by (auto simp: bindE_Inr_iff coords_ok_def split: if_splits)
qed

lemma add_way_node_str_ok:
  assumes "add_way_node_str s w = Inr w'" "fields_ok w" "version_ok op w" "refs_s64 w"
  shows "fields_ok w' \<and> version_ok op w' \<and> refs_s64 w'"
proof -
  from assms(1) obtain i where "w' = w\<lparr>o_way_nodes := o_way_nodes w @ [i]\<rparr>" "i \<noteq> 0" "is_s64 i"
    by (auto simp: add_way_node_str_def add_way_node_def result_simps dest: parse_attr_Inr)
  with assms(2-4) show ?thesis by (auto simp: fields_ok_def version_ok_def refs_s64_def)
qed

lemma add_nd_element_ok:
  assumes "add_nd_element attrs w = Inr w'" "fields_ok w" "version_ok op w" "refs_s64 w"
  shows "fields_ok w' \<and> version_ok op w' \<and> refs_s64 w'"
proof -
  from assms(1) obtain found where run: "foldE (\<lambda>(name, value) (w, found).
      if name = ''ref'' then bindE (add_way_node_str value w) (\<lambda>w. Inr (w, True)) else Inr (w, found)) attrs (w, False) = Inr (w', found)"
    by (auto simp: add_nd_element_def result_simps)
  have "(\<lambda>(w, _ :: bool). fields_ok w \<and> version_ok op w \<and> refs_s64 w) (w', found)"
    by (rule foldE_invariant [OF run])
      (use assms(2-4) add_way_node_str_ok in \<open>auto simp: bindE_Inr_iff split: if_splits prod.splits\<close>)
  then show ?thesis by simp
qed

lemma read_way_child_ok:
  assumes "read_way_child mbslen k w = Inr w'" "fields_ok w" "version_ok op w" "refs_s64 w"
  shows "fields_ok w' \<and> version_ok op w' \<and> refs_s64 w'"
proof (cases k)
  case (elem name attrs kids)
  show ?thesis
  proof (cases "name = ''nd''")
    case True
    with assms elem add_nd_element_ok [of attrs w w' op] show ?thesis by (auto simp: bindE_Inr_iff)
  next
    case False
    with assms elem add_tag_element_ok [of mbslen "''Way''" attrs w w' op] show ?thesis
      by (auto simp: bindE_Inr_iff refs_s64_def split: if_splits)
  qed
qed

lemma set_type_Inr: "set_type ty m = Inr m' \<Longrightarrow>
    (\<exists>t. (t = ''Node'' \<or> t = ''Way'' \<or> t = ''Relation'') \<and> m' = m\<lparr>rm_type := Some t\<rparr>)"
  by (auto simp: set_type_def split: if_splits)

definition partial_member_ok :: "RelationMember \<Rightarrow> bool" where
  "partial_member_ok m \<longleftrightarrow>
     (\<forall>ty. rm_type m = Some ty \<longrightarrow> ty = ''Node'' \<or> ty = ''Way'' \<or> ty = ''Relation'') \<and>
     (\<forall>i. rm_ref m = Some i \<longrightarrow> i \<noteq> 0 \<and> is_s64 i)"

lemma member_attr_ok: "member_attr mbslen a m = Inr m' \<Longrightarrow> partial_member_ok m \<Longrightarrow> partial_member_ok m'"
  by (auto simp: member_attr_def set_ref_str_def set_ref_def set_role_def partial_member_ok_def result_simps
      dest!: set_type_Inr dest: parse_attr_Inr split: if_splits prod.splits)

lemma add_member_element_ok:
  assumes "add_member_element mbslen attrs r = Inr r'"
  obtains m where "r' = r\<lparr>o_members := o_members r @ [m]\<rparr>" "member_ok m"
proof -
  from assms obtain m where run: "foldE (member_attr mbslen) attrs \<lparr>rm_role = [], rm_ref = None, rm_type = None\<rparr> = Inr m"
    and valid: "rm_type m \<noteq> None" "rm_ref m \<noteq> None" and r': "r' = r\<lparr>o_members := o_members r @ [m]\<rparr>"
    by (auto simp: add_member_element_def add_member_def member_is_valid_def result_simps)
  have "partial_member_ok m"
    by (rule foldE_invariant [OF run]) (simp add: partial_member_ok_def, rule member_attr_ok)
  with valid r' show ?thesis by (intro that [of m]) (auto simp: partial_member_ok_def member_ok_def)
qed

lemma read_relation_child_ok:
  assumes "read_relation_child mbslen k r = Inr r'" "fields_ok r" "version_ok op r" "\<forall>m\<in>set (o_members r). member_ok m"
  shows "fields_ok r' \<and> version_ok op r' \<and> (\<forall>m\<in>set (o_members r'). member_ok m)"
proof (cases k)
  case k: (elem name attrs kids)
  show ?thesis
  proof (cases "name = ''member''")
    case True
    with assms(1) k have "add_member_element mbslen attrs r = Inr r'" by (auto simp: bindE_Inr_iff)
    then obtain m where "r' = r\<lparr>o_members := o_members r @ [m]\<rparr>" "member_ok m" by (rule add_member_element_ok)
    with assms(2-4) show ?thesis by (auto simp: fields_ok_def version_ok_def)
  next
    case False
    with assms add_tag_element_ok [of mbslen "''Relation''" attrs r r' op] k show ?thesis
      by (auto simp: bindE_Inr_iff split: if_splits)
  qed
qed


subsection \<open>Changes\<close>

definition object_ok :: "limits \<Rightarrow> operation \<Rightarrow> 'a OSMObject_scheme \<Rightarrow> bool" where
  "object_ok lm op ob \<longleftrightarrow> op \<noteq> op_undefined \<and> fields_ok ob \<and> version_ok op ob \<and> o_changeset ob \<noteq> None \<and>
     (case o_id ob of None \<Rightarrow> False | Some i \<Rightarrow> op = op_create \<longrightarrow> i < 0) \<and>
     (case element_max_tags lm of None \<Rightarrow> True | Some m \<Rightarrow> length (o_tags ob) \<le> m)"

fun change_valid :: "limits \<Rightarrow> change \<Rightarrow> bool" where
  "change_valid lm (change_node n op unused) \<longleftrightarrow> object_ok lm op n \<and> coords_ok n \<and>
     (op \<noteq> op_delete \<longrightarrow> o_lat n \<noteq> None \<and> o_lon n \<noteq> None)"
| "change_valid lm (change_way w op unused) \<longleftrightarrow> object_ok lm op w \<and> refs_s64 w \<and>
     (op \<noteq> op_delete \<longrightarrow> o_way_nodes w \<noteq> [] \<and> length (o_way_nodes w) \<le> way_max_nodes lm)"
| "change_valid lm (change_relation r op unused) \<longleftrightarrow> object_ok lm op r \<and> (\<forall>m\<in>set (o_members r). member_ok m)"

lemma object_is_valid_ok:
  "object_is_valid lm op ob = Inr True \<Longrightarrow> op \<noteq> op_undefined \<Longrightarrow> fields_ok ob \<Longrightarrow> version_ok op ob \<Longrightarrow>
     object_ok lm op ob"
  by (auto simp: object_is_valid_def object_ok_def Let_def result_simps split: option.splits)

lemma new_objects_ok:
  "fields_ok new_node" "fields_ok new_way" "fields_ok new_relation"
  by (simp_all add: fields_ok_def new_node_def new_way_def new_relation_def tags_ok_def)

text \<open>The attributes all objects share leave the rest of the object alone.\<close>

lemma init_object_more:
  assumes "init_object op ty attrs ob = Inr ob'"
  shows "OSMObject.more ob' = OSMObject.more ob"
proof -
  from assms obtain ob1 where run: "foldE init_object_attr attrs ob = Inr ob1"
    and rest: "OSMObject.more ob' = OSMObject.more ob1"
    by (auto simp: init_object_def set_version_def result_simps split: if_splits)
  have "OSMObject.more ob1 = OSMObject.more ob"
    by (rule foldE_invariant [where I = "\<lambda>x. OSMObject.more x = OSMObject.more ob", OF run])
      (auto simp: init_object_attr_def set_id_str_def set_id_def set_changeset_str_def set_changeset_def
        set_version_str_def set_version_def result_simps split: if_splits)
  with rest show ?thesis by simp
qed

lemma same_more:
  "OSMObject.more n = OSMObject.more n' \<Longrightarrow> o_lat n = o_lat n' \<and> o_lon n = o_lon n'"
  "OSMObject.more w = OSMObject.more w' \<Longrightarrow> o_way_nodes w = o_way_nodes w'"
  "OSMObject.more r = OSMObject.more r' \<Longrightarrow> o_members r = o_members r'"
  by (cases n, cases n', simp) (cases w, cases w', simp, cases r, cases r', simp)

lemma read_element_node:
  assumes "op \<noteq> op_undefined" "init_object op ''Node'' attrs new_node = Inr n0" "init_node attrs n0 = Inr n1"
    "foldE (read_node_child mbslen) kids n1 = Inr n" "node_is_valid lm op n = Inr True"
  shows "change_valid lm (change_node n op unused)"
proof -
  from same_more(1) [OF init_object_more [OF assms(2)]] have "coords_ok n0"
    by (simp add: coords_ok_def new_node_def)
  with init_object_ok [OF assms(2) new_objects_ok(1) assms(1)]
  have "fields_ok n0 \<and> version_ok op n0 \<and> coords_ok n0" by blast
  from init_node_ok [OF assms(3) this] have "fields_ok n1 \<and> version_ok op n1 \<and> coords_ok n1" .
  then have "fields_ok n \<and> version_ok op n \<and> coords_ok n"
    by (rule foldE_invariant [where I = "\<lambda>n. fields_ok n \<and> version_ok op n \<and> coords_ok n", OF assms(4)])
      (use read_node_child_ok in blast)
  with node_is_valid_True [OF assms(5)] object_is_valid_ok [of lm op n] assms(1) show ?thesis by simp
qed


lemma read_element_way:
  assumes "op \<noteq> op_undefined" "init_object op ''Way'' attrs new_way = Inr w0"
    "foldE (read_way_child mbslen) kids w0 = Inr w" "way_is_valid lm op w = Inr True"
  shows "change_valid lm (change_way w op unused)"
proof -
  from same_more(2) [OF init_object_more [OF assms(2)]] have "refs_s64 w0"
    by (simp add: refs_s64_def new_way_def)
  with init_object_ok [OF assms(2) new_objects_ok(2) assms(1)]
  have "fields_ok w0 \<and> version_ok op w0 \<and> refs_s64 w0" by blast
  then have "fields_ok w \<and> version_ok op w \<and> refs_s64 w"
    by (rule foldE_invariant [where I = "\<lambda>w. fields_ok w \<and> version_ok op w \<and> refs_s64 w", OF assms(3)])
      (use read_way_child_ok in blast)
  with way_is_valid_True [OF assms(4)] object_is_valid_ok [of lm op w] assms(1) show ?thesis by simp
qed

lemma read_element_relation:
  assumes "op \<noteq> op_undefined" "init_object op ''Relation'' attrs new_relation = Inr r0"
    "foldE (read_relation_child mbslen) kids r0 = Inr r" "relation_is_valid lm op r = Inr True"
  shows "change_valid lm (change_relation r op unused)"
proof -
  from same_more(3) [OF init_object_more [OF assms(2)]] have "o_members r0 = []" by (simp add: new_relation_def)
  with init_object_ok [OF assms(2) new_objects_ok(3) assms(1)]
  have "fields_ok r0 \<and> version_ok op r0 \<and> (\<forall>m\<in>set (o_members r0). member_ok m)" by simp
  then have "fields_ok r \<and> version_ok op r \<and> (\<forall>m\<in>set (o_members r). member_ok m)"
    by (rule foldE_invariant [where I = "\<lambda>r. fields_ok r \<and> version_ok op r \<and> (\<forall>m\<in>set (o_members r). member_ok m)", OF assms(3)])
      (use read_relation_child_ok in blast)
  with relation_is_valid_True [OF assms(4)] object_is_valid_ok [of lm op r] assms(1) show ?thesis by simp
qed

lemma read_element_valid:
  assumes "read_element mbslen lm op unused k = Inr c" "op \<noteq> op_undefined"
  shows "change_valid lm c"
proof (cases k)
  case (elem name attrs kids)
  with assms show ?thesis
    by (auto simp: checked_def result_simps split: if_splits
        intro: read_element_node read_element_way read_element_relation)
qed

lemma action_changes_valid:
  assumes "action_changes mbslen lm k = Inr cs" "c \<in> set cs"
  shows "change_valid lm c"
proof (cases k)
  case (elem name attrs kids)
  with assms obtain op unused x where "op \<noteq> op_undefined" "read_element mbslen lm op unused x = Inr c"
    by (auto simp: Let_def split: if_splits dest!: mapE_Inr_set)
  then show ?thesis by (blast intro: read_element_valid)
qed

lemma changes_of_valid:
  assumes "changes_of mbslen lm t = Inr cs" "c \<in> set cs"
  shows "change_valid lm c"
proof (cases t)
  case (elem name attrs kids)
  with assms obtain css where "mapE (action_changes mbslen lm) kids = Inr css" "c \<in> set (concat css)"
    by (auto simp: changes_of_Inr)
  then show ?thesis by (auto dest: mapE_Inr_set action_changes_valid)
qed

section \<open>Errors of the parser\<close>

text \<open>What the parser itself throws is the client's fault.\<close>

fun client_error :: "exn \<Rightarrow> bool" where
  "client_error (payload_error _) = True"
| "client_error (bad_request _) = True"
| "client_error (precondition_failed _) = True"
| "client_error _ = False"

definition blames_client :: "'a result \<Rightarrow> bool" where
  "blames_client r \<longleftrightarrow> (\<forall>e. r = Inl e \<longrightarrow> client_error e)"

named_theorems blames \<open>rules for results whose errors are the client's fault\<close>

lemma blames_Inr [blames]: "blames_client (Inr x)" by (simp add: blames_client_def)

lemma blames_Inl [blames]: "client_error e \<Longrightarrow> blames_client (Inl e)" by (simp add: blames_client_def)

lemma blames_throw [blames]: "client_error e \<Longrightarrow> blames_client (throw_if c e)"
  by (simp add: blames_client_def throw_if_def)

lemma blames_bind [blames]:
  "blames_client m \<Longrightarrow> (\<And>x. m = Inr x \<Longrightarrow> blames_client (f x)) \<Longrightarrow> blames_client (bindE m f)"
  by (cases m) (simp_all add: blames_client_def)

lemma blames_if [blames]: "(c \<Longrightarrow> blames_client a) \<Longrightarrow> (\<not> c \<Longrightarrow> blames_client b) \<Longrightarrow> blames_client (if c then a else b)"
  by simp

lemma blames_deref [blames]: "v \<noteq> None \<Longrightarrow> blames_client (deref v)"
  by (auto simp: blames_client_def deref_def)

lemma blames_fold [blames]: "(\<And>x s. blames_client (f x s)) \<Longrightarrow> blames_client (foldE f xs s)"
  by (induction xs arbitrary: s) (auto intro: blames)

lemma blames_map [blames]: "(\<And>x. x \<in> set xs \<Longrightarrow> blames_client (f x)) \<Longrightarrow> blames_client (mapE f xs)"
  by (induction xs) (auto intro!: blames)

lemma blames_parse [blames]: "blames_client (parse_attr a b s)" "blames_client (parse_double a b s)"
  "blames_client (unicode_strlen mbslen s)"
  by (auto simp: parse_attr_def parse_double_def unicode_strlen_def intro!: blames
      split: sum.split parse_error.split option.split)

lemma blames_coord [blames]: "blames_client (set_lat v n)" "blames_client (set_lon v n)"
  by (cases v; auto simp: set_lat_def set_lon_def intro!: blames)+

lemmas setter_defs = set_id_str_def set_id_def set_changeset_str_def set_changeset_def set_version_str_def set_version_def
  set_lat_str_def set_lon_str_def add_way_node_str_def add_way_node_def set_type_def set_ref_str_def
  set_ref_def set_role_def add_tag_def add_member_def member_is_valid_def

lemma blames_attrs [blames]:
  "blames_client (init_object_attr a ob)" "blames_client (init_node_attr a n)" "blames_client (member_attr mbslen a m)"
  by (auto simp: init_object_attr_def init_node_attr_def member_attr_def setter_defs intro!: blames
      split: prod.split)


lemma blames_elements [blames]:
  "blames_client (add_tag_element mbslen ty attrs ob)" "blames_client (add_nd_element attrs w)"
  "blames_client (add_member_element mbslen attrs r)" "blames_client (init_node attrs n)"
  by (auto simp: add_tag_element_def add_nd_element_def add_member_element_def init_node_def setter_defs
      intro!: blames split: prod.split option.split)

lemma blames_init_object [blames]: "blames_client (init_object op ty attrs ob)"
  unfolding init_object_def set_version_def by (auto simp: throw_if_Inr intro!: blames)

lemma blames_children [blames]:
  "blames_client (read_node_child mbslen k n)" "blames_client (read_way_child mbslen k w)"
  "blames_client (read_relation_child mbslen k r)"
  by (cases k; auto simp: no_kids_def intro!: blames)+

lemma blames_valid [blames]:
  "blames_client (node_is_valid lm op n)" "blames_client (way_is_valid lm op w)" "blames_client (relation_is_valid lm op r)"
  by (auto simp: node_is_valid_def way_is_valid_def relation_is_valid_def object_is_valid_def Let_def
      intro!: blames split: option.split)

lemma blames_read_element [blames]: "blames_client (read_element mbslen lm op unused k)"
  by (cases k) (auto simp: checked_def missing_fields_def intro!: blames)

lemma blames_read_document:
  assumes "\<And>c h. blames_client (cb_element cb c h)" "\<And>h. blames_client (cb_end_document cb h)"
  shows "blames_client (read_document mbslen lm cb t h)"
proof -
  have "blames_client (read_action mbslen lm cb k h)" for k h
    by (cases k) (auto simp: Let_def intro!: blames assms)
  then show ?thesis by (cases t) (auto intro!: blames assms)
qed

end
