(* ===== verification/Changeset_Frame.thy ===== *)
theory Changeset_Frame
  imports OSMChange_Handler
begin

text \<open>
  What processing elements leaves alone: the tables of the changesets, which only
  \<^verbatim>\<open>ApiDB_Changeset_Updater\<close> writes, and the time of the transaction.
\<close>

definition cs_view :: "db \<Rightarrow> changeset_row list \<times> tag_row list \<times> (int \<times> int) list \<times> (int \<times> int option) list \<times> int \<times> int" where
  "cs_view d = (changesets d, changeset_tags d, changesets_subscribers d, users_changesets_count d,
                changeset_id_seq d, db_now d)"

lemma cs_view_update [simp]:
  "cs_view (d\<lparr>current_nodes := x_current_nodes\<rparr>) = cs_view d"
  "cs_view (d\<lparr>current_node_tags := x_current_node_tags\<rparr>) = cs_view d"
  "cs_view (d\<lparr>nodes_tbl := x_nodes_tbl\<rparr>) = cs_view d"
  "cs_view (d\<lparr>node_tags_tbl := x_node_tags_tbl\<rparr>) = cs_view d"
  "cs_view (d\<lparr>current_ways := x_current_ways\<rparr>) = cs_view d"
  "cs_view (d\<lparr>current_way_tags := x_current_way_tags\<rparr>) = cs_view d"
  "cs_view (d\<lparr>current_way_nodes := x_current_way_nodes\<rparr>) = cs_view d"
  "cs_view (d\<lparr>ways_tbl := x_ways_tbl\<rparr>) = cs_view d"
  "cs_view (d\<lparr>way_tags_tbl := x_way_tags_tbl\<rparr>) = cs_view d"
  "cs_view (d\<lparr>way_nodes_tbl := x_way_nodes_tbl\<rparr>) = cs_view d"
  "cs_view (d\<lparr>current_relations := x_current_relations\<rparr>) = cs_view d"
  "cs_view (d\<lparr>current_relation_tags := x_current_relation_tags\<rparr>) = cs_view d"
  "cs_view (d\<lparr>current_relation_members := x_current_relation_members\<rparr>) = cs_view d"
  "cs_view (d\<lparr>relations_tbl := x_relations_tbl\<rparr>) = cs_view d"
  "cs_view (d\<lparr>relation_tags_tbl := x_relation_tags_tbl\<rparr>) = cs_view d"
  "cs_view (d\<lparr>relation_members_tbl := x_relation_members_tbl\<rparr>) = cs_view d"
  "cs_view (d\<lparr>node_id_seq := x_node_id_seq\<rparr>) = cs_view d"
  "cs_view (d\<lparr>way_id_seq := x_way_id_seq\<rparr>) = cs_view d"
  "cs_view (d\<lparr>relation_id_seq := x_relation_id_seq\<rparr>) = cs_view d"
  by (simp_all add: cs_view_def)

named_theorems keeps \<open>steps that keep the view\<close>

lemma keeps_nodes [keeps]:
  "insert_new_nodes_to_current_table xs (d, ct) = Inr (d', ct') \<Longrightarrow> cs_view d' = cs_view d"
  "update_current_nodes xs (d, ct) = Inr (d', ct') \<Longrightarrow> cs_view d' = cs_view d"
  "delete_current_nodes xs (d, ct) = Inr (d', ct') \<Longrightarrow> cs_view d' = cs_view d"
  "insert_new_current_node_tags xs d = Inr (ids, d') \<Longrightarrow> cs_view d' = cs_view d"
  "save_current_nodes_to_history js d = Inr d' \<Longrightarrow> cs_view d' = cs_view d"
  "save_current_node_tags_to_history js d = Inr d' \<Longrightarrow> cs_view d' = cs_view d"
  by (auto simp: insert_new_nodes_to_current_table_def update_current_nodes_def delete_current_nodes_def insert_new_current_node_tags_def save_current_nodes_to_history_def save_current_node_tags_to_history_def
      Let_def result_simps split: if_splits prod.splits)

lemma keeps_delete_nodes [simp]:
  "cs_view (delete_current_node_tags ids d) = cs_view d"
  by (simp_all add: delete_current_node_tags_def)

lemma keeps_modify_nodes_package [keeps]:
  "modify_nodes_package xs (d, ct, bb) = Inr (d', ct', bb') \<Longrightarrow> cs_view d' = cs_view d"
  by (auto simp: modify_nodes_package_def Let_def result_simps split: prod.splits dest!: keeps)

lemma keeps_modify_nodes_packages [keeps]:
  "foldE (modify_nodes_package) ps (d, ct, bb) = Inr (d', ct', bb') \<Longrightarrow> cs_view d' = cs_view d"
proof (induction ps arbitrary: d ct bb)
  case (Cons p ps)
  then obtain d1 ct1 bb1 where "modify_nodes_package p (d, ct, bb) = Inr (d1, ct1, bb1)"
    "foldE (modify_nodes_package) ps (d1, ct1, bb1) = Inr (d', ct', bb')" by (auto simp: result_simps)
  with Cons.IH [of d1 ct1 bb1] show ?case by (auto dest: keeps)
qed simp

lemma keeps_process_nodes [keeps]:
  "process_new_nodes (d, ct, u) = Inr (d', ct', u') \<Longrightarrow> cs_view d' = cs_view d"
  "process_modify_nodes (d, ct, u) = Inr (d', ct', u') \<Longrightarrow> cs_view d' = cs_view d"
  "process_delete_nodes (d, ct, u) = Inr (d', ct', u') \<Longrightarrow> cs_view d' = cs_view d"
  by (auto simp: process_new_nodes_def process_modify_nodes_def process_delete_nodes_def Let_def result_simps
      split: prod.splits dest!: keeps)

lemma keeps_ways [keeps]:
  "insert_new_ways_to_current_table xs (d, ct) = Inr (d', ct') \<Longrightarrow> cs_view d' = cs_view d"
  "update_current_ways xs vis (d, ct) = Inr (d', ct') \<Longrightarrow> cs_view d' = cs_view d"
  "insert_new_current_way_tags xs d = Inr (ids, d') \<Longrightarrow> cs_view d' = cs_view d"
  "insert_new_current_way_nodes xs d = Inr d' \<Longrightarrow> cs_view d' = cs_view d"
  "save_current_ways_to_history js d = Inr d' \<Longrightarrow> cs_view d' = cs_view d"
  "save_current_way_tags_to_history js d = Inr d' \<Longrightarrow> cs_view d' = cs_view d"
  "save_current_way_nodes_to_history js d = Inr d' \<Longrightarrow> cs_view d' = cs_view d"
  by (auto simp: insert_new_ways_to_current_table_def update_current_ways_def insert_new_current_way_tags_def insert_new_current_way_nodes_def save_current_ways_to_history_def save_current_way_tags_to_history_def save_current_way_nodes_to_history_def
      Let_def result_simps split: if_splits prod.splits)

lemma keeps_delete_ways [simp]:
  "cs_view (delete_current_way_tags ids d) = cs_view d"
  "cs_view (delete_current_way_nodes ids d) = cs_view d"
  by (simp_all add: delete_current_way_tags_def delete_current_way_nodes_def)

lemma keeps_modify_ways_package [keeps]:
  "modify_ways_package all_ids xs (d, ct, bb) = Inr (d', ct', bb') \<Longrightarrow> cs_view d' = cs_view d"
  by (auto simp: modify_ways_package_def Let_def result_simps split: prod.splits dest!: keeps)

lemma keeps_modify_ways_packages [keeps]:
  "foldE (modify_ways_package all_ids) ps (d, ct, bb) = Inr (d', ct', bb') \<Longrightarrow> cs_view d' = cs_view d"
proof (induction ps arbitrary: d ct bb)
  case (Cons p ps)
  then obtain d1 ct1 bb1 where "modify_ways_package all_ids p (d, ct, bb) = Inr (d1, ct1, bb1)"
    "foldE (modify_ways_package all_ids) ps (d1, ct1, bb1) = Inr (d', ct', bb')" by (auto simp: result_simps)
  with Cons.IH [of d1 ct1 bb1] show ?case by (auto dest: keeps)
qed simp

lemma keeps_process_ways [keeps]:
  "process_new_ways (d, ct, u) = Inr (d', ct', u') \<Longrightarrow> cs_view d' = cs_view d"
  "process_modify_ways (d, ct, u) = Inr (d', ct', u') \<Longrightarrow> cs_view d' = cs_view d"
  "process_delete_ways (d, ct, u) = Inr (d', ct', u') \<Longrightarrow> cs_view d' = cs_view d"
  by (auto simp: process_new_ways_def process_modify_ways_def process_delete_ways_def Let_def result_simps
      split: prod.splits dest!: keeps)

lemma keeps_relations [keeps]:
  "insert_new_relations_to_current_table xs (d, ct) = Inr (d', ct') \<Longrightarrow> cs_view d' = cs_view d"
  "update_current_relations xs vis (d, ct) = Inr (d', ct') \<Longrightarrow> cs_view d' = cs_view d"
  "insert_new_current_relation_tags xs d = Inr (ids, d') \<Longrightarrow> cs_view d' = cs_view d"
  "insert_new_current_relation_members xs d = Inr d' \<Longrightarrow> cs_view d' = cs_view d"
  "save_current_relations_to_history js d = Inr d' \<Longrightarrow> cs_view d' = cs_view d"
  "save_current_relation_tags_to_history js d = Inr d' \<Longrightarrow> cs_view d' = cs_view d"
  "save_current_relation_members_to_history js d = Inr d' \<Longrightarrow> cs_view d' = cs_view d"
  by (auto simp: insert_new_relations_to_current_table_def update_current_relations_def insert_new_current_relation_tags_def insert_new_current_relation_members_def save_current_relations_to_history_def save_current_relation_tags_to_history_def save_current_relation_members_to_history_def
      Let_def result_simps split: if_splits prod.splits)

lemma keeps_delete_relations [simp]:
  "cs_view (delete_current_relation_tags ids d) = cs_view d"
  "cs_view (delete_current_relation_members ids d) = cs_view d"
  by (simp_all add: delete_current_relation_tags_def delete_current_relation_members_def)

lemma keeps_modify_relations_package [keeps]:
  "modify_relations_package all_ids xs (d, ct, bb) = Inr (d', ct', bb') \<Longrightarrow> cs_view d' = cs_view d"
  by (auto simp: modify_relations_package_def Let_def result_simps split: prod.splits dest!: keeps)

lemma keeps_modify_relations_packages [keeps]:
  "foldE (modify_relations_package all_ids) ps (d, ct, bb) = Inr (d', ct', bb') \<Longrightarrow> cs_view d' = cs_view d"
proof (induction ps arbitrary: d ct bb)
  case (Cons p ps)
  then obtain d1 ct1 bb1 where "modify_relations_package all_ids p (d, ct, bb) = Inr (d1, ct1, bb1)"
    "foldE (modify_relations_package all_ids) ps (d1, ct1, bb1) = Inr (d', ct', bb')" by (auto simp: result_simps)
  with Cons.IH [of d1 ct1 bb1] show ?case by (auto dest: keeps)
qed simp

lemma keeps_process_relations [keeps]:
  "process_new_relations (d, ct, u) = Inr (d', ct', u') \<Longrightarrow> cs_view d' = cs_view d"
  "process_modify_relations (d, ct, u) = Inr (d', ct', u') \<Longrightarrow> cs_view d' = cs_view d"
  "process_delete_relations (d, ct, u) = Inr (d', ct', u') \<Longrightarrow> cs_view d' = cs_view d"
  by (auto simp: process_new_relations_def process_modify_relations_def process_delete_relations_def Let_def result_simps
      split: prod.splits dest!: keeps)

section \<open>The handler\<close>

lemmas with_defs = with_nodes_def with_ways_def with_relations_def

lemma keeps_request [keeps]:
  "request r (d, ct, u) = Inr (d', ct', u') \<Longrightarrow> cs_view d' = cs_view d"
  by (auto simp: request_def result_simps split: prod.splits)

lemma keeps_handle_new_state [keeps]: "handle_new_state s h = Inr h' \<Longrightarrow> cs_view (h_db h') = cs_view (h_db h)"
  unfolding handle_new_state_def process_buffers_def
  by (cases "h_state h") (auto simp: with_defs result_simps split: if_splits prod.splits dest!: keeps)

lemma keeps_process_change [keeps]: "process_change lm c h = Inr h' \<Longrightarrow> cs_view (h_db h') = cs_view (h_db h)"
  by (cases c)
    (auto simp: process_node_def process_way_def process_relation_def with_defs result_simps
      split: operation.splits prod.splits dest!: keeps)

lemma keeps_process_document:
  assumes "process_document lm cs h = Inr h'"
  shows "cs_view (h_db h') = cs_view (h_db h)"
proof -
  from assms obtain h1 where h1: "foldE (process_change lm) cs h = Inr h1" "handle_new_state st_finished h1 = Inr h'"
    by (auto simp: process_document_def finish_processing_def result_simps)
  have "cs_view (h_db h1) = cs_view (h_db h)"
    by (rule foldE_invariant [OF h1(1)]) (auto dest: keeps)
  with keeps_handle_new_state [OF h1(2)] show ?thesis by simp
qed

end
