(* ===== verification/Upload.thy ===== *)
theory Upload
  imports Handler_Correct OSMChange_XML_Correct Changeset_Frame
begin

text \<open>
  \<^verbatim>\<open>changeset_upload_responder\<close> (\<^verbatim>\<open>src/api06/changeset_upload_handler.cpp\<close>): the whole upload,
  from the lock on the changeset to the commit, and the limits of
  \<^verbatim>\<open>src/backend/apidb/pgsql_update.cpp\<close> it asks for. Every statement runs in one transaction:
  an exception leaves the database as it was.
\<close>

section \<open>The responder\<close>

text \<open>
  \<open>up_api_rate_limit\<close> and \<open>up_api_size_limit\<close> stand for the functions of that name in the
  database, with no value when they return no row.
\<close>

record upload_env =
  up_cs :: cs_env
  up_limits :: limits
  up_mbslen :: "string \<Rightarrow> nat option"
  up_ratelimiter :: bool
  up_api_rate_limit :: "osm_user_id_t \<Rightarrow> int option"
  up_bbox_size_limiter :: bool
  up_api_size_limit :: "osm_user_id_t \<Rightarrow> int option"

definition get_rate_limit :: "upload_env \<Rightarrow> osm_user_id_t \<Rightarrow> int result" where
  "get_rate_limit env uid =
     (case up_api_rate_limit env uid of
        None \<Rightarrow> Inl (server_error ''api_rate_limit db function did not return any data'')
      | Some v \<Rightarrow> Inr (max 0 v))"

definition get_bbox_size_limit :: "upload_env \<Rightarrow> osm_user_id_t \<Rightarrow> int result" where
  "get_bbox_size_limit env uid =
     (case up_api_size_limit env uid of
        None \<Rightarrow> Inl (server_error ''api_size_limit db function did not return any data'')
      | Some v \<Rightarrow> Inr (if v < 0 then 0 else v))"

definition check_rate_limit :: "upload_env \<Rightarrow> int \<Rightarrow> unit result" where
  "check_rate_limit env new_changes =
     (if up_ratelimiter env then
        bindE (get_rate_limit env (user_id (up_cs env))) (\<lambda>max_changes.
        throw_if (new_changes > max_changes)
          (too_many_requests ''Upload has been blocked due to rate limiting. Please try again later.''))
      else Inr ())"

text \<open>The size is a \<^verbatim>\<open>long\<close> and the limit unsigned: the comparison is unsigned.\<close>

definition check_bbox_size :: "upload_env \<Rightarrow> bbox_t \<Rightarrow> unit result" where
  "check_bbox_size env b =
     (if up_bbox_size_limiter env \<and> b \<noteq> default_bbox then
        bindE (get_bbox_size_limit env (user_id (up_cs env))) (\<lambda>max_bbox_size.
        throw_if (u64 (linear_size b) > max_bbox_size)
          (payload_too_large ''Changeset bounding box size limit exceeded.''))
      else Inr ())"

definition changeset_upload_responder ::
    "upload_env \<Rightarrow> bool \<Rightarrow> osm_changeset_id_t \<Rightarrow> sax_run \<Rightarrow> db \<Rightarrow> (diffresult_t list \<times> db) result" where
  "changeset_upload_responder env json changeset payload d =
     bindE (throw_if (env_user (up_cs env) = None) (server_error ''Cannot upload to changeset - no user id'')) (\<lambda>_.
     bindE (init_changeset_updater (up_cs env) changeset) (\<lambda>u.
     bindE (lock_current_changeset (up_cs env) True u d) (\<lambda>u1.
     bindE (if json then Inr (init_handler changeset d)
            else process_message (up_mbslen env) (up_limits env) (handler_callback (up_limits env)) payload
                   (init_handler changeset d)) (\<lambda>h.
     bindE (assemble_diffresult (h_ct h)) (\<lambda>diffresult.
     bindE (check_rate_limit env (get_total (get_stats h))) (\<lambda>_.
     bindE (update_changeset (up_cs env) (get_stats h) (get_bbox h) u1 (h_db h)) (\<lambda>(u2, d2).
     bindE (check_bbox_size env (cs_bbox u2)) (\<lambda>_.
     Inr (diffresult, d2)))))))))"

text \<open>The transaction is committed at the very end, and rolled back by an exception.\<close>

definition upload_transaction ::
    "upload_env \<Rightarrow> bool \<Rightarrow> osm_changeset_id_t \<Rightarrow> sax_run \<Rightarrow> db \<Rightarrow> diffresult_t list result \<times> db" where
  "upload_transaction env json changeset payload d =
     (case changeset_upload_responder env json changeset payload d of
        Inl e \<Rightarrow> (Inl e, d)
      | Inr (diffresult, d') \<Rightarrow> (Inr diffresult, d'))"

section \<open>What a successful upload did\<close>

lemma db_ok_view:
  assumes "update_changeset env new bbox u d = Inr (u', d')"
  shows "db_ok d' = db_ok d"
proof -
  from assms obtain cs where "d' = d\<lparr>changesets := cs\<rparr>"
    by (auto simp: update_changeset_def changeset_update_enhanced_stats_def update_changeset_row_def Let_def
        result_simps split: if_splits)
  then show ?thesis by (simp add: db_ok_defs)
qed

lemma upload_Inr:
  assumes "changeset_upload_responder env False changeset payload d = Inr (rows, d')"
  obtains u u1 h u2 where
    "init_changeset_updater (up_cs env) changeset = Inr u" "lock_current_changeset (up_cs env) True u d = Inr u1"
    "process_message (up_mbslen env) (up_limits env) (handler_callback (up_limits env)) payload (init_handler changeset d) = Inr h"
    "assemble_diffresult (h_ct h) = Inr rows" "check_rate_limit env (get_total (get_stats h)) = Inr ()"
    "update_changeset (up_cs env) (get_stats h) (get_bbox h) u1 (h_db h) = Inr (u2, d')"
    "check_bbox_size env (cs_bbox u2) = Inr ()"
  using assms by (auto simp: changeset_upload_responder_def result_simps)

text \<open>The payload of a well-formed document, with whatever positions.\<close>

definition payload_of :: "xml \<Rightarrow> sax_run \<Rightarrow> bool" where
  "payload_of t payload \<longleftrightarrow> sx_error payload = None \<and> map snd (sx_events payload) = events_of t"

lemma upload_document:
  assumes "process_message mbslen lm (handler_callback lm) payload h = Inr h'" "payload_of t payload"
  obtains cs where "changes_of mbslen lm t = Inr cs" "process_document lm cs h = Inr h'"
proof -
  from assms have "process_message mbslen lm (handler_callback lm) (unlocated (events_of t)) h = Inr h'"
    by (simp add: payload_of_def process_message_location)
  then obtain cs where "changes_of mbslen lm t = Inr cs"
    "bindE (foldE (process_change lm) cs h) finish_processing = Inr h'"
    unfolding process_message_changes by (auto simp: handler_callback_def)
  then show ?thesis by (intro that) (simp_all add: process_document_def)
qed

text \<open>
  What the message may assume about ids: a modified or deleted element exists from before, so
  that its id is not beyond the sequence, or is named by its placeholder; deletions of
  relations agree on the if-unused flag.
\<close>

fun change_names :: "(object_type \<Rightarrow> int) \<Rightarrow> bool \<Rightarrow> change \<Rightarrow> bool" where
  "change_names s0 unused (change_node n op flag) \<longleftrightarrow>
     (op = op_modify \<or> op = op_delete \<longrightarrow> (case o_id n of None \<Rightarrow> True | Some i \<Rightarrow> i \<le> s0 ot_node))"
| "change_names s0 unused (change_way w op flag) \<longleftrightarrow>
     (op = op_modify \<or> op = op_delete \<longrightarrow> (case o_id w of None \<Rightarrow> True | Some i \<Rightarrow> i \<le> s0 ot_way))"
| "change_names s0 unused (change_relation r op flag) \<longleftrightarrow>
     (op = op_modify \<or> op = op_delete \<longrightarrow> (case o_id r of None \<Rightarrow> True | Some i \<Rightarrow> i \<le> s0 ot_relation)) \<and>
     (op = op_delete \<longrightarrow> flag = unused)"

lemma change_names_ok: "change_names s0 unused c \<Longrightarrow> change_valid lm c \<Longrightarrow> change_ok s0 unused c"
  by (cases c) (auto simp: names_ok_def object_ok_def fields_ok_def split: option.splits)

lemma upload_ok:
  assumes run: "changeset_upload_responder env False changeset payload d = Inr (rows, d')"
    and t: "payload_of t payload" and ok: "db_ok d"
    and names: "\<And>cs c. changes_of (up_mbslen env) (up_limits env) t = Inr cs \<Longrightarrow> c \<in> set cs \<Longrightarrow>
      change_names (\<lambda>t. id_seq t d) unused c"
  obtains cs h where "changes_of (up_mbslen env) (up_limits env) t = Inr cs"
    "process_document (up_limits env) cs (init_handler changeset d) = Inr h"
    "db_ok d'" "list_all2 (row_describes (h_ct h)) (map message_item cs) rows"
    "\<forall>item\<in>set (map message_item cs). accounted (h_ct h) item"
proof -
  from run obtain u u1 h u2 where
    h: "process_message (up_mbslen env) (up_limits env) (handler_callback (up_limits env)) payload (init_handler changeset d) = Inr h"
    and rows: "assemble_diffresult (h_ct h) = Inr rows"
    and upd: "update_changeset (up_cs env) (get_stats h) (get_bbox h) u1 (h_db h) = Inr (u2, d')"
    by (rule upload_Inr)
  from upload_document [OF h t] obtain cs where cs: "changes_of (up_mbslen env) (up_limits env) t = Inr cs"
    and doc: "process_document (up_limits env) cs (init_handler changeset d) = Inr h" .
  have "\<forall>c\<in>set cs. change_ok (\<lambda>t. id_seq t d) unused c"
    using names [OF cs] changes_of_valid [OF cs] change_names_ok by blast
  from process_document_ok [OF doc init_handler_ok [OF ok] init_handler_buffers(2) this]
  have inv: "upload_inv (\<lambda>t. id_seq t d) (h_db h) (h_ct h)" and seq: "message_so_far h = map message_item cs"
    and acc: "\<forall>item\<in>set (message_so_far h). accounted (h_ct h) item"
    by (simp_all add: init_handler_def empty_tracking_def)
  show ?thesis
  proof (rule that [OF cs doc])
    show "db_ok d'" using inv db_ok_view [OF upd] by (simp add: upload_inv_def)
    show "list_all2 (row_describes (h_ct h)) (map message_item cs) rows"
      using assemble_diffresult_rows [OF rows] seq by simp
    show "\<forall>item\<in>set (map message_item cs). accounted (h_ct h) item" using acc seq by simp
  qed
qed


section \<open>The changeset of an upload\<close>

lemma single_cs_row:
  "filter (\<lambda>c. c_id c = i) (changesets d) = [c] \<Longrightarrow> cs_row i d = Some c"
  unfolding cs_row_def by (rule single_filter)

lemma upload_changeset:
  assumes run: "changeset_upload_responder env False changeset payload d = Inr (rows, d')"
    and t: "payload_of t payload"
  obtains c c' h b where
    "process_message (up_mbslen env) (up_limits env) (handler_callback (up_limits env)) payload (init_handler changeset d) = Inr h"
    "cs_row changeset d = Some c" "c_user_id c = user_id (up_cs env)" "db_now d \<le> c_closed_at c"
    "cs_row changeset d' = Some c'" "c_num_changes c' = u32 (u32 (c_num_changes c) + u32 (get_total (get_stats h)))"
    "c_num_changes c' \<le> env_max_elements (up_cs env)"
    "c_closed_at c' \<le> c_created_at c + env_timeout_open_max (up_cs env)" "c_created_at c' = c_created_at c"
    "b = expand (case c_bbox c of None \<Rightarrow> default_bbox | Some old \<Rightarrow> old) (get_bbox h)"
    "c_bbox c' = (if b = default_bbox then c_bbox c else Some b)"
    "check_rate_limit env (get_total (get_stats h)) = Inr ()" "check_bbox_size env b = Inr ()"
proof -
  from run obtain u u1 h u2 where
    init: "init_changeset_updater (up_cs env) changeset = Inr u" and lck: "lock_current_changeset (up_cs env) True u d = Inr u1"
    and h: "process_message (up_mbslen env) (up_limits env) (handler_callback (up_limits env)) payload (init_handler changeset d) = Inr h"
    and rate: "check_rate_limit env (get_total (get_stats h)) = Inr ()"
    and upd: "update_changeset (up_cs env) (get_stats h) (get_bbox h) u1 (h_db h) = Inr (u2, d')"
    and size: "check_bbox_size env (cs_bbox u2) = Inr ()"
    by (rule upload_Inr)
  from init have u: "cs_changeset u = changeset" "cs_bbox u = default_bbox"
    by (auto simp: init_changeset_updater_def split: option.splits)
  from lock_current_changeset_Inr [OF lck] obtain c where
    f: "filter (\<lambda>c. c_id c = cs_changeset u) (changesets d) = [c]" and own: "c_user_id c = user_id (up_cs env)"
    and opn: "db_now d \<le> c_closed_at c"
    and u1: "u1 = u\<lparr>cs_num_changes := u32 (c_num_changes c), cs_bbox := (case c_bbox c of None \<Rightarrow> cs_bbox u | Some b \<Rightarrow> b)\<rparr>" .
  from upload_document [OF h t] obtain cs where "process_document (up_limits env) cs (init_handler changeset d) = Inr h" .
  from keeps_process_document [OF this] have view: "changesets (h_db h) = changesets d" "db_now (h_db h) = db_now d"
    by (simp_all add: cs_view_def init_handler_def)
  from f u have row: "cs_row changeset d = Some c" by (simp add: single_cs_row)
  with view have "cs_row (cs_changeset u1) (h_db h) = Some c" by (simp add: cs_row_def u1 u)
  from update_changeset_row [OF upd this] obtain st where
    new: "cs_row changeset d' = Some (c\<lparr>c_num_changes := u32 (cs_num_changes u1 + u32 (get_total (get_stats h))),
       c_bbox := (if expand (cs_bbox u1) (get_bbox h) \<noteq> default_bbox then Some (expand (cs_bbox u1) (get_bbox h)) else c_bbox c),
       c_closed_at := next_closed_at (up_cs env) (db_now (h_db h)) c, c_stats := st\<rparr>)"
    and lim: "u32 (cs_num_changes u1 + u32 (get_total (get_stats h))) \<le> env_max_elements (up_cs env)"
    and bb: "cs_bbox u2 = expand (cs_bbox u1) (get_bbox h)"
    by (auto simp: u1 u)
  show ?thesis
    by (rule that [OF h row own opn new _ _ _ _ _ _ rate size])
      (use lim bb next_closed_at_bound [of "db_now (h_db h)" c "up_cs env"] opn view u in \<open>simp_all add: u1 cong: option.case_cong\<close>)
qed

end
