(* ===== verification/Samples.thy ===== *)
theory Samples
  imports Upload
begin

text \<open>
  Concrete inputs: a database with one open changeset, the settings of a small instance and an
  osmChange message, on which the definitions are evaluated.
\<close>

definition sample_bbox_row :: changeset_row where
  "sample_bbox_row = \<lparr>c_id = 5, c_user_id = 7, c_created_at = 100, c_closed_at = 3700, c_bbox = None,
     c_num_changes = 0, c_stats = replicate 9 0\<rparr>"

definition sample_node :: "int \<Rightarrow> int \<Rightarrow> bool \<Rightarrow> node_row" where
  "sample_node i v vis = \<lparr>r_id = i, r_changeset_id = 5, r_visible = vis, r_timestamp = 50, r_version = v,
     r_latitude = 10 * i, r_longitude = 20 * i, r_tile = 0\<rparr>"

definition sample_row :: "int \<Rightarrow> int \<Rightarrow> bool \<Rightarrow> way_row" where
  "sample_row i v vis = \<lparr>r_id = i, r_changeset_id = 5, r_visible = vis, r_timestamp = 50, r_version = v\<rparr>"

definition sample_db :: db where
  "sample_db = \<lparr>
     current_nodes = [sample_node 1 1 True, sample_node 2 1 True, sample_node 3 1 True], current_node_tags = [],
     nodes_tbl = [sample_node 1 1 True, sample_node 2 1 True, sample_node 3 1 True], node_tags_tbl = [],
     current_ways = [sample_row 1 1 True], current_way_tags = [], current_way_nodes = [(1, 1, 1), (1, 2, 2)],
     ways_tbl = [sample_row 1 1 True], way_tags_tbl = [], way_nodes_tbl = [(1, 1, 1, 1), (1, 2, 1, 2)],
     current_relations = [], current_relation_tags = [], current_relation_members = [],
     relations_tbl = [], relation_tags_tbl = [], relation_members_tbl = [],
     node_id_seq = 3, way_id_seq = 1, relation_id_seq = 0,
     changesets = [sample_bbox_row], changeset_tags = [], changesets_subscribers = [(7, 5)],
     users_changesets_count = [(7, Some 1)], changeset_id_seq = 5, db_now = 200\<rparr>"

definition sample_env :: upload_env where
  "sample_env = \<lparr>
     up_cs = \<lparr>env_user = Some 7, env_max_elements = 10000, env_timeout_open_max = 86400, env_timeout_idle = 3600,
              env_enhanced_stats = False, env_lock_free = True, env_to_char = (\<lambda>_. ''2025-01-01 00:00:00 UTC'')\<rparr>,
     up_limits = \<lparr>element_max_tags = Some 100, way_max_nodes = 2000, relation_max_members = Some 32000\<rparr>,
     up_mbslen = Some \<circ> length, up_ratelimiter = True, up_api_rate_limit = (\<lambda>_. Some 1000),
     up_bbox_size_limiter = True, up_api_size_limit = (\<lambda>_. Some 50000000)\<rparr>"

definition sample_doc :: xml where
  "sample_doc = elem ''osmChange'' [(''version'', ''0.6'')]
     [elem ''modify'' []
        [elem ''way'' [(''id'', ''1''), (''changeset'', ''5''), (''version'', ''1'')]
           [elem ''nd'' [(''ref'', ''1'')] [], elem ''nd'' [(''ref'', ''3'')] []]],
      elem ''delete'' [(''if-unused'', ''true'')]
        [elem ''node'' [(''id'', ''2''), (''changeset'', ''5''), (''version'', ''1'')] []]]"

definition sample_payload :: sax_run where
  "sample_payload = unlocated (events_of sample_doc)"

definition sample_changes :: "change list" where
  "sample_changes =
     [change_way \<lparr>o_changeset = Some 5, o_id = Some 1, o_version = Some 1, o_tags = [], o_way_nodes = [1, 3]\<rparr> op_modify False,
      change_node \<lparr>o_changeset = Some 5, o_id = Some 2, o_version = Some 1, o_tags = [], o_lat = None, o_lon = None\<rparr>
        op_delete True]"

definition sample_handler :: handler where
  "sample_handler = \<lparr>h_state = st_finished, h_changeset = 5,
     h_db = sample_db\<lparr>
       current_nodes := [sample_node 1 1 True, (sample_node 2 2 False)\<lparr>r_timestamp := 200\<rparr>, sample_node 3 1 True],
       nodes_tbl := [sample_node 1 1 True, sample_node 2 1 True, sample_node 3 1 True, (sample_node 2 2 False)\<lparr>r_timestamp := 200\<rparr>],
       current_ways := [(sample_row 1 2 True)\<lparr>r_timestamp := 200\<rparr>],
       current_way_nodes := [(1, 1, 1), (1, 3, 2)],
       ways_tbl := [sample_row 1 1 True, (sample_row 1 2 True)\<lparr>r_timestamp := 200\<rparr>],
       way_nodes_tbl := [(1, 1, 1, 1), (1, 2, 1, 2), (1, 1, 2, 1), (1, 3, 2, 2)]\<rparr>,
     h_ct = empty_tracking\<lparr>
       modified_way_ids := [\<lparr>om_old_id = 1, om_new_id = 1, om_new_version = 2\<rparr>], deleted_node_ids := [2],
       osmchange_orig_sequence :=
         [\<lparr>oc_op = op_modify, oc_obj_type = ot_way, oc_orig_id = 1, oc_orig_version = 1, oc_if_unused = False\<rparr>,
          \<lparr>oc_op = op_delete, oc_obj_type = ot_node, oc_orig_id = 2, oc_orig_version = 1, oc_if_unused = True\<rparr>]\<rparr>,
     h_nodes = init_node_updater\<lparr>nu_bbox := \<lparr>minlat = 20, minlon = 40, maxlat = 20, maxlon = 40\<rparr>\<rparr>,
     h_ways = init_way_updater\<lparr>wu_bbox := \<lparr>minlat = 10, minlon = 20, maxlat = 30, maxlon = 60\<rparr>\<rparr>,
     h_relations = init_relation_updater\<rparr>"

definition sample_rows :: "diffresult_t list" where
  "sample_rows =
     [\<lparr>dr_op = op_modify, dr_obj_type = ot_way, dr_old_id = 1, dr_new_id = 1, dr_new_version = 2, dr_deletion_skipped = False\<rparr>,
      \<lparr>dr_op = op_delete, dr_obj_type = ot_node, dr_old_id = 2, dr_new_id = 0, dr_new_version = 0, dr_deletion_skipped = False\<rparr>]"

definition sample_db' :: db where
  "sample_db' = (h_db sample_handler)\<lparr>changesets := [sample_bbox_row\<lparr>c_closed_at := 3800, c_num_changes := 2,
     c_bbox := Some \<lparr>minlat = 10, minlon = 20, maxlat = 30, maxlon = 60\<rparr>\<rparr>]\<rparr>"

section \<open>Pending requests\<close>

text \<open>Two modifications of one node and a modified way with a new node list.\<close>

definition sample_node_t :: "int \<Rightarrow> int \<Rightarrow> int \<Rightarrow> node_t" where
  "sample_node_t i v lat = \<lparr>e_id = i, e_version = v, e_changeset_id = 5, e_old_id = i, e_tags = [], e_if_unused = False,
     n_lat = lat, n_lon = 7, n_tile = 0\<rparr>"

definition sample_nodes :: node_updater where
  "sample_nodes = init_node_updater\<lparr>modify_nodes := [sample_node_t 1 1 11, sample_node_t 1 2 12],
     delete_nodes := [sample_node_t 3 1 0]\<rparr>"

definition sample_way_t :: way_t where
  "sample_way_t = \<lparr>e_id = 1, e_version = 1, e_changeset_id = 5, e_old_id = 1, e_tags = [], e_if_unused = False,
     w_way_nodes = way_nodes_of [1, 3]\<rparr>"

definition sample_ways :: way_updater where
  "sample_ways = init_way_updater\<lparr>modify_ways := [sample_way_t]\<rparr>"

text \<open>Relation 11 has 10 as a member, and 10 has 9.\<close>

definition sample_relations_db :: db where
  "sample_relations_db = sample_db\<lparr>
     current_relations := [sample_row 9 1 True, sample_row 10 1 True, sample_row 11 1 True],
     relations_tbl := [sample_row 9 1 True, sample_row 10 1 True, sample_row 11 1 True],
     current_relation_members :=
       [\<lparr>m_relation_id = 11, m_member_type = ''Relation'', m_member_id = 10, m_member_role = '''', m_sequence_id = 1\<rparr>,
        \<lparr>m_relation_id = 10, m_member_type = ''Relation'', m_member_id = 9, m_member_role = '''', m_sequence_id = 1\<rparr>],
     relation_id_seq := 11\<rparr>"

definition sample_relation_t :: "int \<Rightarrow> bool \<Rightarrow> relation_t" where
  "sample_relation_t i unused = \<lparr>e_id = i, e_version = 1, e_changeset_id = 5, e_old_id = i, e_tags = [], e_if_unused = unused,
     rel_members = []\<rparr>"

definition sample_relations :: "bool \<Rightarrow> relation_updater" where
  "sample_relations unused = init_relation_updater\<lparr>delete_relations := [sample_relation_t 10 True, sample_relation_t 9 unused]\<rparr>"

section \<open>Evaluation\<close>

lemma sample_changes_of: "changes_of (up_mbslen sample_env) (up_limits sample_env) sample_doc = Inr sample_changes"
  by (simp add: changes_of_def process_message_document sample_doc_def Let_def collect_def init_object_def init_object_attr_def
      set_id_str_def set_id_def set_changeset_str_def set_changeset_def set_version_str_def set_version_def
      from_chars_s64_def digits_value_def is_digit_def less_eq_char_def is_s64_def parse_attr_def new_node_def
      new_way_def add_nd_element_def add_way_node_str_def add_way_node_def checked_def no_kids_def
      way_is_valid_def object_is_valid_def sample_env_def throw_if_def init_node_def init_node_attr_def deref_def
      node_is_valid_def u32_def sample_changes_def del: events_of.simps)

lemma sample_processed: "process_document (up_limits sample_env) sample_changes (init_handler 5 sample_db) = Inr sample_handler"
  by code_simp

lemma sample_message:
  "process_message (up_mbslen sample_env) (up_limits sample_env) (handler_callback (up_limits sample_env)) sample_payload
     (init_handler 5 sample_db) = Inr sample_handler"
  using sample_changes_of sample_processed
  by (simp add: sample_payload_def process_message_changes handler_callback_def process_document_def)

lemmas sample_cs_defs = sample_env_def sample_db_def sample_bbox_row_def sample_handler_def default_bbox_def scale_def user_id_def

lemma sample_total: "get_total (get_stats sample_handler) = 2"
  by (simp add: get_total_def get_stats_def element_total_def node_stats_def way_stats_def relation_stats_def u64_def
      sample_handler_def empty_tracking_def)

lemma sample_get_bbox: "get_bbox sample_handler = \<lparr>minlat = 10, minlon = 20, maxlat = 30, maxlon = 60\<rparr>"
  by (simp add: get_bbox_def expand_def sample_cs_defs init_node_updater_def init_way_updater_def init_relation_updater_def)

abbreviation sample_updater :: changeset_updater where
  "sample_updater \<equiv> \<lparr>cs_num_changes = 0, cs_changeset = 5, cs_bbox = default_bbox\<rparr>"

lemma sample_lock: "lock_current_changeset (up_cs sample_env) True sample_updater sample_db = Inr sample_updater"
  by (simp add: lock_current_changeset_def check_user_owns_changeset_def lock_cs_def throw_if_def u32_def sample_cs_defs)

lemma sample_update: "update_changeset (up_cs sample_env) (get_stats sample_handler) (get_bbox sample_handler) sample_updater
    (h_db sample_handler) =
  Inr (\<lparr>cs_num_changes = 2, cs_changeset = 5, cs_bbox = \<lparr>minlat = 10, minlon = 20, maxlat = 30, maxlon = 60\<rparr>\<rparr>, sample_db')"
proof -
  define st where "st = get_stats sample_handler"
  have "get_total st = 2" by (simp add: st_def sample_total)
  then show ?thesis
    unfolding sample_get_bbox st_def [symmetric]
    by (simp add: update_changeset_def changeset_update_enhanced_stats_def update_changeset_row_def throw_if_def u32_def
        next_closed_at_def sample_cs_defs sample_db'_def expand_def Let_def)
qed

lemma sample_upload: "changeset_upload_responder sample_env False 5 sample_payload sample_db = Inr (sample_rows, sample_db')"
proof -
  have u: "init_changeset_updater (up_cs sample_env) 5 = Inr sample_updater"
    by (simp add: init_changeset_updater_def sample_env_def)
  have r: "assemble_diffresult (h_ct sample_handler) = Inr sample_rows"
    by (simp add: assemble_diffresult_def diffresult_row_def map_modify_ids_def map_skip_delete_ids_def deleted_row_def
        set_delete_ids_def mapping_row_def u32_def sample_handler_def sample_rows_def empty_tracking_def)
  have c: "check_rate_limit sample_env (get_total (get_stats sample_handler)) = Inr ()"
    by (simp add: check_rate_limit_def sample_total get_rate_limit_def sample_env_def)
  have b: "check_bbox_size sample_env \<lparr>minlat = 10, minlon = 20, maxlat = 30, maxlon = 60\<rparr> = Inr ()"
    by (simp add: check_bbox_size_def get_bbox_size_limit_def sample_env_def linear_size_def u64_def)
  have e: "env_user (up_cs sample_env) = Some 7" by (simp add: sample_env_def)
  show ?thesis
    unfolding changeset_upload_responder_def by (simp add: e u sample_lock sample_message r c sample_update b)
qed

lemma sample_payload_of: "payload_of sample_doc sample_payload"
  by (simp add: payload_of_def sample_payload_def unlocated_def comp_def)

lemma sample_db_ok: "db_ok sample_db"
  by code_simp

lemma sample_names: "\<forall>c\<in>set sample_changes. change_names (\<lambda>t. id_seq t sample_db) False c"
  by code_simp

end
