(* ===== verification/Text_Util.thy ===== *)
theory Text_Util
  imports OSM_Objects
begin

text \<open>
  The string helpers of \<^verbatim>\<open>include/cgimap/util.hpp\<close>: \<^verbatim>\<open>trim\<close>, \<^verbatim>\<open>split\<close>, \<^verbatim>\<open>split_trim\<close>,
  \<^verbatim>\<open>parse_ruby_number\<close> and \<^verbatim>\<open>escape\<close>, with the unsigned variants of \<^verbatim>\<open>std::from_chars\<close> and the
  round trips that the request parsing and the array parsing rest on.
\<close>

section \<open>Splitting and trimming\<close>

text \<open>
  \<^verbatim>\<open>std::views::split\<close> with a single character: no part at all for an empty string, otherwise
  one part more than there are delimiters.
\<close>

fun split_parts :: "char \<Rightarrow> string \<Rightarrow> string list" where
  "split_parts delim [] = [[]]"
| "split_parts delim (c # cs) =
     (if c = delim then [] # split_parts delim cs
      else (case split_parts delim cs of [] \<Rightarrow> [[c]] | p # ps \<Rightarrow> (c # p) # ps))"

definition split :: "string \<Rightarrow> char \<Rightarrow> string list" where
  "split s delim = (if s = [] then [] else split_parts delim s)"

text \<open>\<^verbatim>\<open>std::views::split\<close> with a string, as the \<^verbatim>\<open>Accept-Encoding\<close> header is split.\<close>

fun cut_at :: "string \<Rightarrow> string \<Rightarrow> (string \<times> string) option" where
  "cut_at pat [] = None"
| "cut_at pat (c # cs) =
     (if take (length pat) (c # cs) = pat then Some ([], drop (length pat) (c # cs))
      else map_option (\<lambda>(a, b). (c # a, b)) (cut_at pat cs))"

lemma cut_at_eq: "cut_at pat s = Some (a, b) \<Longrightarrow> s = a @ pat @ b"
proof (induction s arbitrary: a)
  case (Cons c cs)
  show ?case
  proof (cases "take (length pat) (c # cs) = pat")
    case True
    with Cons.prems have "a = []" "b = drop (length pat) (c # cs)" by auto
    with True append_take_drop_id [of "length pat" "c # cs"] show ?thesis by simp
  next
    case False
    with Cons.prems obtain a' where "cut_at pat cs = Some (a', b)" "a = c # a'" by auto
    with Cons.IH show ?thesis by simp
  qed
qed simp

function split_on_parts :: "string \<Rightarrow> string \<Rightarrow> string list" where
  "split_on_parts pat s =
     (if pat = [] then [s]
      else case cut_at pat s of None \<Rightarrow> [s] | Some (a, b) \<Rightarrow> a # split_on_parts pat b)"
  by auto
termination
proof (relation "measure (\<lambda>(_, s). length s)")
  fix pat s a b :: string and x
  assume "pat \<noteq> []" "cut_at pat s = Some x" "(a, b) = x"
  then show "((pat, b), (pat, s)) \<in> measure (\<lambda>(_, s). length s)" using cut_at_eq [of pat s a b] by auto
qed simp

declare split_on_parts.simps [simp del]

definition split_on :: "string \<Rightarrow> string \<Rightarrow> string list" where
  "split_on s pat = (if s = [] then [] else split_on_parts pat s)"

definition is_blank :: "char \<Rightarrow> bool" where
  "is_blank c \<longleftrightarrow> c \<in> {CHR '' '', CHR 0x09, CHR 0x0A, CHR 0x0D}"

definition trim :: "string \<Rightarrow> string" where
  "trim s = rev (dropWhile is_blank (rev (dropWhile is_blank s)))"

definition split_trim :: "string \<Rightarrow> char \<Rightarrow> string list" where
  "split_trim s delim = filter (\<lambda>p. p \<noteq> []) (map trim (split s delim))"

section \<open>Numbers\<close>

text \<open>
  \<^verbatim>\<open>std::from_chars\<close> for an unsigned type with values below \<open>bound\<close>: no sign is accepted.
\<close>

definition from_chars_unsigned :: "int \<Rightarrow> string \<Rightarrow> parse_error + int" where
  "from_chars_unsigned bound s =
     (let ds = takeWhile is_digit s; v = digits_value ds
      in if ds = [] then Inl invalid_argument else if v < bound then Inr v else Inl result_out_of_range)"

definition from_chars_u64 :: "string \<Rightarrow> parse_error + int" where
  "from_chars_u64 = from_chars_unsigned (2 ^ 64)"

definition from_chars_u32 :: "string \<Rightarrow> parse_error + int" where
  "from_chars_u32 = from_chars_unsigned (2 ^ 32)"

definition parse_ruby_number :: "(string \<Rightarrow> parse_error + int) \<Rightarrow> string \<Rightarrow> int" where
  "parse_ruby_number from_chars s = (case from_chars s of Inl _ \<Rightarrow> 0 | Inr v \<Rightarrow> v)"

text \<open>
  \<^verbatim>\<open>strtod\<close>, which \<^verbatim>\<open>std::stod\<close> and \<^verbatim>\<open>std::stof\<close> call: blanks, a sign, then a hexadecimal or decimal
  number or a word. The value is exact here; the callers round it. Text after the number is
  ignored.
\<close>

definition is_space :: "char \<Rightarrow> bool" where
  "is_space c \<longleftrightarrow> c = CHR '' '' \<or> CHR 0x09 \<le> c \<and> c \<le> CHR 0x0D"

definition is_xdigit :: "char \<Rightarrow> bool" where
  "is_xdigit c \<longleftrightarrow> is_digit c \<or> CHR ''a'' \<le> c \<and> c \<le> CHR ''f'' \<or> CHR ''A'' \<le> c \<and> c \<le> CHR ''F''"

definition xdigit_value :: "char \<Rightarrow> nat" where
  "xdigit_value c =
     (if is_digit c then of_char c - 48 else if CHR ''a'' \<le> c then of_char c - 87 else of_char c - 55)"

definition xdigits_value :: "string \<Rightarrow> int" where
  "xdigits_value ds = fold (\<lambda>c v. 16 * v + int (xdigit_value c)) ds 0"

definition binary_exponent_of :: "string \<Rightarrow> int" where
  "binary_exponent_of s =
     (if s \<noteq> [] \<and> (hd s = CHR ''p'' \<or> hd s = CHR ''P'') then exponent_of (CHR ''e'' # tl s) else 0)"

definition number_parts :: "(char \<Rightarrow> bool) \<Rightarrow> string \<Rightarrow> string \<times> string \<times> string" where
  "number_parts digit r =
     (let r1 = dropWhile digit r; point = (r1 \<noteq> [] \<and> hd r1 = CHR ''.'') in
      (takeWhile digit r, if point then takeWhile digit (tl r1) else [], if point then dropWhile digit (tl r1) else r1))"

definition strtod :: "string \<Rightarrow> double option" where
  "strtod s =
     (let s1 = dropWhile is_space s;
          neg = (s1 \<noteq> [] \<and> hd s1 = CHR ''-'');
          r = (if s1 \<noteq> [] \<and> (hd s1 = CHR ''-'' \<or> hd s1 = CHR ''+'') then tl s1 else s1);
          (ip, fp, r2) = number_parts is_digit r;
          (hip, hfp, hr) = number_parts is_xdigit (drop 2 r);
          hex = (iequals (take 2 r) ''0x'' \<and> hip @ hfp \<noteq> []);
          v = (if hex then of_int (xdigits_value (hip @ hfp)) * 2 powi (binary_exponent_of hr - 4 * int (length hfp))
               else decimal_value ip fp (exponent_of r2))
      in if hex \<or> ip @ fp \<noteq> [] then Some (finite_double (if neg then - v else v))
         else if iequals (take 3 r) ''inf'' then Some (infinite_double neg)
         else if iequals (take 3 r) ''nan'' then Some nan_double
         else None)"

text \<open>
  \<^verbatim>\<open>std::stod\<close> and \<^verbatim>\<open>std::stof\<close> throw when there is no number, and when the conversion reports
  a range error: a value too large, or an inexact one below the normal range.
\<close>

definition round_float :: "int \<Rightarrow> int \<Rightarrow> rat \<Rightarrow> rat" where
  "round_float bits min_exp x =
     (if x = 0 then 0
      else let ulp = 2 powi (max (bin_exponent \<bar>x\<bar> - bits) min_exp) in of_int (round_half_even (x / ulp)) * ulp)"

definition sto_float :: "int \<Rightarrow> int \<Rightarrow> rat \<Rightarrow> string \<Rightarrow> double result" where
  "sto_float bits min_exp too_large s =
     (case strtod s of
        None \<Rightarrow> Inl (runtime_error ''sto: no conversion'')
      | Some (finite_double v) \<Rightarrow>
          if \<bar>v\<bar> \<ge> too_large \<or> \<bar>v\<bar> < 2 powi (min_exp + bits) \<and> round_float bits min_exp v \<noteq> v
          then Inl (runtime_error ''sto: out of range'')
          else Inr (finite_double (round_float bits min_exp v))
      | Some d \<Rightarrow> Inr d)"

definition stod :: "string \<Rightarrow> double result" where
  "stod = sto_float 52 (- 1074) (2 ^ 1024 - 2 ^ 970)"

definition stof :: "string \<Rightarrow> double result" where
  "stof = sto_float 23 (- 149) (2 ^ 128 - 2 ^ 103)"

section \<open>Quoting\<close>

definition escape_char :: "char \<Rightarrow> string" where
  "escape_char c = (if c = CHR 0x22 \<or> c = CHR 0x5C then [CHR 0x5C, c] else [c])"

definition escape :: "string \<Rightarrow> string" where
  "escape s = CHR 0x22 # concat (map escape_char s) @ [CHR 0x22]"

section \<open>Lemmas\<close>

fun join_with :: "string \<Rightarrow> string list \<Rightarrow> string" where
  "join_with sep [] = []"
| "join_with sep [x] = x"
| "join_with sep (x # y # ys) = x @ sep @ join_with sep (y # ys)"

lemma join_comma_with: "join_comma ps = join_with '','' ps"
  by (induction ps rule: join_comma.induct) simp_all

lemma split_parts_not_Nil [simp]: "split_parts delim s \<noteq> []"
  by (induction s) (auto split: list.splits)

lemma join_split_parts: "join_with [delim] (split_parts delim s) = s"
proof (induction s)
  case (Cons c cs)
  obtain p ps where ps: "split_parts delim cs = p # ps" by (cases "split_parts delim cs") simp_all
  with Cons.IH show ?case by (cases ps) auto
qed simp

lemma join_split: "join_with [delim] (split s delim) = s"
  by (simp add: split_def join_split_parts)

lemma split_parts_delim: "p \<in> set (split_parts delim s) \<Longrightarrow> delim \<notin> set p"
proof (induction s arbitrary: p)
  case (Cons c cs)
  obtain q qs where qs: "split_parts delim cs = q # qs" by (cases "split_parts delim cs") simp_all
  from Cons.prems qs Cons.IH show ?case by (cases "c = delim") auto
qed simp

lemma split_no_delim: "p \<in> set (split s delim) \<Longrightarrow> delim \<notin> set p"
  by (auto simp: split_def split_parts_delim split: if_splits)

lemma split_parts_append:
  assumes "delim \<notin> set p"
  shows "split_parts delim (p @ delim # rest) = p # split_parts delim rest"
  using assms by (induction p) auto

lemma split_parts_single: "delim \<notin> set p \<Longrightarrow> split_parts delim p = [p]"
  by (induction p) auto

lemma split_parts_join:
  assumes "\<forall>p\<in>set ps. delim \<notin> set p" "ps \<noteq> []"
  shows "split_parts delim (join_with [delim] ps) = ps"
  using assms by (induction "[delim]" ps rule: join_with.induct) (auto simp: split_parts_append split_parts_single)

lemma join_with_Nil: "join_with [delim] ps = [] \<longleftrightarrow> ps = [] \<or> ps = [[]]"
  by (cases ps rule: list.exhaust; cases "tl ps") auto

lemma split_join:
  assumes "\<forall>p\<in>set ps. delim \<notin> set p" "ps \<noteq> [[]]"
  shows "split (join_with [delim] ps) delim = ps"
  using assms by (cases "ps = []") (auto simp: split_def split_parts_join join_with_Nil)

lemma split_single: "delim \<notin> set p \<Longrightarrow> split p delim = (if p = [] then [] else [p])"
  by (simp add: split_def split_parts_single)

lemma trim_id: "\<forall>c\<in>set s. \<not> is_blank c \<Longrightarrow> trim s = s"
proof -
  assume s: "\<forall>c\<in>set s. \<not> is_blank c"
  then have "dropWhile is_blank s = s" by (cases s) auto
  moreover from s have "dropWhile is_blank (rev s) = rev s"
    by (intro dropWhile_eq_self_iff [THEN iffD2]) (metis hd_in_set rev_is_Nil_conv set_rev)
  ultimately show ?thesis by (simp add: trim_def)
qed

text \<open>Printed numbers read back.\<close>

lemma digits_of_takeWhile:
  assumes "rest = [] \<or> \<not> is_digit (hd rest)"
  shows "takeWhile is_digit (digits_of n @ rest) = digits_of n"
  using assms digits_of_value [of n] by (cases rest) (auto simp: list_all_iff takeWhile_append)

lemma takeWhile_digits_of [simp]: "takeWhile is_digit (digits_of n) = digits_of n"
  using digits_of_takeWhile [of "[]" n] by (simp only: append_Nil2 simp_thms)

lemma from_chars_unsigned_fmt:
  assumes "0 \<le> v" "v < bound"
  shows "from_chars_unsigned bound (fmt_d v) = Inr v"
  using assms digits_of_value [of "nat v"] by (simp add: from_chars_unsigned_def fmt_d_def Let_def)

lemma parse_ruby_u64: "is_u64 v \<Longrightarrow> parse_ruby_number from_chars_u64 (fmt_d v) = v"
  by (simp add: parse_ruby_number_def from_chars_u64_def from_chars_unsigned_fmt is_u64_def)

lemma parse_ruby_u32: "is_u32 v \<Longrightarrow> parse_ruby_number from_chars_u32 (fmt_d v) = v"
  by (simp add: parse_ruby_number_def from_chars_u32_def from_chars_unsigned_fmt is_u32_def)

lemma from_chars_unsigned_range: "from_chars_unsigned bound s = Inr v \<Longrightarrow> 0 \<le> v \<and> v < bound"
proof -
  have fold: "0 \<le> w \<Longrightarrow> 0 \<le> fold (\<lambda>c v. 10 * v + int (of_char c - 48)) ds w" for ds w
    by (induction ds arbitrary: w) simp_all
  assume "from_chars_unsigned bound s = Inr v"
  then show ?thesis using fold [of 0 "takeWhile is_digit s"]
    by (auto simp: from_chars_unsigned_def digits_value_def Let_def split: if_splits)
qed

lemma parse_ruby_range:
  "is_u64 (parse_ruby_number from_chars_u64 s)" "is_u32 (parse_ruby_number from_chars_u32 s)"
  using from_chars_unsigned_range
  by (auto simp: parse_ruby_number_def from_chars_u64_def from_chars_u32_def is_u64_def is_u32_def split: sum.splits)

lemma fmt_d_digits:
  assumes "0 \<le> v"
  shows "list_all is_digit (fmt_d v)" "fmt_d v \<noteq> []"
  using assms digits_of_value [of "nat v"] by (simp_all add: fmt_d_def)

lemma fmt_d_chars: "c \<in> set (fmt_d v) \<Longrightarrow> is_digit c \<or> c = CHR ''-''"
  using digits_of_value [of "nat v"] digits_of_value [of "nat (- v)"]
  by (auto simp: fmt_d_def list_all_iff split: if_splits)

lemma is_digit_not:
  "\<not> is_digit CHR '',''" "\<not> is_digit CHR ''}''" "\<not> is_digit CHR ''{''" "\<not> is_digit CHR ''/''" "\<not> is_digit CHR ''v''"
  "\<not> is_digit CHR ''-''" "\<not> is_digit CHR ''N''" "\<not> is_digit CHR '' ''" "\<not> is_digit CHR ''=''" "\<not> is_digit CHR ''&''"
  "\<not> is_digit CHR ''%''" "\<not> is_digit CHR ''+''" "\<not> is_digit CHR ''.''" "\<not> is_digit CHR ''?''"
  by (simp_all add: is_digit_def less_eq_char_def)

lemma fmt_d_free: "\<not> is_digit c \<Longrightarrow> c \<noteq> CHR ''-'' \<Longrightarrow> c \<notin> set (fmt_d v)"
  using fmt_d_chars by blast

lemma fmt_d_nonneg_free: "0 \<le> v \<Longrightarrow> \<not> is_digit c \<Longrightarrow> c \<notin> set (fmt_d v)"
  using fmt_d_digits(1) [of v] by (auto simp: list_all_iff)

lemma fmt_d_not_Nil [simp]: "fmt_d v \<noteq> []"
  using digits_of_value [of "nat v"] by (simp add: fmt_d_def)

end
