(* ===== verification/Rate_Limiter.thy ===== *)
theory Rate_Limiter
  imports Prelude
begin

text \<open>
  \<^verbatim>\<open>src/rate_limiter.cpp\<close>: a leaky bucket per client, kept in memcached. The bucket holds the
  bytes served, leaks \<open>ratelimit\<close> bytes per second and may hold less than \<open>maxdebt\<close> bytes for a
  request to be let in.
\<close>

section \<open>The store\<close>

record rl_state =
  last_update :: int
  bytes_served :: int

text \<open>
  memcached as the limiter uses it: a store that other processes change as well, so that every
  call also returns the store as it is afterwards. \<open>mc_add\<close> returns whether it was refused with
  \<^verbatim>\<open>MEMCACHED_NOTSTORED\<close>.
\<close>

record 'm memcached =
  mc_get :: "string \<Rightarrow> 'm \<Rightarrow> rl_state option \<times> 'm"
  mc_replace :: "string \<Rightarrow> rl_state \<Rightarrow> int \<Rightarrow> 'm \<Rightarrow> 'm"
  mc_add :: "string \<Rightarrow> rl_state \<Rightarrow> int \<Rightarrow> 'm \<Rightarrow> bool \<times> 'm"

text \<open>The settings for ordinary users or for moderators, in bytes per second and bytes.\<close>

record rl_limits =
  ratelimit :: int
  maxdebt :: int

definition mc_key :: "string \<Rightarrow> string" where
  "mc_key key = ''cgimap:'' @ key"

section \<open>Check and update\<close>

text \<open>The wait time is computed in 32 unsigned bits and returned as an \<^verbatim>\<open>int\<close>.\<close>

definition s32 :: "int \<Rightarrow> int" where
  "s32 x = (x + 2 ^ 31) mod 2 ^ 32 - 2 ^ 31"

text \<open>What is left of the bytes served; the subtraction is done in 64 bits and stored in 32.\<close>

definition leak :: "rl_limits \<Rightarrow> int \<Rightarrow> rl_state \<Rightarrow> int" where
  "leak lm now s =
     (let leaked = s64 ((now - last_update s) * ratelimit lm)
      in if leaked < bytes_served s then u32 (bytes_served s - leaked) else 0)"

definition decide :: "rl_limits \<Rightarrow> int \<Rightarrow> bool \<times> int" where
  "decide lm bytes =
     (if bytes < maxdebt lm then (False, 0) else (True, s32 ((bytes - maxdebt lm) div ratelimit lm + 1)))"

definition check :: "'m memcached \<Rightarrow> rl_limits \<Rightarrow> bool \<Rightarrow> string \<Rightarrow> int \<Rightarrow> 'm \<Rightarrow> (bool \<times> int) \<times> 'm" where
  "check mc lm has_ptr key now m =
     (if has_ptr then
        let (sp, m1) = mc_get mc (mc_key key) m
        in (decide lm (case sp of None \<Rightarrow> 0 | Some s \<Rightarrow> leak lm now s), m1)
      else (decide lm 0, m))"

definition realtime_maxdelta :: int where
  "realtime_maxdelta = 60 * 60 * 24 * 30"

definition expiration :: "rl_limits \<Rightarrow> int \<Rightarrow> int" where
  "expiration lm bytes = min realtime_maxdelta (2 * max (maxdebt lm) bytes div ratelimit lm)"

definition refill :: "rl_limits \<Rightarrow> int \<Rightarrow> int \<Rightarrow> rl_state \<Rightarrow> rl_state" where
  "refill lm bytes now s =
     (let leaked = s64 ((now - last_update s) * ratelimit lm)
      in \<lparr>last_update = now,
          bytes_served = (if leaked < bytes_served s then u32 (bytes_served s - leaked + bytes) else bytes)\<rparr>)"

text \<open>
  The body between the \<^verbatim>\<open>retry\<close> label and the jump back to it; no value when the fuel for the
  jumps is used up.
\<close>

fun update_retry :: "nat \<Rightarrow> 'm memcached \<Rightarrow> rl_limits \<Rightarrow> string \<Rightarrow> int \<Rightarrow> int \<Rightarrow> 'm \<Rightarrow> 'm option" where
  "update_retry 0 mc lm key bytes now m = None"
| "update_retry (Suc fuel) mc lm key bytes now m =
     (case mc_get mc (mc_key key) m of
        (Some s, m1) \<Rightarrow> Some (mc_replace mc (mc_key key) (refill lm bytes now s) (expiration lm bytes) m1)
      | (None, m1) \<Rightarrow>
          (case mc_add mc (mc_key key) \<lparr>last_update = now, bytes_served = bytes\<rparr> (expiration lm bytes) m1 of
             (notstored, m2) \<Rightarrow> if notstored then update_retry fuel mc lm key bytes now m2 else Some m2))"

definition update :: "nat \<Rightarrow> 'm memcached \<Rightarrow> rl_limits \<Rightarrow> bool \<Rightarrow> string \<Rightarrow> int \<Rightarrow> int \<Rightarrow> 'm \<Rightarrow> 'm option" where
  "update fuel mc lm has_ptr key bytes now m =
     (if has_ptr then update_retry fuel mc lm key bytes now m else Some m)"

section \<open>The null limiter\<close>

definition null_check :: "string \<Rightarrow> bool \<times> int" where
  "null_check key = (False, 0)"

section \<open>The bucket\<close>

text \<open>The ideal bucket: an unbounded counter that never goes below zero.\<close>

definition bucket :: "rl_limits \<Rightarrow> int \<Rightarrow> rl_state \<Rightarrow> int" where
  "bucket lm now s = max 0 (bytes_served s - (now - last_update s) * ratelimit lm)"

definition limits_ok :: "rl_limits \<Rightarrow> bool" where
  "limits_ok lm \<longleftrightarrow> 0 < ratelimit lm \<and> ratelimit lm \<le> 2 ^ 30 \<and> 0 < maxdebt lm \<and> maxdebt lm < 2 ^ 32"

text \<open>A clock that does not run backwards and stays below \<open>2\<^sup>32\<close> seconds.\<close>

definition clock_ok :: "int \<Rightarrow> rl_state \<Rightarrow> bool" where
  "clock_ok now s \<longleftrightarrow> 0 \<le> last_update s \<and> last_update s \<le> now \<and> now < 2 ^ 32 \<and> is_u32 (bytes_served s)"

lemma leaked_range:
  assumes "limits_ok lm" "clock_ok now s"
  shows "0 \<le> (now - last_update s) * ratelimit lm" "s64 ((now - last_update s) * ratelimit lm) = (now - last_update s) * ratelimit lm"
proof -
  from assms have r: "0 < ratelimit lm" "ratelimit lm \<le> 2 ^ 30" and t: "0 \<le> now - last_update s" "now - last_update s \<le> 2 ^ 32"
    by (auto simp: limits_ok_def clock_ok_def)
  show "0 \<le> (now - last_update s) * ratelimit lm" using r t by simp
  have "(now - last_update s) * ratelimit lm \<le> 2 ^ 32 * 2 ^ 30" by (rule mult_mono) (use r t in auto)
  with \<open>0 \<le> (now - last_update s) * ratelimit lm\<close>
  show "s64 ((now - last_update s) * ratelimit lm) = (now - last_update s) * ratelimit lm" by (intro s64_id) (simp add: is_s64_def)
qed

lemma leak_bucket:
  assumes "limits_ok lm" "clock_ok now s"
  shows "leak lm now s = bucket lm now s"
proof -
  let ?l = "(now - last_update s) * ratelimit lm"
  note l = leaked_range [OF assms]
  from assms have "0 \<le> bytes_served s" "bytes_served s < 2 ^ 32" by (auto simp: clock_ok_def is_u32_def)
  with l(1) have "u32 (bytes_served s - ?l) = bytes_served s - ?l" if "?l < bytes_served s"
    by (intro u32_id) (use that in \<open>simp add: is_u32_def\<close>)
  then show ?thesis using l by (simp add: leak_def bucket_def Let_def)
qed

lemma refill_bucket:
  assumes "limits_ok lm" "clock_ok now s" "0 \<le> bytes" "bucket lm now s + bytes < 2 ^ 32"
  shows "refill lm bytes now s = \<lparr>last_update = now, bytes_served = bucket lm now s + bytes\<rparr>"
proof -
  let ?l = "(now - last_update s) * ratelimit lm"
  note l = leaked_range [OF assms(1,2)]
  have "u32 (bytes_served s - ?l + bytes) = bytes_served s - ?l + bytes" if "?l < bytes_served s"
    by (intro u32_id) (use that assms(3,4) in \<open>simp add: is_u32_def bucket_def\<close>)
  then show ?thesis using l by (simp add: refill_def bucket_def Let_def)
qed

lemma div_bounds:
  fixes r :: int
  assumes "0 < r"
  shows "x < (x div r + 1) * r" "x - r < x div r * r"
proof -
  have "x = x div r * r + x mod r" by (rule div_mult_mod_eq [symmetric])
  moreover have "x mod r < r" using assms by simp
  moreover have "(x div r + 1) * r = x div r * r + r" by (simp add: distrib_right)
  ultimately show "x < (x div r + 1) * r" "x - r < x div r * r" by linarith+
qed

lemma s32_pos:
  assumes "0 < s32 x" "0 \<le> x" "x \<le> 2 ^ 32"
  shows "s32 x = x"
proof (cases "x < 2 ^ 31")
  case True
  with assms(2) show ?thesis by (simp add: s32_def)
next
  case False
  then have "(x + 2 ^ 31) mod 2 ^ 32 = x + 2 ^ 31 - 2 ^ 32"
    using assms(3) by (subst mod_pos_geq) (simp_all add: mod_pos_pos_trivial)
  with assms show ?thesis by (simp add: s32_def)
qed

text \<open>Waiting as long as the answer says is enough, where it says to wait at all.\<close>

lemma decide_retry:
  assumes "limits_ok lm" "clock_ok now s" "decide lm (leak lm now s) = (True, w)" "0 < w" "now + w \<le> later" "later < 2 ^ 32"
  shows "decide lm (leak lm later s) = (False, 0)"
proof -
  from assms(1) have r: "0 < ratelimit lm" "0 < maxdebt lm" by (auto simp: limits_ok_def)
  let ?x = "(leak lm now s - maxdebt lm) div ratelimit lm + 1"
  from assms(3) have w: "w = s32 ?x" and over: "maxdebt lm \<le> leak lm now s"
    by (auto simp: decide_def split: if_splits)
  have "leak lm now s < 2 ^ 32" using u32_range [of "bytes_served s - s64 ((now - last_update s) * ratelimit lm)"]
    by (auto simp: leak_def Let_def is_u32_def)
  moreover have "(leak lm now s - maxdebt lm) div ratelimit lm \<le> leak lm now s - maxdebt lm"
    using over r zdiv_mono2 [of "leak lm now s - maxdebt lm" 1 "ratelimit lm"] by simp
  moreover have "0 \<le> (leak lm now s - maxdebt lm) div ratelimit lm" using over r by (simp add: pos_imp_zdiv_nonneg_iff)
  ultimately have wx: "w = ?x" using assms(4) r unfolding w by (intro s32_pos) auto
  have need: "leak lm now s - maxdebt lm < w * ratelimit lm" unfolding wx by (rule div_bounds(1) [OF r(1)])
  have later: "clock_ok later s" using assms by (auto simp: clock_ok_def)
  have "w * ratelimit lm \<le> (later - now) * ratelimit lm" using assms(5) r by (intro mult_right_mono) auto
  then have "bucket lm later s \<le> max 0 (bucket lm now s - w * ratelimit lm)" by (simp add: bucket_def algebra_simps)
  with need have "bucket lm later s < maxdebt lm" using leak_bucket [OF assms(1,2)] r by linarith
  then show ?thesis using leak_bucket [OF assms(1) later] by (simp add: decide_def)
qed

text \<open>An entry that expires was worth less than one second of traffic.\<close>

lemma expired_irrelevant:
  assumes "limits_ok lm" "0 \<le> bytes_served s" "bytes_served s \<le> 2 * max (maxdebt lm) bytes"
    and "expiration lm bytes < realtime_maxdelta" "last_update s + expiration lm bytes \<le> now"
  shows "bucket lm now s < ratelimit lm"
proof -
  from assms(1) have r: "0 < ratelimit lm" by (simp add: limits_ok_def)
  let ?b = "2 * max (maxdebt lm) bytes"
  from assms(4) have e: "expiration lm bytes = ?b div ratelimit lm" by (simp add: expiration_def min_def split: if_splits)
  have "?b - ratelimit lm < ?b div ratelimit lm * ratelimit lm" by (rule div_bounds(2) [OF r])
  also have "\<dots> \<le> (now - last_update s) * ratelimit lm" using assms(5) e r by (intro mult_right_mono) auto
  finally show ?thesis using assms(3) r by (simp add: bucket_def)
qed

section \<open>The store between two requests of a client\<close>

text \<open>
  memcached as documented, while no other process touches it and no entry expires: \<open>get\<close> returns what is
  stored, \<open>replace\<close> overwrites an entry that exists, \<open>add\<close> stores where there is none and is refused otherwise.
\<close>

definition store_laws :: "'m memcached \<Rightarrow> ('m \<Rightarrow> string \<Rightarrow> rl_state option) \<Rightarrow> bool" where
  "store_laws mc contents \<longleftrightarrow>
     (\<forall>k m. fst (mc_get mc k m) = contents m k \<and> contents (snd (mc_get mc k m)) = contents m) \<and>
     (\<forall>k s e m. contents m k \<noteq> None \<longrightarrow> contents (mc_replace mc k s e m) = (contents m)(k \<mapsto> s)) \<and>
     (\<forall>k s e m. contents m k = None \<longrightarrow> \<not> fst (mc_add mc k s e m) \<and> contents (snd (mc_add mc k s e m)) = (contents m)(k \<mapsto> s))"

lemma store_lawsD:
  assumes "store_laws mc contents"
  shows "fst (mc_get mc k m) = contents m k" "contents (snd (mc_get mc k m)) = contents m"
    "contents m k \<noteq> None \<Longrightarrow> contents (mc_replace mc k s e m) = (contents m)(k \<mapsto> s)"
    "contents m k = None \<Longrightarrow> \<not> fst (mc_add mc k s e m)"
    "contents m k = None \<Longrightarrow> contents (snd (mc_add mc k s e m)) = (contents m)(k \<mapsto> s)"
  using assms unfolding store_laws_def by blast+

text \<open>The bytes a client still owes.\<close>

definition debt :: "rl_limits \<Rightarrow> int \<Rightarrow> rl_state option \<Rightarrow> int" where
  "debt lm now sp = (case sp of None \<Rightarrow> 0 | Some s \<Rightarrow> bucket lm now s)"

lemma check_debt:
  assumes "store_laws mc contents" "limits_ok lm" "pred_option (clock_ok now) (contents m (mc_key key))"
  shows "fst (check mc lm True key now m) = decide lm (debt lm now (contents m (mc_key key)))"
  using assms(3) store_lawsD(1) [OF assms(1), of "mc_key key" m] leak_bucket [OF assms(2)]
  by (auto simp: check_def debt_def split_beta Let_def split: option.splits)

lemma update_stores:
  assumes "store_laws mc contents" "limits_ok lm" "pred_option (clock_ok now) (contents m (mc_key key))"
    and "0 \<le> bytes" "debt lm now (contents m (mc_key key)) + bytes < 2 ^ 32"
  shows "\<exists>m'. update (Suc fuel) mc lm True key bytes now m = Some m' \<and>
    contents m' = (contents m)(mc_key key \<mapsto>
      \<lparr>last_update = now, bytes_served = debt lm now (contents m (mc_key key)) + bytes\<rparr>)"
proof -
  let ?k = "mc_key key"
  obtain m1 where get: "mc_get mc ?k m = (contents m ?k, m1)" "contents m1 = contents m"
    using store_lawsD(1,2) [OF assms(1), of ?k m] by (metis prod.collapse)
  show ?thesis
  proof (cases "contents m ?k")
    case None
    obtain r m2 where add: "mc_add mc ?k \<lparr>last_update = now, bytes_served = bytes\<rparr> (expiration lm bytes) m1 = (r, m2)" by fastforce
    have "\<not> r" "contents m2 = (contents m)(?k \<mapsto> \<lparr>last_update = now, bytes_served = bytes\<rparr>)"
      using store_lawsD(4,5) [OF assms(1), of m1 ?k] None get(2) add by (metis fst_conv, metis snd_conv)
    with add get None show ?thesis by (simp add: update_def debt_def)
  next
    case (Some s)
    with assms have "refill lm bytes now s = \<lparr>last_update = now, bytes_served = bucket lm now s + bytes\<rparr>"
      by (intro refill_bucket) (simp_all add: debt_def)
    with Some get store_lawsD(3) [OF assms(1), of m1 ?k] show ?thesis by (simp add: update_def debt_def)
  qed
qed

lemma bucket_refilled:
  assumes "limits_ok lm" "0 \<le> b"
  shows "bucket lm later \<lparr>last_update = now, bytes_served = b\<rparr> = max 0 (b - (later - now) * ratelimit lm)"
  by (simp add: bucket_def)

text \<open>
  When another process wins the race for a new entry, the refused \<open>add\<close> is followed by a \<open>get\<close> that finds
  its entry, so that one jump back is enough.
\<close>

lemma update_race:
  assumes "\<And>k s e m. fst (mc_add mc k s e m) \<Longrightarrow> fst (mc_get mc k (snd (mc_add mc k s e m))) \<noteq> None"
  shows "\<exists>m'. update 2 mc lm has_ptr key bytes now m = Some m'"
proof (cases "mc_get mc (mc_key key) m")
  case (Pair sp m1)
  let ?add = "mc_add mc (mc_key key) \<lparr>last_update = now, bytes_served = bytes\<rparr> (expiration lm bytes) m1"
  have "fst ?add \<Longrightarrow> fst (mc_get mc (mc_key key) (snd ?add)) \<noteq> None" by (rule assms)
  with Pair show ?thesis
    by (cases sp; cases ?add) (auto simp: update_def numeral_2_eq_2 split: option.splits prod.splits)
qed

text \<open>A store in memory that satisfies the laws.\<close>

definition plain_store :: "(string \<Rightarrow> rl_state option) memcached" where
  "plain_store =
     \<lparr>mc_get = (\<lambda>k m. (m k, m)),
      mc_replace = (\<lambda>k s e m. if m k = None then m else m(k \<mapsto> s)),
      mc_add = (\<lambda>k s e m. if m k = None then (False, m(k \<mapsto> s)) else (True, m))\<rparr>"

lemma plain_store_laws: "store_laws plain_store (\<lambda>m. m)"
  by (simp add: store_laws_def plain_store_def)

end
