(* ===== verification/Settings.thy ===== *)
theory Settings
  imports Text_Util Rate_Limiter
begin

text \<open>
  The global settings of \<^verbatim>\<open>include/cgimap/options.hpp\<close> and \<^verbatim>\<open>src/options.cpp\<close>: the defaults, and
  \<^verbatim>\<open>global_settings_via_options\<close>, which copies the values of a fallback and then overrides them from
  the command line, checking each.
\<close>

section \<open>Settings and their defaults\<close>

record settings =
  m_payload_max_size :: int
  m_map_max_nodes :: int
  m_map_area_max :: double
  m_changeset_timeout_open_max :: string
  m_changeset_timeout_idle :: string
  m_changeset_max_elements :: int
  m_changeset_enhanced_stats :: bool
  m_way_max_nodes :: int
  m_scale :: int
  m_relation_max_members :: "int option"
  m_element_max_tags :: "int option"
  m_ratelimiter_ratelimit :: int
  m_moderator_ratelimiter_ratelimit :: int
  m_ratelimiter_maxdebt :: int
  m_moderator_ratelimiter_maxdebt :: int
  m_ratelimiter_upload :: bool
  m_bbox_size_limiter_upload :: bool

definition global_settings_default :: settings where
  "global_settings_default =
     \<lparr>m_payload_max_size = 50000000, m_map_max_nodes = 50000, m_map_area_max = finite_double (1 / 4),
      m_changeset_timeout_open_max = ''1 day'', m_changeset_timeout_idle = ''1 hour'',
      m_changeset_max_elements = 10000, m_changeset_enhanced_stats = False, m_way_max_nodes = 2000,
      m_scale = 10000000, m_relation_max_members = None, m_element_max_tags = None,
      m_ratelimiter_ratelimit = 100 * 1024, m_moderator_ratelimiter_ratelimit = 1024 * 1024,
      m_ratelimiter_maxdebt = 250 * 1024 * 1024, m_moderator_ratelimiter_maxdebt = 1024 * 1024 * 1024,
      m_ratelimiter_upload = False, m_bbox_size_limiter_upload = False\<rparr>"

text \<open>The limits the rate limiter works with.\<close>

definition get_ratelimiter_limits :: "settings \<Rightarrow> bool \<Rightarrow> rl_limits" where
  "get_ratelimiter_limits st moderator =
     \<lparr>ratelimit = (if moderator then m_moderator_ratelimiter_ratelimit st else m_ratelimiter_ratelimit st),
      maxdebt = (if moderator then m_moderator_ratelimiter_maxdebt st else m_ratelimiter_maxdebt st)\<rparr>"

section \<open>Options\<close>

text \<open>
  \<^verbatim>\<open>boost::program_options::variables_map\<close>: the value of an option that was given, with its type;
  reading it at another type throws.
\<close>

datatype option_value = opt_int int | opt_bool bool | opt_string string | opt_double double

type_synonym variables_map = "string \<rightharpoonup> option_value"

definition bad_any_cast :: exn where
  "bad_any_cast = runtime_error ''bad_any_cast''"

fun as_int :: "option_value \<Rightarrow> int result" where
  "as_int (opt_int i) = Inr i" | "as_int _ = Inl bad_any_cast"

fun as_bool :: "option_value \<Rightarrow> bool result" where
  "as_bool (opt_bool b) = Inr b" | "as_bool _ = Inl bad_any_cast"

fun as_string :: "option_value \<Rightarrow> string result" where
  "as_string (opt_string s) = Inr s" | "as_string _ = Inl bad_any_cast"

fun as_double :: "option_value \<Rightarrow> double result" where
  "as_double (opt_double d) = Inr d" | "as_double _ = Inl bad_any_cast"

text \<open>The shape of a setter: nothing happens when the option was not given.\<close>

definition with_option ::
    "variables_map \<Rightarrow> string \<Rightarrow> (option_value \<Rightarrow> 'a result) \<Rightarrow> ('a \<Rightarrow> settings \<Rightarrow> settings result) \<Rightarrow> settings \<Rightarrow> settings result" where
  "with_option options name as_type f st =
     (case options name of None \<Rightarrow> Inr st | Some v \<Rightarrow> bindE (as_type v) (\<lambda>x. f x st))"

definition invalid_option :: "bool \<Rightarrow> string \<Rightarrow> settings \<Rightarrow> settings result" where
  "invalid_option bad msg st = bindE (throw_if bad (runtime_error msg)) (\<lambda>_. Inr st)"

fun not_positive :: "double \<Rightarrow> bool" where
  "not_positive (finite_double x) \<longleftrightarrow> x \<le> 0"
| "not_positive (infinite_double neg) \<longleftrightarrow> neg"
| "not_positive nan_double \<longleftrightarrow> False"

text \<open>The simplified parser for intervals: digits, one blank, a unit.\<close>

definition validate_timeout :: "string \<Rightarrow> bool" where
  "validate_timeout timeout \<longleftrightarrow>
     (case split timeout CHR '' '' of
        [n, u] \<Rightarrow> list_all is_digit n \<and>
          u \<in> {''day'', ''days'', ''hour'', ''hours'', ''minute'', ''minutes'', ''second'', ''seconds''}
      | _ \<Rightarrow> False)"

definition set_payload_max_size :: "variables_map \<Rightarrow> settings \<Rightarrow> settings result" where
  "set_payload_max_size options =
     with_option options ''max-payload'' as_int (\<lambda>n st.
       bindE (invalid_option (n \<le> 0) ''max-payload must be a positive number'' st) (\<lambda>st.
       Inr (st\<lparr>m_payload_max_size := u32 n\<rparr>)))"

definition set_map_max_nodes :: "variables_map \<Rightarrow> settings \<Rightarrow> settings result" where
  "set_map_max_nodes options =
     with_option options ''map-nodes'' as_int (\<lambda>n st.
       bindE (invalid_option (n \<le> 0) ''map-nodes must be a positive number'' st) (\<lambda>st.
       Inr (st\<lparr>m_map_max_nodes := u32 n\<rparr>)))"

definition set_map_area_max :: "variables_map \<Rightarrow> settings \<Rightarrow> settings result" where
  "set_map_area_max options =
     with_option options ''map-area'' as_double (\<lambda>d st.
       invalid_option (not_positive d) ''map-area must be a positive number'' (st\<lparr>m_map_area_max := d\<rparr>))"

definition set_changeset_timeout_open_max :: "variables_map \<Rightarrow> settings \<Rightarrow> settings result" where
  "set_changeset_timeout_open_max options =
     with_option options ''changeset-timeout-open'' as_string (\<lambda>t st.
       invalid_option (\<not> validate_timeout t) ''Invalid changeset max open timeout value''
         (st\<lparr>m_changeset_timeout_open_max := t\<rparr>))"

definition set_changeset_timeout_idle :: "variables_map \<Rightarrow> settings \<Rightarrow> settings result" where
  "set_changeset_timeout_idle options =
     with_option options ''changeset-timeout-idle'' as_string (\<lambda>t st.
       invalid_option (\<not> validate_timeout t) ''Invalid changeset idle timeout value''
         (st\<lparr>m_changeset_timeout_idle := t\<rparr>))"

definition set_changeset_max_elements :: "variables_map \<Rightarrow> settings \<Rightarrow> settings result" where
  "set_changeset_max_elements options =
     with_option options ''max-changeset-elements'' as_int (\<lambda>n st.
       bindE (invalid_option (n \<le> 0) ''max-changeset-elements must be a positive number'' st) (\<lambda>st.
       bindE (invalid_option (n > 50000) ''max-changeset-elements must not exceed 50000'' st) (\<lambda>st.
       Inr (st\<lparr>m_changeset_max_elements := n\<rparr>))))"

definition set_changeset_enhanced_stats :: "variables_map \<Rightarrow> settings \<Rightarrow> settings result" where
  "set_changeset_enhanced_stats options =
     with_option options ''changeset-enhanced-stats'' as_bool (\<lambda>b st. Inr (st\<lparr>m_changeset_enhanced_stats := b\<rparr>))"

definition set_way_max_nodes :: "variables_map \<Rightarrow> settings \<Rightarrow> settings result" where
  "set_way_max_nodes options =
     with_option options ''max-way-nodes'' as_int (\<lambda>n st.
       bindE (invalid_option (n \<le> 0) ''max-way-nodes must be a positive number'' st) (\<lambda>st.
       Inr (st\<lparr>m_way_max_nodes := u32 n\<rparr>)))"

definition set_scale :: "variables_map \<Rightarrow> settings \<Rightarrow> settings result" where
  "set_scale options =
     with_option options ''scale'' as_int (\<lambda>n st.
       invalid_option (n \<le> 0) ''scale must be a positive number'' (st\<lparr>m_scale := n\<rparr>))"

definition set_relation_max_members :: "variables_map \<Rightarrow> settings \<Rightarrow> settings result" where
  "set_relation_max_members options =
     with_option options ''max-relation-members'' as_int (\<lambda>n st.
       bindE (invalid_option (n \<le> 0) ''max-relation-members must be a positive number'' st) (\<lambda>st.
       Inr (st\<lparr>m_relation_max_members := Some (u32 n)\<rparr>)))"

definition set_element_max_tags :: "variables_map \<Rightarrow> settings \<Rightarrow> settings result" where
  "set_element_max_tags options =
     with_option options ''max-element-tags'' as_int (\<lambda>n st.
       bindE (invalid_option (n \<le> 0) ''max-element-tags must be a positive number'' st) (\<lambda>st.
       Inr (st\<lparr>m_element_max_tags := Some (u32 n)\<rparr>)))"

definition set_ratelimiter_ratelimit :: "variables_map \<Rightarrow> settings \<Rightarrow> settings result" where
  "set_ratelimiter_ratelimit options st0 =
     bindE (with_option options ''ratelimit'' as_int (\<lambda>n st.
       bindE (invalid_option (n \<le> 0) ''ratelimit must be greater than zero'' st) (\<lambda>st.
       bindE (invalid_option (n > 1024 * 1024 * 1024) ''ratelimit must be 1GB or less'' st) (\<lambda>st.
       Inr (st\<lparr>m_ratelimiter_ratelimit := u32 n\<rparr>)))) st0)
       (with_option options ''moderator-ratelimit'' as_int (\<lambda>n st.
       bindE (invalid_option (n \<le> 0) ''moderator-ratelimit must be greater than zero'' st) (\<lambda>st.
       bindE (invalid_option (n > 1024 * 1024 * 1024) ''moderator-ratelimit must be 1GB or less'' st) (\<lambda>st.
       Inr (st\<lparr>m_moderator_ratelimiter_ratelimit := u32 n\<rparr>)))))"

definition set_ratelimiter_maxdebt :: "variables_map \<Rightarrow> settings \<Rightarrow> settings result" where
  "set_ratelimiter_maxdebt options st0 =
     bindE (with_option options ''maxdebt'' as_int (\<lambda>n st.
       bindE (invalid_option (n \<le> 0) ''maxdebt must be greater than zero'' st) (\<lambda>st.
       bindE (invalid_option (n > 3500) ''maxdebt (in MB) must be 3500 or less'' st) (\<lambda>st.
       Inr (st\<lparr>m_ratelimiter_maxdebt := u32 (n * 1024 * 1024)\<rparr>)))) st0)
       (with_option options ''moderator-maxdebt'' as_int (\<lambda>n st.
       bindE (invalid_option (n \<le> 0) ''moderator-maxdebt must be greater than zero'' st) (\<lambda>st.
       bindE (invalid_option (n > 3500) ''moderator-maxdebt (in MB) must be 3500 or less'' st) (\<lambda>st.
       Inr (st\<lparr>m_moderator_ratelimiter_maxdebt := u32 (n * 1024 * 1024)\<rparr>)))))"

definition set_ratelimiter_upload :: "variables_map \<Rightarrow> settings \<Rightarrow> settings result" where
  "set_ratelimiter_upload options =
     with_option options ''ratelimit-upload'' as_bool (\<lambda>b st. Inr (st\<lparr>m_ratelimiter_upload := b\<rparr>))"

definition set_bbox_size_limiter_upload :: "variables_map \<Rightarrow> settings \<Rightarrow> settings result" where
  "set_bbox_size_limiter_upload options =
     with_option options ''bbox-size-limit-upload'' as_bool (\<lambda>b st. Inr (st\<lparr>m_bbox_size_limiter_upload := b\<rparr>))"

text \<open>The setters in the order the constructor calls them.\<close>

definition option_setters :: "(variables_map \<Rightarrow> settings \<Rightarrow> settings result) list" where
  "option_setters =
     [set_payload_max_size, set_map_max_nodes, set_map_area_max, set_changeset_timeout_open_max,
      set_changeset_timeout_idle, set_changeset_max_elements, set_changeset_enhanced_stats, set_way_max_nodes,
      set_scale, set_relation_max_members, set_element_max_tags, set_ratelimiter_ratelimit,
      set_ratelimiter_maxdebt, set_ratelimiter_upload, set_bbox_size_limiter_upload]"

definition set_new_options :: "variables_map \<Rightarrow> settings \<Rightarrow> settings result" where
  "set_new_options options st = foldE (\<lambda>setter st. setter options st) option_setters st"

text \<open>The constructor: the fallback values, then the options.\<close>

definition global_settings_via_options :: "variables_map \<Rightarrow> settings \<Rightarrow> settings result" where
  "global_settings_via_options options fallback = set_new_options options fallback"

section \<open>Every setting stays in range\<close>

text \<open>
  The values the program relies on: a usable rate limiter, at most 50000 changes, a positive scale,
  and timeouts in the accepted form.
\<close>

definition settings_ok :: "settings \<Rightarrow> bool" where
  "settings_ok st \<longleftrightarrow>
     0 < m_changeset_max_elements st \<and> m_changeset_max_elements st \<le> 50000 \<and> 0 < m_scale st \<and>
     validate_timeout (m_changeset_timeout_open_max st) \<and> validate_timeout (m_changeset_timeout_idle st) \<and>
     \<not> not_positive (m_map_area_max st) \<and> is_u32 (m_payload_max_size st) \<and>
     is_u32 (m_map_max_nodes st) \<and> is_u32 (m_way_max_nodes st) \<and>
     (case m_relation_max_members st of None \<Rightarrow> True | Some n \<Rightarrow> is_u32 n) \<and>
     (case m_element_max_tags st of None \<Rightarrow> True | Some n \<Rightarrow> is_u32 n) \<and>
     limits_ok (get_ratelimiter_limits st False) \<and> limits_ok (get_ratelimiter_limits st True)"

definition keeps_ok :: "(settings \<Rightarrow> settings result) \<Rightarrow> bool" where
  "keeps_ok f \<longleftrightarrow> (\<forall>st st'. settings_ok st \<longrightarrow> f st = Inr st' \<longrightarrow> settings_ok st')"

lemma invalid_option_Inr [result_simps]: "invalid_option bad msg st = Inr st' \<longleftrightarrow> \<not> bad \<and> st' = st"
  by (auto simp: invalid_option_def result_simps)

lemma keeps_option: "(\<And>x. keeps_ok (f x)) \<Longrightarrow> keeps_ok (with_option options name as_type f)"
  by (auto simp: keeps_ok_def with_option_def result_simps split: option.splits)

lemma keeps_bind: "keeps_ok f \<Longrightarrow> keeps_ok g \<Longrightarrow> keeps_ok (\<lambda>st. bindE (f st) g)"
  unfolding keeps_ok_def bindE_Inr_iff by blast

lemma u32_rate: "0 < n \<Longrightarrow> n \<le> 1073741824 \<Longrightarrow> u32 n = n"
  by (rule u32_id) (simp add: is_u32_def)

lemma u32_debt: "0 < n \<Longrightarrow> n \<le> 3500 \<Longrightarrow> u32 (1048576 * n) = 1048576 * n"
  by (rule u32_id) (simp add: is_u32_def)

lemmas setter_defs = set_payload_max_size_def set_map_max_nodes_def set_map_area_max_def set_changeset_timeout_open_max_def
  set_changeset_timeout_idle_def set_changeset_max_elements_def set_changeset_enhanced_stats_def set_way_max_nodes_def
  set_scale_def set_relation_max_members_def set_element_max_tags_def set_ratelimiter_ratelimit_def
  set_ratelimiter_maxdebt_def set_ratelimiter_upload_def set_bbox_size_limiter_upload_def

lemmas settings_ok_defs = keeps_ok_def settings_ok_def limits_ok_def get_ratelimiter_limits_def

lemma setters_keep [intro]:
  "keeps_ok (set_payload_max_size options)"
  "keeps_ok (set_map_max_nodes options)"
  "keeps_ok (set_map_area_max options)"
  "keeps_ok (set_changeset_timeout_open_max options)"
  "keeps_ok (set_changeset_timeout_idle options)"
  "keeps_ok (set_changeset_max_elements options)"
  "keeps_ok (set_changeset_enhanced_stats options)"
  "keeps_ok (set_way_max_nodes options)"
  "keeps_ok (set_scale options)"
  "keeps_ok (set_relation_max_members options)"
  "keeps_ok (set_element_max_tags options)"
  "keeps_ok (set_ratelimiter_upload options)"
  "keeps_ok (set_bbox_size_limiter_upload options)"
  unfolding setter_defs by (rule keeps_option; auto simp: settings_ok_defs result_simps u32_range)+

lemma rate_setters_keep [intro]:
  "keeps_ok (set_ratelimiter_ratelimit options)"
  "keeps_ok (set_ratelimiter_maxdebt options)"
  unfolding setter_defs by (rule keeps_bind; rule keeps_option; auto simp: settings_ok_defs result_simps u32_rate u32_debt)+

lemma settings_via_options_ok:
  assumes "global_settings_via_options options fallback = Inr st" "settings_ok fallback"
  shows "settings_ok st"
proof -
  have keeps: "keeps_ok (foldE (\<lambda>setter st. setter options st) ss)" if "\<forall>setter\<in>set ss. keeps_ok (setter options)" for ss
    using that
  proof (induction ss)
    case (Cons f ss)
    then have "keeps_ok (\<lambda>st. bindE (f options st) (foldE (\<lambda>setter st. setter options st) ss))"
      by (intro keeps_bind) simp_all
    then show ?case by (simp add: keeps_ok_def)
  qed (simp add: keeps_ok_def)
  have "\<forall>setter\<in>set option_setters. keeps_ok (setter options)" by (simp add: option_setters_def setters_keep rate_setters_keep)
  from keeps [OF this] assms show ?thesis
    unfolding keeps_ok_def global_settings_via_options_def set_new_options_def by blast
qed

lemma settings_default_ok: "settings_ok global_settings_default"
  by (simp add: settings_ok_def global_settings_default_def get_ratelimiter_limits_def limits_ok_def is_u32_def
      validate_timeout_def split_def is_digit_def less_eq_char_def)

end
