(* ===== verification/Pg_Arrays.thy ===== *)
theory Pg_Arrays
  imports Text_Util
begin

text \<open>
  The text format of PostgreSQL arrays, as \<^verbatim>\<open>src/backend/apidb/utils.cpp\<close> reads it back into
  vectors: \<^verbatim>\<open>psql_array_to_vector\<close> for strings (keys and values of tags, roles of members, comments)
  and \<^verbatim>\<open>psql_array_ids_to_vector\<close> for ids; and the quoting of connection parameters.
\<close>

section \<open>Reading arrays\<close>

record array_state =
  ar_strs :: "string list"
  ar_value :: string
  ar_quoted :: bool
  ar_escaped :: bool

definition array_init :: array_state where
  "array_init = \<lparr>ar_strs = [], ar_value = [], ar_quoted = False, ar_escaped = False\<rparr>"

definition put_char :: "char \<Rightarrow> array_state \<Rightarrow> array_state" where
  "put_char c st = st\<lparr>ar_value := ar_value st @ [c]\<rparr>"

definition write_value :: "array_state \<Rightarrow> array_state" where
  "write_value st = st\<lparr>ar_strs := ar_strs st @ [ar_value st], ar_value := []\<rparr>"

text \<open>One character of the loop; a delimiter outside quotes sets the write flag.\<close>

definition array_step :: "char \<Rightarrow> array_state \<Rightarrow> array_state" where
  "array_step c st =
     (if c = CHR '','' \<or> c = CHR ''}'' then (if ar_quoted st then put_char c st else write_value st)
      else if c = CHR 0x22 then
        (if ar_escaped st then (put_char c st)\<lparr>ar_escaped := False\<rparr> else st\<lparr>ar_quoted := \<not> ar_quoted st\<rparr>)
      else if c = CHR 0x5C then
        (if ar_escaped st then (put_char c st)\<lparr>ar_escaped := False\<rparr> else st\<lparr>ar_escaped := True\<rparr>)
      else put_char c st)"

definition psql_array_to_vector :: "string \<Rightarrow> string list" where
  "psql_array_to_vector str =
     (if str = ''{NULL}'' \<or> str = [] then [] else ar_strs (fold array_step (tl str) array_init))"

text \<open>
  The loop over an array of ids: \<open>start\<close> holds the characters since the last delimiter, which
  \<^verbatim>\<open>std::from_chars\<close> reads.
\<close>

fun array_ids :: "(string \<Rightarrow> parse_error + int) \<Rightarrow> string \<Rightarrow> string \<Rightarrow> int list result" where
  "array_ids from_chars start [] = Inr []"
| "array_ids from_chars start (c # cs) =
     (if c = CHR '','' \<or> c = CHR ''}'' then
        (case from_chars start of
           Inl _ \<Rightarrow> Inl (runtime_error ''Conversion to integer failed'')
         | Inr i \<Rightarrow> bindE (array_ids from_chars [] cs) (\<lambda>is'. Inr (i # is')))
      else array_ids from_chars (start @ [c]) cs)"

definition psql_array_ids_to_vector :: "(string \<Rightarrow> parse_error + int) \<Rightarrow> string \<Rightarrow> int list result" where
  "psql_array_ids_to_vector from_chars str =
     (if str = ''{NULL}'' \<or> str = [] then Inr [] else array_ids from_chars [] (tl str))"

section \<open>Connection parameters\<close>

definition escape_pg_value :: "string \<Rightarrow> string" where
  "escape_pg_value value =
     (let escaped = concat (map (\<lambda>c. if c = CHR 0x27 \<or> c = CHR 0x5C then [CHR 0x5C, c] else [c]) value)
      in if value = [] \<or> list_ex (\<lambda>c. c \<in> {CHR 0x27, CHR 0x5C, CHR '' ''}) value
         then CHR 0x27 # escaped @ [CHR 0x27] else escaped)"

section \<open>The format PostgreSQL writes\<close>

text \<open>
  The documented output of an array: elements separated by commas in braces; an element is
  quoted where \<open>q\<close> says so, with a backslash before quotes and backslashes. PostgreSQL quotes at
  least what would be misread otherwise, and the word NULL.
\<close>

definition pg_element :: "(string \<Rightarrow> bool) \<Rightarrow> string \<Rightarrow> string" where
  "pg_element q s = (if q s then escape s else s)"

definition pg_array :: "(string \<Rightarrow> bool) \<Rightarrow> string list \<Rightarrow> string" where
  "pg_array q vs = ''{'' @ join_comma (map (pg_element q) vs) @ ''}''"

definition plain_text :: "string \<Rightarrow> bool" where
  "plain_text s \<longleftrightarrow> list_all (\<lambda>c. c \<notin> {CHR '','', CHR ''}'', CHR 0x22, CHR 0x5C}) s"

definition quotes_enough :: "(string \<Rightarrow> bool) \<Rightarrow> bool" where
  "quotes_enough q \<longleftrightarrow> q ''NULL'' \<and> (\<forall>s. \<not> q s \<longrightarrow> plain_text s)"

section \<open>Round trips\<close>

abbreviation ready :: "string list \<Rightarrow> string \<Rightarrow> array_state" where
  "ready strs v \<equiv> \<lparr>ar_strs = strs, ar_value = v, ar_quoted = False, ar_escaped = False\<rparr>"

lemma fold_plain: "plain_text s \<Longrightarrow> fold array_step s (ready strs v) = ready strs (v @ s)"
  by (induction s arbitrary: v) (auto simp: plain_text_def array_step_def put_char_def)

lemma fold_escaped:
  "fold array_step (concat (map escape_char s)) (ready strs v\<lparr>ar_quoted := True\<rparr>) = (ready strs (v @ s))\<lparr>ar_quoted := True\<rparr>"
  by (induction s arbitrary: v) (auto simp: escape_char_def array_step_def put_char_def)

lemma fold_element:
  assumes "quotes_enough q"
  shows "fold array_step (pg_element q s) (ready strs []) = ready strs s"
proof (cases "q s")
  case True
  have "array_step CHR 0x22 (ready strs []) = (ready strs [])\<lparr>ar_quoted := True\<rparr>" by (simp add: array_step_def)
  moreover have "array_step CHR 0x22 ((ready strs s)\<lparr>ar_quoted := True\<rparr>) = ready strs s" by (simp add: array_step_def)
  ultimately show ?thesis using True fold_escaped [of s strs "[]"] by (simp add: pg_element_def escape_def)
next
  case False
  with assms have "plain_text s" by (simp add: quotes_enough_def)
  with False fold_plain [of s strs "[]"] show ?thesis by (simp add: pg_element_def)
qed

lemma array_step_delim [simp]:
  "array_step CHR '','' (ready strs x) = ready (strs @ [x]) []" "array_step CHR ''}'' (ready strs x) = ready (strs @ [x]) []"
  by (simp_all add: array_step_def write_value_def)

lemma fold_elements:
  assumes "quotes_enough q" "vs \<noteq> []"
  shows "fold array_step (join_comma (map (pg_element q) vs) @ ''}'') (ready strs []) = ready (strs @ vs) []"
  using assms(2)
proof (induction vs arbitrary: strs rule: induct_list012)
  case (2 x)
  then show ?case using fold_element [OF assms(1)] by simp
next
  case (3 x y zs)
  with 3(2) [of "strs @ [x]"] show ?case using fold_element [OF assms(1)] by simp
qed simp

lemma pg_array_not_null:
  assumes "quotes_enough q" "vs \<noteq> []"
  shows "pg_array q vs \<noteq> ''{NULL}''"
proof
  assume null: "pg_array q vs = ''{NULL}''"
  then have "join_comma (map (pg_element q) vs) = ''NULL''" by (simp add: pg_array_def)
  moreover have "fold array_step (join_comma (map (pg_element q) vs) @ ''}'') (ready [] []) = ready vs []"
    using fold_elements [OF assms, of "[]"] by simp
  ultimately have "vs = [''NULL'']" by (simp add: array_step_def put_char_def write_value_def)
  with null assms(1) show False by (simp add: pg_array_def pg_element_def quotes_enough_def escape_def)
qed

lemma psql_array_roundtrip:
  assumes "quotes_enough q" "vs \<noteq> []"
  shows "psql_array_to_vector (pg_array q vs) = vs"
proof -
  have "pg_array q vs \<noteq> []" by (simp add: pg_array_def)
  moreover have "tl (pg_array q vs) = join_comma (map (pg_element q) vs) @ ''}''" by (simp add: pg_array_def)
  ultimately show ?thesis using pg_array_not_null [OF assms] fold_elements [OF assms, of "[]"]
    by (simp add: psql_array_to_vector_def array_init_def)
qed

lemma array_ids_number:
  assumes "from_chars (start @ s) = Inr i" "\<forall>c\<in>set s. c \<noteq> CHR '','' \<and> c \<noteq> CHR ''}''" "d = CHR '','' \<or> d = CHR ''}''"
  shows "array_ids from_chars start (s @ d # cs) = bindE (array_ids from_chars [] cs) (\<lambda>is'. Inr (i # is'))"
  using assms by (induction s arbitrary: start) auto

lemma fmt_d_no_delim: "\<forall>c\<in>set (fmt_d v). c \<noteq> CHR '','' \<and> c \<noteq> CHR ''}''"
  using fmt_d_free [of "CHR '',''" v] fmt_d_free [of "CHR ''}''" v] by (auto simp: is_digit_not)

lemma psql_ids_fold:
  assumes "\<forall>i\<in>set ids. from_chars (fmt_d i) = Inr i" "ids \<noteq> []"
  shows "array_ids from_chars [] (join_comma (map fmt_d ids) @ ''}'') = Inr ids"
  using assms
proof (induction ids rule: induct_list012)
  case (2 x)
  then show ?case using array_ids_number [of from_chars "[]" "fmt_d x" x "CHR ''}''" "[]"] fmt_d_no_delim [of x] by simp
next
  case (3 x y zs)
  then show ?case
    using array_ids_number [of from_chars "[]" "fmt_d x" x "CHR '',''" "join_comma (map fmt_d (y # zs)) @ ''}''"] fmt_d_no_delim [of x]
    by simp
qed simp

lemma psql_ids_roundtrip:
  assumes "\<forall>i\<in>set ids. from_chars (fmt_d i) = Inr i" "ids \<noteq> []"
  shows "psql_array_ids_to_vector from_chars (''{'' @ join_comma (map fmt_d ids) @ ''}'') = Inr ids"
proof -
  have "''{'' @ join_comma (map fmt_d ids) @ ''}'' \<noteq> ''{NULL}''"
  proof
    assume "''{'' @ join_comma (map fmt_d ids) @ ''}'' = ''{NULL}''"
    then have "join_comma (map fmt_d ids) = ''NULL''" by simp
    moreover from assms(2) obtain i is' where "ids = i # is'" by (cases ids) simp_all
    then have "hd (join_comma (map fmt_d ids)) = hd (fmt_d i)" by (cases is') simp_all
    ultimately have "hd (fmt_d i) = CHR ''N''" by simp
    then have "CHR ''N'' \<in> set (fmt_d i)" by (metis fmt_d_not_Nil hd_in_set)
    then show False using fmt_d_free [of "CHR ''N''" i] by (simp add: is_digit_not)
  qed
  with psql_ids_fold [OF assms] show ?thesis by (simp add: psql_array_ids_to_vector_def)
qed

end
