(* ===== verification/Row_Extraction.thy ===== *)
theory Row_Extraction
  imports Pg_Arrays
begin

text \<open>
  \<^verbatim>\<open>src/backend/apidb/common_pgsql_selection.cpp\<close>: turning the rows of a query into what the
  formatters print. Tags, way nodes, members and comments arrive as arrays in text form; user
  details come from a cache of changesets and are hidden for users whose data is not public.
\<close>

section \<open>Rows and results\<close>

text \<open>\<^verbatim>\<open>struct changeset\<close>, the user record of a changeset; a missing entry of the cache is value-initialised.\<close>

record changeset =
  data_public :: bool
  display_name :: string
  cs_user_id :: osm_user_id_t

definition no_changeset :: changeset where
  "no_changeset = \<lparr>data_public = False, display_name = [], cs_user_id = 0\<rparr>"

type_synonym changeset_cache = "osm_changeset_id_t \<rightharpoonup> changeset"

definition cached :: "changeset_cache \<Rightarrow> osm_changeset_id_t \<Rightarrow> changeset" where
  "cached cc cs = (case cc cs of None \<Rightarrow> no_changeset | Some c \<Rightarrow> c)"

record elem_columns =
  col_id :: int
  col_version :: int
  col_timestamp :: string
  col_changeset :: int
  col_visible :: bool

record element_info =
  ei_id :: osm_nwr_id_t
  ei_version :: int
  ei_changeset :: osm_changeset_id_t
  ei_timestamp :: string
  ei_uid :: "osm_user_id_t option"
  ei_display_name :: "string option"
  ei_visible :: bool
  ei_redaction :: "int option"

record changeset_columns =
  cc_id :: int
  cc_created_at :: string
  cc_closed_at :: string
  cc_min_lat :: "int option"
  cc_min_lon :: "int option"
  cc_max_lat :: "int option"
  cc_max_lon :: "int option"
  cc_num_changes :: int

record changeset_info =
  ci_id :: osm_changeset_id_t
  ci_created_at :: string
  ci_closed_at :: string
  ci_uid :: "osm_user_id_t option"
  ci_display_name :: "string option"
  ci_bounding_box :: "(rat \<times> rat \<times> rat \<times> rat) option"
  ci_num_changes :: int
  ci_comments_count :: nat

datatype element_type = et_changeset | et_node | et_way | et_relation

record member_info =
  mi_type :: element_type
  mi_ref :: osm_nwr_id_t
  mi_role :: string

record changeset_comment_info =
  cm_id :: int
  cm_author_id :: osm_user_id_t
  cm_body :: string
  cm_created_at :: string
  cm_author_display_name :: string

section \<open>Extraction\<close>

definition user_details :: "changeset \<Rightarrow> osm_user_id_t option \<times> string option" where
  "user_details cs = (if data_public cs then (Some (cs_user_id cs), Some (display_name cs)) else (None, None))"

definition extract_elem :: "changeset_cache \<Rightarrow> 'a elem_columns_scheme \<Rightarrow> element_info" where
  "extract_elem cc row =
     (let (uid, name) = user_details (cached cc (col_changeset row)) in
      \<lparr>ei_id = col_id row, ei_version = col_version row, ei_changeset = col_changeset row,
       ei_timestamp = col_timestamp row, ei_uid = uid, ei_display_name = name, ei_visible = col_visible row,
       ei_redaction = None\<rparr>)"

text \<open>The division of a fixed-point coordinate by the scale, in doubles.\<close>

definition from_fixed :: "int \<Rightarrow> rat" where
  "from_fixed k = fl (of_int k / 10000000)"

definition extract_changeset :: "changeset_cache \<Rightarrow> 'a changeset_columns_scheme \<Rightarrow> changeset_info" where
  "extract_changeset cc row =
     (let (uid, name) = user_details (cached cc (cc_id row)) in
      \<lparr>ci_id = cc_id row, ci_created_at = cc_created_at row, ci_closed_at = cc_closed_at row,
       ci_uid = uid, ci_display_name = name,
       ci_bounding_box =
         (case (cc_min_lat row, cc_min_lon row, cc_max_lat row, cc_max_lon row) of
            (Some a, Some b, Some c, Some d) \<Rightarrow> Some (from_fixed a, from_fixed b, from_fixed c, from_fixed d)
          | _ \<Rightarrow> None),
       ci_num_changes = cc_num_changes row, ci_comments_count = 0\<rparr>)"

definition extract_tags :: "string \<Rightarrow> string \<Rightarrow> (string \<times> string) list result" where
  "extract_tags tag_k tag_v =
     (let keys = psql_array_to_vector tag_k; vals = psql_array_to_vector tag_v in
      if length keys \<noteq> length vals then Inl (runtime_error ''Mismatch in tags key and value size'')
      else Inr (zip keys vals))"

definition extract_way_nodes :: "string \<Rightarrow> int list result" where
  "extract_way_nodes node_ids = psql_array_ids_to_vector from_chars_u64 node_ids"

definition type_from_name :: "string \<Rightarrow> element_type result" where
  "type_from_name name =
     (let c = (if name = [] then CHR 0x00 else hd name) in
      if c = CHR ''N'' \<or> c = CHR ''n'' then Inr et_node
      else if c = CHR ''W'' \<or> c = CHR ''w'' then Inr et_way
      else if c = CHR ''R'' \<or> c = CHR ''r'' then Inr et_relation
      else Inl (runtime_error ''Unexpected name not matched to type in type_from_name().''))"

definition extract_member :: "string \<times> int \<times> string \<Rightarrow> member_info result" where
  "extract_member m =
     (let (ty, i, role) = m in bindE (type_from_name ty) (\<lambda>t. Inr \<lparr>mi_type = t, mi_ref = i, mi_role = role\<rparr>))"

definition extract_members :: "string \<Rightarrow> string \<Rightarrow> string \<Rightarrow> member_info list result" where
  "extract_members member_types member_ids member_roles =
     bindE (psql_array_ids_to_vector from_chars_u64 member_ids) (\<lambda>ids.
     let types = psql_array_to_vector member_types; roles = psql_array_to_vector member_roles in
     if length types \<noteq> length ids \<or> length ids \<noteq> length roles
     then Inl (runtime_error ''Mismatch in members types, ids and roles size'')
     else mapE extract_member (zip types (zip ids roles)))"

text \<open>\<^verbatim>\<open>std::from_chars\<close> for the 32-bit ids of comments.\<close>

definition from_chars_s32 :: "string \<Rightarrow> parse_error + int" where
  "from_chars_s32 s =
     (case from_chars_s64 s of
        Inl e \<Rightarrow> Inl e
      | Inr v \<Rightarrow> if - (2 ^ 31) \<le> v \<and> v < 2 ^ 31 then Inr v else Inl result_out_of_range)"

definition extract_comments :: "string \<Rightarrow> string \<Rightarrow> string \<Rightarrow> string \<Rightarrow> string \<Rightarrow> changeset_comment_info list result" where
  "extract_comments comment_id author_id comment_display_name body created_at =
     bindE (psql_array_ids_to_vector from_chars_s32 comment_id) (\<lambda>ids.
     bindE (psql_array_ids_to_vector from_chars_u64 author_id) (\<lambda>authors.
     let names = psql_array_to_vector comment_display_name; bodies = psql_array_to_vector body;
         times = psql_array_to_vector created_at in
     if length ids \<noteq> length authors \<or> length authors \<noteq> length names \<or> length names \<noteq> length bodies \<or>
        length bodies \<noteq> length times
     then Inl (runtime_error ''Mismatch in comments author_id, display_name, body and created_at size'')
     else Inr (map (\<lambda>(i, a, n, b, t). \<lparr>cm_id = i, cm_author_id = a, cm_body = b, cm_created_at = t, cm_author_display_name = n\<rparr>)
            (zip ids (zip authors (zip names (zip bodies times)))))))"

section \<open>The arrays of an element read back\<close>

fun type_name :: "element_type \<Rightarrow> string" where
  "type_name et_node = ''Node''"
| "type_name et_way = ''Way''"
| "type_name et_relation = ''Relation''"
| "type_name et_changeset = ''Changeset''"

text \<open>
  \<^verbatim>\<open>array_agg\<close>: an array of the values. Without any, it is NULL, which the client library reads as an
  empty text, or an array of one NULL, where the aggregate runs over an outer join.
\<close>

definition agg_text :: "(string \<Rightarrow> bool) \<Rightarrow> bool \<Rightarrow> string list \<Rightarrow> string" where
  "agg_text q outer vs = (if vs = [] then (if outer then ''{NULL}'' else []) else pg_array q vs)"

definition agg_ids :: "int list \<Rightarrow> string" where
  "agg_ids ids = (if ids = [] then [] else ''{'' @ join_comma (map fmt_d ids) @ ''}'')"

lemma agg_text_read: "quotes_enough q \<Longrightarrow> psql_array_to_vector (agg_text q outer vs) = vs"
  by (cases "vs = []") (simp_all add: agg_text_def psql_array_roundtrip, simp add: psql_array_to_vector_def)

lemma agg_ids_read: "\<forall>i\<in>set ids. is_u64 i \<Longrightarrow> psql_array_ids_to_vector from_chars_u64 (agg_ids ids) = Inr ids"
proof (cases "ids = []")
  case False
  assume "\<forall>i\<in>set ids. is_u64 i"
  then have "\<forall>i\<in>set ids. from_chars_u64 (fmt_d i) = Inr i"
    by (simp add: from_chars_u64_def from_chars_unsigned_fmt is_u64_def)
  from psql_ids_roundtrip [OF this False] False show ?thesis by (simp add: agg_ids_def)
qed (simp add: agg_ids_def psql_array_ids_to_vector_def)

lemma extract_tags_read:
  assumes "quotes_enough q"
  shows "extract_tags (agg_text q outer (map fst ts)) (agg_text q outer (map snd ts)) = Inr ts"
  by (simp add: extract_tags_def agg_text_read [OF assms] zip_map_fst_snd)

lemma type_from_name_read: "t \<noteq> et_changeset \<Longrightarrow> type_from_name (type_name t) = Inr t"
  by (cases t) (simp_all add: type_from_name_def)

lemma extract_members_read:
  assumes "quotes_enough q" "\<forall>m\<in>set ms. is_u64 (mi_ref m) \<and> mi_type m \<noteq> et_changeset"
  shows "extract_members (agg_text q outer (map (type_name \<circ> mi_type) ms)) (agg_ids (map mi_ref ms)) (agg_text q outer (map mi_role ms)) = Inr ms"
proof -
  have ids: "psql_array_ids_to_vector from_chars_u64 (agg_ids (map mi_ref ms)) = Inr (map mi_ref ms)"
    using assms(2) by (intro agg_ids_read) auto
  have "mapE extract_member (zip (map (type_name \<circ> mi_type) ms) (zip (map mi_ref ms) (map mi_role ms))) = Inr ms"
    using assms(2) by (induction ms) (auto simp: extract_member_def type_from_name_read)
  with ids show ?thesis by (simp add: extract_members_def agg_text_read [OF assms(1)])
qed

end
