(* ===== verification/Http.thy ===== *)
theory Http
  imports Text_Util
begin

unbundle bit_operations_syntax

text \<open>
  \<^verbatim>\<open>src/http.cpp\<close>: decoding of query strings, the choice of a content encoding from the
  \<^verbatim>\<open>Accept-Encoding\<close> header, request methods as sets of bits, the length of a payload and the
  response header.
\<close>

section \<open>Query strings\<close>

definition hex_value :: "char \<Rightarrow> int" where
  "hex_value c = (if CHR ''A'' \<le> c then (of_char c AND 0xDF) - 65 + 10 else of_char c - 48)"

definition hexToChar :: "char \<Rightarrow> char \<Rightarrow> char" where
  "hexToChar first second = char_of (hex_value first * 16 + hex_value second)"

text \<open>
  A percent sign that is not followed by two hexadecimal digits is passed through. At the end of
  the string the loop looks at the terminating zero, which is not a digit.
\<close>

fun form_urldecode :: "string \<Rightarrow> string" where
  "form_urldecode [] = []"
| "form_urldecode [c] = (if c = CHR ''+'' then [CHR '' ''] else [c])"
| "form_urldecode [c, d] =
     (if c = CHR ''+'' then CHR '' '' # form_urldecode [d] else c # form_urldecode [d])"
| "form_urldecode (c # a # b # cs) =
     (if c = CHR ''+'' then CHR '' '' # form_urldecode (a # b # cs)
      else if c = CHR ''%'' \<and> is_xdigit a \<and> is_xdigit b then hexToChar a b # form_urldecode cs
      else c # form_urldecode (a # b # cs))"

definition urldecode :: "string \<Rightarrow> string" where
  "urldecode s = form_urldecode s"

definition parse_param :: "string \<Rightarrow> (string \<times> string) list" where
  "parse_param kv =
     (case split kv CHR ''='' of
        [k, v] \<Rightarrow> [(k, v)]
      | [k] \<Rightarrow> [(k, [])]
      | _ \<Rightarrow> [])"

definition parse_params :: "string \<Rightarrow> (string \<times> string) list" where
  "parse_params p = (if p = [] then [] else concat (map parse_param (split p CHR ''&'')))"

section \<open>Content encodings\<close>

datatype encoding = identity | deflate | gzip | brotli

record qualities =
  q_identity :: rat
  q_deflate :: rat
  q_gzip :: rat
  q_brotli :: rat

definition no_qualities :: qualities where
  "no_qualities = \<lparr>q_identity = 0, q_deflate = 0, q_gzip = 0, q_brotli = 0\<rparr>"

text \<open>A name with an explicit weight outside of \<open>[0, 1]\<close> is dropped.\<close>

definition read_weight :: "string \<Rightarrow> (string \<times> rat) result" where
  "read_weight item =
     (case split_on item '';q='' of
        [name, w] \<Rightarrow>
          bindE (stof w) (\<lambda>q.
          Inr (case q of finite_double x \<Rightarrow> if 0 \<le> x \<and> x \<le> 1 then (name, x) else ([], 0) | _ \<Rightarrow> ([], 0)))
      | [name] \<Rightarrow> Inr (name, 1)
      | _ \<Rightarrow> Inr ([], 0))"

definition note_quality :: "string \<times> rat \<Rightarrow> qualities \<Rightarrow> qualities" where
  "note_quality nq q =
     (let (name, w) = nq in
      if name = ''identity'' then q\<lparr>q_identity := w\<rparr>
      else if name = ''deflate'' then q\<lparr>q_deflate := w\<rparr>
      else if name = ''gzip'' then q\<lparr>q_gzip := w\<rparr>
      else if name = ''br'' then q\<lparr>q_brotli := w\<rparr>
      else if name = ''*'' then
        \<lparr>q_identity = (if q_identity q = 0 then w else q_identity q), q_deflate = (if q_deflate q = 0 then w else q_deflate q),
         q_gzip = (if q_gzip q = 0 then w else q_gzip q), q_brotli = (if q_brotli q = 0 then w else q_brotli q)\<rparr>
      else q)"

definition header_qualities :: "string \<Rightarrow> qualities result" where
  "header_qualities accept_encoding =
     (let items = split_on accept_encoding '', '';
          encodings = (if items = [] then [''*''] else items)
      in foldE (\<lambda>item q. bindE (read_weight item) (\<lambda>nq. Inr (note_quality nq q))) encodings no_qualities)"

text \<open>\<open>have_brotli\<close> and \<open>have_libz\<close> are the build options.\<close>

definition best_encoding :: "bool \<Rightarrow> bool \<Rightarrow> qualities \<Rightarrow> encoding result" where
  "best_encoding have_brotli have_libz q =
     (if have_brotli \<and> q_brotli q > 0 \<and> q_brotli q \<ge> q_identity q \<and> q_brotli q \<ge> q_deflate q \<and> q_brotli q \<ge> q_gzip q
      then Inr brotli
      else if have_libz \<and> q_deflate q > 0 \<and> q_deflate q \<ge> q_gzip q \<and> q_deflate q \<ge> q_identity q then Inr deflate
      else if have_libz \<and> q_gzip q > 0 \<and> q_gzip q \<ge> q_identity q then Inr gzip
      else if q_identity q > 0 then Inr identity
      else Inl (not_acceptable ''No acceptable content encoding found. Only identity and gzip are supported.''))"

definition choose_encoding :: "bool \<Rightarrow> bool \<Rightarrow> string \<Rightarrow> encoding result" where
  "choose_encoding have_brotli have_libz accept_encoding =
     bindE (header_qualities accept_encoding) (best_encoding have_brotli have_libz)"

datatype decompressor = IdentityDecompressor | GZipDecompressor | ZLibDecompressor

definition get_content_encoding_handler :: "bool \<Rightarrow> string \<Rightarrow> decompressor result" where
  "get_content_encoding_handler have_libz content_encoding =
     (if content_encoding = [] \<or> content_encoding = ''identity'' then Inr IdentityDecompressor
      else if have_libz \<and> content_encoding = ''gzip'' then Inr GZipDecompressor
      else if have_libz \<and> content_encoding = ''deflate'' then Inr ZLibDecompressor
      else Inl (unsupported_media_type
             (if have_libz then ''Supported Content-Encodings include '' @ quoted ''gzip'' @ '' and '' @ quoted ''deflate''
              else ''Supported Content-Encodings are '' @ quoted ''identity'')))"

section \<open>Methods\<close>

text \<open>\<^verbatim>\<open>enum class method : uint8_t\<close>, used as a set of bits.\<close>

type_synonym http_method = "8 word"

definition GET :: http_method where "GET = 1"
definition POST :: http_method where "POST = 2"
definition PUT :: http_method where "PUT = 4"
definition HEAD :: http_method where "HEAD = 8"
definition OPTIONS :: http_method where "OPTIONS = 16"

definition METHODS :: "(http_method \<times> string) list" where
  "METHODS = [(GET, ''GET''), (POST, ''POST''), (PUT, ''PUT''), (HEAD, ''HEAD''), (OPTIONS, ''OPTIONS'')]"

definition has_method :: "http_method \<Rightarrow> http_method \<Rightarrow> bool" where
  "has_method m x \<longleftrightarrow> m AND x = x"

definition list_methods :: "http_method \<Rightarrow> string" where
  "list_methods m = join_with '', '' (map snd (filter (\<lambda>(x, _). has_method m x) METHODS))"

definition parse_method :: "string \<Rightarrow> http_method option" where
  "parse_method s = map_option fst (find (\<lambda>(_, name). name = s) METHODS)"

section \<open>Lengths and headers\<close>

text \<open>
  \<^verbatim>\<open>strtol\<close> in base 10: blanks, a sign and digits, saturating at the bounds of \<^verbatim>\<open>long\<close>; the second
  component is the text it stopped at.
\<close>

definition strtol :: "string \<Rightarrow> (int \<times> string)" where
  "strtol s =
     (let s1 = dropWhile is_space s;
          neg = (s1 \<noteq> [] \<and> hd s1 = CHR ''-'');
          r = (if s1 \<noteq> [] \<and> (hd s1 = CHR ''-'' \<or> hd s1 = CHR ''+'') then tl s1 else s1);
          ds = takeWhile is_digit r;
          v = (if neg then - digits_value ds else digits_value ds)
      in if ds = [] then (0, s) else (max (- (2 ^ 63)) (min (2 ^ 63 - 1) v), dropWhile is_digit r))"

definition parse_content_length :: "int \<Rightarrow> string \<Rightarrow> int result" where
  "parse_content_length payload_max_size s =
     (let (len, rest) = strtol s in
      if rest = s then Inl (bad_request ''CONTENT_LENGTH not a decimal number'')
      else if rest \<noteq> [] then Inl (bad_request ''CONTENT_LENGTH: extra characters at end of input'')
      else if len < 0 then Inl (bad_request ''CONTENT_LENGTH: invalid value'')
      else if len > payload_max_size
      then Inl (payload_too_large (''CONTENT_LENGTH exceeds limit of '' @ fmt_d payload_max_size @ '' bytes''))
      else Inr len)"

definition status_message :: "int \<Rightarrow> string" where
  "status_message code =
     (if code = 200 then ''OK'' else if code = 400 then ''Bad Request'' else if code = 401 then ''Unauthorized''
      else if code = 403 then ''Forbidden'' else if code = 404 then ''Not Found'' else if code = 405 then ''Method Not Allowed''
      else if code = 406 then ''Not Acceptable'' else if code = 409 then ''Conflict'' else if code = 410 then ''Gone''
      else if code = 412 then ''Precondition Failed'' else if code = 413 then ''Payload Too Large''
      else if code = 415 then ''Unsupported Media Type'' else if code = 429 then ''Too Many Requests''
      else if code = 509 then ''Bandwidth Limit Exceeded'' else ''Internal Server Error'')"

definition crlf :: string where
  "crlf = [CHR 0x0D, CHR 0x0A]"

definition format_header :: "int \<Rightarrow> (string \<times> string) list \<Rightarrow> string" where
  "format_header status headers =
     ''Status: '' @ fmt_d status @ '' '' @ status_message status @ crlf @
     concat (map (\<lambda>(name, value). name @ '': '' @ value @ crlf) headers) @ crlf"

section \<open>Decoding undoes encoding\<close>

definition hex_char :: "nat \<Rightarrow> char" where
  "hex_char k = char_of (if k < 10 then 48 + k else 55 + k)"

definition percent_encode_char :: "(char \<Rightarrow> bool) \<Rightarrow> char \<Rightarrow> string" where
  "percent_encode_char safe c =
     (if safe c then [c] else [CHR ''%'', hex_char (of_char c div 16), hex_char (of_char c mod 16)])"

definition percent_encode :: "(char \<Rightarrow> bool) \<Rightarrow> string \<Rightarrow> string" where
  "percent_encode safe s = concat (map (percent_encode_char safe) s)"

definition query_of :: "(string \<times> string) list \<Rightarrow> string" where
  "query_of kvs = join_with ''&'' (map (\<lambda>(k, v). k @ ''='' @ v) kvs)"

lemma hex_char_value: "k < 16 \<Longrightarrow> hex_value (hex_char k) = int k \<and> is_xdigit (hex_char k)"
proof -
  have "list_all (\<lambda>k. hex_value (hex_char k) = int k \<and> is_xdigit (hex_char k)) [0..<16]" by code_simp
  moreover assume "k < 16"
  ultimately show ?thesis by (simp add: list_all_iff)
qed

lemma hexToChar_hex: "hexToChar (hex_char (of_char c div 16)) (hex_char (of_char c mod 16)) = c"
proof -
  have "of_char c div 16 < (16 :: nat)" by (rule less_mult_imp_div_less) simp
  then have "hex_value (hex_char (of_char c div 16)) * 16 + hex_value (hex_char (of_char c mod 16))
      = int (of_char c div 16) * 16 + int (of_char c mod 16)"
    by (simp add: hex_char_value)
  also have "\<dots> = int (of_char c)" by (metis div_mult_mod_eq of_nat_add of_nat_mult of_nat_numeral)
  finally show ?thesis by (simp add: hexToChar_def)
qed

lemma urldecode_plain: "c \<noteq> CHR ''+'' \<Longrightarrow> c \<noteq> CHR ''%'' \<Longrightarrow> form_urldecode (c # cs) = c # form_urldecode cs"
  by (cases cs; cases "tl cs") auto

lemma urldecode_encode:
  assumes "\<not> safe CHR ''+''" "\<not> safe CHR ''%''"
  shows "urldecode (percent_encode safe s) = s"
  unfolding urldecode_def
proof (induction s)
  case (Cons c cs)
  show ?case
  proof (cases "safe c")
    case True
    with assms have "c \<noteq> CHR ''+''" "c \<noteq> CHR ''%''" by auto
    with True Cons.IH show ?thesis by (simp add: percent_encode_def percent_encode_char_def urldecode_plain)
  next
    case False
    have "of_char c div 16 < (16 :: nat)" by (rule less_mult_imp_div_less) simp
    then have "is_xdigit (hex_char (of_char c div 16))" "is_xdigit (hex_char (of_char c mod 16))" by (simp_all add: hex_char_value)
    with False Cons.IH show ?thesis by (simp add: percent_encode_def percent_encode_char_def hexToChar_hex)
  qed
qed (simp add: percent_encode_def)

lemma parse_param_pair:
  assumes "CHR ''='' \<notin> set k" "CHR ''='' \<notin> set v"
  shows "parse_param (k @ ''='' @ v) = [(k, v)]"
proof -
  have "split (join_with [CHR ''='' ] [k, v]) CHR ''='' = [k, v]" using assms by (intro split_join) auto
  then show ?thesis by (simp add: parse_param_def)
qed

lemma parse_params_query:
  assumes "\<forall>(k, v)\<in>set kvs. set (k @ v) \<inter> {CHR ''&'', CHR ''=''} = {}"
  shows "parse_params (query_of kvs) = kvs"
proof -
  let ?ps = "map (\<lambda>(k, v). k @ ''='' @ v) kvs"
  have parts: "split (query_of kvs) CHR ''&'' = ?ps"
    unfolding query_of_def using assms by (intro split_join) (auto split: prod.splits)
  moreover have "concat (map parse_param ?ps) = kvs"
    using assms
  proof (induction kvs)
    case (Cons kv kvs)
    then show ?case using parse_param_pair [of "fst kv" "snd kv"] by (cases kv) auto
  qed simp
  ultimately show ?thesis by (auto simp: parse_params_def split_def)
qed

section \<open>The chosen encoding\<close>

fun quality_of :: "qualities \<Rightarrow> encoding \<Rightarrow> rat" where
  "quality_of q identity = q_identity q"
| "quality_of q deflate = q_deflate q"
| "quality_of q gzip = q_gzip q"
| "quality_of q brotli = q_brotli q"

definition supported :: "bool \<Rightarrow> bool \<Rightarrow> encoding list" where
  "supported have_brotli have_libz =
     (if have_brotli then [brotli] else []) @ (if have_libz then [deflate, gzip] else []) @ [identity]"

definition qualities_ok :: "qualities \<Rightarrow> bool" where
  "qualities_ok q \<longleftrightarrow> (\<forall>e. 0 \<le> quality_of q e \<and> quality_of q e \<le> 1)"

lemma all_encoding: "(\<forall>e. P e) \<longleftrightarrow> P identity \<and> P deflate \<and> P gzip \<and> P brotli"
  by (metis encoding.exhaust)

lemma header_qualities_ok: "header_qualities h = Inr q \<Longrightarrow> qualities_ok q"
proof -
  have weight: "0 \<le> snd nq \<and> snd nq \<le> 1" if "read_weight item = Inr nq" for item nq
  proof -
    have "0 \<le> snd (case d of finite_double x \<Rightarrow> if 0 \<le> x \<and> x \<le> 1 then (name, x) else ([], 0) | _ \<Rightarrow> ([], 0)) \<and>
      snd (case d of finite_double x \<Rightarrow> if 0 \<le> x \<and> x \<le> 1 then (name, x) else ([], 0) | _ \<Rightarrow> ([], 0)) \<le> 1"
      for d :: double and name :: string by (cases d) auto
    with that show ?thesis by (auto simp: read_weight_def result_simps split: list.splits)
  qed
  have step: "qualities_ok (note_quality nq q)" if "qualities_ok q" "0 \<le> snd nq" "snd nq \<le> 1" for nq q
    using that by (cases nq) (auto simp: note_quality_def qualities_ok_def all_encoding)
  have "foldE (\<lambda>item q. bindE (read_weight item) (\<lambda>nq. Inr (note_quality nq q))) items q0 = Inr q \<Longrightarrow>
      qualities_ok q0 \<Longrightarrow> qualities_ok q" for items q0 q
    by (induction items arbitrary: q0) (auto simp: result_simps dest: weight step)
  moreover have "qualities_ok no_qualities" by (simp add: qualities_ok_def all_encoding no_qualities_def)
  moreover assume "header_qualities h = Inr q"
  ultimately show ?thesis by (auto simp: header_qualities_def Let_def)
qed

lemma best_encoding_best:
  assumes "qualities_ok q"
  shows "(case best_encoding br True q of
      Inr e \<Rightarrow> e \<in> set (supported br True) \<and> quality_of q e > 0 \<and> list_all (\<lambda>e'. quality_of q e' \<le> quality_of q e) (supported br True)
    | Inl ex \<Rightarrow> (\<exists>msg. ex = not_acceptable msg) \<and> list_all (\<lambda>e'. quality_of q e' = 0) (supported br True))"
  using assms by (auto simp: best_encoding_def supported_def qualities_ok_def all_encoding)

section \<open>Methods and lengths\<close>

lemma strtol_fmt:
  assumes "0 \<le> n"
  shows "strtol (fmt_d n) = (min (2 ^ 63 - 1) n, [])"
proof -
  have ds: "fmt_d n = digits_of (nat n)" using assms by (simp add: fmt_d_def)
  have dig: "list_all is_digit (fmt_d n)" "fmt_d n \<noteq> []" by (rule fmt_d_digits [OF assms])+
  then have hd: "is_digit (hd (fmt_d n))" by (cases "fmt_d n") simp_all
  then have "\<not> is_space (hd (fmt_d n))" "hd (fmt_d n) \<noteq> CHR ''-''" "hd (fmt_d n) \<noteq> CHR ''+''"
    by (auto simp: is_digit_def is_space_def less_eq_char_def)
  moreover from this dig have "dropWhile is_space (fmt_d n) = fmt_d n" by (cases "fmt_d n") simp_all
  moreover have "dropWhile is_digit (fmt_d n) = []" using dig(1) by (auto simp: list_all_iff)
  moreover have "digits_value (digits_of (nat n)) = n" using digits_of_value [of "nat n"] assms by simp
  ultimately show ?thesis using dig assms by (simp add: strtol_def Let_def ds)
qed

lemma parse_content_length_fmt:
  assumes "0 \<le> n" "n \<le> limit" "limit < 2 ^ 63"
  shows "parse_content_length limit (fmt_d n) = Inr n"
  using strtol_fmt [OF assms(1)] fmt_d_digits(2) [OF assms(1), symmetric] assms by (simp add: parse_content_length_def)

lemma parse_content_length_large:
  assumes "0 \<le> n" "limit < n" "limit < 2 ^ 63 - 1"
  shows "\<exists>msg. parse_content_length limit (fmt_d n) = Inl (payload_too_large msg)"
  using strtol_fmt [OF assms(1)] fmt_d_digits(2) [OF assms(1), symmetric] assms by (simp add: parse_content_length_def)

lemma parse_content_length_range: "parse_content_length limit s = Inr n \<Longrightarrow> 0 \<le> n \<and> n \<le> limit"
  by (auto simp: parse_content_length_def Let_def split: prod.splits if_splits)

section \<open>Encoded queries\<close>

lemma percent_encode_append: "percent_encode safe (s @ t) = percent_encode safe s @ percent_encode safe t"
  by (simp add: percent_encode_def)

lemma percent_encode_cong: "(\<And>c. c \<in> set s \<Longrightarrow> safe c = safe' c) \<Longrightarrow> percent_encode safe s = percent_encode safe' s"
  unfolding percent_encode_def percent_encode_char_def by (intro arg_cong [where f = concat] map_cong) simp_all

definition encode_pair :: "(char \<Rightarrow> bool) \<Rightarrow> string \<times> string \<Rightarrow> string \<times> string" where
  "encode_pair safe kv = (percent_encode safe (fst kv), percent_encode safe (snd kv))"

lemma query_of_encode:
  assumes "safe CHR ''&''" "safe CHR ''=''"
  shows "query_of (map (encode_pair safe) kvs) = percent_encode safe (query_of kvs)"
proof (induction kvs rule: induct_list012)
  case (2 kv)
  with assms show ?case
    by (simp add: query_of_def encode_pair_def percent_encode_append split_beta) (simp add: percent_encode_def percent_encode_char_def)
next
  case (3 kv kw kvs)
  with assms show ?case
    by (simp add: query_of_def encode_pair_def percent_encode_append split_beta) (simp add: percent_encode_def percent_encode_char_def)
qed (simp add: query_of_def percent_encode_def)

section \<open>Wildcards\<close>

text \<open>A separator that cannot overlap the end of a text starts a new item.\<close>

lemma cut_at_append_comma:
  "cut_at '', '' (s @ '', '' @ t) =
     (case cut_at '', '' s of None \<Rightarrow> Some (s, t) | Some (a, b) \<Rightarrow> Some (a, b @ '', '' @ t))"
proof (induction s)
  case (Cons c cs)
  show ?case
  proof (cases cs)
    case Nil
    with Cons.IH show ?thesis by simp
  next
    case (Cons d ds)
    with Cons.IH show ?thesis by (auto split: option.splits)
  qed
qed simp

lemma split_on_append_comma:
  assumes "cut_at '', '' t = None"
  shows "split_on_parts '', '' (s @ '', '' @ t) = split_on_parts '', '' s @ [t]"
proof (induction s rule: length_induct)
  case (1 s)
  have t: "split_on_parts '', '' t = [t]" using assms by (simp add: split_on_parts.simps [of _ t])
  show ?case
  proof (cases "cut_at '', '' s")
    case None
    with t show ?thesis
      using cut_at_append_comma [of s t]
      by (simp add: split_on_parts.simps [of _ s] split_on_parts.simps [of _ "s @ CHR '','' # CHR '' '' # t"])
  next
    case (Some ab)
    obtain a b where ab: "ab = (a, b)" by (cases ab)
    with Some have "length b < length s" using cut_at_eq [of "'', ''" s a b] by simp
    with 1 have "split_on_parts '', '' (b @ '', '' @ t) = split_on_parts '', '' b @ [t]" by blast
    with Some ab show ?thesis
      using cut_at_append_comma [of s t]
      by (simp add: split_on_parts.simps [of _ s] split_on_parts.simps [of _ "s @ CHR '','' # CHR '' '' # t"])
  qed
qed

lemma header_qualities_wildcard:
  assumes "h \<noteq> []"
  shows "header_qualities (h @ '', *'') = bindE (header_qualities h) (\<lambda>q. Inr (note_quality (''*'', 1) q))"
proof -
  let ?f = "\<lambda>item q. bindE (read_weight item) (\<lambda>nq. Inr (note_quality nq q))"
  have "split_on (h @ '', *'') '', '' = split_on h '', '' @ [''*'']"
    using split_on_append_comma [of "''*''" h] assms by (simp add: split_on_def)
  moreover have "split_on h '', '' \<noteq> []" using assms
    by (simp add: split_on_def split_on_parts.simps [of _ h] split: option.splits prod.splits)
  moreover have "read_weight ''*'' = Inr (''*'', 1)"
    by (simp add: read_weight_def split_on_def split_on_parts.simps)
  moreover have "foldE ?f (xs @ [x]) q = bindE (foldE ?f xs q) (?f x)" for xs x q
    by (cases "foldE ?f xs q"; cases "read_weight x") (simp_all add: foldE_append)
  ultimately show ?thesis by (simp add: header_qualities_def Let_def)
qed

end
