(* ===== verification/Bounding_Box.thy ===== *)
theory Bounding_Box
  imports Http
begin

text \<open>
  \<^verbatim>\<open>src/bbox.cpp\<close> and \<^verbatim>\<open>src/backend/apidb/quad_tile.cpp\<close>: the box of a map request in double precision,
  how it is read from a query and which quad tiles cover it.
\<close>

section \<open>Boxes\<close>

record bbox =
  bb_minlat :: double
  bb_minlon :: double
  bb_maxlat :: double
  bb_maxlon :: double

text \<open>The comparison of doubles; a NaN is not comparable.\<close>

fun dle :: "double \<Rightarrow> double \<Rightarrow> bool" where
  "dle (finite_double x) (finite_double y) \<longleftrightarrow> x \<le> y"
| "dle (finite_double x) (infinite_double neg) \<longleftrightarrow> \<not> neg"
| "dle (infinite_double neg) (finite_double y) \<longleftrightarrow> neg"
| "dle (infinite_double neg) (infinite_double neg') \<longleftrightarrow> neg \<or> \<not> neg'"
| "dle nan_double d \<longleftrightarrow> False"
| "dle d nan_double \<longleftrightarrow> False"

text \<open>The number a finite double denotes; the code below uses it for coordinates of valid boxes only.\<close>

fun dval :: "double \<Rightarrow> rat" where
  "dval (finite_double x) = x"
| "dval (infinite_double neg) = 0"
| "dval nan_double = 0"

definition bbox_parse :: "string \<Rightarrow> bbox option" where
  "bbox_parse s =
     (case split s CHR '','' of
        [a, b, c, d] \<Rightarrow>
          (case (stod b, stod a, stod d, stod c) of
             (Inr lat1, Inr lon1, Inr lat2, Inr lon2) \<Rightarrow>
               Some \<lparr>bb_minlat = lat1, bb_minlon = lon1, bb_maxlat = lat2, bb_maxlon = lon2\<rparr>
           | _ \<Rightarrow> None)
      | _ \<Rightarrow> None)"

definition area :: "bbox \<Rightarrow> rat" where
  "area b = fl (fl (dval (bb_maxlon b) - dval (bb_minlon b)) * fl (dval (bb_maxlat b) - dval (bb_minlat b)))"

definition in_range :: "rat \<Rightarrow> double \<Rightarrow> bool" where
  "in_range bound d \<longleftrightarrow> dle (finite_double (- bound)) d \<and> dle d (finite_double bound)"

definition valid :: "bbox \<Rightarrow> bool" where
  "valid b \<longleftrightarrow> in_range 180 (bb_minlon b) \<and> in_range 180 (bb_maxlon b) \<and> in_range 90 (bb_minlat b) \<and> in_range 90 (bb_maxlat b) \<and>
     dle (bb_minlon b) (bb_maxlon b) \<and> dle (bb_minlat b) (bb_maxlat b)"

section \<open>The request\<close>

text \<open>\<^verbatim>\<open>fmt::format("{:f}")\<close>: six digits after the point.\<close>

definition fmt_f :: "double \<Rightarrow> string" where
  "fmt_f d =
     (case d of
        finite_double x \<Rightarrow>
          (let n = round_half_even (\<bar>x\<bar> * 1000000); f = fmt_d (n mod 1000000) in
           (if x < 0 then ''-'' else []) @ fmt_d (n div 1000000) @ ''.'' @ replicate (6 - length f) CHR ''0'' @ f)
      | infinite_double neg \<Rightarrow> if neg then ''-inf'' else ''inf''
      | nan_double \<Rightarrow> ''nan'')"

definition bbox_required :: exn where
  "bbox_required = bad_request
     ''The parameter bbox is required, and must be of the form min_lon,min_lat,max_lon,max_lat.''"

definition bbox_invalid :: exn where
  "bbox_invalid = bad_request
     ''The latitudes must be between -90 and 90, longitudes between -180 and 180 and the minima must be less than the maxima.''"

definition bbox_too_large :: "double \<Rightarrow> exn" where
  "bbox_too_large area_max = bad_request
     (''The maximum bbox size is '' @ fmt_f area_max @ '', and your request was too large. '' @
      ''Either request a smaller area, or use planet.osm'')"

text \<open>\<^verbatim>\<open>map_handler::validate_request\<close> on the query string of the request.\<close>

definition map_validate_request :: "double \<Rightarrow> string \<Rightarrow> bbox result" where
  "map_validate_request area_max query =
     (case find (\<lambda>p. fst p = ''bbox'') (parse_params (urldecode query)) of
        None \<Rightarrow> Inl bbox_required
      | Some (_, s) \<Rightarrow>
          (case bbox_parse s of
             None \<Rightarrow> Inl bbox_required
           | Some bounds \<Rightarrow>
               if \<not> valid bounds then Inl bbox_invalid
               else if area_max \<noteq> nan_double \<and> \<not> dle (finite_double (area bounds)) area_max then Inl (bbox_too_large area_max)
               else Inr bounds))"

section \<open>Tiles\<close>

text \<open>The least and greatest latitude and longitude come as \<open>a1\<close>, \<open>o1\<close>, \<open>a2\<close>, \<open>o2\<close>. The loop counters run over 32-bit words; the tile ids are sorted and made unique.\<close>

definition tiles_for_area :: "rat \<Rightarrow> rat \<Rightarrow> rat \<Rightarrow> rat \<Rightarrow> int list" where
  "tiles_for_area a1 o1 a2 o2 =
     sort_unique (concat (map (\<lambda>x. map (\<lambda>y. uint (xy2tile (word_of_int x) (word_of_int y)))
       [uint (lat2y a1)..uint (lat2y a2)]) [uint (lon2x o1)..uint (lon2x o2)]))"

section \<open>What validation and tiles guarantee\<close>

lemma in_range_finite: "in_range bound d \<longleftrightarrow> (\<exists>x. d = finite_double x \<and> - bound \<le> x \<and> x \<le> bound)"
  by (cases d) (auto simp: in_range_def)

lemma validE:
  assumes "valid b"
  obtains a1 o1 a2 o2 where "b = \<lparr>bb_minlat = finite_double a1, bb_minlon = finite_double o1, bb_maxlat = finite_double a2, bb_maxlon = finite_double o2\<rparr>"
    "- 90 \<le> a1" "a1 \<le> a2" "a2 \<le> 90" "- 180 \<le> o1" "o1 \<le> o2" "o2 \<le> 180"
  using assms by (cases b) (auto simp: valid_def in_range_finite)

lemma map_validate_request_Inr:
  assumes "map_validate_request area_max query = Inr b"
  shows "valid b \<and> (area_max = nan_double \<or> dle (finite_double (area b)) area_max)"
  using assms by (auto simp: map_validate_request_def split: option.splits if_splits)

lemma set_tiles_for_area:
  "t \<in> set (tiles_for_area a1 o1 a2 o2) \<longleftrightarrow>
     (\<exists>x y. t = uint (xy2tile x y) \<and> lon2x o1 \<le> x \<and> x \<le> lon2x o2 \<and> lat2y a1 \<le> y \<and> y \<le> lat2y a2)"
proof
  assume "t \<in> set (tiles_for_area a1 o1 a2 o2)"
  then obtain x y where xy: "t = uint (xy2tile (word_of_int x) (word_of_int y))"
    "uint (lon2x o1) \<le> x" "x \<le> uint (lon2x o2)" "uint (lat2y a1) \<le> y" "y \<le> uint (lat2y a2)"
    by (auto simp: tiles_for_area_def)
  then have "x < 2 ^ 32" "y < 2 ^ 32" using uint_bounded [of "lon2x o2"] uint_bounded [of "lat2y a2"] by simp_all
  moreover have "0 \<le> x" "0 \<le> y" using xy uint_nonnegative order_trans by blast+
  ultimately have "uint (word_of_int x :: 32 word) = x" "uint (word_of_int y :: 32 word) = y" by (simp_all add: uint_word_of_int)
  with xy show "\<exists>x y. t = uint (xy2tile x y) \<and> lon2x o1 \<le> x \<and> x \<le> lon2x o2 \<and> lat2y a1 \<le> y \<and> y \<le> lat2y a2"
    by (metis word_le_def)
next
  assume "\<exists>x y. t = uint (xy2tile x y) \<and> lon2x o1 \<le> x \<and> x \<le> lon2x o2 \<and> lat2y a1 \<le> y \<and> y \<le> lat2y a2"
  then obtain x y where "t = uint (xy2tile x y)" "uint (lon2x o1) \<le> uint x" "uint x \<le> uint (lon2x o2)"
    "uint (lat2y a1) \<le> uint y" "uint y \<le> uint (lat2y a2)" by (auto simp: word_le_def)
  then show "t \<in> set (tiles_for_area a1 o1 a2 o2)"
    unfolding tiles_for_area_def by (auto intro!: bexI [of _ "uint x"] image_eqI [of _ _ "uint y"])
qed

text \<open>No position in a box lies outside of its tiles.\<close>

lemma tile_in_area:
  assumes "- 90 \<le> a1" "a1 \<le> lat" "lat \<le> a2" "a2 \<le> 90" "- 180 \<le> o1" "o1 \<le> lon" "lon \<le> o2" "o2 \<le> 180"
  shows "tile_of lat lon \<in> set (tiles_for_area a1 o1 a2 o2)"
proof -
  have "lon2x o1 \<le> lon2x lon" "lon2x lon \<le> lon2x o2" using assms by (auto simp: word_le_def intro!: lon2x_mono)
  moreover have "lat2y a1 \<le> lat2y lat" "lat2y lat \<le> lat2y a2" using assms by (auto simp: word_le_def intro!: lat2y_mono)
  ultimately show ?thesis unfolding set_tiles_for_area tile_of_def by blast
qed

end
