(* ===== verification/Selection.thy ===== *)
theory Selection
  imports Database Row_Extraction Bounding_Box "HOL-Library.Product_Lexorder"
begin

text \<open>
  \<^verbatim>\<open>src/backend/apidb/readonly_pgsql_selection.cpp\<close>: the sets of elements a request selects and the
  statements that fill them, the authorisation queries, and the queries whose rows are handed to
  an output formatter. The tables of the upload are extended by the ones only read here.
\<close>

section \<open>Tables\<close>

record user_row =
  u_id :: int
  u_display_name :: string
  u_data_public :: bool
  u_status :: string

record comment_row =
  cmt_id :: int
  cmt_changeset_id :: int
  cmt_author_id :: int
  cmt_body :: string
  cmt_created_at :: int
  cmt_visible :: bool

record block_row =
  bl_user_id :: int
  bl_needs_view :: bool
  bl_ends_at :: int

record token_row =
  tk_token :: string
  tk_resource_owner_id :: int
  tk_expires_in :: "int option"
  tk_created_at :: int
  tk_revoked_at :: "int option"
  tk_scopes :: "string option"

text \<open>The column \<^verbatim>\<open>redaction_id\<close> of the three history tables, by their primary keys.\<close>

record osm_db = db +
  redaction_ids :: "object_type \<times> int \<times> int \<Rightarrow> int option"
  users_tbl :: "user_row list"
  changeset_comments :: "comment_row list"
  user_blocks :: "block_row list"
  user_roles :: "(int \<times> string) list"
  oauth_access_tokens :: "token_row list"

text \<open>
  What the statements use of PostgreSQL: \<^verbatim>\<open>to_char\<close> of timestamps, the quoting of array elements, the
  collation of texts and \<^verbatim>\<open>encode(sha256(...), 'hex')\<close>.
\<close>

record pg =
  pg_to_char :: "int \<Rightarrow> string"
  pg_quotes :: "string \<Rightarrow> bool"
  pg_le :: "string \<Rightarrow> string \<Rightarrow> bool"
  pg_sha256_hex :: "string \<Rightarrow> string"

section \<open>The selection\<close>

record selection =
  sel_changesets :: "int set"
  sel_nodes :: "int set"
  sel_ways :: "int set"
  sel_relations :: "int set"
  sel_historic_nodes :: "(int \<times> int) set"
  sel_historic_ways :: "(int \<times> int) set"
  sel_historic_relations :: "(int \<times> int) set"
  include_changeset_discussions :: bool
  m_redactions_visible :: bool
  cc :: changeset_cache

definition empty_selection :: selection where
  "empty_selection =
     \<lparr>sel_changesets = {}, sel_nodes = {}, sel_ways = {}, sel_relations = {}, sel_historic_nodes = {},
      sel_historic_ways = {}, sel_historic_relations = {}, include_changeset_discussions = False,
      m_redactions_visible = False, cc = Map.empty\<rparr>"

definition insert_results :: "'a list \<Rightarrow> 'a set \<Rightarrow> int \<times> 'a set" where
  "insert_results res elems = (int (card (elems \<union> set res)) - int (card elems), elems \<union> set res)"

datatype visibility_t = vis_exists | vis_deleted | vis_non_exist

definition check_table_visibility :: "int \<Rightarrow> 'a elem_row_scheme list \<Rightarrow> visibility_t" where
  "check_table_visibility i rows =
     (case filter (\<lambda>r. r_id r = i) rows of
        [] \<Rightarrow> vis_non_exist
      | r # _ \<Rightarrow> if r_visible r then vis_exists else vis_deleted)"

definition check_node_visibility :: "int \<Rightarrow> osm_db \<Rightarrow> visibility_t" where
  "check_node_visibility i d = check_table_visibility i (current_nodes d)"

definition check_way_visibility :: "int \<Rightarrow> osm_db \<Rightarrow> visibility_t" where
  "check_way_visibility i d = check_table_visibility i (current_ways d)"

definition check_relation_visibility :: "int \<Rightarrow> osm_db \<Rightarrow> visibility_t" where
  "check_relation_visibility i d = check_table_visibility i (current_relations d)"

section \<open>Selecting current elements\<close>

definition select_nodes :: "int list \<Rightarrow> osm_db \<Rightarrow> selection \<Rightarrow> int \<times> selection" where
  "select_nodes ids d s =
     (if ids = [] then (0, s)
      else let (n, ns) = insert_results (map r_id (select_any ids (current_nodes d))) (sel_nodes s) in (n, s\<lparr>sel_nodes := ns\<rparr>))"

definition select_ways :: "int list \<Rightarrow> osm_db \<Rightarrow> selection \<Rightarrow> int \<times> selection" where
  "select_ways ids d s =
     (if ids = [] then (0, s)
      else let (n, ws) = insert_results (map r_id (select_any ids (current_ways d))) (sel_ways s) in (n, s\<lparr>sel_ways := ws\<rparr>))"

definition select_relations :: "int list \<Rightarrow> osm_db \<Rightarrow> selection \<Rightarrow> int \<times> selection" where
  "select_relations ids d s =
     (if ids = [] then (0, s)
      else let (n, rs) = insert_results (map r_id (select_any ids (current_relations d))) (sel_relations s)
           in (n, s\<lparr>sel_relations := rs\<rparr>))"

text \<open>The conversion of a double to \<^verbatim>\<open>int\<close> truncates.\<close>

definition trunc_int :: "rat \<Rightarrow> int" where
  "trunc_int x = (if 0 \<le> x then \<lfloor>x\<rfloor> else \<lceil>x\<rceil>)"

definition scaled :: "double \<Rightarrow> int" where
  "scaled c = trunc_int (fl (dval c * 10000000))"

definition node_in_bbox :: "bbox \<Rightarrow> node_row \<Rightarrow> bool" where
  "node_in_bbox b r \<longleftrightarrow>
     r_tile r \<in> set (tiles_for_area (dval (bb_minlat b)) (dval (bb_minlon b)) (dval (bb_maxlat b)) (dval (bb_maxlon b))) \<and>
     scaled (bb_minlat b) \<le> r_latitude r \<and> r_latitude r \<le> scaled (bb_maxlat b) \<and>
     scaled (bb_minlon b) \<le> r_longitude r \<and> r_longitude r \<le> scaled (bb_maxlon b) \<and> r_visible r"

definition select_nodes_from_bbox :: "bbox \<Rightarrow> int \<Rightarrow> osm_db \<Rightarrow> selection \<Rightarrow> int \<times> selection" where
  "select_nodes_from_bbox b max_nodes d s =
     (let (n, ns) = insert_results (map r_id (take (nat (max_nodes + 1)) (filter (node_in_bbox b) (current_nodes d)))) (sel_nodes s)
      in (n, s\<lparr>sel_nodes := ns\<rparr>))"

text \<open>\<^verbatim>\<open>SELECT DISTINCT ... AS id ... ORDER BY id\<close> over the members of relations.\<close>

definition members_in :: "string \<Rightarrow> int set \<Rightarrow> osm_db \<Rightarrow> int list" where
  "members_in ty rels d =
     sort_unique (map m_member_id
       (filter (\<lambda>m. m_member_type m = ty \<and> m_relation_id m \<in> rels) (current_relation_members d)))"

definition relations_using :: "string \<Rightarrow> int set \<Rightarrow> osm_db \<Rightarrow> int list" where
  "relations_using ty ids d =
     sort_unique (map m_relation_id
       (filter (\<lambda>m. m_member_type m = ty \<and> m_member_id m \<in> ids) (current_relation_members d)))"

definition select_nodes_from_relations :: "osm_db \<Rightarrow> selection \<Rightarrow> selection" where
  "select_nodes_from_relations d s =
     (if sel_relations s = {} then s
      else s\<lparr>sel_nodes := snd (insert_results (members_in ''Node'' (sel_relations s) d) (sel_nodes s))\<rparr>)"

definition select_ways_from_nodes :: "osm_db \<Rightarrow> selection \<Rightarrow> selection" where
  "select_ways_from_nodes d s =
     (if sel_nodes s = {} then s
      else s\<lparr>sel_ways := snd (insert_results (sort_unique (map fst
             (filter (\<lambda>(w, n, q). n \<in> sel_nodes s) (current_way_nodes d)))) (sel_ways s))\<rparr>)"

definition select_ways_from_relations :: "osm_db \<Rightarrow> selection \<Rightarrow> selection" where
  "select_ways_from_relations d s =
     (if sel_relations s = {} then s
      else s\<lparr>sel_ways := snd (insert_results (members_in ''Way'' (sel_relations s) d) (sel_ways s))\<rparr>)"

definition select_relations_from_ways :: "osm_db \<Rightarrow> selection \<Rightarrow> selection" where
  "select_relations_from_ways d s =
     (if sel_ways s = {} then s
      else s\<lparr>sel_relations := snd (insert_results (relations_using ''Way'' (sel_ways s) d) (sel_relations s))\<rparr>)"

definition select_nodes_from_way_nodes :: "osm_db \<Rightarrow> selection \<Rightarrow> selection" where
  "select_nodes_from_way_nodes d s =
     (if sel_ways s = {} then s
      else s\<lparr>sel_nodes := snd (insert_results (sort_unique (map (fst \<circ> snd)
             (filter (\<lambda>(w, n, q). w \<in> sel_ways s) (current_way_nodes d)))) (sel_nodes s))\<rparr>)"

definition select_relations_from_nodes :: "osm_db \<Rightarrow> selection \<Rightarrow> selection" where
  "select_relations_from_nodes d s =
     (if sel_nodes s = {} then s
      else s\<lparr>sel_relations := snd (insert_results (relations_using ''Node'' (sel_nodes s) d) (sel_relations s))\<rparr>)"

definition select_relations_from_relations :: "bool \<Rightarrow> osm_db \<Rightarrow> selection \<Rightarrow> selection" where
  "select_relations_from_relations drop_relations d s =
     (if sel_relations s = {} then s
      else let sel = sel_relations s; kept = (if drop_relations then {} else sel)
           in s\<lparr>sel_relations := snd (insert_results (relations_using ''Relation'' sel d) kept)\<rparr>)"

definition select_relations_members_of_relations :: "osm_db \<Rightarrow> selection \<Rightarrow> selection" where
  "select_relations_members_of_relations d s =
     (if sel_relations s = {} then s
      else s\<lparr>sel_relations := snd (insert_results (members_in ''Relation'' (sel_relations s) d) (sel_relations s))\<rparr>)"

section \<open>Selecting versions\<close>

text \<open>\<^verbatim>\<open>redaction_id IS NULL OR $n = TRUE\<close>\<close>

definition not_redacted :: "object_type \<Rightarrow> osm_db \<Rightarrow> selection \<Rightarrow> 'a elem_row_scheme \<Rightarrow> bool" where
  "not_redacted ty d s r \<longleftrightarrow> redaction_ids d (ty, r_id r, r_version r) = None \<or> m_redactions_visible s"

definition edition :: "'a elem_row_scheme \<Rightarrow> int \<times> int" where
  "edition r = (r_id r, r_version r)"

definition select_historical_nodes :: "(int \<times> int) list \<Rightarrow> osm_db \<Rightarrow> selection \<Rightarrow> int \<times> selection" where
  "select_historical_nodes eds d s =
     (if eds = [] then (0, s)
      else let (n, hs) = insert_results (map edition (filter (\<lambda>r. edition r \<in> set eds \<and> not_redacted ot_node d s r) (nodes_tbl d)))
                 (sel_historic_nodes s)
           in (n, s\<lparr>sel_historic_nodes := hs\<rparr>))"

definition select_historical_ways :: "(int \<times> int) list \<Rightarrow> osm_db \<Rightarrow> selection \<Rightarrow> int \<times> selection" where
  "select_historical_ways eds d s =
     (if eds = [] then (0, s)
      else let (n, hs) = insert_results (map edition (filter (\<lambda>r. edition r \<in> set eds \<and> not_redacted ot_way d s r) (ways_tbl d)))
                 (sel_historic_ways s)
           in (n, s\<lparr>sel_historic_ways := hs\<rparr>))"

definition select_historical_relations :: "(int \<times> int) list \<Rightarrow> osm_db \<Rightarrow> selection \<Rightarrow> int \<times> selection" where
  "select_historical_relations eds d s =
     (if eds = [] then (0, s)
      else let (n, hs) = insert_results (map edition (filter (\<lambda>r. edition r \<in> set eds \<and> not_redacted ot_relation d s r) (relations_tbl d)))
                 (sel_historic_relations s)
           in (n, s\<lparr>sel_historic_relations := hs\<rparr>))"

definition select_nodes_with_history :: "int list \<Rightarrow> osm_db \<Rightarrow> selection \<Rightarrow> int \<times> selection" where
  "select_nodes_with_history ids d s =
     (if ids = [] then (0, s)
      else let (n, hs) = insert_results (map edition (filter (not_redacted ot_node d s) (select_any ids (nodes_tbl d)))) (sel_historic_nodes s)
           in (n, s\<lparr>sel_historic_nodes := hs\<rparr>))"

definition select_ways_with_history :: "int list \<Rightarrow> osm_db \<Rightarrow> selection \<Rightarrow> int \<times> selection" where
  "select_ways_with_history ids d s =
     (if ids = [] then (0, s)
      else let (n, hs) = insert_results (map edition (filter (not_redacted ot_way d s) (select_any ids (ways_tbl d)))) (sel_historic_ways s)
           in (n, s\<lparr>sel_historic_ways := hs\<rparr>))"

definition select_relations_with_history :: "int list \<Rightarrow> osm_db \<Rightarrow> selection \<Rightarrow> int \<times> selection" where
  "select_relations_with_history ids d s =
     (if ids = [] then (0, s)
      else let (n, hs) = insert_results (map edition (filter (not_redacted ot_relation d s) (select_any ids (relations_tbl d))))
                 (sel_historic_relations s)
           in (n, s\<lparr>sel_historic_relations := hs\<rparr>))"

definition set_redactions_visible :: "bool \<Rightarrow> selection \<Rightarrow> selection" where
  "set_redactions_visible visible s = s\<lparr>m_redactions_visible := visible\<rparr>"

definition by_changeset :: "object_type \<Rightarrow> int list \<Rightarrow> 'a elem_row_scheme list \<Rightarrow> osm_db \<Rightarrow> selection \<Rightarrow> (int \<times> int) list" where
  "by_changeset ty ids rows d s = map edition (filter (\<lambda>r. r_changeset_id r \<in> set ids \<and> not_redacted ty d s r) rows)"

definition select_historical_by_changesets :: "int list \<Rightarrow> osm_db \<Rightarrow> selection \<Rightarrow> int \<times> selection" where
  "select_historical_by_changesets ids d s =
     (if ids = [] then (0, s)
      else let (n, hn) = insert_results (by_changeset ot_node ids (nodes_tbl d) d s) (sel_historic_nodes s);
               (w, hw) = insert_results (by_changeset ot_way ids (ways_tbl d) d s) (sel_historic_ways s);
               (r, hr) = insert_results (by_changeset ot_relation ids (relations_tbl d) d s) (sel_historic_relations s)
           in (n + w + r, s\<lparr>sel_historic_nodes := hn, sel_historic_ways := hw, sel_historic_relations := hr\<rparr>))"

definition drop_nodes :: "selection \<Rightarrow> selection" where
  "drop_nodes s = s\<lparr>sel_nodes := {}\<rparr>"

definition drop_ways :: "selection \<Rightarrow> selection" where
  "drop_ways s = s\<lparr>sel_ways := {}\<rparr>"

definition drop_relations :: "selection \<Rightarrow> selection" where
  "drop_relations s = s\<lparr>sel_relations := {}\<rparr>"

definition select_changesets :: "int list \<Rightarrow> osm_db \<Rightarrow> selection \<Rightarrow> int \<times> selection" where
  "select_changesets ids d s =
     (if ids = [] then (0, s)
      else let (n, cs) = insert_results (map c_id (filter (\<lambda>c. c_id c \<in> set ids) (changesets d))) (sel_changesets s)
           in (n, s\<lparr>sel_changesets := cs\<rparr>))"

definition select_changeset_discussions :: "selection \<Rightarrow> selection" where
  "select_changeset_discussions s = s\<lparr>include_changeset_discussions := True\<rparr>"

section \<open>Users\<close>

definition is_user_blocked :: "int \<Rightarrow> osm_db \<Rightarrow> bool" where
  "is_user_blocked uid d \<longleftrightarrow>
     take 1 (filter (\<lambda>b. bl_user_id b = uid \<and> (bl_needs_view b \<or> bl_ends_at b > db_now d)) (user_blocks d)) \<noteq> []"

datatype osm_user_role_t = administrator | moderator | importer

definition role_of :: "string \<Rightarrow> osm_user_role_t set" where
  "role_of role =
     (if role = ''moderator'' then {moderator}
      else if role = ''administrator'' then {administrator}
      else if role = ''importer'' then {importer}
      else {})"

definition get_roles_for_user :: "int \<Rightarrow> osm_db \<Rightarrow> osm_user_role_t set" where
  "get_roles_for_user uid d = \<Union> (set (map (role_of \<circ> snd) (filter (\<lambda>r. fst r = uid) (user_roles d))))"

record token_info =
  ti_user_id :: "int option"
  ti_expired :: bool
  ti_revoked :: bool
  ti_allow_api_write :: bool

definition get_user_id_for_oauth2_token :: "pg \<Rightarrow> string \<Rightarrow> osm_db \<Rightarrow> token_info" where
  "get_user_id_for_oauth2_token p token_id d =
     (case filter (\<lambda>t. tk_token t = token_id \<or> tk_token t = pg_sha256_hex p token_id) (oauth_access_tokens d) of
        [] \<Rightarrow> \<lparr>ti_user_id = None, ti_expired = True, ti_revoked = True, ti_allow_api_write = False\<rparr>
      | t # _ \<Rightarrow>
          \<lparr>ti_user_id = Some (tk_resource_owner_id t),
           ti_expired = (case tk_expires_in t of None \<Rightarrow> False | Some e \<Rightarrow> tk_created_at t + e < db_now d),
           ti_revoked = (case tk_revoked_at t of None \<Rightarrow> False | Some r \<Rightarrow> r < db_now d),
           ti_allow_api_write = (''write_api'' \<in> set (split (case tk_scopes t of None \<Rightarrow> [] | Some x \<Rightarrow> x) CHR '' ''))\<rparr>)"

definition is_user_active :: "int \<Rightarrow> osm_db \<Rightarrow> bool" where
  "is_user_active uid d \<longleftrightarrow>
     filter (\<lambda>u. u_id u = uid \<and> (u_status u = ''active'' \<or> u_status u = ''confirmed'')) (users_tbl d) \<noteq> []"

section \<open>The cache of user details\<close>

definition inconsistency :: "int \<Rightarrow> exn" where
  "inconsistency i = server_error (''Possible database inconsistency with changeset '' @ fmt_d i @ ''.'')"

definition userdetails :: "int list \<Rightarrow> osm_db \<Rightarrow> (int \<times> user_row) list" where
  "userdetails ids d =
     concat (map (\<lambda>u. map (\<lambda>c. (c_id c, u))
       (filter (\<lambda>c. u_id u = c_user_id c \<and> c_id c \<in> set ids) (changesets d))) (users_tbl d))"

definition cache_row :: "int \<times> user_row \<Rightarrow> changeset_cache \<Rightarrow> changeset_cache result" where
  "cache_row r cache =
     (let (cs, u) = r in
      if cache cs \<noteq> None then Inl (inconsistency cs)
      else if u_id u \<le> 0 then Inr (cache(cs \<mapsto> \<lparr>data_public = False, display_name = [], cs_user_id = 0\<rparr>))
      else Inr (cache(cs \<mapsto> \<lparr>data_public = u_data_public u, display_name = u_display_name u, cs_user_id = u_id u\<rparr>)))"

definition fetch_changesets :: "int set \<Rightarrow> osm_db \<Rightarrow> changeset_cache \<Rightarrow> changeset_cache result" where
  "fetch_changesets all_ids d cache =
     (let ids = filter (\<lambda>i. cache i = None) (sorted_list_of_set all_ids) in
      if ids = [] then Inr cache
      else bindE (foldE cache_row (userdetails ids d) cache) (\<lambda>cache'.
           case find (\<lambda>i. cache' i = None) ids of
             Some i \<Rightarrow> Inl (inconsistency i)
           | None \<Rightarrow> Inr cache'))"

end
