(* ===== verification/Mime.thy ===== *)
theory Mime
  imports Http
begin

text \<open>
  \<^verbatim>\<open>src/mime_types.cpp\<close> and \<^verbatim>\<open>src/choose_formatter.cpp\<close>: the mime types the server can produce, the
  \<^verbatim>\<open>Accept\<close> header and the choice of the type of a response.
\<close>

section \<open>Types\<close>

datatype mime_type = unspecified_type | text_plain | application_xml | application_json | any_type

definition no_string_conversion :: exn where
  "no_string_conversion = runtime_error ''No string conversion for unspecified MIME type.''"

fun mime_to_string :: "mime_type \<Rightarrow> string result" where
  "mime_to_string any_type = Inr ''*/*''"
| "mime_to_string text_plain = Inr ''text/plain''"
| "mime_to_string application_xml = Inr ''application/xml''"
| "mime_to_string application_json = Inr ''application/json''"
| "mime_to_string unspecified_type = Inl no_string_conversion"

definition parse_from :: "string \<Rightarrow> mime_type" where
  "parse_from name =
     (if name = ''*'' \<or> name = ''*/*'' \<or> name = ''text/*'' then any_type
      else if name = ''text/plain'' then text_plain
      else if name = ''text/xml'' \<or> name = ''application/xml'' then application_xml
      else if name = ''application/json'' then application_json
      else unspecified_type)"

section \<open>The Accept header\<close>

record accept_element =
  ae_raw :: string
  ae_type :: string
  ae_subtype :: string
  ae_mime_type :: mime_type
  ae_q :: rat
  ae_params :: "string \<rightharpoonup> string"

text \<open>
  \<^verbatim>\<open>parseQValue\<close>: \<^verbatim>\<open>std::from_chars\<close> in fixed format, which has to consume the whole parameter. The words
  for infinity and NaN are numbers, too, but fail the check of the range.
\<close>

definition parseQValue :: "string \<Rightarrow> double option" where
  "parseQValue param =
     (let neg = (param \<noteq> [] \<and> hd param = CHR ''-'');
          r = (if neg then tl param else param);
          (ip, fp, rest) = number_parts is_digit r;
          v = decimal_value ip fp 0
      in if ip @ fp \<noteq> [] then
           (if rest = [] \<and> (v = 0 \<or> 1 / 2 ^ 1075 < v \<and> v < 2 ^ 1024 - 2 ^ 970)
            then Some (finite_double (nearest_double (if neg then - v else v))) else None)
         else if iequals r ''inf'' \<or> iequals r ''infinity'' then Some (infinite_double neg)
         else if iequals r ''nan'' then Some nan_double
         else None)"

definition invalid_q :: exn where
  "invalid_q = bad_request ''Invalid q parameter value in accept header''"

definition accept_param :: "string \<Rightarrow> accept_element \<Rightarrow> accept_element result" where
  "accept_param param el =
     (case split_trim param CHR ''='' of
        [k, v] \<Rightarrow>
          (if k = ''q'' then
             (case parseQValue v of
                Some (finite_double q) \<Rightarrow> if q < 0 \<or> q > 1 then Inl invalid_q else Inr (el\<lparr>ae_q := q\<rparr>)
              | _ \<Rightarrow> Inl invalid_q)
           else Inr (el\<lparr>ae_params := (ae_params el)(k \<mapsto> v)\<rparr>))
      | _ \<Rightarrow> Inl (bad_request ''Malformed parameter in accept header''))"

text \<open>One media type with its parameters; a type the server does not know is skipped.\<close>

definition accept_item :: "string \<Rightarrow> accept_element list \<Rightarrow> accept_element list result" where
  "accept_item item acc =
     (case split_trim item CHR '';'' of
        [] \<Rightarrow> Inl (bad_request ''Malformed accept header'')
      | e # params \<Rightarrow>
          let media = (if e = ''*'' then ''*/*'' else e) in
          (case split_trim media CHR ''/'' of
             [ty, sub] \<Rightarrow>
               (if ty = ''*'' \<and> sub \<noteq> ''*'' then Inl (bad_request ''Invalid wildcard in accept header media type'')
                else if parse_from media = unspecified_type then Inr acc
                else bindE (foldE accept_param params
                       \<lparr>ae_raw = media, ae_type = ty, ae_subtype = sub, ae_mime_type = parse_from media, ae_q = 1,
                        ae_params = Map.empty\<rparr>) (\<lambda>el. Inr (acc @ [el])))
           | _ \<Rightarrow> Inl (bad_request ''Invalid accept header media type'')))"

definition accept_parse :: "string \<Rightarrow> accept_element list result" where
  "accept_parse data =
     (let items = split_trim data CHR '','' in
      if items = [] then Inl (bad_request ''Invalid empty accept header'') else foldE accept_item items [])"

type_synonym accept_header = "mime_type \<rightharpoonup> rat"

definition AcceptHeader :: "string \<Rightarrow> accept_header result" where
  "AcceptHeader header =
     bindE (accept_parse header) (\<lambda>els. Inr (fold (\<lambda>el m. m(ae_mime_type el \<mapsto> ae_q el)) els Map.empty))"

definition is_acceptable :: "accept_header \<Rightarrow> mime_type \<Rightarrow> bool" where
  "is_acceptable mapping mt \<longleftrightarrow> mapping mt \<noteq> None \<or> mapping any_type \<noteq> None"

definition exact_step :: "accept_header \<Rightarrow> mime_type \<Rightarrow> mime_type \<times> rat \<Rightarrow> mime_type \<times> rat" where
  "exact_step mapping ty = (\<lambda>(best, score).
     case mapping ty of Some q \<Rightarrow> if q > score then (ty, q) else (best, score) | None \<Rightarrow> (best, score))"

definition most_acceptable_of :: "accept_header \<Rightarrow> mime_type list \<Rightarrow> mime_type" where
  "most_acceptable_of mapping available =
     (let (best, _) = fold (exact_step mapping) available (unspecified_type, - 1) in
      if best = unspecified_type \<and> available \<noteq> [] \<and> mapping any_type \<noteq> None then hd available else best)"

section \<open>Choosing the type of a response\<close>

fun mime_types_to_string :: "mime_type list \<Rightarrow> string result" where
  "mime_types_to_string [] = Inr []"
| "mime_types_to_string [t] = mime_to_string t"
| "mime_types_to_string (t # u # ts) =
     bindE (mime_to_string t) (\<lambda>s. bindE (mime_types_to_string (u # ts)) (\<lambda>r. Inr (s @ '', '' @ r)))"

definition acceptable_formats :: "string \<Rightarrow> mime_type list \<Rightarrow> 'a result" where
  "acceptable_formats path types =
     bindE (mime_types_to_string types) (\<lambda>s.
     Inl (not_acceptable (''Acceptable formats for '' @ path @ '' are: '' @ s)))"

text \<open>
  \<^verbatim>\<open>types_available\<close> is what the responder can write, \<open>resource\<close> the type the path asks for with its suffix.
\<close>

definition choose_best_mime_type :: "accept_header \<Rightarrow> mime_type list \<Rightarrow> mime_type \<Rightarrow> string \<Rightarrow> mime_type result" where
  "choose_best_mime_type header types_available resource path =
     (if resource \<noteq> unspecified_type then
        (if resource \<notin> set types_available then acceptable_formats path types_available
         else if \<not> is_acceptable header resource then acceptable_formats path [resource]
         else Inr resource)
      else
        let best = most_acceptable_of header types_available in
        if best = unspecified_type then acceptable_formats path types_available
        else if best = any_type \<and> types_available \<noteq> [] then Inr (hd types_available)
        else Inr best)"

datatype formatter = xml_formatter | json_formatter | text_formatter

definition create_formatter :: "mime_type \<Rightarrow> formatter result" where
  "create_formatter t =
     (case t of
        application_xml \<Rightarrow> Inr xml_formatter
      | application_json \<Rightarrow> Inr json_formatter
      | text_plain \<Rightarrow> Inr text_formatter
      | _ \<Rightarrow> bindE (mime_to_string t) (\<lambda>s.
               Inl (runtime_error (''Could not create formatter for MIME type `'' @ s @ [CHR 0x27] @ ''.''))))"

definition osm_types :: "mime_type list" where
  "osm_types = [application_xml, application_json]"

definition text_types :: "mime_type list" where
  "text_types = [text_plain]"

section \<open>What the choice guarantees\<close>

lemma mime_roundtrip: "mime_to_string t = Inr s \<Longrightarrow> parse_from s = t"
  by (cases t) (auto simp: parse_from_def)

lemma exact_fold:
  assumes "fold (exact_step mapping) ts (b0, s0) = (best, score)" "\<forall>t q. mapping t = Some q \<longrightarrow> 0 \<le> q"
  shows "(best = b0 \<and> score = s0 \<or> best \<in> set ts \<and> mapping best = Some score) \<and> s0 \<le> score \<and>
    (\<forall>t\<in>set ts. \<forall>q. mapping t = Some q \<longrightarrow> q \<le> score)"
  using assms(1)
proof (induction ts arbitrary: b0 s0)
  case (Cons t ts)
  obtain b1 s1 where step: "exact_step mapping t (b0, s0) = (b1, s1)" by (cases "exact_step mapping t (b0, s0)")
  from Cons.prems have "fold (exact_step mapping) ts (b1, s1) = (best, score)" by (simp add: step)
  from Cons.IH [OF this] step show ?case by (auto simp: exact_step_def split: option.splits if_splits)
qed simp

text \<open>Where no offered type beats the initial score, none is listed.\<close>

lemma exact_fold_none:
  assumes "fold (exact_step mapping) ts (unspecified_type, - 1) = (unspecified_type, score)"
    and nonneg: "\<forall>t q. mapping t = Some q \<longrightarrow> 0 \<le> q" and "unspecified_type \<notin> set ts" "t \<in> set ts"
  shows "mapping t = None"
proof (cases "mapping t")
  case (Some a)
  note ex = exact_fold [OF assms(1) nonneg]
  with assms(3) have "score = - 1" by blast
  with Some ex assms(4) have "a \<le> - 1" by blast
  moreover from Some nonneg have "0 \<le> a" by blast
  ultimately show ?thesis by linarith
qed

definition weights_ok :: "accept_header \<Rightarrow> bool" where
  "weights_ok m \<longleftrightarrow> (\<forall>t q. m t = Some q \<longrightarrow> 0 \<le> q \<and> q \<le> 1) \<and> m unspecified_type = None"

definition element_ok :: "accept_element \<Rightarrow> bool" where
  "element_ok el \<longleftrightarrow> 0 \<le> ae_q el \<and> ae_q el \<le> 1 \<and> ae_mime_type el \<noteq> unspecified_type"

lemma accept_param_ok: "accept_param p el = Inr el' \<Longrightarrow> element_ok el \<Longrightarrow> element_ok el'"
  by (auto simp: accept_param_def element_ok_def split: list.splits option.splits double.splits if_splits)

lemma accept_params_ok: "foldE accept_param ps el = Inr el' \<Longrightarrow> element_ok el \<Longrightarrow> element_ok el'"
proof (induction ps arbitrary: el)
  case (Cons p ps)
  then obtain el1 where "accept_param p el = Inr el1" "foldE accept_param ps el1 = Inr el'" by (auto simp: result_simps)
  with Cons.IH accept_param_ok Cons.prems(2) show ?case by blast
qed simp

lemma accept_item_ok:
  assumes "accept_item i acc = Inr acc'" "list_all element_ok acc"
  shows "list_all element_ok acc'"
proof -
  obtain e params where sp: "split_trim i CHR '';'' = e # params"
    using assms(1) by (cases "split_trim i CHR '';''") (simp_all add: accept_item_def)
  define media where "media = (if e = ''*'' then ''*/*'' else e)"
  note item = assms(1) [unfolded accept_item_def sp list.case, folded media_def, unfolded Let_def]
  from item obtain ty sub where parts: "split_trim media CHR ''/'' = [ty, sub]"
    by (simp split: list.splits)
  define el0 where "el0 = \<lparr>ae_raw = media, ae_type = ty, ae_subtype = sub, ae_mime_type = parse_from media,
      ae_q = 1, ae_params = Map.empty\<rparr>"
  note item = item [unfolded parts list.case, folded el0_def]
  show ?thesis
  proof (cases "acc' = acc")
    case False
    with item have known: "parse_from media \<noteq> unspecified_type"
      and "bindE (foldE accept_param params el0) (\<lambda>el. Inr (acc @ [el])) = Inr acc'"
      by (simp_all split: if_splits)
    then obtain el where "foldE accept_param params el0 = Inr el" and acc': "acc' = acc @ [el]"
      by (auto simp: result_simps)
    moreover from known have "element_ok el0" by (simp add: element_ok_def el0_def)
    ultimately show ?thesis using accept_params_ok assms(2) by simp
  qed (simp add: assms(2))
qed

lemma accept_items_ok: "foldE accept_item is' acc = Inr acc' \<Longrightarrow> list_all element_ok acc \<Longrightarrow> list_all element_ok acc'"
proof (induction is' arbitrary: acc)
  case (Cons i is')
  then obtain acc1 where "accept_item i acc = Inr acc1" "foldE accept_item is' acc1 = Inr acc'" by (auto simp: result_simps)
  with Cons.IH accept_item_ok Cons.prems(2) show ?case by blast
qed simp

lemma weights_fold: "list_all element_ok els \<Longrightarrow> weights_ok m \<Longrightarrow>
    weights_ok (fold (\<lambda>el m. m(ae_mime_type el \<mapsto> ae_q el)) els m)"
proof (induction els arbitrary: m)
  case (Cons el els)
  from Cons.prems have "weights_ok (m(ae_mime_type el \<mapsto> ae_q el))"
    by (auto simp: weights_ok_def element_ok_def)
  with Cons.IH Cons.prems show ?case by (simp del: fun_upd_apply)
qed simp

lemma accept_header_ok:
  assumes "AcceptHeader h = Inr m"
  shows "weights_ok m"
proof -
  from assms obtain els where els: "accept_parse h = Inr els"
    and m: "m = fold (\<lambda>el m. m(ae_mime_type el \<mapsto> ae_q el)) els Map.empty"
    by (auto simp: AcceptHeader_def result_simps)
  from els have "foldE accept_item (split_trim h CHR '','') [] = Inr els"
    by (simp add: accept_parse_def Let_def split: if_splits)
  then have "list_all element_ok els" by (rule accept_items_ok) simp
  then show ?thesis unfolding m by (rule weights_fold) (simp add: weights_ok_def)
qed

lemma choose_best_mime_type_Inr:
  assumes "choose_best_mime_type m ts resource path = Inr t" "weights_ok m" "any_type \<notin> set ts" "unspecified_type \<notin> set ts"
  shows "t \<in> set ts \<and> is_acceptable m t \<and> (resource = unspecified_type \<or> t = resource) \<and>
    (resource = unspecified_type \<longrightarrow> (\<forall>u\<in>set ts. \<forall>q. m u = Some q \<longrightarrow> (\<exists>q'. m t = Some q' \<and> q \<le> q')))"
proof (cases "resource = unspecified_type")
  case False
  with assms(1) show ?thesis
    by (auto simp: choose_best_mime_type_def acceptable_formats_def result_simps split: if_splits)
next
  case True
  obtain best score where f: "fold (exact_step m) ts (unspecified_type, - 1) = (best, score)"
    by (cases "fold (exact_step m) ts (unspecified_type, - 1)")
  from assms(2) have nonneg: "\<forall>t q. m t = Some q \<longrightarrow> 0 \<le> q" by (auto simp: weights_ok_def)
  note ex = exact_fold [OF f nonneg]
  let ?b = "most_acceptable_of m ts"
  from assms(1) True have b: "?b \<noteq> unspecified_type" and t: "t = (if ?b = any_type \<and> ts \<noteq> [] then hd ts else ?b)"
    by (auto simp: choose_best_mime_type_def acceptable_formats_def Let_def result_simps split: if_splits)
  show ?thesis
  proof (cases "best = unspecified_type")
    case True
    with b f have wild: "m any_type \<noteq> None" "ts \<noteq> []" "?b = hd ts"
      by (auto simp: most_acceptable_of_def split: if_splits)
    have none: "m u = None" if "u \<in> set ts" for u
      using exact_fold_none [OF f [unfolded True] nonneg assms(4) that] .
    from wild t assms(3) have "t = hd ts" by (metis hd_in_set)
    with wild none \<open>resource = unspecified_type\<close> show ?thesis by (auto simp: is_acceptable_def)
  next
    case False
    with f have "?b = best" by (simp add: most_acceptable_of_def)
    moreover from False ex have best: "best \<in> set ts" "m best = Some score" by auto
    ultimately have "t = best" using t assms(3) by auto
    with best ex \<open>resource = unspecified_type\<close> show ?thesis by (auto simp: is_acceptable_def)
  qed
qed

lemma mime_types_to_string_Inr: "unspecified_type \<notin> set ts \<Longrightarrow> \<exists>s. mime_types_to_string ts = Inr s"
proof (induction ts rule: mime_types_to_string.induct)
  case (2 t)
  then show ?case by (cases t) simp_all
next
  case (3 t u ts)
  from "3.prems" obtain s where "mime_to_string t = Inr s" by (cases t) simp_all
  with 3 show ?case by auto
qed simp

lemma choose_best_mime_type_Inl:
  assumes "choose_best_mime_type m ts resource path = Inl ex" "weights_ok m" "unspecified_type \<notin> set ts"
  shows "(\<exists>msg. ex = not_acceptable msg) \<and>
    \<not> list_ex (\<lambda>t. is_acceptable m t \<and> (resource = unspecified_type \<or> t = resource)) ts"
proof -
  have formats: "\<exists>msg. ex' = not_acceptable msg" if "(acceptable_formats path us :: mime_type result) = Inl ex'" "unspecified_type \<notin> set us"
    for us ex' using that mime_types_to_string_Inr [of us] by (auto simp: acceptable_formats_def)
  show ?thesis
  proof (cases "resource = unspecified_type")
    case False
    with assms(1) formats [of ts ex] formats [of "[resource]" ex] assms(3) show ?thesis
      by (auto simp: choose_best_mime_type_def list_ex_iff split: if_splits)
  next
    case True
    obtain best score where f: "fold (exact_step m) ts (unspecified_type, - 1) = (best, score)"
      by (cases "fold (exact_step m) ts (unspecified_type, - 1)")
    from assms(2) have nonneg: "\<forall>t q. m t = Some q \<longrightarrow> 0 \<le> q" by (auto simp: weights_ok_def)
    from assms(1) True have un: "most_acceptable_of m ts = unspecified_type"
      and "(acceptable_formats path ts :: mime_type result) = Inl ex"
      by (auto simp: choose_best_mime_type_def Let_def split: if_splits)
    with formats assms(3) have msg: "\<exists>msg. ex = not_acceptable msg" by blast
    have "ts = [] \<or> hd ts \<noteq> unspecified_type" using assms(3) by (metis hd_in_set)
    with un f have best: "best = unspecified_type" and "ts = [] \<or> m any_type = None"
      by (auto simp: most_acceptable_of_def split: if_splits)
    with exact_fold_none [OF f [unfolded best] nonneg assms(3)] have "\<not> is_acceptable m t" if "t \<in> set ts" for t
      using that by (auto simp: is_acceptable_def)
    with msg show ?thesis by (auto simp: list_ex_iff)
  qed
qed

lemma create_formatter_total: "t \<in> {application_xml, application_json, text_plain} \<Longrightarrow> \<exists>f. create_formatter t = Inr f"
  by (auto simp: create_formatter_def)

end
