(* ===== verification/Responders.thy ===== *)
theory Responders
  imports Selection Mime
begin

text \<open>
  The queries of \<^verbatim>\<open>readonly_pgsql_selection.cpp\<close> that write the selected elements, the loops of
  \<^verbatim>\<open>common_pgsql_selection.cpp\<close> that turn their rows into calls of an output formatter, the responders
  of \<^verbatim>\<open>src/api06\<close> that fill a selection, and the three responders that write a document. A formatter
  is the list of calls it receives.
\<close>

section \<open>Calls of a formatter\<close>

datatype action_type = create_action | modify_action | del_action

type_synonym tags_t = "(string \<times> string) list"

datatype fmt_call =
    start_document string string
  | write_bounds bbox
  | start_element
  | write_node element_info rat rat tags_t
  | write_way element_info "int list" tags_t
  | write_relation element_info "member_info list" tags_t
  | start_changeset bool
  | write_changeset changeset_info tags_t bool "changeset_comment_info list"
  | end_changeset bool
  | start_action action_type
  | end_action action_type
  | write_diffresult_create_modify element_type int int int
  | write_diffresult_delete element_type int
  | write_error exn
  | write_message string
  | end_element
  | end_document

text \<open>A loop that writes stops at the first exception; the calls made so far have been made.\<close>

type_synonym written = "fmt_call list \<times> exn option"

fun extract_rows :: "('r \<Rightarrow> fmt_call result) \<Rightarrow> 'r list \<Rightarrow> written" where
  "extract_rows f [] = ([], None)"
| "extract_rows f (r # rs) =
     (case f r of
        Inl e \<Rightarrow> ([], Some e)
      | Inr c \<Rightarrow> (let (cs, ex) = extract_rows f rs in (c # cs, ex)))"

section \<open>Rows of the queries\<close>

record tagged_columns = elem_columns +
  col_tag_k :: string
  col_tag_v :: string

record node_columns = tagged_columns +
  col_latitude :: int
  col_longitude :: int

record way_columns = tagged_columns +
  col_node_ids :: string

record relation_columns = tagged_columns +
  col_member_types :: string
  col_member_ids :: string
  col_member_roles :: string

fun insert_by :: "(string \<Rightarrow> string \<Rightarrow> bool) \<Rightarrow> string \<times> string \<Rightarrow> tags_t \<Rightarrow> tags_t" where
  "insert_by le t [] = [t]"
| "insert_by le t (u # us) = (if le (fst t) (fst u) then t # u # us else u # insert_by le t us)"

definition order_by_k :: "pg \<Rightarrow> tags_t \<Rightarrow> tags_t" where
  "order_by_k p ts = foldr (insert_by (pg_le p)) ts []"

definition current_tags :: "pg \<Rightarrow> int \<Rightarrow> tag_row list \<Rightarrow> tags_t" where
  "current_tags p i rows = order_by_k p (map snd (filter (\<lambda>t. fst t = i) rows))"

definition historic_tags :: "pg \<Rightarrow> int \<times> int \<Rightarrow> hist_tag_row list \<Rightarrow> tags_t" where
  "historic_tags p ed rows = order_by_k p (map (snd \<circ> snd) (filter (\<lambda>(i, v, k, w). (i, v) = ed) rows))"

definition node_query_row :: "pg \<Rightarrow> tags_t \<Rightarrow> node_row \<Rightarrow> node_columns" where
  "node_query_row p tags r =
     \<lparr>col_id = r_id r, col_version = r_version r, col_timestamp = pg_to_char p (r_timestamp r),
      col_changeset = r_changeset_id r, col_visible = r_visible r,
      col_tag_k = agg_text (pg_quotes p) True (map fst tags), col_tag_v = agg_text (pg_quotes p) True (map snd tags),
      col_latitude = r_latitude r, col_longitude = r_longitude r\<rparr>"

definition way_query_row :: "pg \<Rightarrow> tags_t \<Rightarrow> int list \<Rightarrow> way_row \<Rightarrow> way_columns" where
  "way_query_row p tags nds r =
     \<lparr>col_id = r_id r, col_version = r_version r, col_timestamp = pg_to_char p (r_timestamp r),
      col_changeset = r_changeset_id r, col_visible = r_visible r,
      col_tag_k = agg_text (pg_quotes p) False (map fst tags), col_tag_v = agg_text (pg_quotes p) False (map snd tags),
      col_node_ids = agg_ids nds\<rparr>"

definition relation_query_row :: "pg \<Rightarrow> tags_t \<Rightarrow> 'a member_row_scheme list \<Rightarrow> relation_row \<Rightarrow> relation_columns" where
  "relation_query_row p tags ms r =
     \<lparr>col_id = r_id r, col_version = r_version r, col_timestamp = pg_to_char p (r_timestamp r),
      col_changeset = r_changeset_id r, col_visible = r_visible r,
      col_tag_k = agg_text (pg_quotes p) False (map fst tags), col_tag_v = agg_text (pg_quotes p) False (map snd tags),
      col_member_types = agg_text (pg_quotes p) False (map m_member_type ms), col_member_ids = agg_ids (map m_member_id ms),
      col_member_roles = agg_text (pg_quotes p) False (map m_member_role ms)\<rparr>"

definition extract_current_nodes :: "pg \<Rightarrow> osm_db \<Rightarrow> int set \<Rightarrow> node_columns list" where
  "extract_current_nodes p d sel =
     map (\<lambda>r. node_query_row p (current_tags p (r_id r) (current_node_tags d)) r)
       (sort_key r_id (filter (\<lambda>r. r_id r \<in> sel) (current_nodes d)))"

definition extract_historic_nodes :: "pg \<Rightarrow> osm_db \<Rightarrow> (int \<times> int) set \<Rightarrow> node_columns list" where
  "extract_historic_nodes p d sel =
     map (\<lambda>r. node_query_row p (historic_tags p (edition r) (node_tags_tbl d)) r)
       (sort_key edition (filter (\<lambda>r. edition r \<in> sel) (nodes_tbl d)))"

definition extract_current_ways :: "pg \<Rightarrow> osm_db \<Rightarrow> int set \<Rightarrow> way_columns list" where
  "extract_current_ways p d sel =
     map (\<lambda>r. way_query_row p (current_tags p (r_id r) (current_way_tags d))
           (map (fst \<circ> snd) (sort_key (snd \<circ> snd) (filter (\<lambda>wn. fst wn = r_id r) (current_way_nodes d)))) r)
       (sort_key r_id (filter (\<lambda>r. r_id r \<in> sel) (current_ways d)))"

definition extract_historic_ways :: "pg \<Rightarrow> osm_db \<Rightarrow> (int \<times> int) set \<Rightarrow> way_columns list" where
  "extract_historic_ways p d sel =
     map (\<lambda>r. way_query_row p (historic_tags p (edition r) (way_tags_tbl d))
           (map (fst \<circ> snd) (sort_key (snd \<circ> snd \<circ> snd) (filter (\<lambda>(w, n, v, q). (w, v) = edition r) (way_nodes_tbl d)))) r)
       (sort_key edition (filter (\<lambda>r. edition r \<in> sel) (ways_tbl d)))"

definition extract_current_relations :: "pg \<Rightarrow> osm_db \<Rightarrow> int set \<Rightarrow> relation_columns list" where
  "extract_current_relations p d sel =
     map (\<lambda>r. relation_query_row p (current_tags p (r_id r) (current_relation_tags d))
           (sort_key m_sequence_id (filter (\<lambda>m. m_relation_id m = r_id r) (current_relation_members d))) r)
       (sort_key r_id (filter (\<lambda>r. r_id r \<in> sel) (current_relations d)))"

definition extract_historic_relations :: "pg \<Rightarrow> osm_db \<Rightarrow> (int \<times> int) set \<Rightarrow> relation_columns list" where
  "extract_historic_relations p d sel =
     map (\<lambda>r. relation_query_row p (historic_tags p (edition r) (relation_tags_tbl d))
           (sort_key m_sequence_id (filter (\<lambda>m. (m_relation_id m, m_version m) = edition r) (relation_members_tbl d))) r)
       (sort_key edition (filter (\<lambda>r. edition r \<in> sel) (relations_tbl d)))"

section \<open>Writing rows\<close>

definition write_node_row :: "changeset_cache \<Rightarrow> node_columns \<Rightarrow> fmt_call result" where
  "write_node_row cache row =
     bindE (extract_tags (col_tag_k row) (col_tag_v row)) (\<lambda>tags.
     Inr (write_node (extract_elem cache row) (from_fixed (col_longitude row)) (from_fixed (col_latitude row)) tags))"

definition write_way_row :: "changeset_cache \<Rightarrow> way_columns \<Rightarrow> fmt_call result" where
  "write_way_row cache row =
     bindE (extract_way_nodes (col_node_ids row)) (\<lambda>nds.
     bindE (extract_tags (col_tag_k row) (col_tag_v row)) (\<lambda>tags.
     Inr (write_way (extract_elem cache row) nds tags)))"

definition write_relation_row :: "changeset_cache \<Rightarrow> relation_columns \<Rightarrow> fmt_call result" where
  "write_relation_row cache row =
     bindE (extract_members (col_member_types row) (col_member_ids row) (col_member_roles row)) (\<lambda>members.
     bindE (extract_tags (col_tag_k row) (col_tag_v row)) (\<lambda>tags.
     Inr (write_relation (extract_elem cache row) members tags)))"

text \<open>The user details of all changesets of a result are fetched before the first row is written.\<close>

definition write_rows :: "(changeset_cache \<Rightarrow> 'a elem_columns_scheme \<Rightarrow> fmt_call result) \<Rightarrow> 'a elem_columns_scheme list \<Rightarrow>
    osm_db \<Rightarrow> selection \<Rightarrow> written \<times> selection" where
  "write_rows f rows d s =
     (case fetch_changesets (set (map col_changeset rows)) d (cc s) of
        Inl e \<Rightarrow> (([], Some e), s)
      | Inr cache \<Rightarrow> (extract_rows (f cache) rows, s\<lparr>cc := cache\<rparr>))"

text \<open>Where both current elements and versions were selected, the current ones become versions.\<close>

definition nodes_as_versions :: "osm_db \<Rightarrow> selection \<Rightarrow> selection" where
  "nodes_as_versions d s =
     (if sel_nodes s \<noteq> {} \<and> sel_historic_nodes s \<noteq> {} then
        s\<lparr>sel_historic_nodes := sel_historic_nodes s \<union> set (map edition (filter (\<lambda>r. r_id r \<in> sel_nodes s) (current_nodes d))),
          sel_nodes := {}\<rparr>
      else s)"

definition write_nodes :: "pg \<Rightarrow> osm_db \<Rightarrow> selection \<Rightarrow> written \<times> selection" where
  "write_nodes p d s =
     (let s1 = nodes_as_versions d s in
      if sel_nodes s1 \<noteq> {} then write_rows write_node_row (extract_current_nodes p d (sel_nodes s1)) d s1
      else if sel_historic_nodes s1 \<noteq> {} then write_rows write_node_row (extract_historic_nodes p d (sel_historic_nodes s1)) d s1
      else (([], None), s1))"

definition ways_as_versions :: "osm_db \<Rightarrow> selection \<Rightarrow> selection" where
  "ways_as_versions d s =
     (if sel_ways s \<noteq> {} \<and> sel_historic_ways s \<noteq> {} then
        s\<lparr>sel_historic_ways := sel_historic_ways s \<union> set (map edition (filter (\<lambda>r. r_id r \<in> sel_ways s) (current_ways d))),
          sel_ways := {}\<rparr>
      else s)"

definition write_ways :: "pg \<Rightarrow> osm_db \<Rightarrow> selection \<Rightarrow> written \<times> selection" where
  "write_ways p d s =
     (let s1 = ways_as_versions d s in
      if sel_ways s1 \<noteq> {} then write_rows write_way_row (extract_current_ways p d (sel_ways s1)) d s1
      else if sel_historic_ways s1 \<noteq> {} then write_rows write_way_row (extract_historic_ways p d (sel_historic_ways s1)) d s1
      else (([], None), s1))"

definition relations_as_versions :: "osm_db \<Rightarrow> selection \<Rightarrow> selection" where
  "relations_as_versions d s =
     (if sel_relations s \<noteq> {} \<and> sel_historic_relations s \<noteq> {} then
        s\<lparr>sel_historic_relations := sel_historic_relations s \<union>
            set (map edition (filter (\<lambda>r. r_id r \<in> sel_relations s) (current_relations d))),
          sel_relations := {}\<rparr>
      else s)"

definition write_relations :: "pg \<Rightarrow> osm_db \<Rightarrow> selection \<Rightarrow> written \<times> selection" where
  "write_relations p d s =
     (let s1 = relations_as_versions d s in
      if sel_relations s1 \<noteq> {} then write_rows write_relation_row (extract_current_relations p d (sel_relations s1)) d s1
      else if sel_historic_relations s1 \<noteq> {}
      then write_rows write_relation_row (extract_historic_relations p d (sel_historic_relations s1)) d s1
      else (([], None), s1))"

section \<open>Writing changesets\<close>

record changeset_query_row = changeset_columns +
  cq_tag_k :: string
  cq_tag_v :: string
  cq_comment_id :: string
  cq_author_id :: string
  cq_display_name :: string
  cq_body :: string
  cq_comment_created_at :: string

definition visible_comments :: "int \<Rightarrow> osm_db \<Rightarrow> (comment_row \<times> user_row) list" where
  "visible_comments i d =
     sort_key (cmt_created_at \<circ> fst) (concat (map (\<lambda>c. map (Pair c) (filter (\<lambda>u. cmt_author_id c = u_id u) (users_tbl d)))
       (filter (\<lambda>c. cmt_changeset_id c = i \<and> cmt_visible c) (changeset_comments d))))"

definition changeset_result :: "pg \<Rightarrow> osm_db \<Rightarrow> changeset_row \<Rightarrow> changeset_query_row" where
  "changeset_result p d c =
     (let tags = current_tags p (c_id c) (changeset_tags d); cs = visible_comments (c_id c) d; q = pg_quotes p in
      \<lparr>cc_id = c_id c, cc_created_at = pg_to_char p (c_created_at c), cc_closed_at = pg_to_char p (c_closed_at c),
       cc_min_lat = map_option bbox_t.minlat (c_bbox c), cc_min_lon = map_option bbox_t.minlon (c_bbox c),
       cc_max_lat = map_option bbox_t.maxlat (c_bbox c), cc_max_lon = map_option bbox_t.maxlon (c_bbox c),
       cc_num_changes = c_num_changes c,
       cq_tag_k = agg_text q False (map fst tags), cq_tag_v = agg_text q False (map snd tags),
       cq_comment_id = agg_ids (map (cmt_id \<circ> fst) cs), cq_author_id = agg_ids (map (cmt_author_id \<circ> fst) cs),
       cq_display_name = agg_text q False (map (u_display_name \<circ> snd) cs), cq_body = agg_text q False (map (cmt_body \<circ> fst) cs),
       cq_comment_created_at = agg_text q False (map (pg_to_char p \<circ> cmt_created_at \<circ> fst) cs)\<rparr>)"

definition write_changeset_row :: "bool \<Rightarrow> changeset_cache \<Rightarrow> changeset_query_row \<Rightarrow> fmt_call result" where
  "write_changeset_row discussions cache row =
     bindE (extract_tags (cq_tag_k row) (cq_tag_v row)) (\<lambda>tags.
     bindE (extract_comments (cq_comment_id row) (cq_author_id row) (cq_display_name row) (cq_body row) (cq_comment_created_at row))
       (\<lambda>comments. Inr (write_changeset ((extract_changeset cache row)\<lparr>ci_comments_count := length comments\<rparr>) tags discussions comments)))"

definition write_changesets :: "pg \<Rightarrow> osm_db \<Rightarrow> selection \<Rightarrow> written \<times> selection" where
  "write_changesets p d s =
     (if sel_changesets s = {} then (([], None), s)
      else case fetch_changesets (sel_changesets s) d (cc s) of
             Inl e \<Rightarrow> (([], Some e), s)
           | Inr cache \<Rightarrow>
               (extract_rows (write_changeset_row (include_changeset_discussions s) cache)
                  (map (changeset_result p d) (filter (\<lambda>c. c_id c \<in> sel_changesets s) (changesets d))),
                s\<lparr>cc := cache\<rparr>))"

section \<open>Documents\<close>

text \<open>The three writers one after the other; an exception skips the rest.\<close>

definition write_elements :: "pg \<Rightarrow> osm_db \<Rightarrow> selection \<Rightarrow> written" where
  "write_elements p d s =
     (let ((ns, ex1), s1) = write_nodes p d s in
      if ex1 \<noteq> None then (ns, ex1)
      else let ((ws, ex2), s2) = write_ways p d s1 in
           if ex2 \<noteq> None then (ns @ ws, ex2)
           else let ((rs, ex3), s3) = write_relations p d s2 in (ns @ ws @ rs, ex3))"

definition on_error :: "exn option \<Rightarrow> fmt_call list" where
  "on_error ex = (case ex of None \<Rightarrow> [] | Some e \<Rightarrow> [write_error e])"

definition osm_current_write :: "pg \<Rightarrow> string \<Rightarrow> bbox option \<Rightarrow> osm_db \<Rightarrow> selection \<Rightarrow> fmt_call list" where
  "osm_current_write p generator bounds d s =
     (let (calls, ex) = write_elements p d s in
      [start_document generator ''osm''] @ (case bounds of None \<Rightarrow> [] | Some b \<Rightarrow> [write_bounds b]) @ [start_element] @
      calls @ on_error ex @ [end_element, end_document])"

definition osm_changeset_write :: "pg \<Rightarrow> string \<Rightarrow> bool \<Rightarrow> osm_db \<Rightarrow> selection \<Rightarrow> fmt_call list" where
  "osm_changeset_write p generator multi_selection d s =
     (let ((calls, ex), s1) = write_changesets p d s in
      [start_document generator ''osm'', start_changeset multi_selection] @ calls @ on_error ex @
      [end_changeset multi_selection, end_document])"

section \<open>Downloads\<close>

fun type_rank :: "element_type \<Rightarrow> nat" where
  "type_rank et_changeset = 0"
| "type_rank et_node = 1"
| "type_rank et_way = 2"
| "type_rank et_relation = 3"

fun call_info :: "fmt_call \<Rightarrow> (element_type \<times> element_info) option" where
  "call_info (write_node i lon lat ts) = Some (et_node, i)"
| "call_info (write_way i nds ts) = Some (et_way, i)"
| "call_info (write_relation i ms ts) = Some (et_relation, i)"
| "call_info _ = None"

text \<open>\<^verbatim>\<open>operator<=>\<close> on elements: time, version, type and id.\<close>

definition element_key :: "fmt_call \<Rightarrow> string \<times> int \<times> nat \<times> int" where
  "element_key c =
     (case call_info c of
        Some (ty, i) \<Rightarrow> (ei_timestamp i, ei_version i, type_rank ty, ei_id i)
      | None \<Rightarrow> ([], 0, 0, 0))"

definition action_of :: "element_info \<Rightarrow> action_type" where
  "action_of i = (if ei_version i = 1 then create_action else if ei_visible i then modify_action else del_action)"

definition sorted_actions :: "fmt_call list \<Rightarrow> fmt_call list" where
  "sorted_actions calls =
     concat (map (\<lambda>c. case call_info c of
        Some (ty, i) \<Rightarrow> [start_action (action_of i), c, end_action (action_of i)]
      | None \<Rightarrow> []) (sort_key element_key calls))"

definition osmchange_write :: "pg \<Rightarrow> string \<Rightarrow> osm_db \<Rightarrow> selection \<Rightarrow> fmt_call list" where
  "osmchange_write p generator d s =
     [start_document generator ''osmChange''] @
     (case write_elements p d s of
        (calls, None) \<Rightarrow> sorted_actions calls
      | (calls, Some e) \<Rightarrow> [write_error e]) @
     [end_document]"

definition osmchange_types :: "mime_type list" where
  "osmchange_types = [application_xml]"

section \<open>Responders of single elements\<close>

definition missing :: "string \<Rightarrow> int \<Rightarrow> exn" where
  "missing what i = not_found (what @ '' '' @ fmt_d i @ '' was not found.'')"

definition node_responder :: "int \<Rightarrow> osm_db \<Rightarrow> selection \<Rightarrow> selection result" where
  "node_responder i d s =
     (let (n, s1) = select_nodes [i] d s in
      if n = 0 then Inl (missing ''Node'' i)
      else if check_node_visibility i d = vis_deleted then Inl (gone []) else Inr s1)"

definition way_responder :: "int \<Rightarrow> osm_db \<Rightarrow> selection \<Rightarrow> selection result" where
  "way_responder i d s =
     (let (n, s1) = select_ways [i] d s in
      if n = 0 then Inl (missing ''Way'' i)
      else if check_way_visibility i d = vis_deleted then Inl (gone []) else Inr s1)"

definition relation_responder :: "int \<Rightarrow> osm_db \<Rightarrow> selection \<Rightarrow> selection result" where
  "relation_responder i d s =
     (let (n, s1) = select_relations [i] d s in
      if n = 0 then Inl (missing ''Relation'' i)
      else if check_relation_visibility i d = vis_deleted then Inl (gone []) else Inr s1)"

definition check_full_visibility :: "string \<Rightarrow> int \<Rightarrow> visibility_t \<Rightarrow> unit result" where
  "check_full_visibility what i v =
     (case v of vis_non_exist \<Rightarrow> Inl (missing what i) | vis_deleted \<Rightarrow> Inl (gone []) | vis_exists \<Rightarrow> Inr ())"

definition way_full_responder :: "int \<Rightarrow> osm_db \<Rightarrow> selection \<Rightarrow> selection result" where
  "way_full_responder i d s =
     (let (n, s1) = select_ways [i] d s in
      if n = 0 then Inl (missing ''Way'' i)
      else bindE (check_full_visibility ''Way'' i (check_way_visibility i d)) (\<lambda>_. Inr (select_nodes_from_way_nodes d s1)))"

definition relation_full_responder :: "int \<Rightarrow> osm_db \<Rightarrow> selection \<Rightarrow> selection result" where
  "relation_full_responder i d s =
     (let (n, s1) = select_relations [i] d s in
      if n = 0 then Inl (missing ''Relation'' i)
      else bindE (check_full_visibility ''Relation'' i (check_relation_visibility i d)) (\<lambda>_.
           let s2 = select_nodes_from_relations d s1;
               s3 = select_ways_from_relations d s2;
               s4 = select_nodes_from_way_nodes d s3
           in Inr (select_relations_members_of_relations d s4)))"

definition node_ways_responder :: "int \<Rightarrow> osm_db \<Rightarrow> selection \<Rightarrow> selection result" where
  "node_ways_responder i d s =
     (let (n, s1) = select_nodes [i] d s;
          s2 = (if n > 0 \<and> check_node_visibility i d \<noteq> vis_deleted then select_ways_from_nodes d s1 else s1)
      in Inr (drop_nodes s2))"

definition node_relations_responder :: "int \<Rightarrow> osm_db \<Rightarrow> selection \<Rightarrow> selection result" where
  "node_relations_responder i d s =
     (let (n, s1) = select_nodes [i] d s;
          s2 = (if n > 0 \<and> check_node_visibility i d \<noteq> vis_deleted then select_relations_from_nodes d s1 else s1)
      in Inr (drop_nodes s2))"

definition way_relations_responder :: "int \<Rightarrow> osm_db \<Rightarrow> selection \<Rightarrow> selection result" where
  "way_relations_responder i d s =
     (let (n, s1) = select_ways [i] d s;
          s2 = (if n > 0 \<and> check_way_visibility i d \<noteq> vis_deleted then select_relations_from_ways d s1 else s1)
      in Inr (drop_ways s2))"

definition relation_relations_responder :: "int \<Rightarrow> osm_db \<Rightarrow> selection \<Rightarrow> selection result" where
  "relation_relations_responder i d s =
     (let (n, s1) = select_relations [i] d s in
      Inr (if n > 0 \<and> check_relation_visibility i d \<noteq> vis_deleted then select_relations_from_relations True d s1
           else drop_relations s1))"

text \<open>Versions and histories.\<close>

definition some_selected :: "int \<times> selection \<Rightarrow> selection result" where
  "some_selected ns = (let (n, s) = ns in if n = 0 then Inl (not_found []) else Inr s)"

definition node_version_responder :: "int \<Rightarrow> int \<Rightarrow> osm_db \<Rightarrow> selection \<Rightarrow> selection result" where
  "node_version_responder i v d s = some_selected (select_historical_nodes [(i, v)] d s)"

definition way_version_responder :: "int \<Rightarrow> int \<Rightarrow> osm_db \<Rightarrow> selection \<Rightarrow> selection result" where
  "way_version_responder i v d s = some_selected (select_historical_ways [(i, v)] d s)"

definition relation_version_responder :: "int \<Rightarrow> int \<Rightarrow> osm_db \<Rightarrow> selection \<Rightarrow> selection result" where
  "relation_version_responder i v d s = some_selected (select_historical_relations [(i, v)] d s)"

definition node_history_responder :: "int \<Rightarrow> osm_db \<Rightarrow> selection \<Rightarrow> selection result" where
  "node_history_responder i d s = some_selected (select_nodes_with_history [i] d s)"

definition way_history_responder :: "int \<Rightarrow> osm_db \<Rightarrow> selection \<Rightarrow> selection result" where
  "way_history_responder i d s = some_selected (select_ways_with_history [i] d s)"

definition relation_history_responder :: "int \<Rightarrow> osm_db \<Rightarrow> selection \<Rightarrow> selection result" where
  "relation_history_responder i d s = some_selected (select_relations_with_history [i] d s)"

section \<open>Responders of several elements\<close>

record id_version =
  iv_id :: int
  iv_version :: "int option"

definition current_ids :: "id_version list \<Rightarrow> int list" where
  "current_ids ids = map iv_id (filter (\<lambda>i. iv_version i = None) ids)"

definition historic_ids :: "id_version list \<Rightarrow> (int \<times> int) list" where
  "historic_ids ids = List.map_filter (\<lambda>i. map_option (Pair (iv_id i)) (iv_version i)) ids"

definition nodes_responder :: "id_version list \<Rightarrow> osm_db \<Rightarrow> selection \<Rightarrow> selection result" where
  "nodes_responder ids d s =
     (let (n, s1) = select_nodes (current_ids ids) d s;
          (h, s2) = (if historic_ids ids \<noteq> [] then select_historical_nodes (historic_ids ids) d s1 else (0, s1))
      in if n + h \<noteq> int (length ids) then Inl (not_found ''One or more of the nodes were not found.'') else Inr s2)"

definition ways_responder :: "id_version list \<Rightarrow> osm_db \<Rightarrow> selection \<Rightarrow> selection result" where
  "ways_responder ids d s =
     (let (n, s1) = select_ways (current_ids ids) d s;
          (h, s2) = (if historic_ids ids \<noteq> [] then select_historical_ways (historic_ids ids) d s1 else (0, s1))
      in if n + h \<noteq> int (length ids) then Inl (not_found ''One or more of the ways were not found.'') else Inr s2)"

definition relations_responder :: "id_version list \<Rightarrow> osm_db \<Rightarrow> selection \<Rightarrow> selection result" where
  "relations_responder ids d s =
     (let (n, s1) = select_relations (current_ids ids) d s;
          (h, s2) = (if historic_ids ids \<noteq> [] then select_historical_relations (historic_ids ids) d s1 else (0, s1))
      in if n + h \<noteq> int (length ids) then Inl (not_found ''One or more of the relations were not found.'') else Inr s2)"

section \<open>Changesets and the map\<close>

definition changeset_responder :: "int \<Rightarrow> bool \<Rightarrow> osm_db \<Rightarrow> selection \<Rightarrow> selection result" where
  "changeset_responder i include_discussion d s =
     (let (n, s1) = select_changesets [i] d s in
      if n = 0 then Inl (missing ''Changeset'' i)
      else Inr (if include_discussion then select_changeset_discussions s1 else s1))"

definition changeset_download_responder :: "int \<Rightarrow> osm_db \<Rightarrow> selection \<Rightarrow> selection result" where
  "changeset_download_responder i d s =
     (let (n, s1) = select_changesets [i] d s in
      if n = 0 then Inl (missing ''Changeset'' i) else Inr (snd (select_historical_by_changesets [i] d s1)))"

definition too_many_nodes :: "int \<Rightarrow> exn" where
  "too_many_nodes max_nodes = bad_request
     (''You requested too many nodes (limit is '' @ fmt_d max_nodes @ ''). Either request a smaller area, or use planet.osm'')"

definition map_responder :: "int \<Rightarrow> bbox \<Rightarrow> osm_db \<Rightarrow> selection \<Rightarrow> selection result" where
  "map_responder max_nodes b d s =
     (let (n, s1) = select_nodes_from_bbox b max_nodes d s in
      if n > max_nodes then Inl (too_many_nodes max_nodes)
      else if n > 0 then
        let s2 = select_ways_from_nodes d s1;
            s3 = select_nodes_from_way_nodes d s2;
            s4 = select_relations_from_ways d s3;
            s5 = select_relations_from_nodes d s4
        in Inr (select_relations_from_relations False d s5)
      else Inr s1)"

section \<open>Where the calls come from\<close>

lemma extract_rows_from: "c \<in> set (fst (extract_rows f rows)) \<Longrightarrow> \<exists>r\<in>set rows. f r = Inr c"
  by (induction rows) (auto split: sum.splits prod.splits)

lemma write_rows_from:
  assumes "c \<in> set (fst (fst (write_rows f rows d s)))" shows "\<exists>cache. \<exists>r\<in>set rows. f cache r = Inr c"
  using assms by (auto simp: write_rows_def split: sum.splits dest!: extract_rows_from)

lemma write_row_info:
  "write_node_row cache row = Inr c \<Longrightarrow> call_info c = Some (et_node, extract_elem cache row)"
  "write_way_row cache wrow = Inr c \<Longrightarrow> call_info c = Some (et_way, extract_elem cache wrow)"
  "write_relation_row cache rrow = Inr c \<Longrightarrow> call_info c = Some (et_relation, extract_elem cache rrow)"
  by (auto simp: write_node_row_def write_way_row_def write_relation_row_def result_simps)

lemma written_calls_info:
  "c \<in> set (fst (fst (write_nodes p d s))) \<Longrightarrow> call_info c \<noteq> None"
  "c \<in> set (fst (fst (write_ways p d s))) \<Longrightarrow> call_info c \<noteq> None"
  "c \<in> set (fst (fst (write_relations p d s))) \<Longrightarrow> call_info c \<noteq> None"
  by (auto simp: write_nodes_def write_ways_def write_relations_def Let_def split: if_splits dest!: write_rows_from write_row_info)

lemma write_elements_info:
  assumes "c \<in> set (fst (write_elements p d s))" shows "call_info c \<noteq> None"
proof -
  obtain ns e1 s1 ws e2 s2 rs e3 s3 where w: "write_nodes p d s = ((ns, e1), s1)" "write_ways p d s1 = ((ws, e2), s2)"
    "write_relations p d s2 = ((rs, e3), s3)" by (metis surj_pair)
  then have "c \<in> set ns \<or> c \<in> set ws \<or> c \<in> set rs" using assms by (auto simp: write_elements_def split: if_splits)
  then show ?thesis
    using written_calls_info(1) [of c p d s] written_calls_info(2) [of c p d s1] written_calls_info(3) [of c p d s2] w by auto
qed

end
