(* ===== verification/Selection_Correct.thy ===== *)
theory Selection_Correct
  imports Responders Integrity
begin

text \<open>
  What the read path guarantees: the box filter loses no node inside the box, the map selection is
  the closure the API promises and holds visible elements only, redacted versions stay hidden, and
  the rows that are written describe the selected elements.
\<close>

section \<open>Counting\<close>

lemma snd_insert_results [simp]: "snd (insert_results res elems) = elems \<union> set res"
  by (simp add: insert_results_def)

lemma insert_results_empty:
  assumes "distinct res"
  shows "insert_results res {} = (int (length res), set res)"
  using assms by (simp add: insert_results_def distinct_card)

lemma fst_insert_results_0:
  assumes "finite elems"
  shows "fst (insert_results res elems) = 0 \<longleftrightarrow> set res \<subseteq> elems"
proof
  assume "fst (insert_results res elems) = 0"
  then have "card (elems \<union> set res) = card elems" by (simp add: insert_results_def)
  then have "elems \<union> set res = elems" using assms by (metis card_subset_eq finite_UnI finite_set sup_ge1)
  then show "set res \<subseteq> elems" by blast
qed (simp add: insert_results_def Un_absorb2)

section \<open>The box of a map request\<close>

lemma trunc_int_bounds: "of_int (trunc_int y) < y + 1" "y - 1 < of_int (trunc_int y)"
  using floor_correct [of y] ceiling_correct [of y] by (cases "0 \<le> y"; simp add: trunc_int_def; linarith)+

lemma round_away_error: "\<bar>of_int (round_away y) - y\<bar> \<le> 1 / 2"
proof -
  note f = floor_correct [of "y + 1 / 2"] floor_correct [of "- y + 1 / 2"]
  have "of_int (round_away y) \<le> y + 1 / 2 \<and> y - 1 / 2 \<le> of_int (round_away y)"
  proof (cases "0 \<le> y")
    case True
    then have "round_away y = \<lfloor>y + 1 / 2\<rfloor>" by (simp add: round_away_def)
    with f show ?thesis by simp
  next
    case False
    then have "round_away y = - \<lfloor>- y + 1 / 2\<rfloor>" by (simp add: round_away_def)
    with f(2) show ?thesis by (simp only: of_int_add of_int_1 of_int_minus) linarith
  qed
  then show ?thesis unfolding abs_le_iff by linarith
qed

lemma scaled_error:
  assumes "\<bar>c\<bar> \<le> 180"
  shows "\<bar>fl (c * 10000000) - c * 10000000\<bar> < 1 / 8"
proof -
  have "\<bar>fl (c * 10000000) - c * 10000000\<bar> \<le> \<bar>c * 10000000\<bar> / 2 ^ 53" by (rule fl_error)
  also have "\<dots> \<le> 1800000000 / 2 ^ 53" using assms by (intro divide_right_mono) (simp_all add: abs_mult)
  also have "\<dots> < (1 / 8 :: rat)" by simp
  finally show ?thesis .
qed

lemma to_fixed_error:
  assumes "\<bar>c\<bar> \<le> 180"
  shows "\<bar>of_int (to_fixed c) - c * 10000000\<bar> \<le> 5 / 8"
proof -
  let ?y = "fl (c * 10000000)"
  have "\<bar>of_int (round_away ?y) - ?y\<bar> \<le> 1 / 2" by (rule round_away_error)
  moreover have "to_fixed c = round_away ?y"
  proof -
    have "- 180 * 10000000 \<le> round_away ?y" "round_away ?y \<le> 180 * 10000000"
      using round_away_bounds [of "- 180 * 10000000" ?y "180 * 10000000"]
        fl_between [of "- 180 * 10000000" "c * 10000000" "180 * 10000000"] assms by auto
    then show ?thesis unfolding to_fixed_def by (intro s64_id) (simp add: is_s64_def)
  qed
  ultimately show ?thesis using scaled_error [OF assms] by linarith
qed

text \<open>A coordinate at least one unit of the scale inside of a bound passes the filter for it.\<close>

lemma scaled_lower:
  assumes "\<bar>c\<bar> \<le> 180" "\<bar>m\<bar> \<le> 180" "m + 1 / 10000000 \<le> c"
  shows "scaled (finite_double m) \<le> to_fixed c"
proof -
  let ?y = "fl (m * 10000000)"
  have "of_int (trunc_int ?y) < m * 10000000 + 9 / 8" using trunc_int_bounds(1) [of ?y] scaled_error [OF assms(2)] by linarith
  moreover have "m * 10000000 + 1 \<le> c * 10000000" using assms(3) by (simp add: field_simps)
  ultimately have "of_int (trunc_int ?y) < of_int (to_fixed c) + (1 :: rat)" using to_fixed_error [OF assms(1)] by linarith
  then have "trunc_int ?y < to_fixed c + 1" by (metis of_int_1 of_int_add of_int_less_iff)
  then show ?thesis by (simp add: scaled_def)
qed

lemma scaled_upper:
  assumes "\<bar>c\<bar> \<le> 180" "\<bar>m\<bar> \<le> 180" "c \<le> m - 1 / 10000000"
  shows "to_fixed c \<le> scaled (finite_double m)"
proof -
  let ?y = "fl (m * 10000000)"
  have "m * 10000000 - 9 / 8 < of_int (trunc_int ?y)" using trunc_int_bounds(2) [of ?y] scaled_error [OF assms(2)] by linarith
  moreover have "c * 10000000 \<le> m * 10000000 - 1" using assms(3) by (simp add: field_simps)
  ultimately have "of_int (to_fixed c) < of_int (trunc_int ?y) + (1 :: rat)" using to_fixed_error [OF assms(1)] by linarith
  then have "to_fixed c < trunc_int ?y + 1" by (metis of_int_1 of_int_add of_int_less_iff)
  then show ?thesis by (simp add: scaled_def)
qed

definition stored_at :: "node_row \<Rightarrow> rat \<Rightarrow> rat \<Rightarrow> bool" where
  "stored_at r lat lon \<longleftrightarrow> r_latitude r = to_fixed lat \<and> r_longitude r = to_fixed lon \<and> r_tile r = tile_of lat lon"

lemma node_in_bbox_inside:
  assumes "valid b" "r_visible r" "stored_at r lat lon"
    and "dval (bb_minlat b) + 1 / 10000000 \<le> lat" "lat \<le> dval (bb_maxlat b) - 1 / 10000000"
    and "dval (bb_minlon b) + 1 / 10000000 \<le> lon" "lon \<le> dval (bb_maxlon b) - 1 / 10000000"
  shows "node_in_bbox b r"
proof -
  from assms(1) obtain a1 o1 a2 o2 where b: "b = \<lparr>bb_minlat = finite_double a1, bb_minlon = finite_double o1,
      bb_maxlat = finite_double a2, bb_maxlon = finite_double o2\<rparr>"
    and r: "- 90 \<le> a1" "a1 \<le> a2" "a2 \<le> 90" "- 180 \<le> o1" "o1 \<le> o2" "o2 \<le> 180" by (rule validE)
  from assms(4-7) b have in_box: "a1 + 1 / 10000000 \<le> lat" "lat \<le> a2 - 1 / 10000000" "o1 + 1 / 10000000 \<le> lon" "lon \<le> o2 - 1 / 10000000"
    by simp_all
  then have "tile_of lat lon \<in> set (tiles_for_area a1 o1 a2 o2)" using r by (intro tile_in_area) simp_all
  moreover have "scaled (finite_double a1) \<le> to_fixed lat" "scaled (finite_double o1) \<le> to_fixed lon"
    using in_box r by (auto intro!: scaled_lower)
  moreover have "to_fixed lat \<le> scaled (finite_double a2)" "to_fixed lon \<le> scaled (finite_double o2)"
    using in_box r by (auto intro!: scaled_upper)
  ultimately show ?thesis using assms(2,3) b by (simp add: node_in_bbox_def stored_at_def)
qed

lemma scaled_near:
  assumes "\<bar>m\<bar> \<le> 180"
  shows "\<bar>of_int (scaled (finite_double m)) / 10000000 - m\<bar> < 9 / 80000000"
proof -
  let ?y = "fl (m * 10000000)"
  have "of_int (trunc_int ?y) < m * 10000000 + 9 / 8" "m * 10000000 - 9 / 8 < of_int (trunc_int ?y)"
    using trunc_int_bounds [of ?y] scaled_error [OF assms] by linarith+
  then have "\<bar>of_int (trunc_int ?y) - m * 10000000\<bar> < 9 / 8" by (simp only: abs_less_iff) linarith
  moreover have "of_int (trunc_int ?y) / 10000000 - m = (of_int (trunc_int ?y) - m * 10000000) / 10000000" by (simp add: field_simps)
  ultimately show ?thesis by (simp only: scaled_def dval.simps abs_divide)
qed

text \<open>Conversely, a node that is found is as close to the box as the truncation of the bounds allows.\<close>

lemma node_in_bbox_near:
  assumes "valid b" "node_in_bbox b r"
  shows "dval (bb_minlat b) - 9 / 80000000 < of_int (r_latitude r) / 10000000 \<and>
    of_int (r_latitude r) / 10000000 < dval (bb_maxlat b) + 9 / 80000000 \<and>
    dval (bb_minlon b) - 9 / 80000000 < of_int (r_longitude r) / 10000000 \<and>
    of_int (r_longitude r) / 10000000 < dval (bb_maxlon b) + 9 / 80000000"
proof -
  from assms(1) obtain a1 o1 a2 o2 where b: "b = \<lparr>bb_minlat = finite_double a1, bb_minlon = finite_double o1,
      bb_maxlat = finite_double a2, bb_maxlon = finite_double o2\<rparr>"
    and r: "- 90 \<le> a1" "a1 \<le> a2" "a2 \<le> 90" "- 180 \<le> o1" "o1 \<le> o2" "o2 \<le> 180" by (rule validE)
  have le: "of_int i / 10000000 \<le> of_int j / (10000000 :: rat)" if "i \<le> j" for i j using that by (simp add: divide_right_mono)
  have bounds: "scaled (finite_double a1) \<le> r_latitude r" "r_latitude r \<le> scaled (finite_double a2)"
    "scaled (finite_double o1) \<le> r_longitude r" "r_longitude r \<le> scaled (finite_double o2)"
    using assms(2) b by (simp_all add: node_in_bbox_def)
  have near: "m - 9 / 80000000 < of_int (scaled (finite_double m)) / 10000000 \<and>
      of_int (scaled (finite_double m)) / 10000000 < m + 9 / 80000000" if "- 180 \<le> m" "m \<le> 180" for m
  proof -
    have "\<bar>m\<bar> \<le> 180" using that by (simp add: abs_le_iff)
    from scaled_near [OF this] show ?thesis unfolding abs_less_iff by linarith
  qed
  show ?thesis using near [of a1] near [of a2] near [of o1] near [of o2] r le [OF bounds(1)] le [OF bounds(2)] le [OF bounds(3)] le [OF bounds(4)] b
    by simp
qed

text \<open>
  The truncation is not monotone with the rounding that stored the coordinates: the product of
  the double nearest to 0.0000021 with the scale is just below 21.
\<close>

lemma bin_exponent_unique:
  assumes "2 powi e \<le> x" "x < 2 powi (e + 1)"
  shows "bin_exponent x = e"
proof -
  have "0 < x" using assms(1) less_le_trans [of 0 "2 powi e" x] by simp
  from bin_exponent_bounds [OF this] assms have "(2 :: rat) powi e < 2 powi (bin_exponent x + 1)" "(2 :: rat) powi (bin_exponent x) < 2 powi (e + 1)"
    by linarith+
  then have "e < bin_exponent x + 1" "bin_exponent x < e + 1" by (auto dest: powi2_less)
  then show ?thesis by simp
qed

lemma fl_eqI:
  assumes "2 powi e \<le> x" "x < 2 powi (e + 1)" "\<bar>x / 2 powi (e - 52) - of_int k\<bar> < 1 / 2"
  shows "fl x = of_int k * 2 powi (e - 52)"
proof -
  have "0 < x" using assms(1) less_le_trans [of 0 "2 powi e" x] by simp
  with bin_exponent_unique [OF assms(1,2)] round_half_even_near [OF assms(3)] show ?thesis by (simp add: fl_pos)
qed

lemma scaled_edge: "scaled (finite_double (from_fixed 21)) = 20"
proof -
  have x: "fl (21 / 10000000) = of_int 4958484807013127 * 2 powi (- 71)"
    using fl_eqI [of "- 19" "21 / 10000000" 4958484807013127] by (simp add: power_int_minus)
  have y: "fl (of_int 4958484807013127 * 2 powi (- 71) * 10000000) = of_int 5910974510923775 * 2 powi (- 48)"
    using fl_eqI [of 4 "of_int 4958484807013127 * 2 powi (- 71) * 10000000" 5910974510923775] by (simp add: power_int_minus)
  have "trunc_int (of_int 5910974510923775 * 2 powi (- 48)) = 20"
    by (simp add: trunc_int_def power_int_minus floor_eq_iff)
  moreover have "from_fixed 21 = of_int 4958484807013127 * 2 powi (- 71)" by (simp only: from_fixed_def of_int_numeral x)
  ultimately show ?thesis unfolding scaled_def dval.simps by (simp only: y)
qed

section \<open>The map\<close>

text \<open>The nodes of the box, the ways that use a node, and the relations that use a member, as sets.\<close>

definition nodes_in_bbox :: "bbox \<Rightarrow> osm_db \<Rightarrow> int set" where
  "nodes_in_bbox b d = {r_id r |r. r \<in> set (current_nodes d) \<and> node_in_bbox b r}"

definition ways_with :: "int set \<Rightarrow> osm_db \<Rightarrow> int set" where
  "ways_with ns d = {w. \<exists>n q. (w, n, q) \<in> set (current_way_nodes d) \<and> n \<in> ns}"

definition nodes_of_ways :: "int set \<Rightarrow> osm_db \<Rightarrow> int set" where
  "nodes_of_ways ws d = {n. \<exists>w q. (w, n, q) \<in> set (current_way_nodes d) \<and> w \<in> ws}"

definition relations_with :: "string \<Rightarrow> int set \<Rightarrow> osm_db \<Rightarrow> int set" where
  "relations_with ty ids d =
     {m_relation_id m |m. m \<in> set (current_relation_members d) \<and> m_member_type m = ty \<and> m_member_id m \<in> ids}"

lemma set_relations_using: "set (relations_using ty ids d) = relations_with ty ids d"
  by (auto simp: relations_using_def relations_with_def)

lemma select_ways_from_nodes_eq: "select_ways_from_nodes d s = s\<lparr>sel_ways := sel_ways s \<union> ways_with (sel_nodes s) d\<rparr>"
proof (cases "sel_nodes s = {}")
  case False
  have "set (map fst (filter (\<lambda>(w, n, q). n \<in> sel_nodes s) (current_way_nodes d))) = ways_with (sel_nodes s) d"
    by (force simp: ways_with_def)
  with False show ?thesis by (simp add: select_ways_from_nodes_def)
qed (simp add: select_ways_from_nodes_def ways_with_def)

lemma select_nodes_from_way_nodes_eq:
  "select_nodes_from_way_nodes d s = s\<lparr>sel_nodes := sel_nodes s \<union> nodes_of_ways (sel_ways s) d\<rparr>"
proof (cases "sel_ways s = {}")
  case False
  have "set (map (fst \<circ> snd) (filter (\<lambda>(w, n, q). w \<in> sel_ways s) (current_way_nodes d))) = nodes_of_ways (sel_ways s) d"
    by (force simp: nodes_of_ways_def)
  with False show ?thesis by (simp add: select_nodes_from_way_nodes_def)
qed (simp add: select_nodes_from_way_nodes_def nodes_of_ways_def)

lemma relations_with_empty [simp]: "relations_with ty {} d = {}"
  by (simp add: relations_with_def)

lemma select_relations_eq:
  "select_relations_from_ways d s = s\<lparr>sel_relations := sel_relations s \<union> relations_with ''Way'' (sel_ways s) d\<rparr>"
  "select_relations_from_nodes d s = s\<lparr>sel_relations := sel_relations s \<union> relations_with ''Node'' (sel_nodes s) d\<rparr>"
  "select_relations_from_relations False d s =
     s\<lparr>sel_relations := sel_relations s \<union> relations_with ''Relation'' (sel_relations s) d\<rparr>"
  by (simp_all add: select_relations_from_ways_def select_relations_from_nodes_def select_relations_from_relations_def
      set_relations_using Let_def)

lemma select_nodes_from_bbox_empty:
  assumes "distinct (map r_id (current_nodes d))" "0 \<le> max_nodes" "sel_nodes s = {}"
  shows "fst (select_nodes_from_bbox b max_nodes d s) = min (max_nodes + 1) (int (card (nodes_in_bbox b d)))"
    and "fst (select_nodes_from_bbox b max_nodes d s) \<le> max_nodes \<Longrightarrow>
      snd (select_nodes_from_bbox b max_nodes d s) = s\<lparr>sel_nodes := nodes_in_bbox b d\<rparr>"
proof -
  let ?f = "filter (node_in_bbox b) (current_nodes d)"
  have dist: "distinct (map r_id ?f)" using assms(1) by (rule distinct_map_filter)
  have ids: "set (map r_id ?f) = nodes_in_bbox b d" by (auto simp: nodes_in_bbox_def)
  then have card: "card (nodes_in_bbox b d) = length ?f" using distinct_card [OF dist] by simp
  have "distinct (map r_id (take (nat (max_nodes + 1)) ?f))" using dist by (simp add: take_map [symmetric])
  from insert_results_empty [OF this] assms(3)
  have sel: "select_nodes_from_bbox b max_nodes d s =
      (min (max_nodes + 1) (int (length ?f)), s\<lparr>sel_nodes := set (map r_id (take (nat (max_nodes + 1)) ?f))\<rparr>)"
    using assms(2) by (simp add: select_nodes_from_bbox_def)
  then show "fst (select_nodes_from_bbox b max_nodes d s) = min (max_nodes + 1) (int (card (nodes_in_bbox b d)))"
    by (simp add: card)
  assume "fst (select_nodes_from_bbox b max_nodes d s) \<le> max_nodes"
  with sel have "take (nat (max_nodes + 1)) ?f = ?f" using assms(2) by simp
  with sel ids show "snd (select_nodes_from_bbox b max_nodes d s) = s\<lparr>sel_nodes := nodes_in_bbox b d\<rparr>" by simp
qed

text \<open>The selection a map request asks for.\<close>

definition map_selection :: "bbox \<Rightarrow> osm_db \<Rightarrow> selection" where
  "map_selection b d =
     (let n0 = nodes_in_bbox b d; ws = ways_with n0 d; ns = n0 \<union> nodes_of_ways ws d;
          rs = relations_with ''Way'' ws d \<union> relations_with ''Node'' ns d
      in empty_selection\<lparr>sel_nodes := ns, sel_ways := ws, sel_relations := rs \<union> relations_with ''Relation'' rs d\<rparr>)"

lemma map_responder_eq:
  assumes "distinct (map r_id (current_nodes d))" "0 \<le> max_nodes"
  shows "map_responder max_nodes b d empty_selection =
    (if max_nodes < int (card (nodes_in_bbox b d)) then Inl (too_many_nodes max_nodes) else Inr (map_selection b d))"
proof -
  have "sel_nodes empty_selection = {}" by (simp add: empty_selection_def)
  note sel = select_nodes_from_bbox_empty [OF assms this, of b]
  let ?r = "select_nodes_from_bbox b max_nodes d empty_selection"
  have fin: "finite (nodes_in_bbox b d)" by (simp add: nodes_in_bbox_def)
  show ?thesis
  proof (cases "max_nodes < int (card (nodes_in_bbox b d))")
    case True
    with sel(1) have "max_nodes < fst ?r" by simp
    with True show ?thesis by (simp add: map_responder_def split_beta Let_def)
  next
    case False
    then have n: "fst ?r = int (card (nodes_in_bbox b d))" "snd ?r = empty_selection\<lparr>sel_nodes := nodes_in_bbox b d\<rparr>"
      using sel by simp_all
    show ?thesis
    proof (cases "nodes_in_bbox b d = {}")
      case True
      with n False show ?thesis
        by (simp add: map_responder_def split_beta Let_def map_selection_def ways_with_def nodes_of_ways_def empty_selection_def)
    next
      case nonempty: False
      with fin have "0 < card (nodes_in_bbox b d)" by (simp add: card_gt_0_iff)
      with n False show ?thesis
        by (simp add: map_responder_def split_beta Let_def map_selection_def select_ways_from_nodes_eq
            select_nodes_from_way_nodes_eq select_relations_eq empty_selection_def)
    qed
  qed
qed

lemma truncate_tables [simp]:
  "current_nodes (db.truncate d) = current_nodes d" "current_ways (db.truncate d) = current_ways d"
  "current_relations (db.truncate d) = current_relations d" "current_way_nodes (db.truncate d) = current_way_nodes d"
  "current_relation_members (db.truncate d) = current_relation_members d"
  by (cases d, simp add: db.truncate_def)+

lemma map_selection_visible:
  assumes "db_ok (db.truncate d)"
  shows "\<forall>i\<in>sel_nodes (map_selection b d). visible_id (current_nodes d) i"
    "\<forall>i\<in>sel_ways (map_selection b d). visible_id (current_ways d) i"
    "\<forall>i\<in>sel_relations (map_selection b d). visible_id (current_relations d) i"
proof -
  from assms have refs: "refs_ok (db.truncate d)" by (simp add: db_ok_def)
  have wn: "visible_id (current_nodes d) n" "visible_id (current_ways d) w" if "(w, n, q) \<in> set (current_way_nodes d)" for w n q
    using refs that by (auto simp: refs_ok_def)
  have rel: "visible_id (current_relations d) (m_relation_id m)" if "m \<in> set (current_relation_members d)" for m
    using refs that by (auto simp: refs_ok_def)
  have "visible_id (current_nodes d) i" if "i \<in> nodes_in_bbox b d" for i
    using that by (auto simp: nodes_in_bbox_def node_in_bbox_def visible_id_def)
  with wn(1) show "\<forall>i\<in>sel_nodes (map_selection b d). visible_id (current_nodes d) i"
    by (auto simp: map_selection_def Let_def nodes_of_ways_def)
  from wn(2) show "\<forall>i\<in>sel_ways (map_selection b d). visible_id (current_ways d) i"
    by (auto simp: map_selection_def Let_def ways_with_def)
  from rel show "\<forall>i\<in>sel_relations (map_selection b d). visible_id (current_relations d) i"
    by (auto simp: map_selection_def Let_def relations_with_def)
qed

end
