(* ===== verification/Written.thy ===== *)
theory Written
  imports Selection_Correct
begin

text \<open>
  From a selection to the calls of a formatter: the details of the users who made the changes, and
  the rows of nodes, ways and relations in ascending order of their ids.
\<close>

section \<open>User details\<close>

text \<open>The user a changeset belongs to, and what may be shown of them.\<close>

definition user_of :: "osm_db \<Rightarrow> int \<Rightarrow> user_row option" where
  "user_of d i =
     (case find (\<lambda>c. c_id c = i) (changesets d) of
        None \<Rightarrow> None
      | Some c \<Rightarrow> find (\<lambda>u. u_id u = c_user_id c) (users_tbl d))"

definition shown_user :: "user_row option \<Rightarrow> int option \<times> string option" where
  "shown_user u =
     (case u of
        None \<Rightarrow> (None, None)
      | Some u \<Rightarrow> if 0 < u_id u \<and> u_data_public u then (Some (u_id u), Some (u_display_name u)) else (None, None))"

definition entry_of :: "user_row \<Rightarrow> changeset" where
  "entry_of u =
     (if u_id u \<le> 0 then \<lparr>data_public = False, display_name = [], cs_user_id = 0\<rparr>
      else \<lparr>data_public = u_data_public u, display_name = u_display_name u, cs_user_id = u_id u\<rparr>)"

definition keys_ok :: "osm_db \<Rightarrow> bool" where
  "keys_ok d \<longleftrightarrow> distinct (map c_id (changesets d)) \<and> distinct (map u_id (users_tbl d))"

definition cache_ok :: "osm_db \<Rightarrow> changeset_cache \<Rightarrow> bool" where
  "cache_ok d cache \<longleftrightarrow> (\<forall>i e. cache i = Some e \<longrightarrow> (\<exists>u. user_of d i = Some u \<and> e = entry_of u))"

lemma cache_row_eq: "cache_row (i, u) cache = (if cache i \<noteq> None then Inl (inconsistency i) else Inr (cache(i \<mapsto> entry_of u)))"
  by (auto simp: cache_row_def entry_of_def)

lemma foldE_cache:
  assumes "distinct (map fst rows)" "\<forall>r\<in>set rows. cache (fst r) = None"
  shows "foldE cache_row rows cache = Inr (cache ++ map_of (map (apsnd entry_of) rows))"
  using assms
proof (induction rows arbitrary: cache)
  case (Cons r rows)
  obtain i u where r: "r = (i, u)" by (cases r)
  have "foldE cache_row rows (cache(i \<mapsto> entry_of u)) = Inr (cache(i \<mapsto> entry_of u) ++ map_of (map (apsnd entry_of) rows))"
    using Cons.prems r by (intro Cons.IH) auto
  moreover have "i \<notin> dom (map_of (map (apsnd entry_of) rows))" using Cons.prems r by (force simp: dom_map_of_conv_image_fst)
  then have "cache(i \<mapsto> entry_of u) ++ map_of (map (apsnd entry_of) rows) = (cache ++ map_of (map (apsnd entry_of) rows))(i \<mapsto> entry_of u)"
    by (rule map_add_upd_left)
  ultimately show ?case using Cons.prems r by (simp add: cache_row_eq del: fun_upd_apply)
qed simp

lemma find_distinct:
  assumes "distinct (map key xs)"
  shows "find (\<lambda>x. key x = k) xs = Some x \<longleftrightarrow> x \<in> set xs \<and> key x = k"
  using assms by (induction xs) force+

lemma user_of_iff:
  assumes "keys_ok d"
  shows "user_of d i = Some u \<longleftrightarrow> u \<in> set (users_tbl d) \<and> (\<exists>c\<in>set (changesets d). c_id c = i \<and> c_user_id c = u_id u)"
proof -
  from assms have c: "\<And>c. find (\<lambda>c. c_id c = i) (changesets d) = Some c \<longleftrightarrow> c \<in> set (changesets d) \<and> c_id c = i"
    and u: "\<And>k u. find (\<lambda>u. u_id u = k) (users_tbl d) = Some u \<longleftrightarrow> u \<in> set (users_tbl d) \<and> u_id u = k"
    by (simp_all add: keys_ok_def find_distinct)
  show ?thesis
  proof
    assume "user_of d i = Some u"
    then obtain c where "find (\<lambda>c. c_id c = i) (changesets d) = Some c" "find (\<lambda>u. u_id u = c_user_id c) (users_tbl d) = Some u"
      by (auto simp: user_of_def split: option.splits)
    with c u show "u \<in> set (users_tbl d) \<and> (\<exists>c\<in>set (changesets d). c_id c = i \<and> c_user_id c = u_id u)" by auto
  next
    assume "u \<in> set (users_tbl d) \<and> (\<exists>c\<in>set (changesets d). c_id c = i \<and> c_user_id c = u_id u)"
    then obtain c' where "u \<in> set (users_tbl d)" "c' \<in> set (changesets d)" "c_id c' = i" "c_user_id c' = u_id u" by blast
    with c [of c'] u [of "u_id u" u] show "user_of d i = Some u" by (simp add: user_of_def)
  qed
qed

lemma userdetails_iff:
  assumes "keys_ok d"
  shows "(i, u) \<in> set (userdetails ids d) \<longleftrightarrow> i \<in> set ids \<and> user_of d i = Some u"
  unfolding user_of_iff [OF assms] by (force simp: userdetails_def)

lemma distinct_userdetails:
  assumes "keys_ok d"
  shows "distinct (map fst (userdetails ids d))"
proof -
  let ?cs = "\<lambda>u. map c_id (filter (\<lambda>c. u_id u = c_user_id c \<and> c_id c \<in> set ids) (changesets d))"
  have eq: "map fst (userdetails ids d) = concat (map ?cs (users_tbl d))"
    by (simp add: userdetails_def map_concat comp_def)
  have dist: "distinct (concat (map ?cs us))" if "distinct (map u_id us)" for us
    using that
  proof (induction us)
    case (Cons u us)
    have one: "distinct (?cs u)" using assms by (simp add: keys_ok_def distinct_map_filter)
    have same: "c = c'" if "c \<in> set (changesets d)" "c' \<in> set (changesets d)" "c_id c = c_id c'" for c c'
      using assms that distinct_map_unique [of c_id "changesets d"] by (simp add: keys_ok_def)
    have "i \<notin> set (concat (map ?cs us))" if "i \<in> set (?cs u)" for i
    proof
      assume "i \<in> set (concat (map ?cs us))"
      then obtain u' c' where c': "u' \<in> set us" "c' \<in> set (changesets d)" "c_id c' = i" "u_id u' = c_user_id c'" by auto
      from that obtain c where "c \<in> set (changesets d)" "c_id c = i" "u_id u = c_user_id c" by auto
      with same c' have "u_id u = u_id u'" by metis
      with Cons.prems c'(1) show False by simp
    qed
    then have "set (?cs u) \<inter> set (concat (map ?cs us)) = {}" by blast
    with one Cons show ?case by simp
  qed simp
  show ?thesis unfolding eq by (rule dist) (use assms in \<open>simp add: keys_ok_def\<close>)
qed

lemma fetch_changesets_ok:
  assumes "keys_ok d" "cache_ok d cache" "finite ids" "\<forall>i\<in>ids. user_of d i \<noteq> None"
  shows "\<exists>cache'. fetch_changesets ids d cache = Inr cache' \<and> cache_ok d cache' \<and> (\<forall>i\<in>ids. cache' i \<noteq> None)"
proof -
  let ?new = "filter (\<lambda>i. cache i = None) (sorted_list_of_set ids)"
  show ?thesis
  proof (cases "?new = []")
    case True
    with assms show ?thesis by (auto simp: fetch_changesets_def filter_empty_conv)
  next
    case False
    let ?m = "map_of (map (apsnd entry_of) (userdetails ?new d))"
    let ?c = "cache ++ ?m"
    have fold: "foldE cache_row (userdetails ?new d) cache = Inr ?c"
      by (rule foldE_cache [OF distinct_userdetails [OF assms(1)]]) (auto simp: userdetails_iff [OF assms(1)])
    have known: "?m i = Some e \<Longrightarrow> \<exists>u. user_of d i = Some u \<and> e = entry_of u" for i e
      by (drule map_of_SomeD) (auto simp: userdetails_iff [OF assms(1)])
    have found: "?m i \<noteq> None" if i: "i \<in> set ?new" for i
    proof -
      from i assms(3,4) obtain u where "user_of d i = Some u" by auto
      with i have "(i, u) \<in> set (userdetails ?new d)" unfolding userdetails_iff [OF assms(1)] by blast
      then have "i \<in> fst ` set (map (apsnd entry_of) (userdetails ?new d))" by force
      then show ?thesis by (simp only: map_of_eq_None_iff not_not)
    qed
    have "find (\<lambda>i. ?c i = None) ?new = None" using found by (auto simp: find_None_iff)
    with fold False have "fetch_changesets ids d cache = Inr ?c" by (simp add: fetch_changesets_def Let_def)
    moreover have "cache_ok d ?c" using assms(2) known by (auto simp: cache_ok_def map_add_Some_iff)
    moreover have "\<forall>i\<in>ids. ?c i \<noteq> None" using found assms(3) by auto
    ultimately show ?thesis by blast
  qed
qed

lemma user_details_shown:
  assumes "cache_ok d cache" "cache i \<noteq> None"
  shows "user_details (cached cache i) = shown_user (user_of d i)"
proof -
  from assms(2) obtain e where e: "cache i = Some e" by blast
  with assms(1) obtain u where "user_of d i = Some u" "e = entry_of u" unfolding cache_ok_def by blast
  with e show ?thesis by (simp add: user_details_def cached_def shown_user_def entry_of_def)
qed

section \<open>What is written\<close>

definition info_of :: "pg \<Rightarrow> osm_db \<Rightarrow> 'a elem_row_scheme \<Rightarrow> element_info" where
  "info_of p d r =
     \<lparr>ei_id = r_id r, ei_version = r_version r, ei_changeset = r_changeset_id r, ei_timestamp = pg_to_char p (r_timestamp r),
      ei_uid = fst (shown_user (user_of d (r_changeset_id r))), ei_display_name = snd (shown_user (user_of d (r_changeset_id r))),
      ei_visible = r_visible r, ei_redaction = None\<rparr>"

lemma extract_rows_map:
  assumes "\<forall>r\<in>set rows. f r = Inr (g r)"
  shows "extract_rows f rows = (map g rows, None)"
  using assms by (induction rows) auto

lemma extract_rows_comp: "extract_rows f (map row rs) = extract_rows (f \<circ> row) rs"
  by (induction rs) (simp_all split: sum.splits prod.splits)

lemma write_rows_ok:
  assumes "keys_ok d" "cache_ok d (cc s)" "\<forall>r\<in>set rs. user_of d (r_changeset_id r) \<noteq> None"
    and "\<And>r. col_changeset (row r) = r_changeset_id r"
    and "\<And>r cache. r \<in> set rs \<Longrightarrow> cache_ok d cache \<Longrightarrow> cache (r_changeset_id r) \<noteq> None \<Longrightarrow> f cache (row r) = Inr (g r)"
  shows "\<exists>cache. write_rows f (map row rs) d s = ((map g rs, None), s\<lparr>cc := cache\<rparr>) \<and> cache_ok d cache"
proof -
  have cols: "set (map col_changeset (map row rs)) = r_changeset_id ` set rs" using assms(4) by (simp add: comp_def)
  with fetch_changesets_ok [OF assms(1,2), of "r_changeset_id ` set rs"] assms(3)
  obtain cache where c: "fetch_changesets (set (map col_changeset (map row rs))) d (cc s) = Inr cache" "cache_ok d cache"
    "\<forall>i\<in>r_changeset_id ` set rs. cache i \<noteq> None" by (auto simp del: set_map)
  have "extract_rows (f cache) (map row rs) = (map g rs, None)"
    using extract_rows_map [of rs "f cache \<circ> row" g] assms(5) c(2,3) by (simp add: extract_rows_comp)
  with c show ?thesis by (auto simp: write_rows_def)
qed

definition way_node_ids :: "osm_db \<Rightarrow> int \<Rightarrow> int list" where
  "way_node_ids d w = map (fst \<circ> snd) (sort_key (snd \<circ> snd) (filter (\<lambda>wn. fst wn = w) (current_way_nodes d)))"

definition member_of :: "'a member_row_scheme \<Rightarrow> member_info" where
  "member_of m =
     \<lparr>mi_type = (if m_member_type m = ''Node'' then et_node else if m_member_type m = ''Way'' then et_way else et_relation),
      mi_ref = m_member_id m, mi_role = m_member_role m\<rparr>"

definition relation_member_infos :: "osm_db \<Rightarrow> int \<Rightarrow> member_info list" where
  "relation_member_infos d i = map member_of (sort_key m_sequence_id (filter (\<lambda>m. m_relation_id m = i) (current_relation_members d)))"

definition node_call :: "pg \<Rightarrow> osm_db \<Rightarrow> node_row \<Rightarrow> fmt_call" where
  "node_call p d r =
     write_node (info_of p d r) (from_fixed (r_longitude r)) (from_fixed (r_latitude r)) (current_tags p (r_id r) (current_node_tags d))"

definition way_call :: "pg \<Rightarrow> osm_db \<Rightarrow> way_row \<Rightarrow> fmt_call" where
  "way_call p d r = write_way (info_of p d r) (way_node_ids d (r_id r)) (current_tags p (r_id r) (current_way_tags d))"

definition relation_call :: "pg \<Rightarrow> osm_db \<Rightarrow> relation_row \<Rightarrow> fmt_call" where
  "relation_call p d r =
     write_relation (info_of p d r) (relation_member_infos d (r_id r)) (current_tags p (r_id r) (current_relation_tags d))"

definition selected_rows :: "int set \<Rightarrow> 'a elem_row_scheme list \<Rightarrow> 'a elem_row_scheme list" where
  "selected_rows sel rows = sort_key r_id (filter (\<lambda>r. r_id r \<in> sel) rows)"

text \<open>What PostgreSQL and the constraints of the schema provide for reading a row back.\<close>

definition readable :: "pg \<Rightarrow> osm_db \<Rightarrow> bool" where
  "readable p d \<longleftrightarrow> quotes_enough (pg_quotes p) \<and> keys_ok d \<and>
     list_all (\<lambda>wn. is_u64 (fst (snd wn))) (current_way_nodes d) \<and>
     list_all (\<lambda>m. is_u64 (m_member_id m) \<and> m_member_type m \<in> {''Node'', ''Way'', ''Relation''}) (current_relation_members d)"

lemma info_of_cached:
  assumes "cache_ok d cache" "cache (r_changeset_id r) \<noteq> None"
    and "col_id row = r_id r" "col_version row = r_version r" "col_timestamp row = pg_to_char p (r_timestamp r)"
    and "col_changeset row = r_changeset_id r" "col_visible row = r_visible r"
  shows "extract_elem cache row = info_of p d r"
  using assms(3-7) user_details_shown [OF assms(1,2)] by (simp add: extract_elem_def info_of_def split_beta)

lemma write_node_row_ok:
  assumes "readable p d" "cache_ok d cache" "cache (r_changeset_id r) \<noteq> None"
  shows "write_node_row cache (node_query_row p (current_tags p (r_id r) (current_node_tags d)) r) = Inr (node_call p d r)"
proof -
  let ?row = "node_query_row p (current_tags p (r_id r) (current_node_tags d)) r"
  have "extract_elem cache ?row = info_of p d r" by (rule info_of_cached [OF assms(2,3)]) (simp_all add: node_query_row_def)
  with assms(1) show ?thesis
    by (simp add: write_node_row_def node_call_def node_query_row_def readable_def extract_tags_read)
qed

lemma write_way_row_ok:
  assumes "readable p d" "cache_ok d cache" "cache (r_changeset_id r) \<noteq> None"
  shows "write_way_row cache (way_query_row p (current_tags p (r_id r) (current_way_tags d)) (way_node_ids d (r_id r)) r)
    = Inr (way_call p d r)"
proof -
  let ?row = "way_query_row p (current_tags p (r_id r) (current_way_tags d)) (way_node_ids d (r_id r)) r"
  have "extract_elem cache ?row = info_of p d r" by (rule info_of_cached [OF assms(2,3)]) (simp_all add: way_query_row_def)
  moreover have "extract_way_nodes (agg_ids (way_node_ids d (r_id r))) = Inr (way_node_ids d (r_id r))"
    unfolding extract_way_nodes_def using assms(1) by (intro agg_ids_read) (auto simp: readable_def way_node_ids_def list_all_iff)
  ultimately show ?thesis using assms(1)
    by (simp add: write_way_row_def way_call_def way_query_row_def readable_def extract_tags_read)
qed

lemma extract_members_rows:
  assumes "quotes_enough q" "\<forall>m\<in>set ms. is_u64 (m_member_id m) \<and> m_member_type m \<in> {''Node'', ''Way'', ''Relation''}"
  shows "extract_members (agg_text q False (map m_member_type ms)) (agg_ids (map m_member_id ms)) (agg_text q False (map m_member_role ms))
    = Inr (map member_of ms)"
proof -
  have types: "map (type_name \<circ> mi_type) (map member_of ms) = map m_member_type ms" using assms(2) by (auto simp: member_of_def)
  have refs: "map mi_ref (map member_of ms) = map m_member_id ms" "map mi_role (map member_of ms) = map m_member_role ms"
    by (simp_all add: member_of_def comp_def)
  have "\<forall>m\<in>set (map member_of ms). is_u64 (mi_ref m) \<and> mi_type m \<noteq> et_changeset" using assms(2) by (auto simp: member_of_def)
  from extract_members_read [OF assms(1) this, of False] show ?thesis unfolding types refs .
qed

lemma write_relation_row_ok:
  assumes "readable p d" "cache_ok d cache" "cache (r_changeset_id r) \<noteq> None"
  shows "write_relation_row cache (relation_query_row p (current_tags p (r_id r) (current_relation_tags d))
      (sort_key m_sequence_id (filter (\<lambda>m. m_relation_id m = r_id r) (current_relation_members d))) r) = Inr (relation_call p d r)"
proof -
  let ?ms = "sort_key m_sequence_id (filter (\<lambda>m. m_relation_id m = r_id r) (current_relation_members d))"
  let ?row = "relation_query_row p (current_tags p (r_id r) (current_relation_tags d)) ?ms r"
  have "extract_elem cache ?row = info_of p d r" by (rule info_of_cached [OF assms(2,3)]) (simp_all add: relation_query_row_def)
  moreover have "extract_members (agg_text (pg_quotes p) False (map m_member_type ?ms)) (agg_ids (map m_member_id ?ms))
      (agg_text (pg_quotes p) False (map m_member_role ?ms)) = Inr (map member_of ?ms)"
    using assms(1) by (intro extract_members_rows) (auto simp: readable_def list_all_iff)
  ultimately show ?thesis using assms(1)
    by (simp add: write_relation_row_def relation_call_def relation_query_row_def readable_def extract_tags_read relation_member_infos_def)
qed

definition current_only :: "selection \<Rightarrow> bool" where
  "current_only s \<longleftrightarrow> sel_historic_nodes s = {} \<and> sel_historic_ways s = {} \<and> sel_historic_relations s = {}"

definition authored :: "osm_db \<Rightarrow> 'a elem_row_scheme list \<Rightarrow> bool" where
  "authored d rows \<longleftrightarrow> list_all (\<lambda>r. user_of d (r_changeset_id r) \<noteq> None) rows"

lemma write_nodes_ok:
  assumes "readable p d" "current_only s" "cache_ok d (cc s)" "authored d (selected_rows (sel_nodes s) (current_nodes d))"
  shows "\<exists>cache. write_nodes p d s = ((map (node_call p d) (selected_rows (sel_nodes s) (current_nodes d)), None), s\<lparr>cc := cache\<rparr>) \<and> cache_ok d cache"
proof (cases "sel_nodes s = {}")
  case True
  with assms show ?thesis
    by (intro exI [of _ "cc s"]) (simp add: write_nodes_def nodes_as_versions_def current_only_def selected_rows_def)
next
  case False
  let ?rs = "selected_rows (sel_nodes s) (current_nodes d)"
  have "\<exists>cache. write_rows write_node_row (map (\<lambda>r. node_query_row p (current_tags p (r_id r) (current_node_tags d)) r) ?rs) d s
      = ((map (node_call p d) ?rs, None), s\<lparr>cc := cache\<rparr>) \<and> cache_ok d cache"
    using assms by (intro write_rows_ok write_node_row_ok) (auto simp: readable_def authored_def list_all_iff node_query_row_def)
  with False assms(2) show ?thesis
    by (simp add: write_nodes_def nodes_as_versions_def current_only_def extract_current_nodes_def selected_rows_def)
qed

lemma write_ways_ok:
  assumes "readable p d" "current_only s" "cache_ok d (cc s)" "authored d (selected_rows (sel_ways s) (current_ways d))"
  shows "\<exists>cache. write_ways p d s = ((map (way_call p d) (selected_rows (sel_ways s) (current_ways d)), None), s\<lparr>cc := cache\<rparr>) \<and> cache_ok d cache"
proof (cases "sel_ways s = {}")
  case True
  with assms show ?thesis
    by (intro exI [of _ "cc s"]) (simp add: write_ways_def ways_as_versions_def current_only_def selected_rows_def)
next
  case False
  let ?rs = "selected_rows (sel_ways s) (current_ways d)"
  have "\<exists>cache. write_rows write_way_row
        (map (\<lambda>r. way_query_row p (current_tags p (r_id r) (current_way_tags d)) (way_node_ids d (r_id r)) r) ?rs) d s
      = ((map (way_call p d) ?rs, None), s\<lparr>cc := cache\<rparr>) \<and> cache_ok d cache"
    using assms by (intro write_rows_ok write_way_row_ok) (auto simp: readable_def authored_def list_all_iff way_query_row_def)
  with False assms(2) show ?thesis
    by (simp add: write_ways_def ways_as_versions_def current_only_def extract_current_ways_def selected_rows_def way_node_ids_def)
qed

lemma write_relations_ok:
  assumes "readable p d" "current_only s" "cache_ok d (cc s)" "authored d (selected_rows (sel_relations s) (current_relations d))"
  shows "\<exists>cache. write_relations p d s =
    ((map (relation_call p d) (selected_rows (sel_relations s) (current_relations d)), None), s\<lparr>cc := cache\<rparr>) \<and> cache_ok d cache"
proof (cases "sel_relations s = {}")
  case True
  with assms show ?thesis
    by (intro exI [of _ "cc s"]) (simp add: write_relations_def relations_as_versions_def current_only_def selected_rows_def)
next
  case False
  let ?rs = "selected_rows (sel_relations s) (current_relations d)"
  have "\<exists>cache. write_rows write_relation_row
        (map (\<lambda>r. relation_query_row p (current_tags p (r_id r) (current_relation_tags d))
          (sort_key m_sequence_id (filter (\<lambda>m. m_relation_id m = r_id r) (current_relation_members d))) r) ?rs) d s
      = ((map (relation_call p d) ?rs, None), s\<lparr>cc := cache\<rparr>) \<and> cache_ok d cache"
    using assms by (intro write_rows_ok write_relation_row_ok) (auto simp: readable_def authored_def list_all_iff relation_query_row_def)
  with False assms(2) show ?thesis
    by (simp add: write_relations_def relations_as_versions_def current_only_def extract_current_relations_def selected_rows_def)
qed

definition document_calls :: "pg \<Rightarrow> osm_db \<Rightarrow> selection \<Rightarrow> fmt_call list" where
  "document_calls p d s =
     map (node_call p d) (selected_rows (sel_nodes s) (current_nodes d)) @
     map (way_call p d) (selected_rows (sel_ways s) (current_ways d)) @
     map (relation_call p d) (selected_rows (sel_relations s) (current_relations d))"

lemma write_elements_ok:
  assumes "readable p d" "current_only s" "cache_ok d (cc s)"
    and "authored d (selected_rows (sel_nodes s) (current_nodes d))" "authored d (selected_rows (sel_ways s) (current_ways d))"
    and "authored d (selected_rows (sel_relations s) (current_relations d))"
  shows "write_elements p d s = (document_calls p d s, None)"
proof -
  from write_nodes_ok [OF assms(1-4)] obtain c1 where n: "cache_ok d c1"
    "write_nodes p d s = ((map (node_call p d) (selected_rows (sel_nodes s) (current_nodes d)), None), s\<lparr>cc := c1\<rparr>)" by blast
  have cur: "current_only (s\<lparr>cc := c\<rparr>)" for c using assms(2) by (simp add: current_only_def)
  from write_ways_ok [OF assms(1) cur, of c1] n(1) assms(5) obtain c2 where w: "cache_ok d c2"
    "write_ways p d (s\<lparr>cc := c1\<rparr>) = ((map (way_call p d) (selected_rows (sel_ways s) (current_ways d)), None), s\<lparr>cc := c2\<rparr>)" by auto
  from write_relations_ok [OF assms(1) cur, of c2] w(1) assms(6) obtain c3 where
    "write_relations p d (s\<lparr>cc := c2\<rparr>) =
      ((map (relation_call p d) (selected_rows (sel_relations s) (current_relations d)), None), s\<lparr>cc := c3\<rparr>)" by auto
  with n w show ?thesis by (simp add: write_elements_def document_calls_def)
qed

end
