(* ===== verification/Requests.thy ===== *)
theory Requests
  imports Responders
begin

text \<open>
  \<^verbatim>\<open>src/request.cpp\<close>, \<^verbatim>\<open>src/request_helpers.cpp\<close> and the error responses of
  \<^verbatim>\<open>src/process_request.cpp\<close>: the request object with its workflow, the variables of its environment
  and everything that is sent back. An operation keeps the request as it was left by an
  exception, since the catch clauses of \<^verbatim>\<open>process_request\<close> go on using it.
\<close>

section \<open>The request\<close>

datatype workflow_status = status_NONE | status_HEADERS | status_BODY | status_FINISHED

fun stage_no :: "workflow_status \<Rightarrow> nat" where
  "stage_no status_NONE = 0"
| "stage_no status_HEADERS = 1"
| "stage_no status_BODY = 2"
| "stage_no status_FINISHED = 3"

type_synonym headers_t = "(string \<times> string) list"

text \<open>What goes out: the header block, plain text, or a document through a formatter and an encoding.\<close>

datatype out_event =
    out_header int headers_t
  | out_text string
  | out_document encoding formatter "fmt_call list"

record request =
  rq_env :: "string \<Rightarrow> string option"
  m_workflow_status :: workflow_status
  m_status :: int
  m_headers :: headers_t
  m_success_headers :: headers_t
  m_methods :: http_method
  rq_out :: "out_event list"

type_synonym 'a rq = "request \<Rightarrow> 'a result \<times> request"

definition okR :: "'a \<Rightarrow> 'a rq" where
  "okR x = (\<lambda>r. (Inr x, r))"

definition liftR :: "'a result \<Rightarrow> 'a rq" where
  "liftR v = (\<lambda>r. (v, r))"

definition bindR :: "'a rq \<Rightarrow> ('a \<Rightarrow> 'b rq) \<Rightarrow> 'b rq" where
  "bindR m f = (\<lambda>r. case m r of (Inl e, r1) \<Rightarrow> (Inl e, r1) | (Inr x, r1) \<Rightarrow> f x r1)"

fun seqR :: "unit rq list \<Rightarrow> unit rq" where
  "seqR [] = okR ()"
| "seqR (m # ms) = bindR m (\<lambda>_. seqR ms)"

definition default_methods :: http_method where
  "default_methods = GET OR HEAD OR OPTIONS"

definition reset :: "request \<Rightarrow> request" where
  "reset r = r\<lparr>m_workflow_status := status_NONE, m_status := 500, m_headers := [], m_success_headers := [],
               m_methods := default_methods\<rparr>"

definition get_param :: "string \<Rightarrow> request \<Rightarrow> string option" where
  "get_param key r = rq_env r key"

definition set_default_methods :: "http_method \<Rightarrow> request \<Rightarrow> request" where
  "set_default_methods ms r = r\<lparr>m_methods := ms\<rparr>"

text \<open>
  \<^verbatim>\<open>set_default_headers\<close> is called in the \<^verbatim>\<open>HEADERS\<close> stage, where \<^verbatim>\<open>add_header\<close> only appends.
\<close>

definition cors_headers :: "request \<Rightarrow> headers_t" where
  "cors_headers r =
     (case get_param ''HTTP_ORIGIN'' r of
        None \<Rightarrow> []
      | Some origin \<Rightarrow>
          [(''Access-Control-Allow-Credentials'', ''true''),
           (''Access-Control-Allow-Methods'', list_methods (m_methods r)),
           (''Access-Control-Allow-Origin'', origin),
           (''Access-Control-Max-Age'', ''1728000'')])"

definition set_default_headers :: "request \<Rightarrow> request" where
  "set_default_headers r = r\<lparr>m_headers := m_headers r @ cors_headers r\<rparr>"

definition write_header_info :: "int \<Rightarrow> headers_t \<Rightarrow> request \<Rightarrow> request" where
  "write_header_info st hs r = r\<lparr>rq_out := rq_out r @ [out_header st hs]\<rparr>"

definition enter_headers :: "workflow_status \<Rightarrow> request \<Rightarrow> request" where
  "enter_headers this_stage r =
     (if stage_no (m_workflow_status r) < 1 \<and> 1 \<le> stage_no this_stage
      then set_default_headers (r\<lparr>m_workflow_status := status_HEADERS\<rparr>) else r)"

definition enter_body :: "workflow_status \<Rightarrow> request \<Rightarrow> request" where
  "enter_body this_stage r =
     (if stage_no (m_workflow_status r) < 2 \<and> 2 \<le> stage_no this_stage
      then write_header_info (m_status r) (m_headers r @ (if m_status r = 200 then m_success_headers r else []))
             (r\<lparr>m_workflow_status := status_BODY\<rparr>)
      else r)"

definition backwards :: "workflow_status \<Rightarrow> workflow_status \<Rightarrow> exn" where
  "backwards from_stage to_stage = runtime_error
     (''Can'' @ [CHR 0x27] @ ''t move backwards in the request workflow from '' @ fmt_d (int (stage_no from_stage)) @
      '' to '' @ fmt_d (int (stage_no to_stage)) @ ''.'')"

definition check_workflow :: "workflow_status \<Rightarrow> unit rq" where
  "check_workflow this_stage r =
     (if stage_no (m_workflow_status r) < stage_no this_stage then
        (Inr (), (enter_body this_stage (enter_headers this_stage r))\<lparr>m_workflow_status := this_stage\<rparr>)
      else if stage_no (m_workflow_status r) > stage_no this_stage then
        (Inl (backwards (m_workflow_status r) this_stage), r)
      else (Inr (), r))"

definition modifyR :: "(request \<Rightarrow> request) \<Rightarrow> unit rq" where
  "modifyR f = (\<lambda>r. (Inr (), f r))"

definition status :: "int \<Rightarrow> unit rq" where
  "status code = bindR (check_workflow status_HEADERS) (\<lambda>_. modifyR (\<lambda>r. r\<lparr>m_status := code\<rparr>))"

definition add_header :: "string \<Rightarrow> string \<Rightarrow> unit rq" where
  "add_header key value =
     bindR (check_workflow status_HEADERS) (\<lambda>_. modifyR (\<lambda>r. r\<lparr>m_headers := m_headers r @ [(key, value)]\<rparr>))"

definition add_success_header :: "string \<Rightarrow> string \<Rightarrow> unit rq" where
  "add_success_header key value =
     bindR (check_workflow status_HEADERS)
       (\<lambda>_. modifyR (\<lambda>r. r\<lparr>m_success_headers := m_success_headers r @ [(key, value)]\<rparr>))"

definition get_buffer :: "unit rq" where
  "get_buffer = check_workflow status_BODY"

definition emit :: "out_event \<Rightarrow> unit rq" where
  "emit ev = modifyR (\<lambda>r. r\<lparr>rq_out := rq_out r @ [ev]\<rparr>)"

definition put :: "string \<Rightarrow> unit rq" where
  "put str = bindR get_buffer (\<lambda>_. emit (out_text str))"

definition finish :: "unit rq" where
  "finish = check_workflow status_FINISHED"

section \<open>The environment\<close>

definition no_variable :: "string \<Rightarrow> exn" where
  "no_variable name = server_error (''request didn'' @ [CHR 0x27] @ ''t set the $'' @ name @ '' environment variable.'')"

definition no_uri :: exn where
  "no_uri = server_error
     (''request didn'' @ [CHR 0x27] @ ''t set the $QUERY_STRING or $REQUEST_URI environment variables.'')"

definition fcgi_get_env :: "string \<Rightarrow> string option \<Rightarrow> request \<Rightarrow> string result" where
  "fcgi_get_env name default_value r =
     (case get_param name r of
        Some v \<Rightarrow> Inr v
      | None \<Rightarrow> (case default_value of Some v \<Rightarrow> Inr v | None \<Rightarrow> Inl (no_variable name)))"

text \<open>A variable that is unset is treated as one that is empty.\<close>

definition param_text :: "string \<Rightarrow> request \<Rightarrow> string" where
  "param_text key r = (case get_param key r of None \<Rightarrow> [] | Some v \<Rightarrow> v)"

definition get_query_string :: "request \<Rightarrow> string result" where
  "get_query_string r =
     (if param_text ''QUERY_STRING'' r \<noteq> [] then Inr (param_text ''QUERY_STRING'' r)
      else let uri = param_text ''REQUEST_URI'' r in
           if uri = [] then Inl no_uri else Inr (tl (dropWhile (\<lambda>c. c \<noteq> CHR ''?'') uri)))"

definition get_request_path :: "request \<Rightarrow> string result" where
  "get_request_path r =
     (let uri = (if param_text ''REQUEST_URI'' r \<noteq> [] then param_text ''REQUEST_URI'' r else param_text ''PATH_INFO'' r) in
      if uri = [] then Inl no_uri else Inr (takeWhile (\<lambda>c. c \<noteq> CHR ''?'') uri))"

text \<open>\<open>hb\<close> and \<open>hz\<close> say whether the program was built with brotli and zlib.\<close>

definition get_encoding :: "bool \<Rightarrow> bool \<Rightarrow> request \<Rightarrow> encoding result" where
  "get_encoding hb hz r =
     (case get_param ''HTTP_ACCEPT_ENCODING'' r of
        Some accept_encoding \<Rightarrow> choose_encoding hb hz accept_encoding
      | None \<Rightarrow> Inr identity)"

definition header_mime_type :: "request \<Rightarrow> accept_header result" where
  "header_mime_type r = bindE (fcgi_get_env ''HTTP_ACCEPT'' (Some ''*/*'') r) AcceptHeader"

definition request_mime_type :: "mime_type list \<Rightarrow> mime_type \<Rightarrow> request \<Rightarrow> mime_type result" where
  "request_mime_type types_available resource r =
     bindE (header_mime_type r) (\<lambda>types.
     bindE (get_request_path r) (\<lambda>path.
     choose_best_mime_type types types_available resource path))"

definition query_params :: "request \<Rightarrow> (string \<times> string) list result" where
  "query_params r = bindE (get_query_string r) (\<lambda>q. Inr (parse_params (urldecode q)))"

section \<open>Error responses\<close>

text \<open>The status of an exception of the \<^verbatim>\<open>http\<close> namespace and its text.\<close>

fun code :: "exn \<Rightarrow> int option" where
  "code (server_error _) = Some 500"
| "code (bad_request _) = Some 400"
| "code (payload_error _) = Some 400"
| "code (forbidden _) = Some 403"
| "code (method_not_allowed _) = Some 405"
| "code (not_acceptable _) = Some 406"
| "code (conflict _) = Some 409"
| "code (precondition_failed _) = Some 412"
| "code (payload_too_large _) = Some 413"
| "code (too_many_requests _) = Some 429"
| "code (not_found _) = Some 404"
| "code (bandwidth_limit_exceeded _) = Some 509"
| "code (gone _) = Some 410"
| "code (unauthorized _) = Some 401"
| "code (unsupported_media_type _) = Some 415"
| "code (runtime_error _) = None"
| "code (sql_error _) = None"
| "code (assertion_failed _) = None"
| "code (undefined_behaviour _) = None"

fun what :: "exn \<Rightarrow> string" where
  "what (server_error m) = m"
| "what (bad_request m) = m"
| "what (payload_error m) = m"
| "what (forbidden m) = m"
| "what (method_not_allowed m) = m"
| "what (not_acceptable m) = m"
| "what (conflict m) = m"
| "what (precondition_failed m) = m"
| "what (payload_too_large m) = m"
| "what (too_many_requests m) = m"
| "what (not_found m) = m"
| "what (bandwidth_limit_exceeded s) =
     ''You have downloaded too much data. Please try again in '' @ fmt_d s @ '' seconds.''"
| "what (gone m) = m"
| "what (unauthorized m) = m"
| "what (unsupported_media_type m) = m"
| "what (runtime_error m) = m"
| "what (sql_error m) = m"
| "what (assertion_failed m) = m"
| "what (undefined_behaviour m) = m"

definition size_text :: "string \<Rightarrow> string" where
  "size_text m = fmt_d (int (length m))"

definition respond_404 :: "unit rq" where
  "respond_404 = seqR
     [status 404, add_header ''Content-Type'' ''text/html; charset=utf-8'', add_header ''Content-Length'' ''0'',
      add_header ''Cache-Control'' ''no-cache'', put [], finish]"

definition respond_401 :: "string \<Rightarrow> unit rq" where
  "respond_401 message = seqR
     [status 401, add_header ''Content-Type'' ''text/plain; charset=utf-8'',
      add_header ''WWW-Authenticate'' ''Basic realm=\"Web Password\", charset=\"UTF-8\"'',
      add_header ''Content-Length'' (size_text message), add_header ''Cache-Control'' ''no-cache'', put message, finish]"

definition response_415 :: "bool \<Rightarrow> string \<Rightarrow> unit rq" where
  "response_415 hz message = seqR
     [status 415, add_header ''Content-Type'' ''text/plain; charset=utf-8'',
      add_header ''Accept-Encoding'' (if hz then ''gzip, deflate'' else ''identity''),
      add_header ''Content-Length'' (size_text message), add_header ''Cache-Control'' ''no-cache'', put message, finish]"

definition error_header :: "string \<Rightarrow> string" where
  "error_header message = map (\<lambda>c. if c = CHR 0x0A then CHR '' '' else c) (take 250 message)"

definition retry_after :: "exn \<Rightarrow> unit rq list" where
  "retry_after e = (case e of bandwidth_limit_exceeded s \<Rightarrow> [add_header ''Retry-After'' (fmt_d s)] | _ \<Rightarrow> [])"

definition osm_error :: "int \<Rightarrow> string \<Rightarrow> string" where
  "osm_error c message =
     ''<?xml version=\"1.0\" encoding=\"utf-8\" ?>'' @ crlf @ ''<osmError>'' @ crlf @ ''<status>'' @ fmt_d c @ '' '' @
     status_message c @ ''</status>'' @ crlf @ ''<message>'' @ message @ ''</message>'' @ crlf @ ''</osmError>'' @ crlf"

definition wants_xml_error :: "request \<Rightarrow> bool" where
  "wants_xml_error r = (case get_param ''HTTP_X_ERROR_FORMAT'' r of Some f \<Rightarrow> iequals f ''xml'' | None \<Rightarrow> False)"

definition respond_error :: "int \<Rightarrow> exn \<Rightarrow> unit rq" where
  "respond_error c e r =
     (if wants_xml_error r then
        seqR [status 200, add_header ''Content-Type'' ''application/xml; charset=utf-8'', put (osm_error c (what e)), finish] r
      else
        seqR ([status c, add_header ''Content-Type'' ''text/plain'', add_header ''Content-Length'' (size_text (what e)),
               add_header ''Error'' (error_header (what e)), add_header ''Cache-Control'' ''no-cache''] @ retry_after e @
              [put (what e), finish]) r)"

definition process_not_allowed :: "string \<Rightarrow> unit rq" where
  "process_not_allowed allow = seqR
     [status 405, add_header ''Allow'' allow, add_header ''Content-Type'' ''text/html'',
      add_header ''Content-Length'' ''0'', add_header ''Cache-Control'' ''no-cache'', finish]"

section \<open>The workflow\<close>

text \<open>While nothing has been sent, a response can be made up; the header block goes out once.\<close>

definition open_request :: "request \<Rightarrow> bool" where
  "open_request r \<longleftrightarrow> m_workflow_status r \<in> {status_NONE, status_HEADERS} \<and> rq_out r = []"

definition headers_so_far :: "request \<Rightarrow> headers_t" where
  "headers_so_far r = (if m_workflow_status r = status_NONE then m_headers r @ cors_headers r else m_headers r)"

definition is_header :: "out_event \<Rightarrow> bool" where
  "is_header ev \<longleftrightarrow> (case ev of out_header _ _ \<Rightarrow> True | _ \<Rightarrow> False)"

text \<open>A request that was answered with a status: one header block first, then the body.\<close>

definition answered :: "int \<Rightarrow> request \<Rightarrow> bool" where
  "answered c r \<longleftrightarrow> m_workflow_status r = status_FINISHED \<and>
     (\<exists>hs evs. rq_out r = out_header c hs # evs \<and> (\<forall>ev\<in>set evs. \<not> is_header ev))"

named_theorems workflow_defs \<open>the operations of the request\<close>

lemmas workflow_basics [workflow_defs] =
  okR_def liftR_def bindR_def modifyR_def check_workflow_def status_def add_header_def add_success_header_def
  get_buffer_def put_def finish_def emit_def enter_headers_def enter_body_def set_default_headers_def write_header_info_def

lemma cors_headers_updates [simp]:
  "cors_headers (r\<lparr>m_workflow_status := w\<rparr>) = cors_headers r"
  "cors_headers (r\<lparr>m_status := c\<rparr>) = cors_headers r"
  by (simp_all add: cors_headers_def get_param_def cong: option.case_cong)

lemma status_open:
  assumes "open_request r"
  shows "status c r = (Inr (), r\<lparr>m_workflow_status := status_HEADERS, m_status := c, m_headers := headers_so_far r\<rparr>)"
  using assms by (cases "m_workflow_status r") (simp_all add: open_request_def headers_so_far_def workflow_defs)

lemma add_headers:
  assumes "m_workflow_status r = status_HEADERS"
  shows "seqR (map (\<lambda>(k, v). add_header k v) hs @ ms) r = seqR ms (r\<lparr>m_headers := m_headers r @ hs\<rparr>)"
  using assms
proof (induction hs arbitrary: r)
  case (Cons h hs)
  then show ?case by (cases h) (simp add: workflow_defs)
qed simp

definition header_block :: "int \<Rightarrow> headers_t \<Rightarrow> request \<Rightarrow> out_event" where
  "header_block c hs r = out_header c (headers_so_far r @ hs @ (if c = 200 then m_success_headers r else []))"

text \<open>Every response of the program is a status and headers, followed by one of these endings.\<close>

lemma respond_with:
  assumes "open_request r"
  shows "seqR (status c # map (\<lambda>(k, v). add_header k v) hs @ ms) r =
    seqR ms (r\<lparr>m_workflow_status := status_HEADERS, m_status := c, m_headers := headers_so_far r @ hs\<rparr>)"
  using assms by (simp add: bindR_def status_open add_headers)

lemma respond_text:
  assumes "open_request r"
  shows "seqR (status c # map (\<lambda>(k, v). add_header k v) hs @ [put m, finish]) r =
    (Inr (), r\<lparr>m_workflow_status := status_FINISHED, m_status := c, m_headers := headers_so_far r @ hs,
               rq_out := [header_block c hs r, out_text m]\<rparr>)"
  unfolding respond_with [OF assms] using assms by (simp add: workflow_defs open_request_def header_block_def)

lemma respond_empty:
  assumes "open_request r"
  shows "seqR (status c # map (\<lambda>(k, v). add_header k v) hs @ [finish]) r =
    (Inr (), r\<lparr>m_workflow_status := status_FINISHED, m_status := c, m_headers := headers_so_far r @ hs,
               rq_out := [header_block c hs r]\<rparr>)"
  unfolding respond_with [OF assms] using assms by (simp add: workflow_defs open_request_def header_block_def)

lemma answered_text: "answered c (r\<lparr>m_workflow_status := status_FINISHED, m_status := c', m_headers := h, rq_out := [header_block c hs r', out_text m]\<rparr>)"
  by (simp add: answered_def header_block_def is_header_def)

lemma answered_empty: "answered c (r\<lparr>m_workflow_status := status_FINISHED, m_status := c', m_headers := h, rq_out := [header_block c hs r']\<rparr>)"
  by (simp add: answered_def header_block_def)

lemma respond_404_answers:
  assumes "open_request r" shows "\<exists>r'. respond_404 r = (Inr (), r') \<and> answered 404 r'"
  using respond_text [OF assms, of 404 "[(''Content-Type'', ''text/html; charset=utf-8''), (''Content-Length'', ''0''),
    (''Cache-Control'', ''no-cache'')]" "[]"] answered_text by (simp add: respond_404_def)

lemma respond_401_answers:
  assumes "open_request r" shows "\<exists>r'. respond_401 m r = (Inr (), r') \<and> answered 401 r'"
  using respond_text [OF assms, of 401 "[(''Content-Type'', ''text/plain; charset=utf-8''),
    (''WWW-Authenticate'', ''Basic realm=\"Web Password\", charset=\"UTF-8\"''), (''Content-Length'', size_text m),
    (''Cache-Control'', ''no-cache'')]" m] answered_text by (simp add: respond_401_def)

lemma response_415_answers:
  assumes "open_request r" shows "\<exists>r'. response_415 hz m r = (Inr (), r') \<and> answered 415 r'"
  using respond_text [OF assms, of 415 "[(''Content-Type'', ''text/plain; charset=utf-8''),
    (''Accept-Encoding'', if hz then ''gzip, deflate'' else ''identity''), (''Content-Length'', size_text m),
    (''Cache-Control'', ''no-cache'')]" m] answered_text by (simp add: response_415_def)

lemma process_not_allowed_answers:
  assumes "open_request r" shows "\<exists>r'. process_not_allowed a r = (Inr (), r') \<and> answered 405 r'"
  using respond_empty [OF assms, of 405 "[(''Allow'', a), (''Content-Type'', ''text/html''), (''Content-Length'', ''0''),
    (''Cache-Control'', ''no-cache'')]"] answered_empty by (simp add: process_not_allowed_def)

lemma retry_after_headers: "\<exists>hs. retry_after e = map (\<lambda>(k, v). add_header k v) hs"
proof (cases e)
  case (bandwidth_limit_exceeded s)
  then show ?thesis by (intro exI [of _ "[(''Retry-After'', fmt_d s)]"]) (simp add: retry_after_def)
qed (simp_all add: retry_after_def)

lemma respond_error_answers:
  assumes "open_request r"
  shows "\<exists>r'. respond_error c e r = (Inr (), r') \<and> answered (if wants_xml_error r then 200 else c) r'"
proof (cases "wants_xml_error r")
  case True
  then show ?thesis
    using respond_text [OF assms, of 200 "[(''Content-Type'', ''application/xml; charset=utf-8'')]" "osm_error c (what e)"]
      answered_text by (simp add: respond_error_def)
next
  case False
  obtain hs where hs: "retry_after e = map (\<lambda>(k, v). add_header k v) hs" using retry_after_headers by blast
  show ?thesis
    using False respond_text [OF assms, of c "[(''Content-Type'', ''text/plain''), (''Content-Length'', size_text (what e)),
      (''Error'', error_header (what e)), (''Cache-Control'', ''no-cache'')] @ hs" "what e"] answered_text
    by (simp add: respond_error_def hs)
qed

end
