(* ===== verification/Router.thy ===== *)
theory Router
  imports Requests
begin

text \<open>
  \<^verbatim>\<open>src/routes.cpp\<close>, \<^verbatim>\<open>src/router.cpp\<close>, \<^verbatim>\<open>src/api06/handler_utils.cpp\<close> and the constructors of the
  handlers of \<^verbatim>\<open>src/api06\<close>: from the path, the query and the HTTP verb of a request to a handler.
  A handler's constructor may throw and may touch the request, and it runs for every rule whose
  path matches, whatever the verb.
\<close>

section \<open>Handlers\<close>

datatype api_handler =
    map_handler bbox
  | node_ways_handler int
  | node_relations_handler int
  | node_history_handler int
  | node_version_handler int int
  | node_handler int
  | nodes_handler "id_version list"
  | way_full_handler int
  | way_relations_handler int
  | way_history_handler int
  | way_version_handler int int
  | way_handler int
  | ways_handler "id_version list"
  | relation_full_handler int
  | relation_relations_handler int
  | relation_history_handler int
  | relation_version_handler int int
  | relation_handler int
  | relations_handler "id_version list"
  | changeset_download_handler int
  | changeset_upload_handler int
  | changeset_close_handler int
  | changeset_create_handler
  | changeset_update_handler int
  | changeset_handler int bool

fun allowed_methods :: "api_handler \<Rightarrow> http_method" where
  "allowed_methods (changeset_upload_handler _) = POST OR OPTIONS"
| "allowed_methods (changeset_close_handler _) = PUT OR OPTIONS"
| "allowed_methods changeset_create_handler = PUT OR OPTIONS"
| "allowed_methods (changeset_update_handler _) = PUT OR OPTIONS"
| "allowed_methods _ = default_methods"

definition allows_method :: "http_method \<Rightarrow> api_handler \<Rightarrow> bool" where
  "allows_method m h \<longleftrightarrow> m AND allowed_methods h = m"

section \<open>Lists of ids\<close>

definition parse_single_id :: "string \<Rightarrow> id_version" where
  "parse_single_id str =
     (case split str CHR ''v'' of
        [i] \<Rightarrow> \<lparr>iv_id = parse_ruby_number from_chars_u64 i, iv_version = None\<rparr>
      | [i, v] \<Rightarrow> \<lparr>iv_id = parse_ruby_number from_chars_u64 i, iv_version = Some (parse_ruby_number from_chars_u32 v)\<rparr>
      | _ \<Rightarrow> \<lparr>iv_id = 0, iv_version = None\<rparr>)"

text \<open>The order of \<^verbatim>\<open>id_version::operator<\<close>: by id, and an id without a version after those with one.\<close>

definition id_version_less :: "id_version \<Rightarrow> id_version \<Rightarrow> bool" where
  "id_version_less a b \<longleftrightarrow> iv_id a < iv_id b \<or>
     iv_id a = iv_id b \<and> iv_version a \<noteq> None \<and> (iv_version b = None \<or> the (iv_version a) < the (iv_version b))"

definition id_version_key :: "id_version \<Rightarrow> int \<times> bool \<times> int" where
  "id_version_key i = (iv_id i, iv_version i = None, case iv_version i of None \<Rightarrow> 0 | Some v \<Rightarrow> v)"

definition parse_id_list_params :: "string \<Rightarrow> request \<Rightarrow> id_version list result" where
  "parse_id_list_params param_name r =
     bindE (query_params r) (\<lambda>params.
     Inr (case find (\<lambda>p. fst p = param_name) params of
            None \<Rightarrow> []
          | Some (_, str) \<Rightarrow>
              remdups_adj (sort_key id_version_key (map parse_single_id (filter (\<lambda>s. s \<noteq> []) (split str CHR '',''))))))"

definition ids_required :: "string \<Rightarrow> exn" where
  "ids_required param =
     bad_request (''The parameter '' @ param @ '' is required, and must be of the form '' @ param @
       (if param = ''relations'' then ''=id[,id[,id...]].'' else ''=ID[vVER][,ID[vVER][,ID[vVER]...]].''))"

definition validate_ids :: "string \<Rightarrow> request \<Rightarrow> id_version list result" where
  "validate_ids param r =
     bindE (parse_id_list_params param r) (\<lambda>ids. if ids = [] then Inl (ids_required param) else Inr ids)"

section \<open>Constructors\<close>

text \<open>\<open>area_max\<close> is the setting \<^verbatim>\<open>map-area-max\<close>.\<close>

definition make_map_handler :: "double \<Rightarrow> api_handler rq" where
  "make_map_handler area_max =
     bindR (\<lambda>r. (bindE (get_query_string r) (map_validate_request area_max), r)) (\<lambda>bounds.
     bindR (add_success_header ''Content-Disposition'' ''attachment; filename=\"map.osm\"'') (\<lambda>_.
     okR (map_handler bounds)))"

definition make_ids_handler :: "string \<Rightarrow> (id_version list \<Rightarrow> api_handler) \<Rightarrow> api_handler rq" where
  "make_ids_handler param mk = bindR (\<lambda>r. (validate_ids param r, r)) (\<lambda>ids. okR (mk ids))"

definition make_changeset_handler :: "int \<Rightarrow> api_handler rq" where
  "make_changeset_handler i =
     bindR (\<lambda>r. (query_params r, r)) (\<lambda>params.
     okR (changeset_handler i (find (\<lambda>p. fst p = ''include_discussion'') params \<noteq> None)))"

section \<open>Rules\<close>

datatype rule_part = match_string string | match_osm_id

fun match_part :: "rule_part \<Rightarrow> string \<Rightarrow> int list option" where
  "match_part (match_string str) seg = (if seg = str then Some [] else None)"
| "match_part match_osm_id seg =
     (if \<exists>c\<in>set seg. \<not> is_digit c then None
      else case from_chars_u64 seg of
             Inr x \<Rightarrow> if x > 0 then Some [x] else None
           | Inl _ \<Rightarrow> None)"

text \<open>The arguments matched and what is left of the path.\<close>

fun match_rule :: "rule_part list \<Rightarrow> string list \<Rightarrow> (int list \<times> string list) option" where
  "match_rule [] parts = Some ([], parts)"
| "match_rule (p # ps) [] = None"
| "match_rule (p # ps) (seg # segs) =
     (case match_part p seg of
        None \<Rightarrow> None
      | Some xs \<Rightarrow> map_option (\<lambda>(ys, rest). (xs @ ys, rest)) (match_rule ps segs))"

type_synonym rule = "rule_part list \<times> (int list \<Rightarrow> api_handler rq)"

definition invoke_if :: "rule \<Rightarrow> string list \<Rightarrow> api_handler option rq" where
  "invoke_if rl parts =
     (case match_rule (fst rl) parts of
        Some (args, []) \<Rightarrow> bindR (snd rl args) (\<lambda>h. okR (Some h))
      | _ \<Rightarrow> okR None)"

text \<open>
  Constructors without and with arguments. An argument is converted to the type of the
  parameter: a version to 32 bits, the id of a changeset to a signed number.
\<close>

definition no_arg :: "api_handler rq \<Rightarrow> int list \<Rightarrow> api_handler rq" where
  "no_arg mk args = mk"

definition id_arg :: "(int \<Rightarrow> api_handler) \<Rightarrow> int list \<Rightarrow> api_handler rq" where
  "id_arg mk args = okR (mk (hd args))"

definition version_args :: "(int \<Rightarrow> int \<Rightarrow> api_handler) \<Rightarrow> int list \<Rightarrow> api_handler rq" where
  "version_args mk args = okR (mk (hd args) (u32 (hd (tl args))))"

definition changeset_arg :: "(int \<Rightarrow> api_handler rq) \<Rightarrow> int list \<Rightarrow> api_handler rq" where
  "changeset_arg mk args = mk (s64 (hd args))"

definition rules_get :: "double \<Rightarrow> rule list" where
  "rules_get area_max =
     [([match_string ''map''], no_arg (make_map_handler area_max)),
      ([match_string ''node'', match_osm_id, match_string ''ways''], id_arg node_ways_handler),
      ([match_string ''node'', match_osm_id, match_string ''relations''], id_arg node_relations_handler),
      ([match_string ''node'', match_osm_id, match_string ''history''], id_arg node_history_handler),
      ([match_string ''node'', match_osm_id, match_osm_id], version_args node_version_handler),
      ([match_string ''node'', match_osm_id], id_arg node_handler),
      ([match_string ''nodes''], no_arg (make_ids_handler ''nodes'' nodes_handler)),
      ([match_string ''way'', match_osm_id, match_string ''full''], id_arg way_full_handler),
      ([match_string ''way'', match_osm_id, match_string ''relations''], id_arg way_relations_handler),
      ([match_string ''way'', match_osm_id, match_string ''history''], id_arg way_history_handler),
      ([match_string ''way'', match_osm_id, match_osm_id], version_args way_version_handler),
      ([match_string ''way'', match_osm_id], id_arg way_handler),
      ([match_string ''ways''], no_arg (make_ids_handler ''ways'' ways_handler)),
      ([match_string ''relation'', match_osm_id, match_string ''full''], id_arg relation_full_handler),
      ([match_string ''relation'', match_osm_id, match_string ''relations''], id_arg relation_relations_handler),
      ([match_string ''relation'', match_osm_id, match_string ''history''], id_arg relation_history_handler),
      ([match_string ''relation'', match_osm_id, match_osm_id], version_args relation_version_handler),
      ([match_string ''relation'', match_osm_id], id_arg relation_handler),
      ([match_string ''relations''], no_arg (make_ids_handler ''relations'' relations_handler)),
      ([match_string ''changeset'', match_osm_id, match_string ''download''],
         changeset_arg (\<lambda>i. okR (changeset_download_handler i))),
      ([match_string ''changeset'', match_osm_id], changeset_arg make_changeset_handler)]"

definition rules_post :: "rule list" where
  "rules_post =
     [([match_string ''changeset'', match_osm_id, match_string ''upload''],
         changeset_arg (\<lambda>i. okR (changeset_upload_handler i)))]"

definition rules_put :: "rule list" where
  "rules_put =
     [([match_string ''changeset'', match_osm_id, match_string ''close''],
         changeset_arg (\<lambda>i. okR (changeset_close_handler i))),
      ([match_string ''changeset'', match_string ''create''], no_arg (okR changeset_create_handler)),
      ([match_string ''changeset'', match_osm_id], changeset_arg (\<lambda>i. okR (changeset_update_handler i)))]"

section \<open>Matching\<close>

text \<open>
  One of the three loops of \<^verbatim>\<open>router::match\<close>: \<open>accepted\<close> are the verbs its rules serve, and \<open>adds\<close>
  what a rule that matches for another verb adds to the verbs that would have been allowed.
\<close>

fun try_rules ::
    "http_method \<Rightarrow> http_method list \<Rightarrow> http_method \<Rightarrow> string list \<Rightarrow> rule list \<Rightarrow> http_method \<Rightarrow>
       (api_handler option \<times> http_method) rq" where
  "try_rules m accepted adds parts [] allowed = okR (None, allowed)"
| "try_rules m accepted adds parts (rl # rls) allowed =
     bindR (invoke_if rl parts) (\<lambda>hptr.
     case hptr of
       None \<Rightarrow> try_rules m accepted adds parts rls allowed
     | Some h \<Rightarrow> if m \<in> set accepted then okR (Some h, allowed)
                else try_rules m accepted adds parts rls (allowed OR adds))"

definition match_verb :: "double \<Rightarrow> http_method \<Rightarrow> string list \<Rightarrow> api_handler option rq" where
  "match_verb area_max m parts =
     bindR (try_rules m [GET, HEAD, OPTIONS] (GET OR HEAD) parts (rules_get area_max) OPTIONS) (\<lambda>(h1, a1).
     if h1 \<noteq> None then okR h1
     else bindR (try_rules m [POST, OPTIONS] POST parts rules_post a1) (\<lambda>(h2, a2).
     if h2 \<noteq> None then okR h2
     else bindR (try_rules m [PUT, OPTIONS] PUT parts rules_put a2) (\<lambda>(h3, a3).
     if h3 \<noteq> None then okR h3
     else if a3 \<noteq> OPTIONS then liftR (Inl (method_not_allowed (list_methods a3)))
     else okR None)))"

definition router_match :: "double \<Rightarrow> string list \<Rightarrow> api_handler option rq" where
  "router_match area_max parts =
     bindR (\<lambda>r. (fcgi_get_env ''REQUEST_METHOD'' None r, r)) (\<lambda>verb.
     case parse_method verb of
       None \<Rightarrow> okR None
     | Some m \<Rightarrow> match_verb area_max m parts)"

definition ends_with :: "string \<Rightarrow> string \<Rightarrow> bool" where
  "ends_with suf s \<longleftrightarrow> length suf \<le> length s \<and> drop (length s - length suf) s = suf"

definition resource_mime_type :: "string \<Rightarrow> string \<times> mime_type" where
  "resource_mime_type path =
     (if ends_with ''.json'' path then (take (length path - 5) path, application_json)
      else if ends_with ''.xml'' path then (take (length path - 4) path, application_xml)
      else (path, unspecified_type))"

definition route_resource :: "double \<Rightarrow> string \<Rightarrow> (api_handler \<times> mime_type) option rq" where
  "route_resource area_max path =
     (let (resource, mt) = resource_mime_type path in
      bindR (router_match area_max (split resource CHR ''/'')) (\<lambda>hptr. okR (map_option (\<lambda>h. (h, mt)) hptr)))"

definition common_prefix :: string where
  "common_prefix = ''/api/0.6/''"

definition no_route :: "string \<Rightarrow> exn" where
  "no_route path = not_found (''Path does not match any known routes: '' @ path)"

definition route :: "double \<Rightarrow> (api_handler \<times> mime_type) rq" where
  "route area_max =
     bindR (\<lambda>r. (get_request_path r, r)) (\<lambda>path.
     bindR (if take (length common_prefix) path = common_prefix
            then route_resource area_max (drop (length common_prefix) path) else okR None) (\<lambda>hptr.
     case hptr of None \<Rightarrow> liftR (Inl (no_route path)) | Some hm \<Rightarrow> okR hm))"

section \<open>The paths of the handlers\<close>

fun segments :: "api_handler \<Rightarrow> string list" where
  "segments (map_handler _) = [''map'']"
| "segments (node_ways_handler i) = [''node'', fmt_d i, ''ways'']"
| "segments (node_relations_handler i) = [''node'', fmt_d i, ''relations'']"
| "segments (node_history_handler i) = [''node'', fmt_d i, ''history'']"
| "segments (node_version_handler i v) = [''node'', fmt_d i, fmt_d v]"
| "segments (node_handler i) = [''node'', fmt_d i]"
| "segments (nodes_handler _) = [''nodes'']"
| "segments (way_full_handler i) = [''way'', fmt_d i, ''full'']"
| "segments (way_relations_handler i) = [''way'', fmt_d i, ''relations'']"
| "segments (way_history_handler i) = [''way'', fmt_d i, ''history'']"
| "segments (way_version_handler i v) = [''way'', fmt_d i, fmt_d v]"
| "segments (way_handler i) = [''way'', fmt_d i]"
| "segments (ways_handler _) = [''ways'']"
| "segments (relation_full_handler i) = [''relation'', fmt_d i, ''full'']"
| "segments (relation_relations_handler i) = [''relation'', fmt_d i, ''relations'']"
| "segments (relation_history_handler i) = [''relation'', fmt_d i, ''history'']"
| "segments (relation_version_handler i v) = [''relation'', fmt_d i, fmt_d v]"
| "segments (relation_handler i) = [''relation'', fmt_d i]"
| "segments (relations_handler _) = [''relations'']"
| "segments (changeset_download_handler i) = [''changeset'', fmt_d i, ''download'']"
| "segments (changeset_upload_handler i) = [''changeset'', fmt_d i, ''upload'']"
| "segments (changeset_close_handler i) = [''changeset'', fmt_d i, ''close'']"
| "segments changeset_create_handler = [''changeset'', ''create'']"
| "segments (changeset_update_handler i) = [''changeset'', fmt_d i]"
| "segments (changeset_handler i _) = [''changeset'', fmt_d i]"

text \<open>The verbs a handler is found for; the preflight of an update goes to the handler that reads the changeset.\<close>

fun verbs :: "api_handler \<Rightarrow> http_method set" where
  "verbs (changeset_upload_handler _) = {POST, OPTIONS}"
| "verbs (changeset_close_handler _) = {PUT, OPTIONS}"
| "verbs changeset_create_handler = {PUT, OPTIONS}"
| "verbs (changeset_update_handler _) = {PUT}"
| "verbs _ = {GET, HEAD, OPTIONS}"

text \<open>The arguments a handler can have, given the query of the request.\<close>

fun addressed :: "double \<Rightarrow> request \<Rightarrow> api_handler \<Rightarrow> bool" where
  "addressed area_max r (map_handler b) \<longleftrightarrow> bindE (get_query_string r) (map_validate_request area_max) = Inr b"
| "addressed area_max r (nodes_handler ids) \<longleftrightarrow> validate_ids ''nodes'' r = Inr ids"
| "addressed area_max r (ways_handler ids) \<longleftrightarrow> validate_ids ''ways'' r = Inr ids"
| "addressed area_max r (relations_handler ids) \<longleftrightarrow> validate_ids ''relations'' r = Inr ids"
| "addressed area_max r (node_version_handler i v) \<longleftrightarrow> 0 < i \<and> i < 2 ^ 64 \<and> 0 < v \<and> v < 2 ^ 32"
| "addressed area_max r (way_version_handler i v) \<longleftrightarrow> 0 < i \<and> i < 2 ^ 64 \<and> 0 < v \<and> v < 2 ^ 32"
| "addressed area_max r (relation_version_handler i v) \<longleftrightarrow> 0 < i \<and> i < 2 ^ 64 \<and> 0 < v \<and> v < 2 ^ 32"
| "addressed area_max r (node_ways_handler i) \<longleftrightarrow> 0 < i \<and> i < 2 ^ 64"
| "addressed area_max r (node_relations_handler i) \<longleftrightarrow> 0 < i \<and> i < 2 ^ 64"
| "addressed area_max r (node_history_handler i) \<longleftrightarrow> 0 < i \<and> i < 2 ^ 64"
| "addressed area_max r (node_handler i) \<longleftrightarrow> 0 < i \<and> i < 2 ^ 64"
| "addressed area_max r (way_full_handler i) \<longleftrightarrow> 0 < i \<and> i < 2 ^ 64"
| "addressed area_max r (way_relations_handler i) \<longleftrightarrow> 0 < i \<and> i < 2 ^ 64"
| "addressed area_max r (way_history_handler i) \<longleftrightarrow> 0 < i \<and> i < 2 ^ 64"
| "addressed area_max r (way_handler i) \<longleftrightarrow> 0 < i \<and> i < 2 ^ 64"
| "addressed area_max r (relation_full_handler i) \<longleftrightarrow> 0 < i \<and> i < 2 ^ 64"
| "addressed area_max r (relation_relations_handler i) \<longleftrightarrow> 0 < i \<and> i < 2 ^ 64"
| "addressed area_max r (relation_history_handler i) \<longleftrightarrow> 0 < i \<and> i < 2 ^ 64"
| "addressed area_max r (relation_handler i) \<longleftrightarrow> 0 < i \<and> i < 2 ^ 64"
| "addressed area_max r (changeset_download_handler i) \<longleftrightarrow> 0 < i \<and> i < 2 ^ 63"
| "addressed area_max r (changeset_upload_handler i) \<longleftrightarrow> 0 < i \<and> i < 2 ^ 63"
| "addressed area_max r (changeset_close_handler i) \<longleftrightarrow> 0 < i \<and> i < 2 ^ 63"
| "addressed area_max r changeset_create_handler \<longleftrightarrow> True"
| "addressed area_max r (changeset_update_handler i) \<longleftrightarrow> 0 < i \<and> i < 2 ^ 63 \<and> (\<exists>ps. query_params r = Inr ps)"
| "addressed area_max r (changeset_handler i discussion) \<longleftrightarrow> 0 < i \<and> i < 2 ^ 63 \<and>
     (\<exists>ps. query_params r = Inr ps \<and> discussion = (find (\<lambda>p. fst p = ''include_discussion'') ps \<noteq> None))"

lemma match_osm_id_fmt [simp]:
  assumes "0 < i" "i < 2 ^ 64"
  shows "match_part match_osm_id (fmt_d i) = Some [i]"
proof -
  have "from_chars_u64 (fmt_d i) = Inr i" using from_chars_unsigned_fmt [of i "2 ^ 64"] assms by (simp add: from_chars_u64_def)
  moreover have "\<forall>c\<in>set (fmt_d i). is_digit c" using fmt_d_digits(1) [of i] assms by (simp add: list_all_iff)
  ultimately show ?thesis using assms by simp
qed

lemma match_osm_id_word: "\<not> list_all is_digit w \<Longrightarrow> match_part match_osm_id w = None"
  by (auto simp: list_all_iff)

declare match_part.simps(2) [simp del]

lemma parse_methods [simp]:
  "parse_method ''GET'' = Some GET" "parse_method ''POST'' = Some POST" "parse_method ''PUT'' = Some PUT"
  "parse_method ''HEAD'' = Some HEAD" "parse_method ''OPTIONS'' = Some OPTIONS"
  by (simp_all add: parse_method_def METHODS_def)

lemma methods_distinct [simp]:
  "GET \<noteq> POST" "GET \<noteq> PUT" "GET \<noteq> HEAD" "GET \<noteq> OPTIONS" "POST \<noteq> GET" "POST \<noteq> PUT" "POST \<noteq> HEAD" "POST \<noteq> OPTIONS"
  "PUT \<noteq> GET" "PUT \<noteq> POST" "PUT \<noteq> HEAD" "PUT \<noteq> OPTIONS" "HEAD \<noteq> GET" "HEAD \<noteq> POST" "HEAD \<noteq> PUT" "HEAD \<noteq> OPTIONS"
  "OPTIONS \<noteq> GET" "OPTIONS \<noteq> POST" "OPTIONS \<noteq> PUT" "OPTIONS \<noteq> HEAD"
  by (simp_all add: GET_def POST_def PUT_def HEAD_def OPTIONS_def)

lemma s64_path_id [simp]: "0 < i \<Longrightarrow> i < 2 ^ 63 \<Longrightarrow> s64 i = i"
  by (simp add: s64_def)

lemma u32_path_version: "0 < i \<Longrightarrow> i < 2 ^ 32 \<Longrightarrow> u32 i = i"
  by (simp add: u32_def)

lemma bindR_okR [simp]: "bindR (okR x) f = f x"
  by (simp add: bindR_def okR_def)

lemma try_rules_skip [simp]:
  "match_rule pat parts = None \<Longrightarrow> try_rules m acc adds parts ((pat, mk) # rls) allowed = try_rules m acc adds parts rls allowed"
  "match_rule pat parts = Some (args, seg # segs) \<Longrightarrow> try_rules m acc adds parts ((pat, mk) # rls) allowed = try_rules m acc adds parts rls allowed"
  by (simp_all add: invoke_if_def)

lemma try_rules_hit [simp]:
  "match_rule pat parts = Some (args, []) \<Longrightarrow> try_rules m acc adds parts ((pat, mk) # rls) allowed =
     bindR (mk args) (\<lambda>h. if m \<in> set acc then okR (Some h, allowed) else try_rules m acc adds parts rls (allowed OR adds))"
  by (simp add: invoke_if_def bindR_def okR_def fun_eq_iff split: prod.splits sum.splits)

lemma u32_arg [simp]: "0 < v \<Longrightarrow> v < 2 ^ 32 \<Longrightarrow> u32 v = v"
  by (simp add: u32_def)

lemma bound64 [simp]: "(i :: int) < 2 ^ 32 \<Longrightarrow> i < 2 ^ 64" "(i :: int) < 2 ^ 63 \<Longrightarrow> i < 2 ^ 64"
  by simp_all

lemma okR_run [simp]: "okR x r = (Inr x, r)"
  by (simp add: okR_def)

lemma bindR_run: "m r = (Inr x, r') \<Longrightarrow> bindR m f r = f x r'"
  by (simp add: bindR_def)

lemma bindR_assoc [simp]: "bindR (bindR m f) g = bindR m (\<lambda>x. bindR (f x) g)"
  by (simp add: bindR_def fun_eq_iff split: prod.splits sum.splits)

lemma words_are_no_ids [simp]:
  "match_part match_osm_id ''ways'' = None" "match_part match_osm_id ''relations'' = None"
  "match_part match_osm_id ''history'' = None" "match_part match_osm_id ''full'' = None"
  "match_part match_osm_id ''download'' = None" "match_part match_osm_id ''upload'' = None"
  "match_part match_osm_id ''close'' = None" "match_part match_osm_id ''create'' = None"
  by (simp_all add: match_osm_id_word is_digit_def)

lemma fmt_d_not_word: "0 < i \<Longrightarrow> \<not> list_all is_digit w \<Longrightarrow> fmt_d i \<noteq> w"
  using fmt_d_digits(1) [of i] by auto

lemma fmt_d_route_words [simp]:
  assumes "0 < i"
  shows "fmt_d i \<noteq> ''ways''" "fmt_d i \<noteq> ''relations''" "fmt_d i \<noteq> ''history''" "fmt_d i \<noteq> ''full''" "fmt_d i \<noteq> ''create''"
  using assms fmt_d_not_word [of i] by (simp_all add: is_digit_def)

lemma make_ids_handler_run: "validate_ids param r = Inr ids \<Longrightarrow> make_ids_handler param mk r = (Inr (mk ids), r)"
  by (simp add: make_ids_handler_def bindR_def okR_def)

lemma make_changeset_handler_run:
  "query_params r = Inr ps \<Longrightarrow> make_changeset_handler i r =
     (Inr (changeset_handler i (find (\<lambda>p. fst p = ''include_discussion'') ps \<noteq> None)), r)"
  by (simp add: make_changeset_handler_def bindR_def okR_def)

lemma make_map_handler_run:
  assumes "open_request r" "bindE (get_query_string r) (map_validate_request area_max) = Inr b"
  shows "\<exists>r'. make_map_handler area_max r = (Inr (map_handler b), r')"
  using assms by (auto simp: make_map_handler_def open_request_def workflow_defs)

lemmas route_eval = match_verb_def rules_get_def rules_post_def rules_put_def no_arg_def id_arg_def version_args_def
  changeset_arg_def bindR_run make_ids_handler_run make_changeset_handler_run

declare try_rules.simps(2) [simp del]

lemma match_verb_update:
  assumes "0 < i" "i < 2 ^ 63" "query_params r = Inr ps"
  shows "match_verb area_max PUT [''changeset'', fmt_d i] r = (Inr (Some (changeset_update_handler i)), r)"
  using assms by (simp add: route_eval cong: if_cong)

lemma match_verb_changeset:
  assumes "0 < i" "i < 2 ^ 63" "query_params r = Inr ps" "m \<in> {GET, HEAD, OPTIONS}"
  shows "match_verb area_max m [''changeset'', fmt_d i] r =
    (Inr (Some (changeset_handler i (find (\<lambda>p. fst p = ''include_discussion'') ps \<noteq> None))), r)"
  using assms by (simp add: route_eval cong: if_cong)

lemma match_verb_map:
  assumes "open_request r" "bindE (get_query_string r) (map_validate_request area_max) = Inr b" "m \<in> {GET, HEAD, OPTIONS}"
  shows "\<exists>r'. match_verb area_max m [''map''] r = (Inr (Some (map_handler b)), r')"
proof -
  from make_map_handler_run [OF assms(1,2)] obtain r' where "make_map_handler area_max r = (Inr (map_handler b), r')" by blast
  then show ?thesis using assms(3) by (simp add: route_eval cong: if_cong)
qed

lemma match_verb_write:
  assumes "0 < i" "i < 2 ^ 63"
  shows "m \<in> {POST, OPTIONS} \<Longrightarrow>
      match_verb area_max m [''changeset'', fmt_d i, ''upload''] r = (Inr (Some (changeset_upload_handler i)), r)"
    "m \<in> {PUT, OPTIONS} \<Longrightarrow>
      match_verb area_max m [''changeset'', fmt_d i, ''close''] r = (Inr (Some (changeset_close_handler i)), r)"
    "m \<in> {PUT, OPTIONS} \<Longrightarrow> match_verb area_max m [''changeset'', ''create''] r = (Inr (Some changeset_create_handler), r)"
  using assms by (auto simp add: route_eval cong: if_cong)

lemma match_verb_handler:
  assumes "addressed area_max r h" "open_request r" "m \<in> verbs h"
  shows "\<exists>r'. match_verb area_max m (segments h) r = (Inr (Some h), r')"
  using assms
proof (cases h)
  case (map_handler b)
  with assms match_verb_map show ?thesis by simp
next
  case (changeset_update_handler i)
  with assms match_verb_update show ?thesis by auto
next
  case (changeset_handler i discussion)
  with assms match_verb_changeset show ?thesis by auto
next
  case (changeset_upload_handler i)
  with assms match_verb_write show ?thesis by simp
next
  case (changeset_close_handler i)
  with assms match_verb_write show ?thesis by simp
next
  case changeset_create_handler
  with assms match_verb_write(3) [of 1] show ?thesis by simp
qed (use assms in \<open>simp_all add: route_eval cong: if_cong\<close>)

section \<open>What routing leaves\<close>

declare okR_run [simp del]

text \<open>
  Running an operation on a request with the environment \<open>e\<close> to which nothing has been sent: it
  stays that way, and a result satisfies \<open>Q\<close>.
\<close>

definition ensures :: "(string \<Rightarrow> string option) \<Rightarrow> 'a rq \<Rightarrow> ('a \<Rightarrow> bool) \<Rightarrow> bool" where
  "ensures e m Q \<longleftrightarrow> (\<forall>r. open_request r \<and> rq_env r = e \<longrightarrow>
     open_request (snd (m r)) \<and> rq_env (snd (m r)) = e \<and> (\<forall>x. fst (m r) = Inr x \<longrightarrow> Q x))"

lemma ensures_okR [intro]: "Q x \<Longrightarrow> ensures e (okR x) Q"
  by (simp add: ensures_def okR_def)

lemma ensures_throw [intro]: "ensures e (liftR (Inl ex)) Q"
  by (simp add: ensures_def liftR_def)

lemma ensures_read: "(\<And>r x. rq_env r = e \<Longrightarrow> f r = Inr x \<Longrightarrow> Q x) \<Longrightarrow> ensures e (\<lambda>r. (f r, r)) Q"
  by (auto simp: ensures_def)

lemma ensures_bindR:
  assumes "ensures e m Q" "\<And>x. Q x \<Longrightarrow> ensures e (f x) R" shows "ensures e (bindR m f) R"
  unfolding ensures_def
proof (intro allI impI)
  fix r assume r: "open_request r \<and> rq_env r = e"
  obtain v r1 where m: "m r = (v, r1)" by fastforce
  with assms(1) r have r1: "open_request r1 \<and> rq_env r1 = e" and Q: "\<And>x. v = Inr x \<Longrightarrow> Q x"
    by (auto simp: ensures_def)
  show "open_request (snd (bindR m f r)) \<and> rq_env (snd (bindR m f r)) = e \<and> (\<forall>x. fst (bindR m f r) = Inr x \<longrightarrow> R x)"
  proof (cases v)
    case (Inr x)
    with assms(2) [OF Q] r1 show ?thesis by (simp add: bindR_def m ensures_def)
  qed (use r1 in \<open>simp add: bindR_def m\<close>)
qed

lemma ensures_weaken: "ensures e m Q \<Longrightarrow> (\<And>x. Q x \<Longrightarrow> R x) \<Longrightarrow> ensures e m R"
  by (auto simp: ensures_def)

lemma ensures_add_success_header: "ensures e (add_success_header k v) (\<lambda>_. True)"
  by (auto simp: ensures_def open_request_def workflow_defs)

lemma ensures_invoke_if:
  assumes "\<And>args. ensures e (snd rl args) Q" shows "ensures e (invoke_if rl parts) (\<lambda>hptr. \<forall>h. hptr = Some h \<longrightarrow> Q h)"
proof -
  have "ensures e (bindR (snd rl args) (\<lambda>h. okR (Some h))) (\<lambda>hptr. \<forall>h. hptr = Some h \<longrightarrow> Q h)" for args
    by (rule ensures_bindR [OF assms]) (simp add: ensures_okR)
  then show ?thesis by (auto simp: invoke_if_def split: option.splits list.splits)
qed

lemma ensures_try_rules:
  assumes "\<forall>rl\<in>set rls. \<forall>args. ensures e (snd rl args) Q"
  shows "ensures e (try_rules m accepted adds parts rls allowed) (\<lambda>(hptr, _). \<forall>h. hptr = Some h \<longrightarrow> m \<in> set accepted \<and> Q h)"
  using assms
proof (induction rls arbitrary: allowed)
  case Nil
  show ?case by (simp add: ensures_okR)
next
  case (Cons rl rls)
  let ?Q = "\<lambda>(hptr, _). \<forall>h. hptr = Some h \<longrightarrow> m \<in> set accepted \<and> Q h"
  show ?case unfolding try_rules.simps
  proof (rule ensures_bindR [OF ensures_invoke_if])
    show "ensures e (snd rl args) Q" for args using Cons.prems by simp
    fix hptr assume hptr: "\<forall>h. hptr = Some h \<longrightarrow> Q h"
    show "ensures e (case hptr of None \<Rightarrow> try_rules m accepted adds parts rls allowed
       | Some h \<Rightarrow> if m \<in> set accepted then okR (Some h, allowed) else try_rules m accepted adds parts rls (allowed OR adds)) ?Q"
      using hptr Cons.IH [of allowed] Cons.IH [of "allowed OR adds"] Cons.prems
      by (cases hptr; cases "m \<in> set accepted") (simp_all add: ensures_okR)
  qed
qed

lemma rules_ensure:
  "\<forall>rl\<in>set (rules_get area_max). \<forall>args. ensures e (snd rl args) (\<lambda>h. allowed_methods h = default_methods)"
  "\<forall>rl\<in>set rules_post. \<forall>args. ensures e (snd rl args) (\<lambda>h. allowed_methods h = POST OR OPTIONS)"
  "\<forall>rl\<in>set rules_put. \<forall>args. ensures e (snd rl args) (\<lambda>h. allowed_methods h = PUT OR OPTIONS)"
proof -
  have ids: "ensures e (make_ids_handler p mk) (\<lambda>h. allowed_methods h = default_methods)"
    if "\<And>ids. allowed_methods (mk ids) = default_methods" for p mk
    unfolding make_ids_handler_def by (rule ensures_bindR [OF ensures_read [of e _ "\<lambda>_. True"]]) (simp_all add: ensures_okR that)
  have map_h: "ensures e (make_map_handler area_max) (\<lambda>h. allowed_methods h = default_methods)"
    unfolding make_map_handler_def
    by (rule ensures_bindR [OF ensures_read [of e _ "\<lambda>_. True"]], simp, rule ensures_bindR [OF ensures_add_success_header])
      (simp add: ensures_okR)
  have cs: "ensures e (make_changeset_handler i) (\<lambda>h. allowed_methods h = default_methods)" for i
    unfolding make_changeset_handler_def by (rule ensures_bindR [OF ensures_read [of e _ "\<lambda>_. True"]]) (simp_all add: ensures_okR)
  show "\<forall>rl\<in>set (rules_get area_max). \<forall>args. ensures e (snd rl args) (\<lambda>h. allowed_methods h = default_methods)"
    by (simp add: rules_get_def no_arg_def id_arg_def version_args_def changeset_arg_def ids map_h cs ensures_okR)
qed (simp_all add: rules_post_def rules_put_def no_arg_def changeset_arg_def ensures_okR)

lemma methods_allowed:
  "m \<in> {GET, HEAD, OPTIONS} \<Longrightarrow> m AND default_methods = m" "m \<in> {POST, OPTIONS} \<Longrightarrow> m AND (POST OR OPTIONS) = m"
  "m \<in> {PUT, OPTIONS} \<Longrightarrow> m AND (PUT OR OPTIONS) = m"
  by (auto simp: default_methods_def GET_def HEAD_def OPTIONS_def POST_def PUT_def)

lemma ensures_match_verb:
  "ensures e (match_verb area_max m parts) (\<lambda>hptr. \<forall>h. hptr = Some h \<longrightarrow> allows_method m h)"
proof -
  let ?Q = "\<lambda>hptr. \<forall>h. hptr = Some h \<longrightarrow> allows_method m h"
  have g: "ensures e (try_rules m [GET, HEAD, OPTIONS] (GET OR HEAD) parts (rules_get area_max) a) (\<lambda>(hptr, _). ?Q hptr)" for a
    using ensures_try_rules [OF rules_ensure(1), of e m "[GET, HEAD, OPTIONS]"] 
    by (rule ensures_weaken) (use methods_allowed(1) [of m] in \<open>auto simp: allows_method_def\<close>)
  have p: "ensures e (try_rules m [POST, OPTIONS] POST parts rules_post a) (\<lambda>(hptr, _). ?Q hptr)" for a
    using ensures_try_rules [OF rules_ensure(2), of e m "[POST, OPTIONS]"]
    by (rule ensures_weaken) (use methods_allowed(2) [of m] in \<open>auto simp: allows_method_def\<close>)
  have u: "ensures e (try_rules m [PUT, OPTIONS] PUT parts rules_put a) (\<lambda>(hptr, _). ?Q hptr)" for a
    using ensures_try_rules [OF rules_ensure(3), of e m "[PUT, OPTIONS]"]
    by (rule ensures_weaken) (use methods_allowed(3) [of m] in \<open>auto simp: allows_method_def\<close>)
  show ?thesis unfolding match_verb_def
    by (rule ensures_bindR [OF g], clarsimp intro!: ensures_okR, intro impI conjI ensures_okR ensures_bindR [OF p],
      auto intro!: ensures_okR ensures_throw ensures_bindR [OF u] split: if_splits)
qed

text \<open>A handler that is found serves the verb of the request.\<close>

lemma ensures_route:
  "ensures e (route area_max) (\<lambda>(h, mt). \<exists>v m. e ''REQUEST_METHOD'' = Some v \<and> parse_method v = Some m \<and> allows_method m h)"
proof -
  let ?P = "\<lambda>h. \<exists>v m. e ''REQUEST_METHOD'' = Some v \<and> parse_method v = Some m \<and> allows_method m h"
  have verb: "ensures e (\<lambda>r. (fcgi_get_env ''REQUEST_METHOD'' None r, r)) (\<lambda>v. e ''REQUEST_METHOD'' = Some v)"
    by (rule ensures_read) (auto simp: fcgi_get_env_def get_param_def split: option.splits)
  have rm: "ensures e (router_match area_max parts) (\<lambda>hptr. \<forall>h. hptr = Some h \<longrightarrow> ?P h)" for parts
    unfolding router_match_def
  proof (rule ensures_bindR [OF verb])
    fix v assume v: "e ''REQUEST_METHOD'' = Some v"
    show "ensures e (case parse_method v of None \<Rightarrow> okR None | Some m \<Rightarrow> match_verb area_max m parts)
      (\<lambda>hptr. \<forall>h. hptr = Some h \<longrightarrow> ?P h)"
    proof (cases "parse_method v")
      case (Some m)
      then show ?thesis using v ensures_weaken [OF ensures_match_verb] by simp
    qed (simp add: ensures_okR)
  qed
  have rr: "ensures e (route_resource area_max path) (\<lambda>hptr. \<forall>hm. hptr = Some hm \<longrightarrow> ?P (fst hm))" for path
    by (cases "resource_mime_type path") (auto simp: route_resource_def intro!: ensures_bindR [OF rm] ensures_okR)
  show ?thesis unfolding route_def
  proof (rule ensures_bindR [OF ensures_read [of e _ "\<lambda>_. True"]], simp, rule ensures_bindR)
    fix path
    show "ensures e (if take (length common_prefix) path = common_prefix
      then route_resource area_max (drop (length common_prefix) path) else okR None) (\<lambda>hptr. \<forall>hm. hptr = Some hm \<longrightarrow> ?P (fst hm))"
      using rr by (simp add: ensures_okR)
    fix hptr :: "(api_handler \<times> mime_type) option" assume "\<forall>hm. hptr = Some hm \<longrightarrow> ?P (fst hm)"
    then show "ensures e (case hptr of None \<Rightarrow> liftR (Inl (no_route path)) | Some hm \<Rightarrow> okR hm) (\<lambda>(h, mt). ?P h)"
      by (cases hptr) (auto intro!: ensures_okR ensures_throw simp del: ex_simps)
  qed
qed

section \<open>From the URL\<close>

fun type_suffix :: "mime_type \<Rightarrow> string" where
  "type_suffix application_json = ''.json''"
| "type_suffix application_xml = ''.xml''"
| "type_suffix _ = []"

lemma ends_with_append [simp]: "ends_with suf (s @ suf)"
  by (simp add: ends_with_def)

lemma ends_withD: "ends_with suf s \<Longrightarrow> \<exists>p. s = p @ suf"
  unfolding ends_with_def by (metis append_take_drop_id)

lemma ends_with_chars: "ends_with suf s \<Longrightarrow> set suf \<subseteq> set s"
  unfolding ends_with_def by (metis set_drop_subset)

lemma segments_free: "addressed area_max r h \<Longrightarrow> seg \<in> set (segments h) \<Longrightarrow> CHR ''/'' \<notin> set seg \<and> CHR ''.'' \<notin> set seg"
  by (cases h) (auto simp: is_digit_def dest!: fmt_d_chars)

lemma join_with_chars: "c \<in> set (join_with sep ss) \<Longrightarrow> c \<in> set sep \<or> (\<exists>s\<in>set ss. c \<in> set s)"
  by (induction sep ss rule: join_with.induct) auto


lemma resource_of_segments:
  assumes "addressed area_max r h" "mt \<in> {application_json, application_xml, unspecified_type}"
  shows "resource_mime_type (join_with ''/'' (segments h) @ type_suffix mt) = (join_with ''/'' (segments h), mt)"
proof -
  have dot: "CHR ''.'' \<notin> set (join_with ''/'' (segments h))" using segments_free [OF assms(1)] join_with_chars by fastforce
  have "\<not> ends_with ''.json'' (s @ ''.xml'')" for s
  proof
    assume "ends_with ''.json'' (s @ ''.xml'')"
    then obtain p where "s @ ''.xml'' = p @ ''.json''" using ends_withD by blast
    then have "last (s @ ''.xml'') = last (p @ ''.json'')" by simp
    then show False by simp
  qed
  moreover have "\<not> ends_with ''.json'' (join_with ''/'' (segments h))" "\<not> ends_with ''.xml'' (join_with ''/'' (segments h))"
    using dot ends_with_chars by fastforce+
  ultimately show ?thesis using assms(2) ends_with_append [of "''.json''"] ends_with_append [of "''.xml''"]
    by (auto simp: resource_mime_type_def)
qed

lemma segments_not_Nil: "segments h \<noteq> [[]]"
  by (cases h) simp_all

text \<open>Every handler has a URL: its path with an optional suffix for the type of the response.\<close>

lemma route_handler:
  assumes "addressed area_max r h" "open_request r" "mt \<in> {application_json, application_xml, unspecified_type}"
    and "get_request_path r = Inr (common_prefix @ join_with ''/'' (segments h) @ type_suffix mt)"
    and "get_param ''REQUEST_METHOD'' r = Some v" "parse_method v = Some m" "m \<in> verbs h"
  shows "\<exists>r'. route area_max r = (Inr (h, mt), r')"
proof -
  obtain r' where match: "match_verb area_max m (segments h) r = (Inr (Some h), r')"
    using match_verb_handler [OF assms(1,2,7)] by blast
  have "split (join_with ''/'' (segments h)) CHR ''/'' = segments h"
    using segments_free [OF assms(1)] segments_not_Nil by (intro split_join) auto
  moreover have "router_match area_max (segments h) r = (Inr (Some h), r')"
    using assms(5,6) match by (simp add: router_match_def bindR_def fcgi_get_env_def)
  ultimately have "route_resource area_max (join_with ''/'' (segments h) @ type_suffix mt) r = (Inr (Some (h, mt)), r')"
    by (simp add: route_resource_def resource_of_segments [OF assms(1,3)] bindR_def okR_def)
  then show ?thesis using assms(4) by (simp add: route_def bindR_def okR_def)
qed

end
