(* ===== verification/Changeset_API.thy ===== *)
theory Changeset_API
  imports Upload
begin

text \<open>
  The parser for the changeset documents of a create or update request
  (\<^verbatim>\<open>include/cgimap/api06/changeset_upload/changeset_input_format.hpp\<close>) and the responders of
  \<^verbatim>\<open>src/api06/changeset_create_handler.cpp\<close>, \<^verbatim>\<open>changeset_update_handler.cpp\<close> and
  \<^verbatim>\<open>changeset_close_handler.cpp\<close>.
\<close>

section \<open>The parser\<close>

datatype cset_context = cx_root | cx_top | cx_in_changeset | cx_in_tag

record cset_parser =
  cx_context :: cset_context
  cx_tags :: "(string \<times> string) list"
  cx_found :: bool

definition init_cset_parser :: cset_parser where
  "init_cset_parser = \<lparr>cx_context = cx_root, cx_tags = [], cx_found = False\<rparr>"

text \<open>\<^verbatim>\<open>m_tags[key] = value\<close> on a map in the order of its keys.\<close>

definition assign_tag :: "string \<Rightarrow> string \<Rightarrow> (string \<times> string) list \<Rightarrow> (string \<times> string) list" where
  "assign_tag key value ts = insort_key fst (key, value) (filter (\<lambda>t. fst t \<noteq> key) ts)"

definition cset_add_tag :: "(string \<Rightarrow> nat option) \<Rightarrow> string \<Rightarrow> string \<Rightarrow> cset_parser \<Rightarrow> cset_parser result" where
  "cset_add_tag mbslen key value p =
     bindE (throw_if (key = []) (payload_error ''Key may not be empty'')) (\<lambda>_.
     bindE (unicode_strlen mbslen key) (\<lambda>klen.
     bindE (throw_if (klen > 255) (payload_error ''Key has more than 255 unicode characters'')) (\<lambda>_.
     bindE (unicode_strlen mbslen value) (\<lambda>vlen.
     bindE (throw_if (vlen > 255) (payload_error ''Value has more than 255 unicode characters'')) (\<lambda>_.
     Inr (p\<lparr>cx_tags := assign_tag key value (cx_tags p)\<rparr>))))))"

definition cset_tag_element :: "(string \<Rightarrow> nat option) \<Rightarrow> attrs \<Rightarrow> cset_parser \<Rightarrow> cset_parser result" where
  "cset_tag_element mbslen attrs p =
     (case last_attr ''k'' attrs of
        None \<Rightarrow> Inl (payload_error ''Mandatory field k missing in tag element'')
      | Some k \<Rightarrow>
          (case last_attr ''v'' attrs of
             None \<Rightarrow> Inl (payload_error ''Mandatory field v missing in tag element'')
           | Some v \<Rightarrow> cset_add_tag mbslen k v p))"

definition cset_start_element :: "(string \<Rightarrow> nat option) \<Rightarrow> string \<Rightarrow> attrs \<Rightarrow> cset_parser \<Rightarrow> cset_parser result" where
  "cset_start_element mbslen name attrs p =
     (case cx_context p of
        cx_root \<Rightarrow>
          (if name = ''osm'' then Inr (p\<lparr>cx_context := cx_top\<rparr>)
           else Inl (payload_error ''Unknown top-level element, expecting osm''))
      | cx_top \<Rightarrow>
          (if name = ''changeset'' then Inr (p\<lparr>cx_context := cx_in_changeset, cx_found := True\<rparr>)
           else Inl (payload_error ''Unknown element, expecting changeset''))
      | cx_in_changeset \<Rightarrow>
          (if name = ''tag'' then cset_tag_element mbslen attrs (p\<lparr>cx_context := cx_in_tag\<rparr>)
           else Inl (payload_error ''Unknown element, expecting tag''))
      | cx_in_tag \<Rightarrow> Inr p)"

definition no_changeset_element :: exn where
  "no_changeset_element = payload_error
     (''Cannot parse valid changeset from xml string. XML doesn'' @ [CHR 0x27] @ ''t contain an osm/changeset element'')"

definition cset_end_element :: "string \<Rightarrow> cset_parser \<Rightarrow> cset_parser result" where
  "cset_end_element name p =
     (case cx_context p of
        cx_root \<Rightarrow> Inl (assertion_failed ''false'')
      | cx_top \<Rightarrow>
          bindE (assert_element name ''osm'') (\<lambda>_.
          bindE (throw_if (\<not> cx_found p) no_changeset_element) (\<lambda>_. Inr (p\<lparr>cx_context := cx_root\<rparr>)))
      | cx_in_changeset \<Rightarrow>
          bindE (assert_element name ''changeset'') (\<lambda>_. Inr (p\<lparr>cx_context := cx_top\<rparr>))
      | cx_in_tag \<Rightarrow>
          bindE (assert_element name ''tag'') (\<lambda>_. Inr (p\<lparr>cx_context := cx_in_changeset\<rparr>)))"

definition cset_event ::
    "(string \<Rightarrow> nat option) \<Rightarrow> (int \<times> int) option \<times> sax_event \<Rightarrow> cset_parser \<Rightarrow> cset_parser result" where
  "cset_event mbslen = (\<lambda>(loc, ev) p.
     case (case ev of
             start_element name attrs \<Rightarrow> cset_start_element mbslen name attrs p
           | end_element name \<Rightarrow> cset_end_element name p) of
       Inl e \<Rightarrow> Inl (with_location loc e)
     | Inr p' \<Rightarrow> Inr p')"

definition cset_process_message :: "(string \<Rightarrow> nat option) \<Rightarrow> sax_run \<Rightarrow> (string \<times> string) list result" where
  "cset_process_message mbslen run =
     bindE (foldE (cset_event mbslen) (sx_events run) init_cset_parser) (\<lambda>p.
     case sx_error run of None \<Rightarrow> Inr (cx_tags p) | Some msg \<Rightarrow> Inl (bad_request msg))"

section \<open>The responders\<close>

text \<open>The result is what is committed and the text of the response.\<close>

definition changeset_create_responder ::
    "cs_env \<Rightarrow> (string \<Rightarrow> nat option) \<Rightarrow> sax_run \<Rightarrow> db \<Rightarrow> (string \<times> db) result" where
  "changeset_create_responder env mbslen payload d =
     bindE (init_changeset_updater env 0) (\<lambda>u.
     bindE (cset_process_message mbslen payload) (\<lambda>tags.
     bindE (api_create_changeset env tags u d) (\<lambda>(changeset, u1, d1).
     Inr (fmt_d changeset, d1))))"

definition changeset_update_responder ::
    "cs_env \<Rightarrow> (string \<Rightarrow> nat option) \<Rightarrow> osm_changeset_id_t \<Rightarrow> sax_run \<Rightarrow> db \<Rightarrow> db result" where
  "changeset_update_responder env mbslen changeset_id payload d =
     bindE (init_changeset_updater env changeset_id) (\<lambda>u.
     bindE (cset_process_message mbslen payload) (\<lambda>tags.
     bindE (api_update_changeset env tags u d) (\<lambda>(u1, d1). Inr d1)))"

definition changeset_close_responder :: "cs_env \<Rightarrow> osm_changeset_id_t \<Rightarrow> db \<Rightarrow> db result" where
  "changeset_close_responder env changeset d =
     bindE (init_changeset_updater env changeset) (\<lambda>u.
     bindE (api_close_changeset env u d) (\<lambda>(u1, d1). Inr d1))"

section \<open>A recursive reading\<close>

text \<open>
  What the parser is meant to do with a document: the tags of the changeset elements, a later
  value for a key replacing an earlier one.
\<close>

fun read_cset_tag :: "(string \<Rightarrow> nat option) \<Rightarrow> xml \<Rightarrow> cset_parser \<Rightarrow> cset_parser result" where
  "read_cset_tag mbslen (elem name attrs kids) p =
     (if name = ''tag'' then cset_tag_element mbslen attrs p
      else Inl (payload_error ''Unknown element, expecting tag''))"

fun read_cset :: "(string \<Rightarrow> nat option) \<Rightarrow> xml \<Rightarrow> cset_parser \<Rightarrow> cset_parser result" where
  "read_cset mbslen (elem name attrs kids) p =
     (if name = ''changeset'' then foldE (read_cset_tag mbslen) kids (p\<lparr>cx_found := True\<rparr>)
      else Inl (payload_error ''Unknown element, expecting changeset''))"

fun read_cset_document :: "(string \<Rightarrow> nat option) \<Rightarrow> xml \<Rightarrow> (string \<times> string) list result" where
  "read_cset_document mbslen (elem name attrs kids) =
     (if name = ''osm'' then
        bindE (foldE (read_cset mbslen) kids init_cset_parser) (\<lambda>p.
        if cx_found p then Inr (cx_tags p) else Inl no_changeset_element)
      else Inl (payload_error ''Unknown top-level element, expecting osm''))"

text \<open>Documents whose tag elements, three levels down, are empty.\<close>

definition empty_tags :: "xml \<Rightarrow> bool" where
  "empty_tags t \<longleftrightarrow> (\<forall>c\<in>set (xml_kids t). \<forall>g\<in>set (xml_kids c). xml_kids g = [])"

abbreviation cset_run :: "(string \<Rightarrow> nat option) \<Rightarrow> sax_event list \<Rightarrow> cset_parser \<Rightarrow> cset_parser result" where
  "cset_run mbslen evs \<equiv> foldE (cset_event mbslen) (map (Pair None) evs)"

lemma cset_event_None [simp]:
  "cset_event mbslen (None, start_element name attrs) p = cset_start_element mbslen name attrs p"
  "cset_event mbslen (None, end_element name) p = cset_end_element name p"
  by (simp_all add: cset_event_def split: sum.splits)

lemma cset_last_event [simp]: "foldE (cset_event mbslen) [(None, end_element name)] = cset_end_element name"
proof
  show "foldE (cset_event mbslen) [(None, end_element name)] p = cset_end_element name p" for p
    by (cases "cset_end_element name p") simp_all
qed

lemma cset_tag_element_context:
  "cset_tag_element mbslen attrs (p\<lparr>cx_context := c\<rparr>) =
     bindE (cset_tag_element mbslen attrs p) (\<lambda>q. Inr (q\<lparr>cx_context := c\<rparr>))"
  by (cases p) (simp add: cset_tag_element_def cset_add_tag_def bindE_assoc split: option.splits)

lemma cset_tag_element_keeps:
  assumes "cset_tag_element mbslen attrs p = Inr q" shows "cx_context q = cx_context p" "cx_found q = cx_found p"
  using assms by (auto simp: cset_tag_element_def cset_add_tag_def result_simps split: option.splits)

lemma cset_tag_events:
  assumes "xml_kids g = []" "cx_context p = cx_in_changeset"
  shows "cset_run mbslen (events_of g) p = read_cset_tag mbslen g p"
proof -
  obtain name attrs where g: "g = elem name attrs []" using assms(1) by (cases g) simp
  show ?thesis
  proof (cases "cset_tag_element mbslen attrs p")
    case (Inr q)
    then have "cx_context q = cx_in_changeset" using assms(2) cset_tag_element_keeps by simp
    then have "q\<lparr>cx_context := cx_in_changeset\<rparr> = q" by simp
    then show ?thesis using Inr assms(2)
      by (simp add: g cset_start_element_def cset_end_element_def cset_tag_element_context assert_element_def throw_if_def)
  qed (use assms(2) in \<open>simp add: g cset_start_element_def cset_tag_element_context\<close>)
qed

lemma read_cset_tag_keeps:
  "read_cset_tag mbslen g p = Inr q \<Longrightarrow> cx_context q = cx_context p \<and> cx_found q = cx_found p"
  by (cases g) (auto split: if_splits dest: cset_tag_element_keeps)

lemma foldE_concat_map:
  assumes "\<And>x p. x \<in> set xs \<Longrightarrow> I p \<Longrightarrow> foldE f (g x) p = h x p"
    and "\<And>x p q. x \<in> set xs \<Longrightarrow> I p \<Longrightarrow> h x p = Inr q \<Longrightarrow> I q" and "I p"
  shows "foldE f (concat (map g xs)) p = foldE h xs p \<and> (\<forall>q. foldE h xs p = Inr q \<longrightarrow> I q)"
  using assms
proof (induction xs arbitrary: p)
  case (Cons x xs)
  show ?case
  proof (cases "h x p")
    case (Inr q)
    with Cons.prems have "I q" by (meson list.set_intros(1))
    then have "foldE f (concat (map g xs)) q = foldE h xs q \<and> (\<forall>r. foldE h xs q = Inr r \<longrightarrow> I r)"
      using Cons.prems by (intro Cons.IH) (meson list.set_intros(2))+
    then show ?thesis using Inr Cons.prems(1) [of x p] Cons.prems(3) by (simp add: foldE_append)
  qed (use Cons.prems(1) [of x p] Cons.prems(3) in \<open>simp add: foldE_append\<close>)
qed simp

lemma cset_tags_events:
  assumes "\<forall>g\<in>set gs. xml_kids g = []" "cx_context p = cx_in_changeset"
  shows "foldE (cset_event mbslen) (concat (map (\<lambda>g. map (Pair None) (events_of g)) gs)) p = foldE (read_cset_tag mbslen) gs p \<and>
    (\<forall>q. foldE (read_cset_tag mbslen) gs p = Inr q \<longrightarrow> cx_context q = cx_in_changeset)"
  by (rule foldE_concat_map) (use assms cset_tag_events read_cset_tag_keeps in auto)

lemma foldE_tags_context:
  "foldE (read_cset_tag mbslen) gs (p\<lparr>cx_context := c\<rparr>) =
     bindE (foldE (read_cset_tag mbslen) gs p) (\<lambda>q. Inr (q\<lparr>cx_context := c\<rparr>))"
proof (induction gs arbitrary: p)
  case (Cons g gs)
  have "read_cset_tag mbslen g (p\<lparr>cx_context := c\<rparr>) = bindE (read_cset_tag mbslen g p) (\<lambda>q. Inr (q\<lparr>cx_context := c\<rparr>))"
    by (cases g) (simp add: cset_tag_element_context)
  then show ?case using Cons by (cases "read_cset_tag mbslen g p") simp_all
qed simp

lemma cset_events:
  assumes "\<forall>g\<in>set (xml_kids t). xml_kids g = []" "cx_context p = cx_top"
  shows "cset_run mbslen (events_of t) p = read_cset mbslen t p"
proof -
  obtain name attrs gs where t: "t = elem name attrs gs" by (cases t)
  define p1 where "p1 = p\<lparr>cx_context := cx_in_changeset, cx_found := True\<rparr>"
  have p: "p\<lparr>cx_found := True\<rparr> = p1\<lparr>cx_context := cx_top\<rparr>" using assms(2) by (simp add: p1_def)
  have run: "cset_run mbslen (concat (map events_of gs)) p1 = foldE (read_cset_tag mbslen) gs p1"
    and stays: "\<And>q. foldE (read_cset_tag mbslen) gs p1 = Inr q \<Longrightarrow> cx_context q = cx_in_changeset"
    using cset_tags_events [of gs p1 mbslen] assms(1) by (simp_all add: t p1_def map_concat comp_def)
  show ?thesis
  proof (cases "name = ''changeset''")
    case True
    then have "cset_run mbslen (events_of t) p = bindE (foldE (read_cset_tag mbslen) gs p1) (cset_end_element ''changeset'')"
      using assms(2) run by (simp add: t cset_start_element_def foldE_append flip: p1_def)
    also have "\<dots> = bindE (foldE (read_cset_tag mbslen) gs p1) (\<lambda>q. Inr (q\<lparr>cx_context := cx_top\<rparr>))"
      using stays by (cases "foldE (read_cset_tag mbslen) gs p1") (simp_all add: cset_end_element_def assert_element_def throw_if_def)
    also have "\<dots> = read_cset mbslen t p" using True by (simp add: t p foldE_tags_context)
    finally show ?thesis .
  qed (use assms(2) in \<open>simp add: t cset_start_element_def\<close>)
qed

lemma read_cset_keeps: "read_cset mbslen t p = Inr q \<Longrightarrow> cx_context q = cx_context p"
proof (cases t)
  case (elem name attrs gs)
  have "foldE (read_cset_tag mbslen) gs p = Inr q \<Longrightarrow> cx_context q = cx_context p" for p
    by (induction gs arbitrary: p) (auto simp: result_simps dest!: read_cset_tag_keeps)
  then show "read_cset mbslen t p = Inr q \<Longrightarrow> ?thesis" using elem by (auto split: if_splits)
qed

lemma foldE_csets_context:
  "foldE (read_cset mbslen) ts (p\<lparr>cx_context := c\<rparr>) =
     bindE (foldE (read_cset mbslen) ts p) (\<lambda>q. Inr (q\<lparr>cx_context := c\<rparr>))"
proof (induction ts arbitrary: p)
  case (Cons t ts)
  have found: "(p\<lparr>cx_context := c\<rparr>)\<lparr>cx_found := True\<rparr> = (p\<lparr>cx_found := True\<rparr>)\<lparr>cx_context := c\<rparr>" by (cases p) simp
  have "read_cset mbslen t (p\<lparr>cx_context := c\<rparr>) = bindE (read_cset mbslen t p) (\<lambda>q. Inr (q\<lparr>cx_context := c\<rparr>))"
  proof (cases t)
    case (elem name attrs gs)
    show ?thesis unfolding elem read_cset.simps found foldE_tags_context by simp
  qed
  then show ?case using Cons by (cases "read_cset mbslen t p") simp_all
qed simp

lemma csets_events:
  assumes "\<forall>t\<in>set ts. \<forall>g\<in>set (xml_kids t). xml_kids g = []" "cx_context p = cx_top"
  shows "foldE (cset_event mbslen) (concat (map (\<lambda>t. map (Pair None) (events_of t)) ts)) p = foldE (read_cset mbslen) ts p \<and>
    (\<forall>q. foldE (read_cset mbslen) ts p = Inr q \<longrightarrow> cx_context q = cx_top)"
  by (rule foldE_concat_map) (use assms cset_events read_cset_keeps in auto)

text \<open>The state machine reads the documents it is meant for as the recursion does.\<close>

lemma cset_parser_reads:
  assumes "empty_tags t"
  shows "cset_process_message mbslen (unlocated (events_of t)) = read_cset_document mbslen t"
proof -
  obtain name attrs ts where t: "t = elem name attrs ts" by (cases t)
  define p1 where "p1 = init_cset_parser\<lparr>cx_context := cx_top\<rparr>"
  have kids: "\<forall>t\<in>set ts. \<forall>g\<in>set (xml_kids t). xml_kids g = []" using assms by (simp add: empty_tags_def t)
  have run: "cset_run mbslen (concat (map events_of ts)) p1 = foldE (read_cset mbslen) ts p1"
    and stays: "\<And>q. foldE (read_cset mbslen) ts p1 = Inr q \<Longrightarrow> cx_context q = cx_top"
    using csets_events [of ts p1 mbslen] kids by (simp_all add: p1_def map_concat comp_def)
  show ?thesis
  proof (cases "name = ''osm''")
    case True
    have "cset_process_message mbslen (unlocated (events_of t)) =
      bindE (foldE (read_cset mbslen) ts p1) (\<lambda>q. bindE (cset_end_element ''osm'' q) (\<lambda>p. Inr (cx_tags p)))"
      using True run
      by (simp add: t cset_process_message_def unlocated_def cset_start_element_def init_cset_parser_def p1_def foldE_append bindE_assoc)
    also have "\<dots> = bindE (foldE (read_cset mbslen) ts p1) (\<lambda>q. if cx_found q then Inr (cx_tags q) else Inl no_changeset_element)"
      using stays by (cases "foldE (read_cset mbslen) ts p1") (simp_all add: cset_end_element_def assert_element_def throw_if_def)
    also have "foldE (read_cset mbslen) ts p1 = bindE (foldE (read_cset mbslen) ts init_cset_parser) (\<lambda>q. Inr (q\<lparr>cx_context := cx_top\<rparr>))"
      unfolding p1_def by (rule foldE_csets_context)
    finally show ?thesis using True by (simp add: t bindE_assoc cong: if_cong)
  qed (simp add: t cset_process_message_def unlocated_def cset_start_element_def init_cset_parser_def)
qed

end
