(* ===== verification/API_Handlers.thy ===== *)
theory API_Handlers
  imports Router Changeset_API Rate_Limiter Settings
begin

text \<open>
  What the handlers of \<^verbatim>\<open>src/api06\<close> do once a request has been routed: the responder for a selection
  and, for a handler with a payload, the responder for an update. A responder is modelled by the
  types it can write, the type its path asked for and the calls of a formatter its \<^verbatim>\<open>write\<close> makes.
\<close>

record responder =
  rp_types :: "mime_type list"
  rp_resource :: mime_type
  rp_calls :: "fmt_call list"

section \<open>The surroundings of a request\<close>

text \<open>
  \<open>cf_interval\<close> is the server's reading of an interval, \<open>cf_lock_free\<close> whether the lock on the
  changeset is to be had, \<open>cf_sax\<close> the XML library, \<open>cf_inflate\<close> zlib on the chunks so far and the next
  one, and \<open>cf_written\<close> the number of bytes an encoded document has. Builds differ in brotli and zlib.
\<close>

datatype unzip_error = no_memory | bad_data

record config =
  cf_settings :: settings
  cf_generator :: string
  cf_have_brotli :: bool
  cf_have_libz :: bool
  cf_has_update_factory :: bool
  cf_readonly :: bool
  cf_pg :: pg
  cf_interval :: "string \<Rightarrow> int"
  cf_lock_free :: bool
  cf_mbslen :: "string \<Rightarrow> nat option"
  cf_api_rate_limit :: "osm_user_id_t \<Rightarrow> int option"
  cf_api_size_limit :: "osm_user_id_t \<Rightarrow> int option"
  cf_sax :: "string \<Rightarrow> sax_run"
  cf_inflate :: "decompressor \<Rightarrow> string list \<Rightarrow> string \<Rightarrow> unzip_error + string"
  cf_written :: "encoding \<Rightarrow> formatter \<Rightarrow> fmt_call list \<Rightarrow> int"

definition cs_env_of :: "config \<Rightarrow> osm_user_id_t option \<Rightarrow> cs_env" where
  "cs_env_of cf uid =
     \<lparr>env_user = uid, env_max_elements = m_changeset_max_elements (cf_settings cf),
      env_timeout_open_max = cf_interval cf (m_changeset_timeout_open_max (cf_settings cf)),
      env_timeout_idle = cf_interval cf (m_changeset_timeout_idle (cf_settings cf)),
      env_enhanced_stats = m_changeset_enhanced_stats (cf_settings cf), env_lock_free = cf_lock_free cf,
      env_to_char = pg_to_char (cf_pg cf)\<rparr>"

definition upload_env_of :: "config \<Rightarrow> osm_user_id_t option \<Rightarrow> upload_env" where
  "upload_env_of cf uid =
     \<lparr>up_cs = cs_env_of cf uid,
      up_limits = \<lparr>element_max_tags = map_option nat (m_element_max_tags (cf_settings cf)),
                   way_max_nodes = nat (m_way_max_nodes (cf_settings cf)),
                   relation_max_members = map_option nat (m_relation_max_members (cf_settings cf))\<rparr>,
      up_mbslen = cf_mbslen cf, up_ratelimiter = m_ratelimiter_upload (cf_settings cf),
      up_api_rate_limit = cf_api_rate_limit cf, up_bbox_size_limiter = m_bbox_size_limiter_upload (cf_settings cf),
      up_api_size_limit = cf_api_size_limit cf\<rparr>"

section \<open>Documents for updates\<close>

fun as_elem_type :: "object_type \<Rightarrow> element_type" where
  "as_elem_type ot_node = et_node"
| "as_elem_type ot_way = et_way"
| "as_elem_type ot_relation = et_relation"

definition diffresult_calls :: "diffresult_t \<Rightarrow> fmt_call list" where
  "diffresult_calls item =
     (let changed = write_diffresult_create_modify (as_elem_type (dr_obj_type item)) (dr_old_id item) (dr_new_id item)
            (dr_new_version item) in
      case dr_op item of
        op_create \<Rightarrow> [changed]
      | op_modify \<Rightarrow> [changed]
      | op_delete \<Rightarrow> if dr_deletion_skipped item then [changed]
                    else [write_diffresult_delete (as_elem_type (dr_obj_type item)) (dr_old_id item)]
      | op_undefined \<Rightarrow> [])"

definition osm_diffresult_write :: "string \<Rightarrow> diffresult_t list \<Rightarrow> fmt_call list" where
  "osm_diffresult_write generator rows =
     [start_document generator ''diffResult''] @ concat (map diffresult_calls rows) @ [end_document]"

definition text_responder :: "mime_type \<Rightarrow> string \<Rightarrow> responder" where
  "text_responder mt output_text = \<lparr>rp_types = text_types, rp_resource = mt, rp_calls = [write_message output_text]\<rparr>"

section \<open>Responders for a selection\<close>

definition current_responder :: "config \<Rightarrow> mime_type \<Rightarrow> bbox option \<Rightarrow> osm_db \<Rightarrow> selection result \<Rightarrow> responder result" where
  "current_responder cf mt bounds d sel =
     bindE sel (\<lambda>s. Inr \<lparr>rp_types = osm_types, rp_resource = mt,
       rp_calls = osm_current_write (cf_pg cf) (cf_generator cf) bounds d s\<rparr>)"

definition no_selection :: "string \<Rightarrow> exn" where
  "no_selection handler = server_error (handler @ '': data_selection unsupported'')"

fun selection_responder :: "config \<Rightarrow> mime_type \<Rightarrow> api_handler \<Rightarrow> osm_db \<Rightarrow> selection \<Rightarrow> responder result" where
  "selection_responder cf mt (map_handler b) d s =
     current_responder cf mt (Some b) d (map_responder (m_map_max_nodes (cf_settings cf)) b d s)"
| "selection_responder cf mt (node_ways_handler i) d s = current_responder cf mt None d (node_ways_responder i d s)"
| "selection_responder cf mt (node_relations_handler i) d s = current_responder cf mt None d (node_relations_responder i d s)"
| "selection_responder cf mt (node_history_handler i) d s = current_responder cf mt None d (node_history_responder i d s)"
| "selection_responder cf mt (node_version_handler i v) d s = current_responder cf mt None d (node_version_responder i v d s)"
| "selection_responder cf mt (node_handler i) d s = current_responder cf mt None d (node_responder i d s)"
| "selection_responder cf mt (nodes_handler ids) d s = current_responder cf mt None d (nodes_responder ids d s)"
| "selection_responder cf mt (way_full_handler i) d s = current_responder cf mt None d (way_full_responder i d s)"
| "selection_responder cf mt (way_relations_handler i) d s = current_responder cf mt None d (way_relations_responder i d s)"
| "selection_responder cf mt (way_history_handler i) d s = current_responder cf mt None d (way_history_responder i d s)"
| "selection_responder cf mt (way_version_handler i v) d s = current_responder cf mt None d (way_version_responder i v d s)"
| "selection_responder cf mt (way_handler i) d s = current_responder cf mt None d (way_responder i d s)"
| "selection_responder cf mt (ways_handler ids) d s = current_responder cf mt None d (ways_responder ids d s)"
| "selection_responder cf mt (relation_full_handler i) d s = current_responder cf mt None d (relation_full_responder i d s)"
| "selection_responder cf mt (relation_relations_handler i) d s =
     current_responder cf mt None d (relation_relations_responder i d s)"
| "selection_responder cf mt (relation_history_handler i) d s =
     current_responder cf mt None d (relation_history_responder i d s)"
| "selection_responder cf mt (relation_version_handler i v) d s =
     current_responder cf mt None d (relation_version_responder i v d s)"
| "selection_responder cf mt (relation_handler i) d s = current_responder cf mt None d (relation_responder i d s)"
| "selection_responder cf mt (relations_handler ids) d s = current_responder cf mt None d (relations_responder ids d s)"
| "selection_responder cf mt (changeset_download_handler i) d s =
     bindE (changeset_download_responder i d s) (\<lambda>s.
     Inr \<lparr>rp_types = osmchange_types, rp_resource = mt, rp_calls = osmchange_write (cf_pg cf) (cf_generator cf) d s\<rparr>)"
| "selection_responder cf mt (changeset_upload_handler i) d s = Inl (no_selection ''changeset_upload_handler'')"
| "selection_responder cf mt (changeset_close_handler i) d s = Inl (no_selection ''changeset_close_handler'')"
| "selection_responder cf mt changeset_create_handler d s = Inl (no_selection ''changeset_create_handler'')"
| "selection_responder cf mt (changeset_update_handler i) d s =
     current_responder cf mt None d (Inr (snd (select_changesets [i] d s)))"
| "selection_responder cf mt (changeset_handler i discussion) d s =
     bindE (changeset_responder i discussion d s) (\<lambda>s.
     Inr \<lparr>rp_types = osm_types, rp_resource = mt, rp_calls = osm_changeset_write (cf_pg cf) (cf_generator cf) False d s\<rparr>)"

section \<open>Responders for an update\<close>

text \<open>The part of the database an update works on, put back in place.\<close>

definition with_tables :: "osm_db \<Rightarrow> db \<Rightarrow> osm_db" where
  "with_tables d d' = db.extend d' (db.more d)"

definition on_tables :: "osm_db \<Rightarrow> ('a \<times> db) result \<Rightarrow> ('a \<times> osm_db) result" where
  "on_tables d v = bindE v (\<lambda>(x, d'). Inr (x, with_tables d d'))"

definition not_payload_enabled :: exn where
  "not_payload_enabled = server_error ''HTTP method is not payload enabled''"

fun update_responder ::
    "config \<Rightarrow> osm_user_id_t option \<Rightarrow> mime_type \<Rightarrow> api_handler \<Rightarrow> string \<Rightarrow> osm_db \<Rightarrow> (responder \<times> osm_db) result" where
  "update_responder cf uid mt (changeset_upload_handler i) payload d =
     bindE (on_tables d (changeset_upload_responder (upload_env_of cf uid) (mt = application_json) i (cf_sax cf payload) (db.truncate d)))
       (\<lambda>(rows, d'). Inr (\<lparr>rp_types = osm_types, rp_resource = mt, rp_calls = osm_diffresult_write (cf_generator cf) rows\<rparr>, d'))"
| "update_responder cf uid mt changeset_create_handler payload d =
     bindE (on_tables d (changeset_create_responder (cs_env_of cf uid) (cf_mbslen cf) (cf_sax cf payload) (db.truncate d)))
       (\<lambda>(output_text, d'). Inr (text_responder mt output_text, d'))"
| "update_responder cf uid mt (changeset_update_handler i) payload d =
     bindE (changeset_update_responder (cs_env_of cf uid) (cf_mbslen cf) i (cf_sax cf payload) (db.truncate d))
       (\<lambda>d'. Inr (text_responder mt [], with_tables d d'))"
| "update_responder cf uid mt (changeset_close_handler i) payload d =
     bindE (changeset_close_responder (cs_env_of cf uid) i (db.truncate d))
       (\<lambda>d'. Inr (text_responder mt [], with_tables d d'))"
| "update_responder cf uid mt _ payload d = Inl not_payload_enabled"

fun requires_selection_after_update :: "api_handler \<Rightarrow> bool" where
  "requires_selection_after_update (changeset_update_handler _) \<longleftrightarrow> True"
| "requires_selection_after_update _ \<longleftrightarrow> False"

section \<open>The payload\<close>

definition decompress :: "config \<Rightarrow> decompressor \<Rightarrow> string list \<Rightarrow> string \<Rightarrow> unzip_error + string" where
  "decompress cf dec earlier content = (if dec = IdentityDecompressor then Inr content else cf_inflate cf dec earlier content)"

definition payload_exceeds :: "int \<Rightarrow> exn" where
  "payload_exceeds limit = payload_too_large (''Payload exceeds limit of '' @ fmt_d limit @ '' bytes'')"

text \<open>The loop over the chunks \<^verbatim>\<open>FCGX_GetStr\<close> returns, with those already read, the bytes read and the result so far.\<close>

fun read_chunks ::
    "config \<Rightarrow> decompressor \<Rightarrow> string list \<Rightarrow> string list \<Rightarrow> nat \<times> string \<Rightarrow> (nat \<times> string) result" where
  "read_chunks cf dec earlier [] acc = Inr acc"
| "read_chunks cf dec earlier (content # rest) acc =
     (case decompress cf dec earlier content of
        Inl no_memory \<Rightarrow> Inl (server_error ''Decompression failed due to memory issue'')
      | Inl bad_data \<Rightarrow> Inl (bad_request ''Payload cannot be decompressed according to Content-Encoding'')
      | Inr s \<Rightarrow>
          (let result = snd acc @ s in
           if int (length result) > m_payload_max_size (cf_settings cf) then Inl (payload_exceeds (m_payload_max_size (cf_settings cf)))
           else read_chunks cf dec (earlier @ [content]) rest (fst acc + length content, result)))"

definition length_differs :: exn where
  "length_differs = server_error
     (''HTTP Header field '' @ [CHR 0x27] @ ''Content-Length'' @ [CHR 0x27] @ '' differs from actual payload length'')"

definition get_payload :: "config \<Rightarrow> string list \<Rightarrow> request \<Rightarrow> string result" where
  "get_payload cf chunks r =
     bindE (get_content_encoding_handler (cf_have_libz cf) (param_text ''HTTP_CONTENT_ENCODING'' r)) (\<lambda>dec.
     bindE (case get_param ''CONTENT_LENGTH'' r of
              None \<Rightarrow> Inr 0
            | Some s \<Rightarrow> parse_content_length (m_payload_max_size (cf_settings cf)) s) (\<lambda>content_length.
     bindE (read_chunks cf dec [] chunks (0, [])) (\<lambda>(result_length, result).
     if content_length > 0 \<and> int result_length \<noteq> content_length then Inl length_differs else Inr result)))"

end
