(* ===== verification/Process_Request.thy ===== *)
theory Process_Request
  imports API_Handlers
begin

text \<open>
  \<^verbatim>\<open>src/process_request.cpp\<close> and \<^verbatim>\<open>src/oauth2.cpp\<close>: one request from its environment to the response,
  with the database and the store of the rate limiter it leaves behind.
\<close>

section \<open>Users\<close>

definition is_valid_bearer_token_char :: "char \<Rightarrow> bool" where
  "is_valid_bearer_token_char c \<longleftrightarrow>
     is_digit c \<or> c \<in> set ''abcdefghijklmnopqrstuvwxyz'' \<or> c \<in> set ''ABCDEFGHIJKLMNOPQRSTUVWXYZ'' \<or> c \<in> set ''-._~+/=''"

definition has_forbidden_char :: "string \<Rightarrow> bool" where
  "has_forbidden_char s \<longleftrightarrow> \<not> list_all is_valid_bearer_token_char s"

text \<open>The user of the token and whether it may write; the flag is true when there is no token to look up.\<close>

definition validate_bearer_token :: "pg \<Rightarrow> request \<Rightarrow> osm_db \<Rightarrow> (osm_user_id_t option \<times> bool) result" where
  "validate_bearer_token p r d =
     (let auth_header = param_text ''HTTP_AUTHORIZATION'' r; bearer_token = drop 7 auth_header in
      if take 7 auth_header \<noteq> ''Bearer '' \<or> bearer_token = [] \<or> has_forbidden_char bearer_token then Inr (None, True)
      else let ti = get_user_id_for_oauth2_token p bearer_token d in
           case ti_user_id ti of
             None \<Rightarrow> Inl (unauthorized ''invalid_token'')
           | Some uid \<Rightarrow>
               if ti_expired ti then Inl (unauthorized ''token_expired'')
               else if ti_revoked ti then Inl (unauthorized ''token_revoked'')
               else Inr (Some uid, ti_allow_api_write ti))"

definition determine_user_id :: "pg \<Rightarrow> request \<Rightarrow> osm_db \<Rightarrow> (osm_user_id_t option \<times> bool) result" where
  "determine_user_id p r d = validate_bearer_token p r d"

record UserInfo =
  ui_id :: osm_user_id_t
  ui_roles :: "osm_user_role_t set"
  ui_allow_api_write :: bool

definition user_info :: "osm_db \<Rightarrow> osm_user_id_t option \<times> bool \<Rightarrow> UserInfo option" where
  "user_info d = (\<lambda>(uid, allow_api_write).
     map_option (\<lambda>i. \<lparr>ui_id = i, ui_roles = get_roles_for_user i d, ui_allow_api_write = allow_api_write\<rparr>) uid)"

definition is_moderator :: "UserInfo option \<Rightarrow> bool" where
  "is_moderator user = (case user of None \<Rightarrow> False | Some u \<Rightarrow> moderator \<in> ui_roles u)"

definition client_key_of :: "string \<Rightarrow> UserInfo option \<Rightarrow> string" where
  "client_key_of ip user = (case user of None \<Rightarrow> ''addr:'' @ ip | Some u \<Rightarrow> ''user:'' @ fmt_d (ui_id u))"

definition validate_user_db_update_permission :: "UserInfo option \<Rightarrow> osm_db \<Rightarrow> unit result" where
  "validate_user_db_update_permission user d =
     (case user of
        None \<Rightarrow> Inl (unauthorized ''User is not authorized'')
      | Some u \<Rightarrow>
          if is_user_blocked (ui_id u) d then
            Inl (forbidden ''Your access to the API has been blocked. Please log-in to the web interface to find out more.'')
          else if \<not> is_user_active (ui_id u) d then
            Inl (forbidden ''You have not permitted the application access to this facility'')
          else if \<not> ui_allow_api_write u then Inl (unauthorized ''You have not granted the modify map permission'')
          else Inr ())"

definition check_db_readonly_mode :: "config \<Rightarrow> unit result" where
  "check_db_readonly_mode cf =
     throw_if (cf_readonly cf)
       (bad_request ''Server is currently in read only mode, no database changes allowed at this time'')"

definition show_redactions_requested :: "request \<Rightarrow> bool result" where
  "show_redactions_requested r =
     bindE (query_params r) (\<lambda>params. Inr (find (\<lambda>p. p = (''show_redactions'', ''true'')) params \<noteq> None))"

section \<open>Responses\<close>

fun encoding_name :: "encoding \<Rightarrow> string" where
  "encoding_name identity = ''identity''"
| "encoding_name deflate = ''deflate''"
| "encoding_name gzip = ''gzip''"
| "encoding_name brotli = ''br''"

text \<open>The encoding and the type of a response, and its status and headers.\<close>

definition start_response :: "config \<Rightarrow> string \<Rightarrow> responder \<Rightarrow> (encoding \<times> mime_type) rq" where
  "start_response cf cache_control rp =
     bindR (\<lambda>r. (get_encoding (cf_have_brotli cf) (cf_have_libz cf) r, r)) (\<lambda>enc.
     bindR (\<lambda>r. (request_mime_type (rp_types rp) (rp_resource rp) r, r)) (\<lambda>mt.
     bindR (status 200) (\<lambda>_.
     bindR (liftR (mime_to_string mt)) (\<lambda>name.
     bindR (seqR [add_header ''Content-Type'' (name @ ''; charset=utf-8''), add_header ''Content-Encoding'' (encoding_name enc),
                  add_header ''Cache-Control'' cache_control]) (\<lambda>_.
     okR (enc, mt))))))"

definition generate_response :: "config \<Rightarrow> responder \<Rightarrow> int rq" where
  "generate_response cf rp =
     bindR (start_response cf ''private, max-age=0, must-revalidate'' rp) (\<lambda>(enc, mt).
     bindR get_buffer (\<lambda>_.
     bindR (liftR (create_formatter mt)) (\<lambda>f.
     bindR (emit (out_document enc f (rp_calls rp))) (\<lambda>_.
     bindR finish (\<lambda>_.
     okR (cf_written cf enc f (rp_calls rp)))))))"

definition process_get_request :: "config \<Rightarrow> mime_type \<Rightarrow> api_handler \<Rightarrow> osm_db \<Rightarrow> selection \<Rightarrow> int rq" where
  "process_get_request cf mt h d s = bindR (liftR (selection_responder cf mt h d s)) (generate_response cf)"

definition process_head_request :: "config \<Rightarrow> mime_type \<Rightarrow> api_handler \<Rightarrow> osm_db \<Rightarrow> selection \<Rightarrow> int rq" where
  "process_head_request cf mt h d s =
     bindR (liftR (selection_responder cf mt h d s)) (\<lambda>rp.
     bindR (start_response cf ''no-cache'' rp) (\<lambda>_. bindR finish (\<lambda>_. okR 0)))"

definition process_options_request :: "api_handler \<Rightarrow> int rq" where
  "process_options_request h r =
     (if get_param ''HTTP_ORIGIN'' r \<noteq> None \<and> get_param ''HTTP_ACCESS_CONTROL_REQUEST_METHOD'' r \<noteq> None then
        bindR (seqR ([status 200, add_header ''Content-Type'' ''text/plain''] @
          (case get_param ''HTTP_ACCESS_CONTROL_REQUEST_HEADERS'' r of
             None \<Rightarrow> []
           | Some hs \<Rightarrow> [add_header ''Access-Control-Allow-Headers'' hs]) @ [finish])) (\<lambda>_. okR 0) r
      else bindR (process_not_allowed (list_methods (allowed_methods h))) (\<lambda>_. okR 0) r)"

text \<open>Handlers derived from \<^verbatim>\<open>payload_enabled_handler\<close>.\<close>

fun payload_enabled :: "api_handler \<Rightarrow> bool" where
  "payload_enabled (changeset_upload_handler _) \<longleftrightarrow> True"
| "payload_enabled (changeset_close_handler _) \<longleftrightarrow> True"
| "payload_enabled changeset_create_handler \<longleftrightarrow> True"
| "payload_enabled (changeset_update_handler _) \<longleftrightarrow> True"
| "payload_enabled _ \<longleftrightarrow> False"

text \<open>The update is committed before the response is made up: what is thrown after it does not undo it.\<close>

definition process_post_put_request ::
    "config \<Rightarrow> UserInfo option \<Rightarrow> mime_type \<Rightarrow> api_handler \<Rightarrow> string list \<Rightarrow> request \<times> osm_db \<Rightarrow> int result \<times> request \<times> osm_db" where
  "process_post_put_request cf user mt h chunks = (\<lambda>(r, d).
     case bindE (throw_if (\<not> payload_enabled h) not_payload_enabled) (\<lambda>_.
          bindE (get_payload cf chunks r) (\<lambda>payload.
          bindE (check_db_readonly_mode cf) (\<lambda>_.
          update_responder cf (map_option ui_id user) mt h payload d))) of
       Inl e \<Rightarrow> (Inl e, r, d)
     | Inr (rp, d') \<Rightarrow>
         (if requires_selection_after_update h
          then let (v, r') = process_get_request cf mt h d' empty_selection r in (v, r', d')
          else let (v, r') = generate_response cf rp r in (v, r', d')))"

section \<open>Processing\<close>

text \<open>
  The interface \<^verbatim>\<open>rate_limiter\<close>: the check returns whether the client is over its limit and for how
  many seconds; an update that does not return has no value.
\<close>

record 'm rate_limiter =
  rl_check :: "string \<Rightarrow> bool \<Rightarrow> 'm \<Rightarrow> (bool \<times> int) \<times> 'm"
  rl_update :: "string \<Rightarrow> int \<Rightarrow> bool \<Rightarrow> 'm \<Rightarrow> 'm option"

definition null_rate_limiter :: "'m rate_limiter" where
  "null_rate_limiter = \<lparr>rl_check = (\<lambda>key moderator m. (null_check key, m)), rl_update = (\<lambda>key bytes moderator m. Some m)\<rparr>"

definition memcached_rate_limiter :: "nat \<Rightarrow> 'm memcached \<Rightarrow> settings \<Rightarrow> bool \<Rightarrow> int \<Rightarrow> 'm rate_limiter" where
  "memcached_rate_limiter fuel mc st has_ptr now =
     \<lparr>rl_check = (\<lambda>key moderator m. check mc (get_ratelimiter_limits st moderator) has_ptr key now m),
      rl_update = (\<lambda>key bytes moderator m. update fuel mc (get_ratelimiter_limits st moderator) has_ptr key bytes now m)\<rparr>"

record 'm world =
  w_request :: request
  w_db :: osm_db
  w_store :: 'm

text \<open>What is left to do after a request was served: the bytes to count, under which key and for whom.\<close>

type_synonym served = "(string \<times> int \<times> bool) option"

definition dispatch ::
    "config \<Rightarrow> http_method \<Rightarrow> UserInfo option \<Rightarrow> mime_type \<Rightarrow> api_handler \<Rightarrow> selection \<Rightarrow> string list \<Rightarrow>
       request \<times> osm_db \<Rightarrow> int result \<times> request \<times> osm_db" where
  "dispatch cf m user mt h s chunks = (\<lambda>(r, d).
     if m = GET then let (v, r') = process_get_request cf mt h d s r in (v, r', d)
     else if m = HEAD then let (v, r') = process_head_request cf mt h d s r in (v, r', d)
     else if m = POST \<or> m = PUT then
       (case bindE (validate_user_db_update_permission user d) (\<lambda>_.
             throw_if (\<not> cf_has_update_factory cf) (bad_request ''Backend does not support given HTTP method'')) of
          Inl e \<Rightarrow> (Inl e, r, d)
        | Inr _ \<Rightarrow> process_post_put_request cf user mt h chunks (r, d))
     else if m = OPTIONS then let (v, r') = process_options_request h r in (v, r', d)
     else let (v, r') = bindR (process_not_allowed (list_methods (allowed_methods h))) (\<lambda>_. okR 0) r in (v, r', d))"

text \<open>From the check of the verb on: the user, the rate limit and the selection.\<close>

definition serve_handler ::
    "config \<Rightarrow> 'm rate_limiter \<Rightarrow> string list \<Rightarrow> string \<Rightarrow> http_method \<Rightarrow> api_handler \<times> mime_type \<Rightarrow> 'm world \<Rightarrow>
       served result \<times> 'm world" where
  "serve_handler cf rl chunks ip m = (\<lambda>(h, mt) w0.
     let w = w0\<lparr>w_request := set_default_methods (allowed_methods h) (w_request w0)\<rparr> in
     case determine_user_id (cf_pg cf) (w_request w) (w_db w) of
       Inl e \<Rightarrow> (Inl e, w)
     | Inr ua \<Rightarrow>
         (let user = user_info (w_db w) ua; key = client_key_of ip user; md = is_moderator user;
              (limited, store) = (if m \<noteq> OPTIONS then rl_check rl key md (w_store w) else ((False, 0), w_store w));
              w1 = w\<lparr>w_store := store\<rparr>
          in if fst limited then (Inl (bandwidth_limit_exceeded (snd limited)), w1)
             else case (if md then show_redactions_requested (w_request w1) else Inr False) of
                    Inl e \<Rightarrow> (Inl e, w1)
                  | Inr visible \<Rightarrow>
                      (let s = (if visible then set_redactions_visible True empty_selection else empty_selection);
                           (v, r', d') = dispatch cf m user mt h s chunks (w_request w1, w_db w1);
                           w2 = w1\<lparr>w_request := r', w_db := d'\<rparr>
                       in (bindE v (\<lambda>bytes. Inr (if bytes > 0 then Some (key, bytes, md) else None)), w2))))"

definition serve :: "config \<Rightarrow> 'm rate_limiter \<Rightarrow> string list \<Rightarrow> 'm world \<Rightarrow> served result \<times> 'm world" where
  "serve cf rl chunks w =
     (case fcgi_get_env ''REMOTE_ADDR'' None (w_request w) of
        Inl e \<Rightarrow> (Inl e, w)
      | Inr ip \<Rightarrow>
     (case fcgi_get_env ''REQUEST_METHOD'' None (w_request w) of
        Inl e \<Rightarrow> (Inl e, w)
      | Inr verb \<Rightarrow>
     (case route (m_map_area_max (cf_settings cf)) (w_request w) of
        (Inl e, r) \<Rightarrow> (Inl e, w\<lparr>w_request := r\<rparr>)
      | (Inr hm, r) \<Rightarrow>
     (case parse_method verb of
        Some m \<Rightarrow>
          if allows_method m (fst hm) then serve_handler cf rl chunks ip m hm (w\<lparr>w_request := r\<rparr>)
          else let (v, r') = process_not_allowed (list_methods (allowed_methods (fst hm))) r
               in (bindE v (\<lambda>_. Inr None), w\<lparr>w_request := r'\<rparr>)
      | None \<Rightarrow>
          let (v, r') = process_not_allowed (list_methods (allowed_methods (fst hm))) r
          in (bindE v (\<lambda>_. Inr None), w\<lparr>w_request := r'\<rparr>)))))"

text \<open>
  The catch clauses. The value is the exception that leaves \<^verbatim>\<open>process_request\<close>, if any: one that is
  not of the \<^verbatim>\<open>http\<close> namespace is reported to the client and thrown again. A failed assertion ends
  the process.
\<close>

definition catch_all :: "config \<Rightarrow> exn \<Rightarrow> request \<Rightarrow> exn option \<times> request" where
  "catch_all cf e r =
     (let escaped = (\<lambda>(v :: unit result, r'). (case v of Inl e' \<Rightarrow> Some e' | Inr _ \<Rightarrow> None, r')) in
      case e of
        not_found m \<Rightarrow> escaped (respond_404 r)
      | method_not_allowed allow \<Rightarrow> escaped (process_not_allowed allow r)
      | unauthorized m \<Rightarrow> escaped (respond_401 m r)
      | unsupported_media_type m \<Rightarrow> escaped (response_415 (cf_have_libz cf) m r)
      | assertion_failed m \<Rightarrow> (Some e, r)
      | undefined_behaviour m \<Rightarrow> (Some e, r)
      | _ \<Rightarrow> (case code e of
               Some c \<Rightarrow> escaped (respond_error c e r)
             | None \<Rightarrow> (Some e, snd (respond_error 500 (server_error (what e)) r))))"

definition process_request :: "config \<Rightarrow> 'm rate_limiter \<Rightarrow> string list \<Rightarrow> 'm world \<Rightarrow> (exn option \<times> 'm world) option" where
  "process_request cf rl chunks w =
     (case serve cf rl chunks w of
        (Inl e, w') \<Rightarrow> let (escaped, r) = catch_all cf e (w_request w') in Some (escaped, w'\<lparr>w_request := r\<rparr>)
      | (Inr None, w') \<Rightarrow> Some (None, w')
      | (Inr (Some (key, bytes, md)), w') \<Rightarrow>
          map_option (\<lambda>m. (None, w'\<lparr>w_store := m\<rparr>)) (rl_update rl key (u32 bytes) md (w_store w')))"

end
