(* ===== verification/Request_Correct.thy ===== *)
theory Request_Correct
  imports Process_Request Written
begin

text \<open>
  What holds of a request from end to end: it is answered once, with one header block, whatever
  happens; and the database changes only for a user who may write, by one of the four updates.
\<close>

section \<open>Every request is answered once\<close>

text \<open>Either an exception left the request open, or it was answered.\<close>

definition settled :: "'a result \<Rightarrow> request \<Rightarrow> bool" where
  "settled v r \<longleftrightarrow> (case v of Inl _ \<Rightarrow> open_request r | Inr _ \<Rightarrow> \<exists>c. answered c r)"

lemma settled_Inl [simp]: "settled (Inl e) r = open_request r"
  by (simp add: settled_def)

lemma settled_Inr: "answered c r \<Longrightarrow> settled (Inr x) r"
  by (auto simp: settled_def)

definition responds :: "'a rq \<Rightarrow> bool" where
  "responds m \<longleftrightarrow> (\<forall>r. open_request r \<longrightarrow> settled (fst (m r)) (snd (m r)))"

lemma respondsI: "(\<And>r v r'. open_request r \<Longrightarrow> m r = (v, r') \<Longrightarrow> settled v r') \<Longrightarrow> responds m"
  by (simp add: responds_def)

lemma respondsD: "responds m \<Longrightarrow> open_request r \<Longrightarrow> m r = (v, r') \<Longrightarrow> settled v r'"
  by (metis responds_def fst_conv snd_conv)

lemma responds_throw [simp]: "responds (bindR (liftR (Inl e)) f)"
  by (simp add: responds_def bindR_def liftR_def)

lemma responds_lift [simp]: "responds (bindR (liftR (Inr x)) f) = responds (f x)"
  by (simp add: responds_def bindR_def liftR_def)

lemma ensures_status: "ensures e (status c) (\<lambda>_. True)"
  by (auto simp: ensures_def open_request_def workflow_defs)

lemma ensures_add_header: "ensures e (add_header k v) (\<lambda>_. True)"
  by (auto simp: ensures_def open_request_def workflow_defs)

lemma ensures_seqR: "\<forall>m\<in>set ms. ensures e m (\<lambda>_. True) \<Longrightarrow> ensures e (seqR ms) (\<lambda>_. True)"
  by (induction ms) (auto intro!: ensures_okR ensures_bindR)

lemma ensures_liftR: "(\<And>x. v = Inr x \<Longrightarrow> Q x) \<Longrightarrow> ensures e (liftR v) Q"
  by (auto simp: ensures_def liftR_def)

text \<open>A type that was chosen for a response is one there is a formatter for.\<close>

definition writable :: "responder \<Rightarrow> bool" where
  "writable rp \<longleftrightarrow> rp_types rp \<in> {osm_types, text_types, osmchange_types}"

lemma request_mime_type_writable:
  assumes "writable rp" "request_mime_type (rp_types rp) (rp_resource rp) r = Inr mt"
  shows "mt \<in> set (rp_types rp)" "\<exists>f. create_formatter mt = Inr f"
proof -
  from assms(2) obtain hdr a path where "AcceptHeader hdr = Inr a" "choose_best_mime_type a (rp_types rp) (rp_resource rp) path = Inr mt"
    by (auto simp: request_mime_type_def header_mime_type_def result_simps)
  moreover have "any_type \<notin> set (rp_types rp)" "unspecified_type \<notin> set (rp_types rp)"
    using assms(1) by (auto simp: writable_def osm_types_def text_types_def osmchange_types_def)
  ultimately show "mt \<in> set (rp_types rp)" using choose_best_mime_type_Inr accept_header_ok by blast
  then show "\<exists>f. create_formatter mt = Inr f" using assms(1)
    by (intro create_formatter_total) (auto simp: writable_def osm_types_def text_types_def osmchange_types_def)
qed

lemma start_response_ensures:
  assumes "writable rp"
  shows "ensures e (start_response cf cache rp) (\<lambda>(enc, mt). \<exists>f. create_formatter mt = Inr f)"
  unfolding start_response_def
proof (rule ensures_bindR [OF ensures_read [of e _ "\<lambda>_. True"]], simp,
    rule ensures_bindR [OF ensures_read [of e _ "\<lambda>mt. \<exists>f. create_formatter mt = Inr f"]])
  show "\<exists>f. create_formatter mt = Inr f" if "request_mime_type (rp_types rp) (rp_resource rp) r = Inr mt" for r mt
    using request_mime_type_writable(2) [OF assms that] .
  fix enc mt assume f: "\<exists>f. create_formatter mt = Inr f"
  show "ensures e (bindR (status 200) (\<lambda>_. bindR (liftR (mime_to_string mt)) (\<lambda>name.
      bindR (seqR [add_header ''Content-Type'' (name @ ''; charset=utf-8''), add_header ''Content-Encoding'' (encoding_name enc),
        add_header ''Cache-Control'' cache]) (\<lambda>_. okR (enc, mt))))) (\<lambda>(enc, mt). \<exists>f. create_formatter mt = Inr f)"
    by (intro ensures_bindR [OF ensures_status] ensures_bindR [OF ensures_liftR [of _ "\<lambda>_. True"]]
        ensures_bindR [OF ensures_seqR] ensures_okR) (auto simp: ensures_add_header f)
qed

lemma generate_response_responds:
  assumes "writable rp" shows "responds (generate_response cf rp)"
proof (rule respondsI)
  fix r v r' assume r: "open_request r" and run: "generate_response cf rp r = (v, r')"
  obtain u r1 where st: "start_response cf ''private, max-age=0, must-revalidate'' rp r = (u, r1)" by fastforce
  have r1: "open_request r1" "\<And>x. u = Inr x \<Longrightarrow> \<exists>f. create_formatter (snd x) = Inr f"
    using start_response_ensures [OF assms, of "rq_env r" cf "''private, max-age=0, must-revalidate''"] r st
    by (auto simp: ensures_def)
  show "settled v r'"
  proof (cases u)
    case (Inl e)
    with run r1 st show ?thesis by (auto simp: generate_response_def bindR_def)
  next
    case (Inr x)
    then obtain enc mt f where x: "u = Inr (enc, mt)" "create_formatter mt = Inr f" using r1(2) by (cases x) force
    have "m_workflow_status r1 = status_NONE \<or> m_workflow_status r1 = status_HEADERS" "rq_out r1 = []"
      using r1(1) by (auto simp: open_request_def)
    then show ?thesis using run st x
      by (auto simp: generate_response_def workflow_defs answered_def is_header_def settled_def)
  qed
qed

lemma selection_responder_writable: "selection_responder cf mt h d s = Inr rp \<Longrightarrow> writable rp"
  by (cases h) (auto simp: current_responder_def result_simps writable_def)

lemma update_responder_writable: "update_responder cf uid mt h payload d = Inr (rp, d') \<Longrightarrow> writable rp"
  by (cases h) (auto simp: on_tables_def result_simps writable_def text_responder_def)

lemma process_get_request_responds: "responds (process_get_request cf mt h d s)"
  using selection_responder_writable [of cf mt h d s] generate_response_responds
  by (cases "selection_responder cf mt h d s") (simp_all add: process_get_request_def)

lemma responds_finish:
  assumes "\<And>e. ensures e m Q" "\<And>x r v r'. Q x \<Longrightarrow> open_request r \<Longrightarrow> f x r = (v, r') \<Longrightarrow> settled v r'"
  shows "responds (bindR m f)"
proof (rule respondsI)
  fix r v r' assume r: "open_request r" and run: "bindR m f r = (v, r')"
  obtain u r1 where m: "m r = (u, r1)" by fastforce
  with assms(1) [of "rq_env r"] r have r1: "open_request r1" "\<And>x. u = Inr x \<Longrightarrow> Q x" by (auto simp: ensures_def)
  show "settled v r'"
  proof (cases u)
    case (Inr x)
    with run m assms(2) [OF r1(2) r1(1)] show ?thesis by (simp add: bindR_def)
  qed (use run m r1 in \<open>auto simp: bindR_def\<close>)
qed

lemma finish_answers:
  assumes "open_request r" shows "\<exists>r'. finish r = (Inr (), r') \<and> (\<exists>c. answered c r')"
  using assms by (auto simp: workflow_defs open_request_def answered_def)

lemma process_head_request_responds: "responds (process_head_request cf mt h d s)"
proof (cases "selection_responder cf mt h d s")
  case (Inr rp)
  have "responds (bindR (start_response cf ''no-cache'' rp) (\<lambda>_. bindR finish (\<lambda>_. okR (0 :: int))))"
  proof (rule responds_finish [OF start_response_ensures])
    show "writable rp" using selection_responder_writable [OF Inr] .
    fix r v r' assume "open_request r" "bindR finish (\<lambda>_. okR (0 :: int)) r = (v, r')"
    with finish_answers [of r] show "settled v r'" by (auto simp: bindR_def okR_def intro: settled_Inr)
  qed
  with Inr show ?thesis by (simp add: process_head_request_def)
qed (simp add: process_head_request_def)

lemma not_allowed_responds: "responds (bindR (process_not_allowed a) (\<lambda>_. okR x))"
proof (rule respondsI)
  fix r v r' assume "open_request r" "bindR (process_not_allowed a) (\<lambda>_. okR x) r = (v, r')"
  with process_not_allowed_answers [of r a] show "settled v r'" by (auto simp: bindR_def okR_def intro: settled_Inr)
qed

lemma process_options_request_responds: "responds (process_options_request h)"
proof (rule respondsI)
  fix r v r' assume r: "open_request r" and run: "process_options_request h r = (v, r')"
  let ?hs = "(''Content-Type'', ''text/plain'') #
    (case get_param ''HTTP_ACCESS_CONTROL_REQUEST_HEADERS'' r of None \<Rightarrow> [] | Some hs \<Rightarrow> [(''Access-Control-Allow-Headers'', hs)])"
  show "settled v r'"
  proof (cases "get_param ''HTTP_ORIGIN'' r \<noteq> None \<and> get_param ''HTTP_ACCESS_CONTROL_REQUEST_METHOD'' r \<noteq> None")
    case True
    have "[status 200, add_header ''Content-Type'' ''text/plain''] @
        (case get_param ''HTTP_ACCESS_CONTROL_REQUEST_HEADERS'' r of None \<Rightarrow> []
         | Some hs \<Rightarrow> [add_header ''Access-Control-Allow-Headers'' hs]) @ [finish] =
      status 200 # map (\<lambda>(k, v). add_header k v) ?hs @ [finish]" by (simp split: option.splits)
    then show ?thesis using True run respond_empty [OF r, of 200 ?hs]
      by (auto simp: process_options_request_def bindR_def okR_def simp del: seqR.simps intro: settled_Inr [OF answered_empty])
  next
    case False
    with run have "bindR (process_not_allowed (list_methods (allowed_methods h))) (\<lambda>_. okR 0) r = (v, r')"
      unfolding process_options_request_def by (simp only: if_False)
    then show ?thesis by (rule respondsD [OF not_allowed_responds r])
  qed
qed


lemma process_post_put_settled:
  assumes "open_request r" "process_post_put_request cf user mt h chunks (r, d) = (v, r', d')"
  shows "settled v r'"
proof -
  let ?u = "bindE (throw_if (\<not> payload_enabled h) not_payload_enabled) (\<lambda>_. bindE (get_payload cf chunks r) (\<lambda>payload.
      bindE (check_db_readonly_mode cf) (\<lambda>_. update_responder cf (map_option ui_id user) mt h payload d)))"
  show ?thesis
  proof (cases ?u)
    case (Inl e)
    then show ?thesis using assms by (auto simp: process_post_put_request_def)
  next
    case (Inr x)
    obtain rp d1 where x: "x = (rp, d1)" by fastforce
    have "writable rp" using Inr update_responder_writable by (auto simp: x result_simps)
    with assms Inr show ?thesis
      by (auto simp: process_post_put_request_def x split: if_splits prod.splits
          intro: respondsD [OF process_get_request_responds] respondsD [OF generate_response_responds])
  qed
qed

lemma dispatch_settled:
  assumes "open_request r" "dispatch cf m user mt h s chunks (r, d) = (v, r', d')"
  shows "settled v r'"
proof -
  have "\<not> (m = GET \<or> m = HEAD \<or> m = OPTIONS) \<and> (m = POST \<or> m = PUT) \<Longrightarrow> settled v r'"
    using assms process_post_put_settled [OF assms(1)] by (auto simp: dispatch_def split: sum.splits)
  moreover have "m = GET \<Longrightarrow> settled v r'"
    using assms by (auto simp: dispatch_def split: prod.splits intro: respondsD [OF process_get_request_responds])
  moreover have "m = HEAD \<Longrightarrow> settled v r'"
    using assms by (auto simp: dispatch_def split: prod.splits intro: respondsD [OF process_head_request_responds])
  moreover have "m = OPTIONS \<Longrightarrow> settled v r'"
    using assms by (auto simp: dispatch_def split: prod.splits intro: respondsD [OF process_options_request_responds])
  moreover have "m \<notin> {GET, HEAD, POST, PUT, OPTIONS} \<Longrightarrow> settled v r'"
    using assms by (auto simp: dispatch_def split: prod.splits intro: respondsD [OF not_allowed_responds])
  ultimately show ?thesis by auto
qed

lemma open_default_methods: "open_request r \<Longrightarrow> open_request (set_default_methods ms r)"
  by (simp add: open_request_def set_default_methods_def)

lemma settled_bind: "settled v r \<Longrightarrow> settled (bindE v (\<lambda>x. Inr (f x))) r"
  by (cases v) (simp_all add: settled_def)

lemma serve_handler_settled:
  assumes "open_request (w_request w)" "serve_handler cf rl chunks ip m hm w = (v, w')"
  shows "settled v (w_request w')"
proof -
  obtain h mt where hm: "hm = (h, mt)" by fastforce
  note open' = open_default_methods [OF assms(1)]
  show ?thesis
  proof (cases "determine_user_id (cf_pg cf) (set_default_methods (allowed_methods h) (w_request w)) (w_db w)")
    case (Inl e)
    with assms(2) open' show ?thesis by (auto simp: serve_handler_def hm)
  next
    case (Inr ua)
    with assms(2) open' dispatch_settled [OF open'] show ?thesis
      by (auto simp: serve_handler_def hm Let_def split: prod.splits if_splits sum.splits intro!: settled_bind)
  qed
qed


lemma route_open:
  assumes "open_request r" "route area_max r = (v, r')"
  shows "open_request r'" "rq_env r' = rq_env r"
    "v = Inr hm \<Longrightarrow> \<exists>verb m. rq_env r ''REQUEST_METHOD'' = Some verb \<and> parse_method verb = Some m \<and> allows_method m (fst hm)"
  using ensures_route [of "rq_env r" area_max] assms by (cases hm, fastforce simp: ensures_def)+

lemma serve_settled:
  assumes "open_request (w_request w)" "serve cf rl chunks w = (v, w')"
  shows "settled v (w_request w')"
proof -
  obtain u r where rt: "route (m_map_area_max (cf_settings cf)) (w_request w) = (u, r)" by fastforce
  note r = route_open(1) [OF assms(1) rt]
  have refused: "settled (bindE v1 (\<lambda>_. Inr (None :: served))) r1" if "process_not_allowed a r = (v1, r1)" for a v1 r1
    using process_not_allowed_answers [OF r, of a] that by (auto intro: settled_Inr)
  have handled: "settled v' (w_request w1)" if "serve_handler cf rl chunks ip m hm (w\<lparr>w_request := r\<rparr>) = (v', w1)" for ip m hm v' w1
    by (rule serve_handler_settled [OF _ that]) (simp add: r)
  show ?thesis
  proof (cases u)
    case (Inl e)
    with assms rt r show ?thesis by (auto simp: serve_def split: sum.splits)
  next
    case (Inr hm)
    with assms rt r refused show ?thesis
      by (auto simp: serve_def split: sum.splits option.splits if_splits prod.splits intro: handled)
  qed
qed

text \<open>Exceptions that end the process at once.\<close>

fun fatal :: "exn \<Rightarrow> bool" where
  "fatal (assertion_failed _) \<longleftrightarrow> True"
| "fatal (undefined_behaviour _) \<longleftrightarrow> True"
| "fatal _ \<longleftrightarrow> False"

definition response_code :: "request \<Rightarrow> int \<Rightarrow> int" where
  "response_code r c = (if wants_xml_error r \<and> c \<notin> {401, 404, 405, 415} then 200 else c)"

lemma catch_all_http:
  assumes "open_request r" "code e = Some c"
  shows "\<exists>r'. catch_all cf e r = (None, r') \<and> answered (response_code r c) r'"
  using assms respond_404_answers [OF assms(1)] respond_401_answers [OF assms(1), of "what e"]
    response_415_answers [OF assms(1), of "cf_have_libz cf" "what e"] process_not_allowed_answers [OF assms(1), of "what e"]
    respond_error_answers [OF assms(1), of c e]
  by (cases e) (auto simp: catch_all_def response_code_def)

lemma catch_all_other:
  assumes "open_request r" "code e = None" "\<not> fatal e"
  shows "\<exists>r'. catch_all cf e r = (Some e, r') \<and> answered (response_code r 500) r'"
  using assms respond_error_answers [OF assms(1), of 500 "server_error (what e)"]
  by (cases e) (auto simp: catch_all_def response_code_def)

lemma catch_all_fatal: "fatal e \<Longrightarrow> catch_all cf e r = (Some e, r) \<and> code e = None"
  by (cases e) (auto simp: catch_all_def)


lemma process_request_answers:
  assumes "open_request (w_request w)" "process_request cf rl chunks w = Some (ex, w')"
  shows "(case ex of None \<Rightarrow> \<exists>c. answered c (w_request w')
    | Some e \<Rightarrow> code e = None \<and> (fatal e \<or> (\<exists>c. answered c (w_request w'))))"
proof -
  obtain v w1 where sv: "serve cf rl chunks w = (v, w1)" by fastforce
  note st = serve_settled [OF assms(1) sv]
  show ?thesis
  proof (cases v)
    case (Inr x)
    with st obtain c where "answered c (w_request w1)" by (auto simp: settled_def)
    with assms(2) sv Inr show ?thesis
      by (cases x) (auto simp: process_request_def)
  next
    case (Inl e)
    obtain e1 r1 where c: "catch_all cf e (w_request w1) = (e1, r1)" by fastforce
    have ex: "ex = e1" "w_request w' = r1" using assms(2) sv Inl c by (auto simp: process_request_def)
    have op: "open_request (w_request w1)" using st Inl by simp
    show ?thesis
    proof (cases "code e")
      case None
      then show ?thesis
      proof (cases "fatal e")
        case True
        with catch_all_fatal [OF True, of cf "w_request w1"] c ex show ?thesis by simp
      next
        case False
        with catch_all_other [OF op None False, of cf] c ex None show ?thesis by auto
      qed
    next
      case (Some k)
      with catch_all_http [OF op Some, of cf] c ex show ?thesis by auto
    qed
  qed
qed


text \<open>
  The interface of a rate limiter whose update returns: then \<^verbatim>\<open>process_request\<close> returns, for every
  request, database and store.
\<close>

locale returning_limiter =
  fixes rl :: "'m rate_limiter"
  assumes update_returns: "rl_update rl key bytes md m \<noteq> None"
begin

lemma request_returns: "process_request cf rl chunks w \<noteq> None"
  by (auto simp: process_request_def Let_def update_returns [simplified] split: prod.splits sum.splits option.splits)

lemma request_answered:
  assumes "open_request (w_request w)"
  shows "\<exists>ex w'. process_request cf rl chunks w = Some (ex, w') \<and>
    (case ex of None \<Rightarrow> \<exists>c. answered c (w_request w')
     | Some e \<Rightarrow> code e = None \<and> (fatal e \<or> (\<exists>c. answered c (w_request w'))))"
proof -
  obtain ex w' where "process_request cf rl chunks w = Some (ex, w')" using request_returns by fastforce
  with process_request_answers [OF assms this] show ?thesis by blast
qed

end

interpretation null_limiter: returning_limiter null_rate_limiter
  by unfold_locales (simp add: null_rate_limiter_def)

text \<open>
  memcached where a refused \<open>add\<close> means that there is an entry, which the next \<open>get\<close> finds: the jump back
  is taken at most once.
\<close>

lemma memcached_limiter_returns:
  assumes "\<And>k s e m. fst (mc_add mc k s e m) \<Longrightarrow> fst (mc_get mc k (snd (mc_add mc k s e m))) \<noteq> None"
  shows "returning_limiter (memcached_rate_limiter 2 mc st has_ptr now)"
proof
  show "rl_update (memcached_rate_limiter 2 mc st has_ptr now) key bytes md m \<noteq> None" for key bytes md m
    using update_race [of mc, OF assms] by (simp add: memcached_rate_limiter_def)
qed

lemma plain_store_refuses: "fst (mc_add plain_store k s e m) \<Longrightarrow> fst (mc_get plain_store k (snd (mc_add plain_store k s e m))) \<noteq> None"
  by (simp add: plain_store_def split: if_splits)

interpretation memory_limiter: returning_limiter "memcached_rate_limiter 2 plain_store st has_ptr now" for st has_ptr now
  by (rule memcached_limiter_returns) (rule plain_store_refuses)

section \<open>Who may change the database\<close>

text \<open>The request carries a token of the user that is neither expired nor revoked and has the scope to write.\<close>

definition token_grants :: "pg \<Rightarrow> request \<Rightarrow> osm_db \<Rightarrow> osm_user_id_t \<Rightarrow> bool" where
  "token_grants p r d uid \<longleftrightarrow>
     (\<exists>tok t. param_text ''HTTP_AUTHORIZATION'' r = ''Bearer '' @ tok \<and> t \<in> set (oauth_access_tokens d) \<and>
        (tk_token t = tok \<or> tk_token t = pg_sha256_hex p tok) \<and> tk_resource_owner_id t = uid \<and>
        (\<forall>n. tk_expires_in t = Some n \<longrightarrow> db_now d \<le> tk_created_at t + n) \<and>
        (\<forall>n. tk_revoked_at t = Some n \<longrightarrow> db_now d \<le> n) \<and>
        (\<exists>sc. tk_scopes t = Some sc \<and> ''write_api'' \<in> set (split sc CHR '' '')))"

definition may_write :: "config \<Rightarrow> request \<Rightarrow> osm_db \<Rightarrow> osm_user_id_t \<Rightarrow> bool" where
  "may_write cf r d uid \<longleftrightarrow> token_grants (cf_pg cf) r d uid \<and> \<not> is_user_blocked uid d \<and> is_user_active uid d \<and>
     \<not> cf_readonly cf \<and> cf_has_update_factory cf"

lemma validate_bearer_token_grants:
  assumes "validate_bearer_token p r d = Inr (Some uid, True)" shows "token_grants p r d uid"
proof -
  let ?auth = "param_text ''HTTP_AUTHORIZATION'' r"
  let ?tok = "drop 7 ?auth"
  have "take 7 ?auth = ''Bearer ''" using assms by (auto simp: validate_bearer_token_def Let_def split: if_splits)
  then have bearer: "?auth = ''Bearer '' @ ?tok" by (metis append_take_drop_id)
  obtain t ts where t: "filter (\<lambda>t. tk_token t = ?tok \<or> tk_token t = pg_sha256_hex p ?tok) (oauth_access_tokens d) = t # ts"
    using assms by (auto simp: validate_bearer_token_def get_user_id_for_oauth2_token_def Let_def split: if_splits list.splits)
  then have "t \<in> set (filter (\<lambda>t. tk_token t = ?tok \<or> tk_token t = pg_sha256_hex p ?tok) (oauth_access_tokens d))" by simp
  then have "t \<in> set (oauth_access_tokens d)" "tk_token t = ?tok \<or> tk_token t = pg_sha256_hex p ?tok" by simp_all
  moreover have "tk_resource_owner_id t = uid" "\<forall>n. tk_expires_in t = Some n \<longrightarrow> db_now d \<le> tk_created_at t + n"
    "\<forall>n. tk_revoked_at t = Some n \<longrightarrow> db_now d \<le> n"
    "''write_api'' \<in> set (split (case tk_scopes t of None \<Rightarrow> [] | Some x \<Rightarrow> x) CHR '' '')"
    using assms t by (auto simp: validate_bearer_token_def get_user_id_for_oauth2_token_def Let_def split: if_splits option.splits)
  moreover have "\<exists>sc. tk_scopes t = Some sc \<and> ''write_api'' \<in> set (split sc CHR '' '')"
    using calculation(6) by (cases "tk_scopes t") (auto simp: split_def)
  ultimately show ?thesis unfolding token_grants_def using bearer by blast
qed

lemma update_responder_keeps: "update_responder cf uid mt h payload d = Inr (rp, d') \<Longrightarrow> db.more d' = db.more d"
  by (cases h) (auto simp: on_tables_def with_tables_def result_simps db.defs)

lemma dispatch_writes:
  assumes "dispatch cf m user mt h s chunks (r, d) = (v, r', d')" "d' \<noteq> d"
  obtains u payload rp where "user = Some u" "\<not> is_user_blocked (ui_id u) d" "is_user_active (ui_id u) d" "ui_allow_api_write u"
    "\<not> cf_readonly cf" "cf_has_update_factory cf" "m = POST \<or> m = PUT"
    "update_responder cf (Some (ui_id u)) mt h payload d = Inr (rp, d')"
proof -
  from assms have m: "m = POST \<or> m = PUT" by (auto simp: dispatch_def split: if_splits prod.splits)
  with assms have perm: "validate_user_db_update_permission user d = Inr ()" "cf_has_update_factory cf"
    and run: "process_post_put_request cf user mt h chunks (r, d) = (v, r', d')"
    by (auto simp: dispatch_def throw_if_def result_simps split: if_splits sum.splits)
  from perm(1) obtain u where u: "user = Some u" "\<not> is_user_blocked (ui_id u) d" "is_user_active (ui_id u) d" "ui_allow_api_write u"
    by (auto simp: validate_user_db_update_permission_def split: option.splits if_splits)
  from run assms(2) obtain payload rp where "check_db_readonly_mode cf = Inr ()"
    "update_responder cf (Some (ui_id u)) mt h payload d = Inr (rp, d')"
    by (auto simp: process_post_put_request_def u result_simps split: sum.splits if_splits prod.splits)
  then show ?thesis using that u perm(2) m by (auto simp: check_db_readonly_mode_def throw_if_def split: if_splits)
qed


lemma determine_user_env: "rq_env r' = rq_env r \<Longrightarrow> determine_user_id p r' d = determine_user_id p r d"
  by (simp add: determine_user_id_def validate_bearer_token_def param_text_def get_param_def)

lemma serve_handler_writes:
  assumes "serve_handler cf rl chunks ip m (h, mt) w = (v, w')" "w_db w' \<noteq> w_db w"
  obtains uid payload rp where "may_write cf (w_request w) (w_db w) uid" "m = POST \<or> m = PUT"
    "update_responder cf (Some uid) mt h payload (w_db w) = Inr (rp, w_db w')"
proof -
  have same: "determine_user_id (cf_pg cf) (set_default_methods (allowed_methods h) (w_request w)) (w_db w) =
    determine_user_id (cf_pg cf) (w_request w) (w_db w)"
    by (rule determine_user_env) (simp add: set_default_methods_def)
  from assms obtain ua where ua: "determine_user_id (cf_pg cf) (w_request w) (w_db w) = Inr ua"
    by (cases "determine_user_id (cf_pg cf) (w_request w) (w_db w)") (auto simp: serve_handler_def Let_def same)
  let ?user = "user_info (w_db w) ua"
  from assms ua obtain s r v1 r1 where "dispatch cf m ?user mt h s chunks (r, w_db w) = (v1, r1, w_db w')"
    by (auto simp: serve_handler_def Let_def same split: prod.splits if_splits sum.splits)
  then obtain u payload rp where u: "?user = Some u" "\<not> is_user_blocked (ui_id u) (w_db w)" "is_user_active (ui_id u) (w_db w)"
    "ui_allow_api_write u" "\<not> cf_readonly cf" "cf_has_update_factory cf" "m = POST \<or> m = PUT"
    "update_responder cf (Some (ui_id u)) mt h payload (w_db w) = Inr (rp, w_db w')"
    using assms(2) by (rule dispatch_writes)
  from u(1,4) have "ua = (Some (ui_id u), True)" by (cases ua) (auto simp: user_info_def)
  with ua have "token_grants (cf_pg cf) (w_request w) (w_db w) (ui_id u)"
    using validate_bearer_token_grants by (simp add: determine_user_id_def)
  then show ?thesis using that u by (auto simp: may_write_def)
qed

lemma may_write_env: "rq_env r' = rq_env r \<Longrightarrow> may_write cf r' d uid = may_write cf r d uid"
  by (simp add: may_write_def token_grants_def param_text_def get_param_def)

lemma process_request_writes:
  assumes "open_request (w_request w)" "process_request cf rl chunks w = Some (ex, w')" "w_db w' \<noteq> w_db w"
  obtains uid h mt payload rp where "may_write cf (w_request w) (w_db w) uid"
    "get_param ''REQUEST_METHOD'' (w_request w) \<in> {Some ''POST'', Some ''PUT''}"
    "update_responder cf (Some uid) mt h payload (w_db w) = Inr (rp, w_db w')"
proof -
  obtain v w1 where sv: "serve cf rl chunks w = (v, w1)" by fastforce
  have d: "w_db w' = w_db w1" using assms(2) sv by (auto simp: process_request_def split: sum.splits option.splits prod.splits)
  obtain u r where rt: "route (m_map_area_max (cf_settings cf)) (w_request w) = (u, r)" by fastforce
  note r = route_open(1,2) [OF assms(1) rt]
  have "w_db w1 \<noteq> w_db w" using d assms(3) by simp
  with sv rt obtain verb m ip h mt where served: "serve_handler cf rl chunks ip m (h, mt) (w\<lparr>w_request := r\<rparr>) = (v, w1)"
    and verb: "fcgi_get_env ''REQUEST_METHOD'' None (w_request w) = Inr verb" "parse_method verb = Some m"
    by (auto simp: serve_def split: sum.splits option.splits if_splits prod.splits)
  from served obtain uid payload rp where w: "may_write cf r (w_db w) uid" "m = POST \<or> m = PUT"
    "update_responder cf (Some uid) mt h payload (w_db w) = Inr (rp, w_db w1)"
    using \<open>w_db w1 \<noteq> w_db w\<close> by (elim serve_handler_writes) auto
  have "verb = ''POST'' \<or> verb = ''PUT''" using verb(2) w(2)
    by (auto simp: parse_method_def METHODS_def split: if_splits)
  then show ?thesis using that w d may_write_env [OF r(2)] verb(1) by (auto simp: fcgi_get_env_def split: option.splits)
qed

end
