(* ===== verification/Redactions.thy ===== *)
theory Redactions
  imports Request_Correct
begin

text \<open>
  Redacted versions: what a selection holds that was made without the permission to see them, and
  what is written of it.
\<close>

section \<open>Selections\<close>

definition hides :: "osm_db \<Rightarrow> selection \<Rightarrow> bool" where
  "hides d s \<longleftrightarrow> \<not> m_redactions_visible s \<and>
     (\<forall>(i, v)\<in>sel_historic_nodes s. redaction_ids d (ot_node, i, v) = None) \<and>
     (\<forall>(i, v)\<in>sel_historic_ways s. redaction_ids d (ot_way, i, v) = None) \<and>
     (\<forall>(i, v)\<in>sel_historic_relations s. redaction_ids d (ot_relation, i, v) = None)"

named_theorems hiding \<open>operations that keep redacted versions out\<close>

lemmas select_defs = select_nodes_def select_ways_def select_relations_def select_nodes_from_bbox_def
  select_nodes_from_relations_def select_ways_from_nodes_def select_ways_from_relations_def select_relations_from_ways_def
  select_nodes_from_way_nodes_def select_relations_from_nodes_def select_relations_from_relations_def
  select_relations_members_of_relations_def drop_nodes_def drop_ways_def drop_relations_def select_changesets_def
  select_changeset_discussions_def insert_results_def Let_def

lemma hides_current [hiding]:
  "hides d s \<Longrightarrow> hides d (snd (select_nodes ids d s))" "hides d s \<Longrightarrow> hides d (snd (select_ways ids d s))"
  "hides d s \<Longrightarrow> hides d (snd (select_relations ids d s))" "hides d s \<Longrightarrow> hides d (snd (select_changesets ids d s))"
  "hides d s \<Longrightarrow> hides d (snd (select_nodes_from_bbox b n d s))" "hides d s \<Longrightarrow> hides d (select_nodes_from_relations d s)"
  "hides d s \<Longrightarrow> hides d (select_ways_from_nodes d s)" "hides d s \<Longrightarrow> hides d (select_ways_from_relations d s)"
  "hides d s \<Longrightarrow> hides d (select_relations_from_ways d s)" "hides d s \<Longrightarrow> hides d (select_nodes_from_way_nodes d s)"
  "hides d s \<Longrightarrow> hides d (select_relations_from_nodes d s)" "hides d s \<Longrightarrow> hides d (select_relations_from_relations dr d s)"
  "hides d s \<Longrightarrow> hides d (select_relations_members_of_relations d s)" "hides d s \<Longrightarrow> hides d (drop_nodes s)"
  "hides d s \<Longrightarrow> hides d (drop_ways s)" "hides d s \<Longrightarrow> hides d (drop_relations s)"
  "hides d s \<Longrightarrow> hides d (select_changeset_discussions s)"
  by (auto simp: hides_def select_defs)

lemma hides_historic [hiding]:
  "hides d s \<Longrightarrow> hides d (snd (select_historical_nodes eds d s))" "hides d s \<Longrightarrow> hides d (snd (select_historical_ways eds d s))"
  "hides d s \<Longrightarrow> hides d (snd (select_historical_relations eds d s))" "hides d s \<Longrightarrow> hides d (snd (select_nodes_with_history ids d s))"
  "hides d s \<Longrightarrow> hides d (snd (select_ways_with_history ids d s))" "hides d s \<Longrightarrow> hides d (snd (select_relations_with_history ids d s))"
  "hides d s \<Longrightarrow> hides d (snd (select_historical_by_changesets ids d s))"
  by (auto simp: hides_def select_historical_nodes_def select_historical_ways_def select_historical_relations_def
      select_nodes_with_history_def select_ways_with_history_def select_relations_with_history_def
      select_historical_by_changesets_def by_changeset_def insert_results_def not_redacted_def edition_def Let_def)


lemma hides_element [hiding]:
  "hides d s \<Longrightarrow> node_responder i d s = Inr s' \<Longrightarrow> hides d s'" "hides d s \<Longrightarrow> way_responder i d s = Inr s' \<Longrightarrow> hides d s'"
  "hides d s \<Longrightarrow> relation_responder i d s = Inr s' \<Longrightarrow> hides d s'"
  "hides d s \<Longrightarrow> way_full_responder i d s = Inr s' \<Longrightarrow> hides d s'"
  "hides d s \<Longrightarrow> relation_full_responder i d s = Inr s' \<Longrightarrow> hides d s'"
  by (auto simp: node_responder_def way_responder_def relation_responder_def way_full_responder_def relation_full_responder_def
      case_prod_unfold Let_def result_simps split: if_splits intro!: hiding)

lemma hides_users [hiding]:
  "hides d s \<Longrightarrow> node_ways_responder i d s = Inr s' \<Longrightarrow> hides d s'"
  "hides d s \<Longrightarrow> node_relations_responder i d s = Inr s' \<Longrightarrow> hides d s'"
  "hides d s \<Longrightarrow> way_relations_responder i d s = Inr s' \<Longrightarrow> hides d s'"
  "hides d s \<Longrightarrow> relation_relations_responder i d s = Inr s' \<Longrightarrow> hides d s'"
  by (auto simp: node_ways_responder_def node_relations_responder_def way_relations_responder_def relation_relations_responder_def
      case_prod_unfold Let_def split: if_splits intro!: hiding)

lemma hides_versions [hiding]:
  "hides d s \<Longrightarrow> node_version_responder i v d s = Inr s' \<Longrightarrow> hides d s'"
  "hides d s \<Longrightarrow> way_version_responder i v d s = Inr s' \<Longrightarrow> hides d s'"
  "hides d s \<Longrightarrow> relation_version_responder i v d s = Inr s' \<Longrightarrow> hides d s'"
  "hides d s \<Longrightarrow> node_history_responder i d s = Inr s' \<Longrightarrow> hides d s'"
  "hides d s \<Longrightarrow> way_history_responder i d s = Inr s' \<Longrightarrow> hides d s'"
  "hides d s \<Longrightarrow> relation_history_responder i d s = Inr s' \<Longrightarrow> hides d s'"
  by (auto simp: node_version_responder_def way_version_responder_def relation_version_responder_def node_history_responder_def
      way_history_responder_def relation_history_responder_def some_selected_def case_prod_unfold Let_def split: if_splits intro!: hiding)

lemma hides_lists [hiding]:
  "hides d s \<Longrightarrow> nodes_responder ids d s = Inr s' \<Longrightarrow> hides d s'"
  "hides d s \<Longrightarrow> ways_responder ids d s = Inr s' \<Longrightarrow> hides d s'"
  "hides d s \<Longrightarrow> relations_responder ids d s = Inr s' \<Longrightarrow> hides d s'"
  "hides d s \<Longrightarrow> changeset_responder i disc d s = Inr s' \<Longrightarrow> hides d s'"
  "hides d s \<Longrightarrow> changeset_download_responder i d s = Inr s' \<Longrightarrow> hides d s'"
  "hides d s \<Longrightarrow> map_responder n b d s = Inr s' \<Longrightarrow> hides d s'"
  by (auto simp: nodes_responder_def ways_responder_def relations_responder_def changeset_responder_def changeset_download_responder_def
      map_responder_def case_prod_unfold Let_def split: if_splits intro!: hiding)

section \<open>Documents\<close>

text \<open>A version that a call writes.\<close>

fun object_of :: "element_type \<Rightarrow> object_type" where
  "object_of et_node = ot_node"
| "object_of et_way = ot_way"
| "object_of _ = ot_relation"

definition unredacted_call :: "osm_db \<Rightarrow> fmt_call \<Rightarrow> bool" where
  "unredacted_call d c \<longleftrightarrow>
     (\<forall>ty i. call_info c = Some (ty, i) \<longrightarrow> redaction_ids d (object_of ty, ei_id i, ei_version i) = None)"

text \<open>The version of an element that is current has not been redacted.\<close>

definition current_unredacted :: "osm_db \<Rightarrow> bool" where
  "current_unredacted d \<longleftrightarrow>
     (\<forall>r\<in>set (current_nodes d). redaction_ids d (ot_node, r_id r, r_version r) = None) \<and>
     (\<forall>r\<in>set (current_ways d). redaction_ids d (ot_way, r_id r, r_version r) = None) \<and>
     (\<forall>r\<in>set (current_relations d). redaction_ids d (ot_relation, r_id r, r_version r) = None)"

lemma extract_elem_edition [simp]:
  "ei_id (extract_elem cache row) = col_id row" "ei_version (extract_elem cache row) = col_version row"
  by (simp_all add: extract_elem_def Let_def split: prod.splits)

lemma hides_versions_added:
  assumes "hides d s" "current_unredacted d"
  shows "hides d (nodes_as_versions d s)" "hides d (ways_as_versions d s)" "hides d (relations_as_versions d s)"
  using assms by (auto simp: hides_def current_unredacted_def nodes_as_versions_def ways_as_versions_def relations_as_versions_def edition_def)

lemma hides_write_rows: "hides d s \<Longrightarrow> hides d (snd (write_rows f rows d s))"
  by (auto simp: write_rows_def hides_def split: sum.splits)

lemma unredacted_current:
  assumes "current_unredacted d"
  shows "c \<in> set (fst (fst (write_rows write_node_row (extract_current_nodes p d sel) d s))) \<Longrightarrow> unredacted_call d c"
    "c \<in> set (fst (fst (write_rows write_way_row (extract_current_ways p d sel) d s))) \<Longrightarrow> unredacted_call d c"
    "c \<in> set (fst (fst (write_rows write_relation_row (extract_current_relations p d sel) d s))) \<Longrightarrow> unredacted_call d c"
  using assms
  by (auto dest!: write_rows_from write_row_info simp: unredacted_call_def extract_current_nodes_def extract_current_ways_def
      extract_current_relations_def node_query_row_def way_query_row_def relation_query_row_def current_unredacted_def)

lemma unredacted_historic:
  assumes "hides d s'"
  shows "c \<in> set (fst (fst (write_rows write_node_row (extract_historic_nodes p d (sel_historic_nodes s')) d s))) \<Longrightarrow> unredacted_call d c"
    "c \<in> set (fst (fst (write_rows write_way_row (extract_historic_ways p d (sel_historic_ways s')) d s))) \<Longrightarrow> unredacted_call d c"
    "c \<in> set (fst (fst (write_rows write_relation_row (extract_historic_relations p d (sel_historic_relations s')) d s))) \<Longrightarrow> unredacted_call d c"
  using assms
  by (auto dest!: write_rows_from write_row_info simp: unredacted_call_def extract_historic_nodes_def extract_historic_ways_def
      extract_historic_relations_def node_query_row_def way_query_row_def relation_query_row_def hides_def edition_def)

lemma hides_write:
  assumes "hides d s" "current_unredacted d"
  shows "hides d (snd (write_nodes p d s)) \<and> (\<forall>c\<in>set (fst (fst (write_nodes p d s))). unredacted_call d c)"
    "hides d (snd (write_ways p d s)) \<and> (\<forall>c\<in>set (fst (fst (write_ways p d s))). unredacted_call d c)"
    "hides d (snd (write_relations p d s)) \<and> (\<forall>c\<in>set (fst (fst (write_relations p d s))). unredacted_call d c)"
  using hides_versions_added [OF assms] assms(2)
  by (auto simp: write_nodes_def write_ways_def write_relations_def Let_def
      intro: hides_write_rows unredacted_current unredacted_historic)

lemma hides_write_elements:
  assumes "hides d s" "current_unredacted d" "c \<in> set (fst (write_elements p d s))" shows "unredacted_call d c"
proof -
  obtain ns e1 s1 ws e2 s2 rs e3 s3 where w: "write_nodes p d s = ((ns, e1), s1)" "write_ways p d s1 = ((ws, e2), s2)"
    "write_relations p d s2 = ((rs, e3), s3)" by (metis surj_pair)
  have "hides d s1" "\<forall>c\<in>set ns. unredacted_call d c" using hides_write(1) [OF assms(1,2), of p] w by simp_all
  moreover from this have "hides d s2" "\<forall>c\<in>set ws. unredacted_call d c" using hides_write(2) [of d s1 p] assms(2) w by simp_all
  moreover from this have "\<forall>c\<in>set rs. unredacted_call d c" using hides_write(3) [of d s2 p] assms(2) w by simp_all
  ultimately show ?thesis using assms(3) w by (auto simp: write_elements_def split: if_splits)
qed

lemma unredacted_other [simp]: "call_info c = None \<Longrightarrow> unredacted_call d c"
  by (simp add: unredacted_call_def)

lemma unredacted_documents:
  assumes "hides d s" "current_unredacted d"
  shows "c \<in> set (osm_current_write p g b d s) \<Longrightarrow> unredacted_call d c"
    "c \<in> set (osmchange_write p g d s) \<Longrightarrow> unredacted_call d c"
    "c \<in> set (osm_changeset_write p g multi d s) \<Longrightarrow> unredacted_call d c"
proof -
  note el = hides_write_elements [OF assms]
  show "c \<in> set (osm_current_write p g b d s) \<Longrightarrow> unredacted_call d c"
    using el [of _ p] by (cases "write_elements p d s") (auto simp: osm_current_write_def on_error_def split: option.splits)
  show "c \<in> set (osmchange_write p g d s) \<Longrightarrow> unredacted_call d c"
    using el [of _ p] by (cases "write_elements p d s") (auto simp: osmchange_write_def sorted_actions_def split: prod.splits option.splits)
  show "c \<in> set (osm_changeset_write p g multi d s) \<Longrightarrow> unredacted_call d c"
    by (auto simp: osm_changeset_write_def write_changesets_def on_error_def write_changeset_row_def result_simps
        split: prod.splits option.splits if_splits sum.splits dest!: arg_cong [of _ _ fst] extract_rows_from)
qed

lemma selection_responder_unredacted:
  assumes "selection_responder cf mt h d s = Inr rp" "hides d s" "current_unredacted d" "c \<in> set (rp_calls rp)"
  shows "unredacted_call d c"
proof -
  have cur: "unredacted_call d c" if "current_responder cf mt b d sel = Inr rp" "\<And>s'. sel = Inr s' \<Longrightarrow> hides d s'" for b sel
    using that assms(3,4) unredacted_documents(1) by (auto simp: current_responder_def result_simps)
  show ?thesis
  proof (cases h)
    case (changeset_download_handler i)
    with assms(1) obtain s' where "changeset_download_responder i d s = Inr s'" "rp_calls rp = osmchange_write (cf_pg cf) (cf_generator cf) d s'"
      by (auto simp: result_simps)
    with hides_lists(5) [OF assms(2)] assms(3,4) show ?thesis by (auto intro: unredacted_documents(2))
  next
    case (changeset_handler i disc)
    with assms(1) obtain s' where "changeset_responder i disc d s = Inr s'" "rp_calls rp = osm_changeset_write (cf_pg cf) (cf_generator cf) False d s'"
      by (auto simp: result_simps)
    with hides_lists(4) [OF assms(2)] assms(3,4) show ?thesis by (auto intro: unredacted_documents(3))
  next
    case (changeset_update_handler i)
    with assms(1) hides_current(4) [OF assms(2)] show ?thesis by (auto elim!: cur)
  qed (use assms(1) in \<open>auto elim!: cur dest: hides_element [OF assms(2)] hides_users [OF assms(2)] hides_versions [OF assms(2)] hides_lists [OF assms(2)]\<close>)
qed


section \<open>Requests\<close>

definition docs_of :: "request \<Rightarrow> fmt_call list set" where
  "docs_of r = {calls. \<exists>enc f. out_document enc f calls \<in> set (rq_out r)}"

text \<open>Operations that send no documents but those of a set.\<close>

definition sends :: "fmt_call list set \<Rightarrow> 'a rq \<Rightarrow> bool" where
  "sends X m \<longleftrightarrow> (\<forall>r. docs_of (snd (m r)) \<subseteq> X \<union> docs_of r)"

lemma sends_bindR: "sends X m \<Longrightarrow> (\<And>x. sends X (f x)) \<Longrightarrow> sends X (bindR m f)"
  unfolding sends_def
proof
  fix r assume m: "\<forall>r. docs_of (snd (m r)) \<subseteq> X \<union> docs_of r" and f: "\<And>x. \<forall>r. docs_of (snd (f x r)) \<subseteq> X \<union> docs_of r"
  obtain v r1 where run: "m r = (v, r1)" by fastforce
  have "docs_of r1 \<subseteq> X \<union> docs_of r" using m run by (metis snd_conv)
  then show "docs_of (snd (bindR m f r)) \<subseteq> X \<union> docs_of r" using f run by (cases v) (auto simp: bindR_def)
qed

lemma sends_basic [simp]:
  "sends X (okR x)" "sends X (liftR v)" "sends X (\<lambda>r. (g r, r))" "sends X (check_workflow st)"
  by (auto simp: sends_def workflow_defs docs_of_def)

lemma sends_modify [simp]:
  "sends X (modifyR (\<lambda>r. r\<lparr>m_status := c\<rparr>))" "sends X (modifyR (\<lambda>r. r\<lparr>m_headers := m_headers r @ hs\<rparr>))"
  "sends X (emit (out_text m))" "calls \<in> X \<Longrightarrow> sends X (emit (out_document enc f calls))"
  by (auto simp: sends_def modifyR_def emit_def docs_of_def)

lemma sends_ops [simp]: "sends X (status c)" "sends X (add_header k v)" "sends X (put m)" "sends X finish" "sends X get_buffer"
  by (simp_all add: status_def add_header_def put_def finish_def get_buffer_def sends_bindR)

lemma sends_seqR: "\<forall>m\<in>set ms. sends X m \<Longrightarrow> sends X (seqR ms)"
  by (induction ms) (simp_all add: sends_bindR)

lemma sends_errors [simp]:
  "sends X respond_404" "sends X (respond_401 m)" "sends X (response_415 hz m)" "sends X (process_not_allowed a)"
  by (simp_all add: respond_404_def respond_401_def response_415_def process_not_allowed_def sends_seqR del: seqR.simps)

lemma sends_respond_error [simp]: "sends X (respond_error c e)"
proof -
  obtain hs where hs: "retry_after e = map (\<lambda>(k, v). add_header k v) hs" using retry_after_headers by blast
  have "sends X (seqR [status 200, add_header ''Content-Type'' ''application/xml; charset=utf-8'', put (osm_error c (what e)), finish])"
    "sends X (seqR ([status c, add_header ''Content-Type'' ''text/plain'', add_header ''Content-Length'' (size_text (what e)),
       add_header ''Error'' (error_header (what e)), add_header ''Cache-Control'' ''no-cache''] @ retry_after e @ [put (what e), finish]))"
    by (rule sends_seqR, simp, rule sends_seqR) (auto simp: hs)
  then show ?thesis unfolding sends_def respond_error_def by (simp only: split: if_split) simp
qed

lemma catch_all_sends: "docs_of (snd (catch_all cf e r)) \<subseteq> docs_of r"
proof -
  have esc: "docs_of (snd (case m r of (v :: unit result, r') \<Rightarrow> (case v of Inl e' \<Rightarrow> Some e' | Inr _ \<Rightarrow> None, r'))) \<subseteq> docs_of r"
    if "sends {} m" for m using that by (simp add: sends_def case_prod_unfold)
  have "docs_of (snd (respond_error 500 (server_error (what e)) r)) \<subseteq> docs_of r"
    using sends_respond_error [of "{}"] unfolding sends_def by simp
  then show ?thesis unfolding catch_all_def Let_def by (cases e) (simp_all add: esc)
qed


lemma start_response_sends: "sends X (start_response cf cache rp)"
  unfolding start_response_def by (intro sends_bindR sends_basic sends_ops sends_seqR) auto

lemma generate_response_sends: "sends {rp_calls rp} (generate_response cf rp)"
  unfolding generate_response_def
proof (rule sends_bindR [OF start_response_sends])
  fix em :: "encoding \<times> mime_type"
  obtain enc mt where em: "em = (enc, mt)" by fastforce
  show "sends {rp_calls rp} (case em of (enc, mt) \<Rightarrow> bindR get_buffer (\<lambda>_. bindR (liftR (create_formatter mt)) (\<lambda>f.
     bindR (emit (out_document enc f (rp_calls rp))) (\<lambda>_. bindR finish (\<lambda>_. okR (cf_written cf enc f (rp_calls rp)))))))"
    by (simp add: em sends_bindR)
qed

text \<open>The documents a handler may send without the permission to show redactions are free of redacted versions.\<close>

definition clean :: "osm_db \<Rightarrow> fmt_call list set" where
  "clean d = {calls. \<forall>c\<in>set calls. unredacted_call d c}"

lemma sends_mono: "sends X m \<Longrightarrow> X \<subseteq> Y \<Longrightarrow> sends Y m"
  unfolding sends_def by blast

lemma process_get_request_sends:
  assumes "hides d s" "current_unredacted d" shows "sends (clean d) (process_get_request cf mt h d s)"
proof (cases "selection_responder cf mt h d s")
  case (Inr rp)
  then have "rp_calls rp \<in> clean d" using selection_responder_unredacted [OF Inr assms] by (simp add: clean_def)
  then show ?thesis using Inr sends_mono [OF generate_response_sends, of rp "clean d" cf]
    by (simp add: process_get_request_def liftR_def bindR_def)
qed (simp add: process_get_request_def liftR_def bindR_def sends_def)

lemma process_head_request_sends: "sends X (process_head_request cf mt h d s)"
  unfolding process_head_request_def by (intro sends_bindR start_response_sends) simp_all

lemma process_options_request_sends: "sends X (process_options_request h)"
proof -
  have "sends X (bindR (seqR ([status 200, add_header ''Content-Type'' ''text/plain''] @
      (case v of None \<Rightarrow> [] | Some hs \<Rightarrow> [add_header ''Access-Control-Allow-Headers'' hs]) @ [finish])) (\<lambda>_. okR (0 :: int)))" for v
    by (rule sends_bindR [OF sends_seqR]) (auto split: option.splits)
  moreover have "sends X (bindR (process_not_allowed a) (\<lambda>_. okR (0 :: int)))" for a by (intro sends_bindR) simp_all
  ultimately show ?thesis unfolding process_options_request_def sends_def by (simp only: split: if_split) simp
qed

lemma update_calls_unredacted:
  assumes "update_responder cf uid mt h payload d = Inr (rp, d')" "c \<in> set (rp_calls rp)" shows "unredacted_call d'' c"
proof -
  have "call_info c' = None" if "c' \<in> set (osm_diffresult_write g rows)" for c' g rows
  proof -
    have "call_info c' = None" if "c' \<in> set (diffresult_calls item)" for item
      using that by (cases "dr_op item") (auto simp: diffresult_calls_def Let_def split: if_splits)
    with that show ?thesis by (auto simp: osm_diffresult_write_def)
  qed
  then show ?thesis using assms
    by (cases h) (auto simp: on_tables_def result_simps text_responder_def)
qed


lemma process_post_put_docs:
  assumes "process_post_put_request cf user mt h chunks (r, d) = (v, r', d')" "current_unredacted d'" "docs_of r = {}"
  shows "docs_of r' \<subseteq> clean d'"
proof -
  let ?u = "bindE (throw_if (\<not> payload_enabled h) not_payload_enabled) (\<lambda>_. bindE (get_payload cf chunks r) (\<lambda>payload.
      bindE (check_db_readonly_mode cf) (\<lambda>_. update_responder cf (map_option ui_id user) mt h payload d)))"
  have hid: "hides d' empty_selection" by (simp add: hides_def empty_selection_def)
  show ?thesis
  proof (cases ?u)
    case (Inl e)
    then show ?thesis using assms by (auto simp: process_post_put_request_def)
  next
    case (Inr x)
    obtain rp d1 where x: "x = (rp, d1)" by fastforce
    with Inr obtain payload where "update_responder cf (map_option ui_id user) mt h payload d = Inr (rp, d1)"
      by (auto simp: result_simps)
    then have "rp_calls rp \<in> clean d'" using update_calls_unredacted by (auto simp: clean_def)
    then have gen: "sends (clean d') (generate_response cf rp)" by (intro sends_mono [OF generate_response_sends]) simp
    have "d' = d1" using assms(1) Inr x by (auto simp: process_post_put_request_def split: if_splits prod.splits)
    moreover have "snd (process_get_request cf mt h d1 empty_selection r) = r' \<or> snd (generate_response cf rp r) = r'"
      using assms(1) Inr x by (auto simp: process_post_put_request_def split: if_splits prod.splits)
    ultimately show ?thesis using gen process_get_request_sends [OF hid assms(2), of cf mt h] assms(3)
      unfolding sends_def by blast
  qed
qed

lemma dispatch_docs:
  assumes "dispatch cf m user mt h s chunks (r, d) = (v, r', d')" "hides d s" "current_unredacted d'" "docs_of r = {}"
  shows "docs_of r' \<subseteq> clean d'"
proof -
  have sent: "docs_of r' \<subseteq> clean d'" if "sends (clean d') m'" "r' = snd (m' r)" for m' :: "int rq"
    using that assms(4) unfolding sends_def by blast
  have na: "sends X (bindR (process_not_allowed a) (\<lambda>_. okR (0 :: int)))" for X a by (intro sends_bindR) simp_all
  consider "m = GET" | "m = HEAD" | "m = POST \<or> m = PUT" | "m = OPTIONS" | "m \<notin> {GET, HEAD, POST, PUT, OPTIONS}" by auto
  then show ?thesis
  proof cases
    case 1
    then have "r' = snd (process_get_request cf mt h d s r)" "d' = d" using assms(1) by (auto simp: dispatch_def split: prod.splits)
    then show ?thesis using sent process_get_request_sends assms(2,3) by blast
  next
    case 2
    then have "r' = snd (process_head_request cf mt h d s r)" using assms(1) by (auto simp: dispatch_def split: prod.splits)
    then show ?thesis using sent process_head_request_sends by blast
  next
    case 3
    then show ?thesis using assms process_post_put_docs [of cf user mt h chunks r d v r' d']
      by (auto simp: dispatch_def split: sum.splits)
  next
    case 4
    then have "r' = snd (process_options_request h r)" using assms(1) by (auto simp: dispatch_def split: prod.splits)
    then show ?thesis using sent process_options_request_sends by blast
  next
    case 5
    then have "r' = snd (bindR (process_not_allowed (list_methods (allowed_methods h))) (\<lambda>_. okR (0 :: int)) r)"
      using assms(1) by (auto simp: dispatch_def split: prod.splits)
    then show ?thesis using sent na by blast
  qed
qed


text \<open>Only a moderator who asks for it sees redacted versions.\<close>

definition shows_redactions :: "config \<Rightarrow> request \<Rightarrow> osm_db \<Rightarrow> bool" where
  "shows_redactions cf r d \<longleftrightarrow>
     (\<exists>uid w. determine_user_id (cf_pg cf) r d = Inr (Some uid, w) \<and> moderator \<in> get_roles_for_user uid d) \<and>
     show_redactions_requested r = Inr True"

lemma show_redactions_env: "rq_env r' = rq_env r \<Longrightarrow> show_redactions_requested r' = show_redactions_requested r"
  by (simp add: show_redactions_requested_def query_params_def get_query_string_def param_text_def get_param_def)

lemma serve_handler_docs:
  assumes "serve_handler cf rl chunks ip m (h, mt) w = (v, w')" "open_request (w_request w)" "current_unredacted (w_db w')"
    and "\<not> shows_redactions cf (w_request w) (w_db w)"
  shows "docs_of (w_request w') \<subseteq> clean (w_db w')"
proof -
  let ?r = "set_default_methods (allowed_methods h) (w_request w)"
  have env: "rq_env ?r = rq_env (w_request w)" by (simp add: set_default_methods_def)
  have none: "docs_of ?r = {}" using assms(2) by (simp add: docs_of_def set_default_methods_def open_request_def)
  have hid: "hides d empty_selection" for d by (simp add: hides_def empty_selection_def)
  show ?thesis
  proof (cases "determine_user_id (cf_pg cf) ?r (w_db w)")
    case (Inl e)
    then show ?thesis using assms(1) none by (auto simp: serve_handler_def Let_def)
  next
    case (Inr ua)
    let ?user = "user_info (w_db w) ua"
    have hidden: "(if is_moderator ?user then show_redactions_requested ?r else Inr False) = Inr visible \<Longrightarrow> \<not> visible" for visible
    proof
      assume sh: "(if is_moderator ?user then show_redactions_requested ?r else Inr False) = Inr visible" "visible"
      then have "is_moderator ?user" "show_redactions_requested ?r = Inr True" by (auto split: if_splits)
      moreover obtain uid wr where "ua = (Some uid, wr)" "moderator \<in> get_roles_for_user uid (w_db w)"
        using calculation(1) by (cases ua) (auto simp: is_moderator_def user_info_def split: option.splits)
      ultimately show False
        using assms(4) Inr determine_user_env [OF env] show_redactions_env [OF env] by (auto simp: shows_redactions_def)
    qed
    have disp: "docs_of r' \<subseteq> clean d'" if "dispatch cf m ?user mt h empty_selection chunks (?r, w_db w) = (v', r', d')"
      "current_unredacted d'" for v' r' d' using dispatch_docs [OF that(1) hid that(2) none] .
    show ?thesis using assms(1,3) Inr none hidden disp
      by (auto simp: serve_handler_def Let_def split: prod.splits if_splits sum.splits)
  qed
qed


lemma shows_redactions_env:
  assumes "rq_env r' = rq_env r" shows "shows_redactions cf r' d = shows_redactions cf r d"
  using determine_user_env [OF assms] show_redactions_env [OF assms] by (simp add: shows_redactions_def)

lemma serve_docs:
  assumes "serve cf rl chunks w = (v, w')" "open_request (w_request w)" "current_unredacted (w_db w')"
    and "\<not> shows_redactions cf (w_request w) (w_db w)"
  shows "docs_of (w_request w') \<subseteq> clean (w_db w')"
proof -
  obtain u r where rt: "route (m_map_area_max (cf_settings cf)) (w_request w) = (u, r)" by fastforce
  note r = route_open(1,2) [OF assms(2) rt]
  have none: "docs_of r = {}" "docs_of (w_request w) = {}" using r(1) assms(2) by (simp_all add: docs_of_def open_request_def)
  have na: "docs_of r1 = {}" if "process_not_allowed a r = (v1, r1)" for a v1 r1
  proof -
    have "docs_of (snd (process_not_allowed a r)) \<subseteq> {} \<union> docs_of r" using sends_errors(4) [of "{}" a] unfolding sends_def by blast
    with that none(1) show ?thesis by simp
  qed
  have handled: "docs_of (w_request w1) \<subseteq> clean (w_db w1)"
    if "serve_handler cf rl chunks ip m hm (w\<lparr>w_request := r\<rparr>) = (v', w1)" "current_unredacted (w_db w1)" for ip m hm v' w1
    using that serve_handler_docs [of cf rl chunks ip m "fst hm" "snd hm" "w\<lparr>w_request := r\<rparr>" v' w1] r assms(4)
      shows_redactions_env [OF r(2)] by simp
  show ?thesis
  proof (cases u)
    case (Inl e)
    with assms(1) rt none show ?thesis by (auto simp: serve_def split: sum.splits)
  next
    case (Inr hm)
    with assms(1,3) rt none show ?thesis
      by (auto simp: serve_def split: sum.splits option.splits if_splits prod.splits dest: na handled)
  qed
qed

lemma process_request_docs:
  assumes "process_request cf rl chunks w = Some (ex, w')" "open_request (w_request w)" "current_unredacted (w_db w')"
    and "\<not> shows_redactions cf (w_request w) (w_db w)"
  shows "docs_of (w_request w') \<subseteq> clean (w_db w')"
proof -
  obtain v w1 where sv: "serve cf rl chunks w = (v, w1)" by fastforce
  have d: "w_db w' = w_db w1" using assms(1) sv by (auto simp: process_request_def split: sum.splits option.splits prod.splits)
  note docs = serve_docs [OF sv assms(2) _ assms(4)]
  show ?thesis
  proof (cases v)
    case (Inl e)
    then have "w_request w' = snd (catch_all cf e (w_request w1))"
      using assms(1) sv by (auto simp: process_request_def split: prod.splits)
    then show ?thesis using docs assms(3) d catch_all_sends [of cf e "w_request w1"] by auto
  next
    case (Inr x)
    then have "w_request w' = w_request w1"
      using assms(1) sv by (cases x) (auto simp: process_request_def)
    then show ?thesis using docs assms(3) d by simp
  qed
qed

end
