(* ===== verification/Observations.thy ===== *)
theory Observations
  imports Request_Correct
begin

text \<open>
  Behaviours of the request handling that a reader of the comments and of the API documentation
  would not expect, each stated of the model.
\<close>

section \<open>Routing\<close>

text \<open>A version in a path is read with 64 bits and cut to 32.\<close>

lemma version_in_path_wraps:
  "match_verb area_max GET [''node'', ''1'', ''4294967298''] r = (Inr (Some (node_version_handler 1 2)), r)"
proof -
  have "match_part match_osm_id ''4294967298'' = Some [4294967298]" "match_part match_osm_id ''1'' = Some [1]"
    by (simp_all add: match_part.simps(2) is_digit_def from_chars_u64_def from_chars_unsigned_def digits_value_def Let_def less_eq_char_def)
  then show ?thesis by (simp add: route_eval u32_def okR_run cong: if_cong)
qed

text \<open>The preflight of an update is answered for the handler that reads the changeset: PUT is not among its verbs.\<close>

lemma preflight_without_put:
  assumes "0 < i" "i < 2 ^ 63" "query_params r = Inr ps"
  shows "\<exists>h. match_verb area_max OPTIONS [''changeset'', fmt_d i] r = (Inr (Some h), r) \<and> \<not> allows_method PUT h"
proof -
  have "\<not> allows_method PUT (changeset_handler i x)" for x
    by (simp add: allows_method_def default_methods_def GET_def PUT_def HEAD_def OPTIONS_def)
  then show ?thesis using match_verb_changeset [OF assms, of OPTIONS area_max] by blast
qed

text \<open>A verb that is not one of the five gives 404, not 405.\<close>

lemma unknown_verb_not_found:
  assumes "get_param ''REQUEST_METHOD'' r = Some v" "parse_method v = None" "get_request_path r = Inr path"
  shows "route area_max r = (Inl (no_route path), r)"
  using assms by (auto simp: route_def route_resource_def router_match_def fcgi_get_env_def bindR_def okR_def liftR_def split: prod.splits)

text \<open>A write to the map is refused for its query, before its verb.\<close>

lemma map_query_before_verb:
  assumes "bindE (get_query_string r) (map_validate_request area_max) = Inl e"
  shows "match_verb area_max POST [''map''] r = (Inl e, r)"
  using assms by (simp add: route_eval make_map_handler_def bindR_def cong: if_cong)

section \<open>Responses\<close>

text \<open>The document sent after the update of a changeset does not contain the changeset.\<close>

lemma update_response_empty:
  assumes "selection_responder cf mt (changeset_update_handler i) d empty_selection = Inr rp"
  shows "rp_calls rp = [start_document (cf_generator cf) ''osm'', fmt_call.start_element, fmt_call.end_element, end_document]"
  using assms by (auto simp: current_responder_def osm_current_write_def write_elements_def write_nodes_def write_ways_def
      write_relations_def nodes_as_versions_def ways_as_versions_def relations_as_versions_def select_changesets_def
      insert_results_def empty_selection_def on_error_def Let_def)

text \<open>An update is committed before the type of the response is negotiated.\<close>

lemma committed_though_refused:
  assumes "payload_enabled h" "get_payload cf chunks r = Inr payload" "\<not> cf_readonly cf" "\<not> requires_selection_after_update h"
    and "update_responder cf (map_option ui_id user) mt h payload d = Inr (rp, d')"
    and "get_encoding (cf_have_brotli cf) (cf_have_libz cf) r = Inr enc" "request_mime_type (rp_types rp) (rp_resource rp) r = Inl e"
  shows "process_post_put_request cf user mt h chunks (r, d) = (Inl e, r, d')"
  using assms by (simp add: process_post_put_request_def check_db_readonly_mode_def throw_if_def generate_response_def
      start_response_def bindR_def)

text \<open>A weight in Accept-Encoding that is no number is an exception outside of the \<^verbatim>\<open>http\<close> namespace: it leaves \<^verbatim>\<open>process_request\<close>.\<close>

lemma malformed_weight_escapes:
  assumes "open_request r"
  shows "\<exists>e r'. choose_encoding hb hz ''gzip;q=x'' = Inl e \<and> catch_all cf e r = (Some e, r') \<and> answered (response_code r 500) r'"
proof -
  have "header_qualities ''gzip;q=x'' = Inl (runtime_error ''sto: no conversion'')" by code_simp
  then have "choose_encoding hb hz ''gzip;q=x'' = Inl (runtime_error ''sto: no conversion'')" by (simp add: choose_encoding_def)
  then show ?thesis using catch_all_other [OF assms] by fastforce
qed

section \<open>Payloads\<close>

text \<open>An element inside of a tag of a changeset fails an assertion of the parser.\<close>

lemma nested_tag_asserts:
  "\<exists>m. cset_process_message (Some \<circ> length)
     (unlocated (events_of (elem ''osm'' [] [elem ''changeset'' []
        [elem ''tag'' [(''k'', ''a''), (''v'', ''b'')] [elem ''x'' [] []]]]))) = Inl (assertion_failed m)"
  by (simp add: cset_process_message_def unlocated_def init_cset_parser_def cset_start_element_def cset_end_element_def
      cset_tag_element_def last_attr_def cset_add_tag_def unicode_strlen_def assert_element_def throw_if_def)

text \<open>The text of an error goes into the XML form as it is.\<close>

lemma error_text_not_escaped: "\<exists>a b. osm_error c message = a @ ''<message>'' @ message @ ''</message>'' @ b"
  unfolding osm_error_def
  by (rule exI [of _ "''<?xml version=\"1.0\" encoding=\"utf-8\" ?>'' @ crlf @ ''<osmError>'' @ crlf @ ''<status>'' @ fmt_d c @ '' '' @
     status_message c @ ''</status>'' @ crlf"], rule exI [of _ "crlf @ ''</osmError>'' @ crlf"]) simp

end
