(* ===== verification/Web_Samples.thy ===== *)
theory Web_Samples
  imports Redactions Observations Samples
begin

text \<open>
  A small server on which requests are processed from end to end: way 1 has two versions, of
  which the first was redacted; user 7 has a token with the scope to write.
\<close>

definition web_db :: osm_db where
  "web_db = db.extend
     (sample_db\<lparr>current_ways := [sample_row 1 2 True], ways_tbl := [sample_row 1 1 True, sample_row 1 2 True]\<rparr>)
     (osm_db.fields (\<lambda>k. if k = (ot_way, 1, 1) then Some 4 else None)
        [\<lparr>u_id = 7, u_display_name = ''mapper'', u_data_public = True, u_status = ''active''\<rparr>] [] [] []
        [\<lparr>tk_token = ''T'', tk_resource_owner_id = 7, tk_expires_in = None, tk_created_at = 10, tk_revoked_at = None,
          tk_scopes = Some ''read write_api''\<rparr>])"

definition changeset_doc :: xml where
  "changeset_doc = elem ''osm'' [] [elem ''changeset'' [] [elem ''tag'' [(''k'', ''comment''), (''v'', ''x'')] []]]"

definition web_pg :: pg where
  "web_pg = \<lparr>pg_to_char = (\<lambda>_. ''t''), pg_quotes = (\<lambda>_. True), pg_le = (\<lambda>a b. True), pg_sha256_hex = id\<rparr>"

definition unit_box :: bbox where
  "unit_box = \<lparr>bb_minlat = finite_double 0, bb_minlon = finite_double 0, bb_maxlat = finite_double 1, bb_maxlon = finite_double 1\<rparr>"

definition web_config :: config where
  "web_config =
     \<lparr>cf_settings = global_settings_default, cf_generator = ''cgimap'', cf_have_brotli = False, cf_have_libz = True,
      cf_has_update_factory = True, cf_readonly = False,
      cf_pg = web_pg,
      cf_interval = (\<lambda>s. if s = ''1 day'' then 86400 else 3600), cf_lock_free = True, cf_mbslen = Some \<circ> length,
      cf_api_rate_limit = (\<lambda>_. Some 1000), cf_api_size_limit = (\<lambda>_. Some 50000000),
      cf_sax = (\<lambda>_. unlocated (events_of changeset_doc)), cf_inflate = (\<lambda>_ _ _. Inl bad_data),
      cf_written = (\<lambda>_ _ calls. int (length calls))\<rparr>"

definition request_of :: "(string \<times> string) list \<Rightarrow> request" where
  "request_of env = \<lparr>rq_env = map_of env, m_workflow_status = status_NONE, m_status = 500, m_headers = [],
     m_success_headers = [], m_methods = default_methods, rq_out = []\<rparr>"

definition web_world :: "(string \<times> string) list \<Rightarrow> unit world" where
  "web_world env = \<lparr>w_request = request_of env, w_db = web_db, w_store = ()\<rparr>"

text \<open>The same with an empty memcached.\<close>

definition stored_world :: "(string \<times> string) list \<Rightarrow> (string \<Rightarrow> rl_state option) world" where
  "stored_world env = \<lparr>w_request = request_of env, w_db = web_db, w_store = (\<lambda>_. None)\<rparr>"

definition create_env :: "(string \<times> string) list" where
  "create_env = [(''REMOTE_ADDR'', ''::1''), (''REQUEST_METHOD'', ''PUT''), (''REQUEST_URI'', ''/api/0.6/changeset/create''),
     (''HTTP_AUTHORIZATION'', ''Bearer T'')]"

definition history_env :: "(string \<times> string) list" where
  "history_env = [(''REMOTE_ADDR'', ''::1''), (''REQUEST_METHOD'', ''GET''), (''REQUEST_URI'', ''/api/0.6/way/1/history'')]"

section \<open>Evaluation\<close>

lemma open_web_world: "open_request (w_request (web_world env))"
  by (simp add: web_world_def request_of_def open_request_def)

lemma open_stored_world: "open_request (w_request (stored_world env))"
  by (simp add: stored_world_def request_of_def open_request_def)

lemma create_route: "route area_max (request_of create_env) = (Inr (changeset_create_handler, unspecified_type), request_of create_env)"
proof -
  have path: "get_request_path (request_of create_env) = Inr ''/api/0.6/changeset/create''"
    by (simp add: get_request_path_def param_text_def get_param_def request_of_def create_env_def)
  have verb: "fcgi_get_env ''REQUEST_METHOD'' None (request_of create_env) = Inr ''PUT''"
    by (simp add: fcgi_get_env_def get_param_def request_of_def create_env_def)
  have "split ''changeset/create'' CHR ''/'' = [''changeset'', ''create'']" by (simp add: split_def)
  then have "router_match area_max (split ''changeset/create'' CHR ''/'') (request_of create_env) =
    (Inr (Some changeset_create_handler), request_of create_env)"
    using match_verb_write(3) [of 1 PUT area_max "request_of create_env"] verb by (simp add: router_match_def bindR_def)
  moreover have "resource_mime_type ''changeset/create'' = (''changeset/create'', unspecified_type)"
    by (simp add: resource_mime_type_def ends_with_def)
  ultimately show ?thesis
    by (simp add: route_def path bindR_def common_prefix_def route_resource_def okR_def)
qed

lemma create_user: "determine_user_id (cf_pg web_config) (request_of create_env) web_db = Inr (Some 7, True)"
  by (simp add: determine_user_id_def validate_bearer_token_def param_text_def get_param_def request_of_def create_env_def
      has_forbidden_char_def is_valid_bearer_token_char_def get_user_id_for_oauth2_token_def web_db_def
      osm_db.defs db.defs web_config_def split_def)


lemma changeset_doc_tags: "cset_process_message (Some \<circ> length) (unlocated (events_of changeset_doc)) = Inr [(''comment'', ''x'')]"
proof -
  have "empty_tags changeset_doc" by (simp add: empty_tags_def changeset_doc_def)
  then show ?thesis unfolding cset_parser_reads [OF \<open>empty_tags changeset_doc\<close>]
    by (simp add: changeset_doc_def cset_tag_element_def last_attr_def cset_add_tag_def unicode_strlen_def throw_if_def
        init_cset_parser_def assign_tag_def)
qed

lemma web_user: "\<not> is_user_blocked 7 web_db" "is_user_active 7 web_db"
  by (simp_all add: is_user_blocked_def is_user_active_def web_db_def osm_db.defs db.defs)

lemma create_update:
  "\<exists>rp d'. update_responder web_config (Some 7) unspecified_type changeset_create_handler payload web_db = Inr (rp, d') \<and>
     length (changesets d') = 2"
proof -
  have sax: "cset_process_message (cf_mbslen web_config) (cf_sax web_config payload) = Inr [(''comment'', ''x'')]"
    using changeset_doc_tags by (simp add: web_config_def)
  have "\<exists>d'. changeset_create_responder (cs_env_of web_config (Some 7)) (cf_mbslen web_config) (cf_sax web_config payload) (db.truncate web_db)
      = Inr (fmt_d 6, d') \<and> length (changesets d') = 2"
    unfolding changeset_create_responder_def sax
    by (simp add: init_changeset_updater_def cs_env_of_def api_create_changeset_def changeset_insert_cs_def insert_rows_def
      changeset_update_users_cs_count_def changeset_insert_tags_def changeset_delete_tags_def changeset_insert_subscriber_def
      user_id_def web_db_def sample_db_def sample_bbox_row_def db.defs throw_if_def Let_def)
  then show ?thesis by (auto simp: on_tables_def with_tables_def db.defs)
qed


lemma create_served:
  "\<exists>ex w'. process_request web_config null_rate_limiter [] (web_world create_env) = Some (ex, w') \<and> w_db w' \<noteq> web_db"
proof -
  define r where "r = set_default_methods (PUT OR OPTIONS) (request_of create_env)"
  define u where "u = \<lparr>ui_id = 7, ui_roles = get_roles_for_user 7 web_db, ui_allow_api_write = True\<rparr>"
  have env: "rq_env r = rq_env (request_of create_env)" by (simp add: r_def set_default_methods_def)
  have md: "\<not> is_moderator (Some u)"
    by (simp add: u_def is_moderator_def get_roles_for_user_def web_db_def osm_db.defs db.defs)
  have payload: "get_payload web_config [] r = Inr []"
    by (simp add: get_payload_def get_content_encoding_handler_def param_text_def get_param_def env request_of_def create_env_def web_config_def)
  obtain rp d' where up: "update_responder web_config (Some 7) unspecified_type changeset_create_handler [] web_db = Inr (rp, d')"
    "length (changesets d') = 2" using create_update by blast
  obtain v r' where gen: "generate_response web_config rp r = (v, r')" by fastforce
  have put: "process_post_put_request web_config (Some u) unspecified_type changeset_create_handler [] (r, web_db) = (v, r', d')"
    using up payload gen
    by (simp add: process_post_put_request_def u_def check_db_readonly_mode_def web_config_def throw_if_def)
  have user: "determine_user_id (cf_pg web_config) r web_db = Inr (Some 7, True)"
    using create_user determine_user_env [OF env] by simp
  have disp: "dispatch web_config PUT (Some u) unspecified_type changeset_create_handler empty_selection [] (r, web_db) = (v, r', d')"
    using put web_user by (simp add: dispatch_def validate_user_db_update_permission_def u_def web_config_def throw_if_def)
  have info: "user_info web_db (Some 7, True) = Some u" by (simp add: user_info_def u_def)
  let ?w = "\<lparr>w_request = r', w_db = d', w_store = ()\<rparr>"
  have handled: "serve_handler web_config null_rate_limiter [] ip PUT (changeset_create_handler, unspecified_type) (web_world create_env) =
    (bindE v (\<lambda>bytes. Inr (if bytes > 0 then Some (client_key_of ip (Some u), bytes, is_moderator (Some u)) else None)), ?w)" for ip
    using user disp info md
    by (simp add: serve_handler_def web_world_def null_rate_limiter_def null_check_def Let_def flip: r_def)
  have "serve web_config null_rate_limiter [] (web_world create_env) =
    serve_handler web_config null_rate_limiter [] ''::1'' PUT (changeset_create_handler, unspecified_type) (web_world create_env)"
  proof -
    have vars: "fcgi_get_env ''REMOTE_ADDR'' None (request_of create_env) = Inr ''::1''"
      "fcgi_get_env ''REQUEST_METHOD'' None (request_of create_env) = Inr ''PUT''"
      by (simp_all add: fcgi_get_env_def get_param_def request_of_def create_env_def)
    have "allows_method PUT changeset_create_handler" using methods_allowed(3) [of PUT] by (simp add: allows_method_def)
    then show ?thesis using create_route [of "m_map_area_max (cf_settings web_config)"] by (simp add: serve_def web_world_def vars)
  qed
  with handled have "w_db (snd (serve web_config null_rate_limiter [] (web_world create_env))) = d'" by simp
  moreover have "d' \<noteq> web_db" using up(2) by (auto simp: web_db_def sample_db_def db.defs)
  ultimately show ?thesis
    by (auto simp: process_request_def null_rate_limiter_def split: prod.splits sum.splits option.splits)
qed

lemma web_current_unredacted: "current_unredacted web_db"
  by (simp add: current_unredacted_def web_db_def sample_db_def sample_row_def db.defs osm_db.defs)

lemma history_anonymous: "\<not> shows_redactions web_config (request_of history_env) web_db"
  by (simp add: shows_redactions_def determine_user_id_def validate_bearer_token_def param_text_def get_param_def request_of_def history_env_def)

lemma history_keeps_db:
  assumes "process_request web_config null_rate_limiter [] (web_world history_env) = Some (ex, w')" shows "w_db w' = web_db"
proof (rule ccontr)
  assume "w_db w' \<noteq> web_db"
  then have "w_db w' \<noteq> w_db (web_world history_env)" by (simp add: web_world_def)
  from process_request_writes [OF open_web_world assms this] show False
    by (auto simp: get_param_def web_world_def request_of_def history_env_def)
qed


lemma web_tables:
  "current_nodes web_db = current_nodes sample_db" "current_ways web_db = [sample_row 1 2 True]" "current_way_tags web_db = []"
  "current_way_nodes web_db = [(1, 1, 1), (1, 2, 2)]" "current_relations web_db = []" "current_relation_members web_db = []"
  "changesets web_db = [sample_bbox_row]"
  "users_tbl web_db = [\<lparr>u_id = 7, u_display_name = ''mapper'', u_data_public = True, u_status = ''active''\<rparr>]"
  by (simp_all add: web_db_def sample_db_def db.defs osm_db.defs)

lemma web_db_ok: "db_ok (db.truncate web_db)"
proof -
  have "db.truncate web_db = sample_db\<lparr>current_ways := [sample_row 1 2 True], ways_tbl := [sample_row 1 1 True, sample_row 1 2 True],
    db_now := 200\<rparr>"
    by (simp add: web_db_def sample_db_def db.defs)
  moreover have "db_ok \<dots>" by code_simp
  ultimately show ?thesis by simp
qed

lemma web_readable: "readable web_pg web_db"
  by (simp add: readable_def keys_ok_def web_tables web_pg_def quotes_enough_def is_u64_def sample_bbox_row_def)

end
