(* ===== verification/Formatters.thy ===== *)
theory Formatters
  imports API_Handlers
begin

text \<open>
  \<^verbatim>\<open>src/xml_formatter.cpp\<close>, \<^verbatim>\<open>src/json_formatter.cpp\<close> and \<^verbatim>\<open>src/text_formatter.cpp\<close> with their
  writers: which calls of libxml2's text writer and of yajl's generator a formatter makes for what a
  responder asks of it. The two libraries are outside of the model; that their input is well nested
  is what the program owes them.
\<close>

section \<open>Writers\<close>

text \<open>The calls of \<^verbatim>\<open>xmlTextWriter\<close>, and those of \<^verbatim>\<open>yajl_gen\<close>, whose status is not looked at.\<close>

datatype xml_op = xw_start string | xw_attribute string string | xw_text string | xw_end

datatype json_op =
    jg_map_open
  | jg_map_close
  | jg_array_open
  | jg_array_close
  | jg_string string
  | jg_number string
  | jg_bool bool

text \<open>\<^verbatim>\<open>std::string::c_str()\<close> as a C function reads it.\<close>

definition c_str :: "string \<Rightarrow> string" where
  "c_str s = takeWhile (\<lambda>c. c \<noteq> CHR 0x00) s"

text \<open>\<^verbatim>\<open>fmt::format("{:.7f}")\<close>: seven digits after the point.\<close>

definition pad7 :: "int \<Rightarrow> string" where
  "pad7 n = (let f = fmt_d n in replicate (7 - length f) CHR ''0'' @ f)"

definition fmt_7f :: "double \<Rightarrow> string" where
  "fmt_7f d =
     (case d of
        finite_double x \<Rightarrow>
          (let n = round_half_even (\<bar>x\<bar> * 10000000) in
           (if x < 0 then ''-'' else []) @ fmt_d (n div 10000000) @ ''.'' @ pad7 (n mod 10000000))
      | infinite_double neg \<Rightarrow> if neg then ''-inf'' else ''inf''
      | nan_double \<Rightarrow> ''nan'')"

text \<open>\<^verbatim>\<open>xml_writer\<close>: the overloads of \<^verbatim>\<open>attribute\<close>, and elements that are closed at once.\<close>

definition attr_string :: "string \<Rightarrow> string \<Rightarrow> xml_op" where
  "attr_string name v = xw_attribute name (c_str v)"

definition attr_int :: "string \<Rightarrow> int \<Rightarrow> xml_op" where
  "attr_int name v = xw_attribute name (fmt_d v)"

definition attr_double :: "string \<Rightarrow> double \<Rightarrow> xml_op" where
  "attr_double name v = xw_attribute name (fmt_7f v)"

definition attr_bool :: "string \<Rightarrow> bool \<Rightarrow> xml_op" where
  "attr_bool name v = xw_attribute name (if v then ''true'' else ''false'')"

definition xml_writer_error :: "string \<Rightarrow> xml_op list" where
  "xml_writer_error s = [xw_start ''error'', xw_text (c_str s), xw_end]"

text \<open>\<^verbatim>\<open>json_writer\<close>: the overloads of \<^verbatim>\<open>property\<close>.\<close>

definition prop_string :: "string \<Rightarrow> string \<Rightarrow> json_op list" where
  "prop_string key v = [jg_string key, jg_string v]"

definition prop_int :: "string \<Rightarrow> int \<Rightarrow> json_op list" where
  "prop_int key v = [jg_string key, jg_number (fmt_d v)]"

definition prop_double :: "string \<Rightarrow> double \<Rightarrow> json_op list" where
  "prop_double key v = [jg_string key, jg_number (fmt_7f v)]"

definition prop_bool :: "string \<Rightarrow> bool \<Rightarrow> json_op list" where
  "prop_bool key v = [jg_string key, jg_bool v]"

definition json_writer_error :: "string \<Rightarrow> json_op list" where
  "json_writer_error s = [jg_map_open] @ prop_string ''error'' s @ [jg_map_close]"

section \<open>Surroundings\<close>

text \<open>
  The messages compiled into the program, the time of the request, the limit that closes a
  changeset, and \<^verbatim>\<open>strptime\<close> with \<^verbatim>\<open>timegm\<close> of the C library on a text of twenty characters.
\<close>

record fmt_env =
  fe_copyright :: string
  fe_attribution :: string
  fe_license :: string
  fe_now :: int
  fe_max_elements :: int
  fe_strptime :: "string \<Rightarrow> int"

definition parse_time :: "fmt_env \<Rightarrow> string \<Rightarrow> int result" where
  "parse_time env s =
     (if length s = 20 \<and> s ! 19 = CHR ''Z'' then Inr (fe_strptime env s)
      else Inl (runtime_error (''Unable to parse string '' @ quoted s @ '' as an ISO 8601 format date time.'')))"

definition is_open_at :: "fmt_env \<Rightarrow> changeset_info \<Rightarrow> bool result" where
  "is_open_at env cs =
     bindE (parse_time env (ci_closed_at cs)) (\<lambda>closed_at_time.
     Inr (closed_at_time > fe_now env \<and> ci_num_changes cs \<le> fe_max_elements env))"

fun element_type_name :: "element_type \<Rightarrow> string" where
  "element_type_name et_node = ''node''"
| "element_type_name et_way = ''way''"
| "element_type_name et_relation = ''relation''"
| "element_type_name et_changeset = ''changeset''"

definition API_VERSION :: string where
  "API_VERSION = ''0.6''"

text \<open>The calls made, and the exception that ended them.\<close>

type_synonym 'o emitted = "'o list \<times> exn option"

section \<open>The XML formatter\<close>

definition xml_start_document :: "fmt_env \<Rightarrow> string \<Rightarrow> string \<Rightarrow> xml_op list" where
  "xml_start_document env generator root_name =
     [xw_start (c_str root_name), attr_string ''version'' API_VERSION, attr_string ''generator'' generator,
      attr_string ''copyright'' (fe_copyright env), attr_string ''attribution'' (fe_attribution env),
      attr_string ''license'' (fe_license env)]"

definition xml_bounds :: "bbox \<Rightarrow> xml_op list" where
  "xml_bounds b =
     [xw_start ''bounds'', attr_double ''minlat'' (bb_minlat b), attr_double ''minlon'' (bb_minlon b),
      attr_double ''maxlat'' (bb_maxlat b), attr_double ''maxlon'' (bb_maxlon b), xw_end]"

fun xml_start_action :: "action_type \<Rightarrow> xml_op" where
  "xml_start_action create_action = xw_start ''create''"
| "xml_start_action modify_action = xw_start ''modify''"
| "xml_start_action del_action = xw_start ''delete''"

definition xml_error :: "exn \<Rightarrow> xml_op list" where
  "xml_error e = [xw_start ''error'', xw_text (c_str (what e)), xw_end]"

definition xml_tags :: "tags_t \<Rightarrow> xml_op list" where
  "xml_tags tags = concat (map (\<lambda>(key, v). [xw_start ''tag'', attr_string ''k'' key, attr_string ''v'' v, xw_end]) tags)"

definition xml_user :: "string option \<Rightarrow> osm_user_id_t option \<Rightarrow> xml_op list" where
  "xml_user name uid =
     (case (name, uid) of
        (Some n, Some u) \<Rightarrow> [attr_string ''user'' n, attr_int ''uid'' u]
      | _ \<Rightarrow> [])"

definition xml_common :: "element_info \<Rightarrow> xml_op list" where
  "xml_common i =
     [attr_int ''id'' (ei_id i), attr_bool ''visible'' (ei_visible i), attr_int ''version'' (ei_version i),
      attr_int ''changeset'' (ei_changeset i), attr_string ''timestamp'' (ei_timestamp i)] @
     xml_user (ei_display_name i) (ei_uid i)"

definition xml_node :: "element_info \<Rightarrow> rat \<Rightarrow> rat \<Rightarrow> tags_t \<Rightarrow> xml_op list" where
  "xml_node i lon lat tags =
     [xw_start ''node''] @ xml_common i @
     (if ei_visible i then [attr_double ''lat'' (finite_double lat), attr_double ''lon'' (finite_double lon)] else []) @
     xml_tags tags @ [xw_end]"

definition xml_way :: "element_info \<Rightarrow> int list \<Rightarrow> tags_t \<Rightarrow> xml_op list" where
  "xml_way i nds tags =
     [xw_start ''way''] @ xml_common i @ concat (map (\<lambda>n. [xw_start ''nd'', attr_int ''ref'' n, xw_end]) nds) @
     xml_tags tags @ [xw_end]"

definition xml_member :: "member_info \<Rightarrow> xml_op list" where
  "xml_member m =
     [xw_start ''member'', attr_string ''type'' (element_type_name (mi_type m)), attr_int ''ref'' (mi_ref m),
      attr_string ''role'' (mi_role m), xw_end]"

definition xml_relation :: "element_info \<Rightarrow> member_info list \<Rightarrow> tags_t \<Rightarrow> xml_op list" where
  "xml_relation i members tags =
     [xw_start ''relation''] @ xml_common i @ concat (map xml_member members) @ xml_tags tags @ [xw_end]"

definition xml_comment :: "changeset_comment_info \<Rightarrow> xml_op list" where
  "xml_comment c =
     [xw_start ''comment'', attr_int ''id'' (cm_id c), attr_string ''date'' (cm_created_at c),
      attr_int ''uid'' (cm_author_id c), attr_string ''user'' (cm_author_display_name c),
      xw_start ''text'', xw_text (c_str (cm_body c)), xw_end, xw_end]"

definition xml_box :: "rat \<times> rat \<times> rat \<times> rat \<Rightarrow> xml_op list" where
  "xml_box = (\<lambda>(min_lat, min_lon, max_lat, max_lon).
     [attr_double ''min_lat'' (finite_double min_lat), attr_double ''min_lon'' (finite_double min_lon),
      attr_double ''max_lat'' (finite_double max_lat), attr_double ''max_lon'' (finite_double max_lon)])"

definition xml_changeset ::
    "fmt_env \<Rightarrow> changeset_info \<Rightarrow> tags_t \<Rightarrow> bool \<Rightarrow> changeset_comment_info list \<Rightarrow> xml_op emitted" where
  "xml_changeset env cs tags include_comments comments =
     (let begun = [xw_start ''changeset'', attr_int ''id'' (ci_id cs), attr_string ''created_at'' (ci_created_at cs)] in
      case is_open_at env cs of
        Inl e \<Rightarrow> (begun, Some e)
      | Inr is_open \<Rightarrow>
          (begun @ (if is_open then [] else [attr_string ''closed_at'' (ci_closed_at cs)]) @ [attr_bool ''open'' is_open] @
           xml_user (ci_display_name cs) (ci_uid cs) @
           (case ci_bounding_box cs of None \<Rightarrow> [] | Some b \<Rightarrow> xml_box b) @
           [attr_int ''comments_count'' (int (ci_comments_count cs)), attr_int ''changes_count'' (ci_num_changes cs)] @
           xml_tags tags @
           (if include_comments then [xw_start ''discussion''] @ concat (map xml_comment comments) @ [xw_end] else []) @
           [xw_end], None))"

definition xml_create_modify :: "element_type \<Rightarrow> int \<Rightarrow> int \<Rightarrow> int \<Rightarrow> xml_op list" where
  "xml_create_modify ty old_id new_id new_version =
     [xw_start (element_type_name ty), attr_int ''old_id'' old_id, attr_int ''new_id'' new_id,
      attr_int ''new_version'' new_version, xw_end]"

definition xml_delete :: "element_type \<Rightarrow> int \<Rightarrow> xml_op list" where
  "xml_delete ty old_id = [xw_start (element_type_name ty), attr_int ''old_id'' old_id, xw_end]"

fun xml_call :: "fmt_env \<Rightarrow> fmt_call \<Rightarrow> xml_op emitted" where
  "xml_call env (start_document generator root_name) = (xml_start_document env generator root_name, None)"
| "xml_call env (write_bounds b) = (xml_bounds b, None)"
| "xml_call env fmt_call.start_element = ([], None)"
| "xml_call env (write_node i lon lat tags) = (xml_node i lon lat tags, None)"
| "xml_call env (write_way i nds tags) = (xml_way i nds tags, None)"
| "xml_call env (write_relation i members tags) = (xml_relation i members tags, None)"
| "xml_call env (start_changeset multi_selection) = ([], None)"
| "xml_call env (write_changeset cs tags include_comments comments) = xml_changeset env cs tags include_comments comments"
| "xml_call env (end_changeset multi_selection) = ([], None)"
| "xml_call env (start_action a) = ([xml_start_action a], None)"
| "xml_call env (end_action a) = ([xw_end], None)"
| "xml_call env (write_diffresult_create_modify ty old_id new_id v) = (xml_create_modify ty old_id new_id v, None)"
| "xml_call env (write_diffresult_delete ty old_id) = (xml_delete ty old_id, None)"
| "xml_call env (write_error e) = (xml_error e, None)"
| "xml_call env (write_message s) = (xml_writer_error s, None)"
| "xml_call env fmt_call.end_element = ([], None)"
| "xml_call env end_document = ([xw_end], None)"

section \<open>The JSON formatter\<close>

definition json_tags :: "tags_t \<Rightarrow> json_op list" where
  "json_tags tags =
     (if tags = [] then []
      else [jg_string ''tags'', jg_map_open] @ concat (map (\<lambda>(key, v). prop_string key v) tags) @ [jg_map_close])"

definition json_start_document :: "fmt_env \<Rightarrow> string \<Rightarrow> json_op list" where
  "json_start_document env generator =
     [jg_map_open] @ prop_string ''version'' API_VERSION @ prop_string ''generator'' generator @
     prop_string ''copyright'' (fe_copyright env) @ prop_string ''attribution'' (fe_attribution env) @
     prop_string ''license'' (fe_license env)"

definition json_bounds :: "bbox \<Rightarrow> json_op list" where
  "json_bounds b =
     [jg_string ''bounds'', jg_map_open] @ prop_double ''minlat'' (bb_minlat b) @ prop_double ''minlon'' (bb_minlon b) @
     prop_double ''maxlat'' (bb_maxlat b) @ prop_double ''maxlon'' (bb_maxlon b) @ [jg_map_close]"

definition json_error :: "exn \<Rightarrow> json_op list" where
  "json_error e = [jg_map_open] @ prop_string ''error'' (c_str (what e)) @ [jg_map_close]"

definition json_common :: "element_info \<Rightarrow> json_op list" where
  "json_common i =
     prop_string ''timestamp'' (ei_timestamp i) @ prop_int ''version'' (ei_version i) @
     prop_int ''changeset'' (ei_changeset i) @
     (case (ei_display_name i, ei_uid i) of
        (Some n, Some u) \<Rightarrow> prop_string ''user'' n @ prop_int ''uid'' u
      | _ \<Rightarrow> []) @
     (if ei_visible i then [] else prop_bool ''visible'' (ei_visible i))"

definition json_node :: "element_info \<Rightarrow> rat \<Rightarrow> rat \<Rightarrow> tags_t \<Rightarrow> json_op list" where
  "json_node i lon lat tags =
     [jg_map_open] @ prop_string ''type'' ''node'' @ prop_int ''id'' (ei_id i) @
     (if ei_visible i then prop_double ''lat'' (finite_double lat) @ prop_double ''lon'' (finite_double lon) else []) @
     json_common i @ json_tags tags @ [jg_map_close]"

definition json_way :: "element_info \<Rightarrow> int list \<Rightarrow> tags_t \<Rightarrow> json_op list" where
  "json_way i nds tags =
     [jg_map_open] @ prop_string ''type'' ''way'' @ prop_int ''id'' (ei_id i) @ json_common i @
     (if nds = [] then []
      else [jg_string ''nodes'', jg_array_open] @ map (\<lambda>n. jg_number (fmt_d n)) nds @ [jg_array_close]) @
     json_tags tags @ [jg_map_close]"

definition json_member :: "member_info \<Rightarrow> json_op list" where
  "json_member m =
     [jg_map_open] @ prop_string ''type'' (element_type_name (mi_type m)) @ prop_int ''ref'' (mi_ref m) @
     prop_string ''role'' (mi_role m) @ [jg_map_close]"

definition json_relation :: "element_info \<Rightarrow> member_info list \<Rightarrow> tags_t \<Rightarrow> json_op list" where
  "json_relation i members tags =
     [jg_map_open] @ prop_string ''type'' ''relation'' @ prop_int ''id'' (ei_id i) @ json_common i @
     (if members = [] then []
      else [jg_string ''members'', jg_array_open] @ concat (map json_member members) @ [jg_array_close]) @
     json_tags tags @ [jg_map_close]"

definition json_comment :: "changeset_comment_info \<Rightarrow> json_op list" where
  "json_comment c =
     [jg_map_open] @ prop_int ''id'' (cm_id c) @ prop_bool ''visible'' True @ prop_string ''date'' (cm_created_at c) @
     prop_int ''uid'' (cm_author_id c) @ prop_string ''user'' (cm_author_display_name c) @
     prop_string ''text'' (cm_body c) @ [jg_map_close]"

definition json_box :: "rat \<times> rat \<times> rat \<times> rat \<Rightarrow> json_op list" where
  "json_box = (\<lambda>(min_lat, min_lon, max_lat, max_lon).
     prop_double ''min_lat'' (finite_double min_lat) @ prop_double ''min_lon'' (finite_double min_lon) @
     prop_double ''max_lat'' (finite_double max_lat) @ prop_double ''max_lon'' (finite_double max_lon))"

definition json_changeset ::
    "fmt_env \<Rightarrow> changeset_info \<Rightarrow> tags_t \<Rightarrow> bool \<Rightarrow> changeset_comment_info list \<Rightarrow> json_op emitted" where
  "json_changeset env cs tags include_comments comments =
     (let begun = [jg_map_open] @ prop_int ''id'' (ci_id cs) @ prop_string ''created_at'' (ci_created_at cs) in
      case is_open_at env cs of
        Inl e \<Rightarrow> (begun, Some e)
      | Inr is_open \<Rightarrow>
          (begun @ prop_bool ''open'' is_open @ prop_int ''comments_count'' (int (ci_comments_count cs)) @
           prop_int ''changes_count'' (ci_num_changes cs) @
           (if is_open then [] else prop_string ''closed_at'' (ci_closed_at cs)) @
           (case ci_bounding_box cs of None \<Rightarrow> [] | Some b \<Rightarrow> json_box b) @
           (case (ci_display_name cs, ci_uid cs) of
              (Some n, Some u) \<Rightarrow> prop_int ''uid'' u @ prop_string ''user'' n
            | _ \<Rightarrow> []) @
           json_tags tags @
           (if include_comments \<and> comments \<noteq> [] then
              [jg_string ''comments'', jg_array_open] @ concat (map json_comment comments) @ [jg_array_close]
            else []) @
           [jg_map_close], None))"

text \<open>The two calls for a diffResult write nothing: their bodies are commented out.\<close>

fun json_call :: "fmt_env \<Rightarrow> fmt_call \<Rightarrow> json_op emitted" where
  "json_call env (start_document generator root_name) = (json_start_document env generator, None)"
| "json_call env (write_bounds b) = (json_bounds b, None)"
| "json_call env fmt_call.start_element = ([jg_string ''elements'', jg_array_open], None)"
| "json_call env (write_node i lon lat tags) = (json_node i lon lat tags, None)"
| "json_call env (write_way i nds tags) = (json_way i nds tags, None)"
| "json_call env (write_relation i members tags) = (json_relation i members tags, None)"
| "json_call env (start_changeset multi_selection) =
     (if multi_selection then [jg_string ''changesets'', jg_array_open] else [jg_string ''changeset''], None)"
| "json_call env (write_changeset cs tags include_comments comments) = json_changeset env cs tags include_comments comments"
| "json_call env (end_changeset multi_selection) = (if multi_selection then [jg_array_close] else [], None)"
| "json_call env (start_action a) = ([], None)"
| "json_call env (end_action a) = ([], None)"
| "json_call env (write_diffresult_create_modify ty old_id new_id v) = ([], None)"
| "json_call env (write_diffresult_delete ty old_id) = ([], None)"
| "json_call env (write_error e) = (json_error e, None)"
| "json_call env (write_message s) = (json_writer_error s, None)"
| "json_call env fmt_call.end_element = ([jg_array_close, jg_map_close], None)"
| "json_call env end_document = ([jg_map_close], None)"

section \<open>The text formatter\<close>

text \<open>What is written to the output buffer; everything but a message is ignored.\<close>

definition text_writer_error :: "string \<Rightarrow> string list" where
  "text_writer_error s = (if s = [] then [] else [s])"

fun text_call :: "fmt_call \<Rightarrow> string list" where
  "text_call (write_error e) = [c_str (what e)]"
| "text_call (write_message s) = text_writer_error s"
| "text_call _ = []"

section \<open>Trees\<close>

text \<open>The documents the two libraries are asked for, as trees, and the calls that spell them.\<close>

datatype xtree = xelem string "(string \<times> string) list" "xtree list" | xtext string

fun xml_ops :: "xtree \<Rightarrow> xml_op list" where
  "xml_ops (xelem name attrs kids) =
     [xw_start name] @ map (\<lambda>(k, v). xw_attribute k v) attrs @ concat (map xml_ops kids) @ [xw_end]"
| "xml_ops (xtext t) = [xw_text t]"

datatype json =
    json_object "(string \<times> json) list"
  | json_array "json list"
  | json_string string
  | json_number string
  | json_bool bool

fun json_ops :: "json \<Rightarrow> json_op list" where
  "json_ops (json_object fs) = [jg_map_open] @ concat (map (\<lambda>(k, v). jg_string k # json_ops v) fs) @ [jg_map_close]"
| "json_ops (json_array vs) = [jg_array_open] @ concat (map json_ops vs) @ [jg_array_close]"
| "json_ops (json_string s) = [jg_string s]"
| "json_ops (json_number s) = [jg_number s]"
| "json_ops (json_bool b) = [jg_bool b]"

definition xml_complete :: "xml_op list \<Rightarrow> bool" where
  "xml_complete ops \<longleftrightarrow> (\<exists>ts. ops = concat (map xml_ops ts))"

definition json_complete :: "json_op list \<Rightarrow> bool" where
  "json_complete ops \<longleftrightarrow> (\<exists>vs. ops = concat (map json_ops vs))"

lemma xml_complete_Nil: "xml_complete []"
  unfolding xml_complete_def by (rule exI [of _ "[]"]) simp

lemma xml_complete_append: "xml_complete xs \<Longrightarrow> xml_complete ys \<Longrightarrow> xml_complete (xs @ ys)"
  unfolding xml_complete_def by (metis concat_append map_append)

lemma xml_complete_elem:
  assumes "xml_complete ops"
  shows "xml_complete (xw_start name # map (\<lambda>(k, v). xw_attribute k v) attrs @ ops @ [xw_end])"
proof -
  from assms obtain ts where "ops = concat (map xml_ops ts)" by (auto simp: xml_complete_def)
  then show ?thesis unfolding xml_complete_def by (intro exI [of _ "[xelem name attrs ts]"]) simp
qed

lemma json_complete_Nil: "json_complete []"
  unfolding json_complete_def by (rule exI [of _ "[]"]) simp

lemma json_complete_append: "json_complete xs \<Longrightarrow> json_complete ys \<Longrightarrow> json_complete (xs @ ys)"
  unfolding json_complete_def by (metis concat_append map_append)

text \<open>The fields of an object: keys, each with the calls of one value.\<close>

definition json_fields :: "json_op list \<Rightarrow> bool" where
  "json_fields ops \<longleftrightarrow> (\<exists>fs. ops = concat (map (\<lambda>(k, v). jg_string k # json_ops v) fs))"

lemma json_fields_Nil [simp]: "json_fields []"
  unfolding json_fields_def by (rule exI [of _ "[]"]) simp

lemma json_fields_append: "json_fields xs \<Longrightarrow> json_fields ys \<Longrightarrow> json_fields (xs @ ys)"
  unfolding json_fields_def by (metis concat_append map_append)

lemma json_fields_value: "json_fields (jg_string k # json_ops v)"
  unfolding json_fields_def by (rule exI [of _ "[(k, v)]"]) simp

lemma json_fields_prop [simp]:
  "json_fields (prop_string k s)" "json_fields (prop_int k i)" "json_fields (prop_double k x)" "json_fields (prop_bool k b)"
  using json_fields_value [of k "json_string s"] json_fields_value [of k "json_number (fmt_d i)"]
    json_fields_value [of k "json_number (fmt_7f x)"] json_fields_value [of k "json_bool b"]
  by (simp_all add: prop_string_def prop_int_def prop_double_def prop_bool_def)

lemma json_object_complete:
  assumes "json_fields ops"
  shows "\<exists>fs. jg_map_open # ops @ [jg_map_close] = json_ops (json_object fs)"
  using assms by (auto simp: json_fields_def)

lemma json_complete_value: "json_complete (json_ops v)"
  unfolding json_complete_def by (rule exI [of _ "[v]"]) simp

lemma json_complete_object: "json_fields ops \<Longrightarrow> json_complete (jg_map_open # ops @ [jg_map_close])"
  using json_object_complete json_complete_value by metis

lemma json_fields_array:
  assumes "json_complete ops"
  shows "json_fields (jg_string k # jg_array_open # ops @ [jg_array_close])"
proof -
  from assms obtain vs where "ops = concat (map json_ops vs)" by (auto simp: json_complete_def)
  with json_fields_value [of k "json_array vs"] show ?thesis by simp
qed

lemma json_fields_object: "json_fields ops \<Longrightarrow> json_fields (jg_string k # jg_map_open # ops @ [jg_map_close])"
  using json_object_complete json_fields_value by (metis append_Cons)

section \<open>Elements as trees\<close>

text \<open>Elements without text, in the shape the osmChange parser reads.\<close>

fun plain :: "xml \<Rightarrow> xtree" where
  "plain (elem name attrs kids) = xelem name attrs (map plain kids)"

definition user_attrs :: "element_info \<Rightarrow> attrs" where
  "user_attrs i =
     (case (ei_display_name i, ei_uid i) of (Some n, Some u) \<Rightarrow> [(''user'', c_str n), (''uid'', fmt_d u)] | _ \<Rightarrow> [])"

definition common_attrs :: "element_info \<Rightarrow> attrs" where
  "common_attrs i =
     [(''id'', fmt_d (ei_id i)), (''visible'', if ei_visible i then ''true'' else ''false''),
      (''version'', fmt_d (ei_version i)), (''changeset'', fmt_d (ei_changeset i)), (''timestamp'', c_str (ei_timestamp i))] @
     user_attrs i"

definition position_attrs :: "element_info \<Rightarrow> rat \<Rightarrow> rat \<Rightarrow> attrs" where
  "position_attrs i lon lat =
     (if ei_visible i then [(''lat'', fmt_7f (finite_double lat)), (''lon'', fmt_7f (finite_double lon))] else [])"

definition tag_xml :: "string \<times> string \<Rightarrow> xml" where
  "tag_xml t = elem ''tag'' [(''k'', c_str (fst t)), (''v'', c_str (snd t))] []"

definition nd_xml :: "int \<Rightarrow> xml" where
  "nd_xml n = elem ''nd'' [(''ref'', fmt_d n)] []"

definition member_xml :: "member_info \<Rightarrow> xml" where
  "member_xml m = elem ''member''
     [(''type'', element_type_name (mi_type m)), (''ref'', fmt_d (mi_ref m)), (''role'', c_str (mi_role m))] []"

fun element_xml :: "fmt_call \<Rightarrow> xml" where
  "element_xml (write_node i lon lat tags) = elem ''node'' (common_attrs i @ position_attrs i lon lat) (map tag_xml tags)"
| "element_xml (write_way i nds tags) = elem ''way'' (common_attrs i) (map nd_xml nds @ map tag_xml tags)"
| "element_xml (write_relation i members tags) = elem ''relation'' (common_attrs i) (map member_xml members @ map tag_xml tags)"
| "element_xml _ = elem [] [] []"

lemma c_str_type_name [simp]: "c_str (element_type_name t) = element_type_name t"
  by (cases t) (simp_all add: c_str_def)

lemma xml_common_attrs: "xml_common i = map (\<lambda>(k, v). xw_attribute k v) (common_attrs i)"
  by (simp add: xml_common_def common_attrs_def user_attrs_def xml_user_def attr_int_def attr_bool_def attr_string_def
      split: option.split)

lemma xml_tags_ops: "xml_tags tags = concat (map xml_ops (map plain (map tag_xml tags)))"
  by (induction tags) (auto simp: xml_tags_def tag_xml_def attr_string_def)

lemma xml_nds_ops: "concat (map (\<lambda>n. [xw_start ''nd'', attr_int ''ref'' n, xw_end]) nds) = concat (map xml_ops (map plain (map nd_xml nds)))"
  by (induction nds) (auto simp: nd_xml_def attr_int_def)

lemma xml_members_ops: "concat (map xml_member ms) = concat (map xml_ops (map plain (map member_xml ms)))"
  by (induction ms) (auto simp: xml_member_def member_xml_def attr_int_def attr_string_def)

lemma xml_call_element:
  assumes "call_info c \<noteq> None"
  shows "xml_call env c = (xml_ops (plain (element_xml c)), None)"
  using assms
  by (cases c) (simp_all add: xml_node_def xml_way_def xml_relation_def xml_common_attrs xml_tags_ops xml_nds_ops xml_members_ops
      position_attrs_def attr_double_def)

lemma json_fields_tags [simp]: "json_fields (json_tags tags)"
proof -
  have "json_fields (concat (map (\<lambda>(key, v). prop_string key v) tags))"
    by (induction tags) (auto intro: json_fields_append)
  then show ?thesis using json_fields_object [of _ "''tags''"] by (simp add: json_tags_def)
qed

lemma json_fields_common [simp]: "json_fields (json_common i)"
  unfolding json_common_def by (intro json_fields_append) (simp_all add: json_fields_append split: option.split)

lemma json_members_complete: "json_complete (concat (map json_member ms))"
proof (induction ms)
  case (Cons m ms)
  have "json_complete (json_member m)"
    using json_complete_object [OF json_fields_append [OF json_fields_prop(1) json_fields_append [OF json_fields_prop(2) json_fields_prop(1)]]]
    by (simp add: json_member_def)
  with Cons json_complete_append show ?case by simp
qed (simp add: json_complete_Nil)

lemma json_numbers_complete: "json_complete (map (\<lambda>n. jg_number (fmt_d n)) nds)"
  unfolding json_complete_def by (rule exI [of _ "map (\<lambda>n. json_number (fmt_d n)) nds"]) (induction nds, simp_all)

lemma json_call_element:
  assumes "call_info c \<noteq> None"
  shows "\<exists>fs. json_call env c = (json_ops (json_object fs), None)"
proof -
  have "\<exists>ops. json_fields ops \<and> json_call env c = (jg_map_open # ops @ [jg_map_close], None)"
  proof (cases c)
    case (write_node i lon lat tags)
    let ?ops = "prop_string ''type'' ''node'' @ prop_int ''id'' (ei_id i) @
      (if ei_visible i then prop_double ''lat'' (finite_double lat) @ prop_double ''lon'' (finite_double lon) else []) @
      json_common i @ json_tags tags"
    have "json_fields ?ops" by (intro json_fields_append) (simp_all add: json_fields_append)
    with write_node show ?thesis by (intro exI [of _ ?ops]) (simp add: json_node_def)
  next
    case (write_way i nds tags)
    let ?ops = "prop_string ''type'' ''way'' @ prop_int ''id'' (ei_id i) @ json_common i @
      (if nds = [] then [] else [jg_string ''nodes'', jg_array_open] @ map (\<lambda>n. jg_number (fmt_d n)) nds @ [jg_array_close]) @
      json_tags tags"
    have "json_fields ?ops" using json_fields_array [OF json_numbers_complete] by (intro json_fields_append) simp_all
    with write_way show ?thesis by (intro exI [of _ ?ops]) (simp add: json_way_def)
  next
    case (write_relation i ms tags)
    let ?ops = "prop_string ''type'' ''relation'' @ prop_int ''id'' (ei_id i) @ json_common i @
      (if ms = [] then [] else [jg_string ''members'', jg_array_open] @ concat (map json_member ms) @ [jg_array_close]) @
      json_tags tags"
    have "json_fields ?ops" using json_fields_array [OF json_members_complete] by (intro json_fields_append) simp_all
    with write_relation show ?thesis by (intro exI [of _ ?ops]) (simp add: json_relation_def)
  qed (use assms in simp_all)
  then obtain ops where "json_fields ops" "json_call env c = (jg_map_open # ops @ [jg_map_close], None)" by blast
  with json_object_complete show ?thesis by metis
qed

section \<open>The interface of a formatter\<close>

definition all_ops :: "(fmt_call \<Rightarrow> 'o list) \<Rightarrow> fmt_call list \<Rightarrow> 'o list" where
  "all_ops f cs = concat (map f cs)"

lemma all_ops_simps [simp]:
  "all_ops f [] = []" "all_ops f (c # cs) = f c @ all_ops f cs" "all_ops f (cs @ cs') = all_ops f cs @ all_ops f cs'"
  by (simp_all add: all_ops_def)

text \<open>
  \<^verbatim>\<open>output_formatter\<close> as the responders use it: what a formatter emits for an element, an error or an
  action is complete, so that a responder only has to open and close the document.
\<close>

locale output_formatter =
  fixes call_ops :: "fmt_call \<Rightarrow> 'o list"
    and complete :: "'o list \<Rightarrow> bool"
  assumes complete_Nil: "complete []"
    and complete_append: "complete xs \<Longrightarrow> complete ys \<Longrightarrow> complete (xs @ ys)"
    and element_complete: "call_info c \<noteq> None \<Longrightarrow> complete (call_ops c)"
    and error_complete: "complete (call_ops (write_error e))"
    and action_complete: "complete ops \<Longrightarrow> complete (call_ops (start_action a) @ ops @ call_ops (end_action a))"
begin

lemma elements_complete: "\<forall>c\<in>set cs. call_info c \<noteq> None \<Longrightarrow> complete (all_ops call_ops cs)"
  by (induction cs) (auto intro: complete_Nil complete_append element_complete)

lemma on_error_complete: "complete (all_ops call_ops (on_error ex))"
  by (cases ex) (simp_all add: on_error_def complete_Nil error_complete)

lemma written_complete:
  assumes "write_elements p d s = (cs, ex)"
  shows "complete (all_ops call_ops (cs @ on_error ex))"
proof -
  have "\<forall>c\<in>set cs. call_info c \<noteq> None" using assms write_elements_info [of _ p d s] by simp
  with on_error_complete show ?thesis by (simp add: complete_append elements_complete)
qed

lemma actions_complete: "complete (all_ops call_ops (sorted_actions cs))"
proof -
  have "complete (all_ops call_ops (concat (map (\<lambda>c. case call_info c of
      Some (ty, i) \<Rightarrow> [start_action (action_of i), c, end_action (action_of i)] | None \<Rightarrow> []) xs)))" for xs
  proof (induction xs)
    case (Cons c xs)
    have "complete (all_ops call_ops [start_action (action_of i), c, end_action (action_of i)])" if "call_info c = Some (ty, i)" for ty i
      using action_complete [OF element_complete, of c] that by simp
    with Cons complete_append complete_Nil show ?case by (auto simp: split: option.split)
  qed (simp add: complete_Nil)
  then show ?thesis by (simp add: sorted_actions_def)
qed

text \<open>What the two responders for selections write between the start and the end of the document.\<close>

lemma current_body_complete:
  "\<exists>ops. complete ops \<and>
     all_ops call_ops (osm_current_write p g bounds d s) =
       call_ops (start_document g ''osm'') @ (case bounds of None \<Rightarrow> [] | Some b \<Rightarrow> call_ops (write_bounds b)) @
       call_ops fmt_call.start_element @ ops @ call_ops fmt_call.end_element @ call_ops end_document"
proof -
  obtain cs ex where w: "write_elements p d s = (cs, ex)" by fastforce
  show ?thesis
    using written_complete [OF w] by (intro exI [of _ "all_ops call_ops (cs @ on_error ex)"]) (simp add: osm_current_write_def w split: option.split)
qed

lemma download_body_complete:
  "\<exists>ops. complete ops \<and>
     all_ops call_ops (osmchange_write p g d s) = call_ops (start_document g ''osmChange'') @ ops @ call_ops end_document"
proof -
  obtain cs ex where w: "write_elements p d s = (cs, ex)" by fastforce
  then show ?thesis
    using actions_complete [of cs] error_complete
    by (cases ex) (auto simp: osmchange_write_def intro: exI [of _ "all_ops call_ops (sorted_actions cs)"])
qed

end

interpretation xml: output_formatter "fst \<circ> xml_call env" xml_complete for env
proof
  show "xml_complete ((fst \<circ> xml_call env) c)" if "call_info c \<noteq> None" for c
    unfolding comp_def xml_call_element [OF that] xml_complete_def by (auto intro!: exI [of _ "[_]"])
  show "xml_complete ((fst \<circ> xml_call env) (write_error e))" for e
    unfolding xml_complete_def by (auto simp: xml_error_def intro!: exI [of _ "[xelem ''error'' [] [xtext (c_str (what e))]]"])
  show "xml_complete ((fst \<circ> xml_call env) (start_action a) @ ops @ (fst \<circ> xml_call env) (end_action a))" if "xml_complete ops" for ops a
    using xml_complete_elem [OF that, of _ "[]"] by (cases a) simp_all
qed (auto intro: xml_complete_Nil xml_complete_append)

interpretation json: output_formatter "fst \<circ> json_call env" json_complete for env
proof
  show "json_complete ((fst \<circ> json_call env) c)" if "call_info c \<noteq> None" for c
    using json_call_element [OF that, of env] json_complete_value by (auto simp del: json_ops.simps)
  show "json_complete ((fst \<circ> json_call env) (write_error e))" for e
    using json_complete_object [OF json_fields_prop(1)] by (simp add: json_error_def)
qed (auto intro: json_complete_Nil json_complete_append)

section \<open>Documents\<close>

definition header_attrs :: "fmt_env \<Rightarrow> string \<Rightarrow> attrs" where
  "header_attrs env g =
     [(''version'', API_VERSION), (''generator'', c_str g), (''copyright'', c_str (fe_copyright env)),
      (''attribution'', c_str (fe_attribution env)), (''license'', c_str (fe_license env))]"

definition header_fields :: "fmt_env \<Rightarrow> string \<Rightarrow> (string \<times> json) list" where
  "header_fields env g =
     [(''version'', json_string API_VERSION), (''generator'', json_string g), (''copyright'', json_string (fe_copyright env)),
      (''attribution'', json_string (fe_attribution env)), (''license'', json_string (fe_license env))]"

definition bounds_xml :: "bbox \<Rightarrow> xtree" where
  "bounds_xml b = xelem ''bounds''
     [(''minlat'', fmt_7f (bb_minlat b)), (''minlon'', fmt_7f (bb_minlon b)), (''maxlat'', fmt_7f (bb_maxlat b)),
      (''maxlon'', fmt_7f (bb_maxlon b))] []"

definition bounds_json :: "bbox \<Rightarrow> json" where
  "bounds_json b = json_object
     [(''minlat'', json_number (fmt_7f (bb_minlat b))), (''minlon'', json_number (fmt_7f (bb_minlon b))),
      (''maxlat'', json_number (fmt_7f (bb_maxlat b))), (''maxlon'', json_number (fmt_7f (bb_maxlon b)))]"

lemma xml_start_document_ops:
  "xml_start_document env g name = xw_start (c_str name) # map (\<lambda>(k, v). xw_attribute k v) (header_attrs env g)"
  by (simp add: xml_start_document_def header_attrs_def attr_string_def API_VERSION_def c_str_def)

lemma json_start_document_ops:
  "json_start_document env g = jg_map_open # concat (map (\<lambda>(k, v). jg_string k # json_ops v) (header_fields env g))"
  by (simp add: json_start_document_def header_fields_def prop_string_def)

lemma xml_bounds_ops: "xml_bounds b = xml_ops (bounds_xml b)"
  by (simp add: xml_bounds_def bounds_xml_def attr_double_def)

lemma json_bounds_ops: "json_bounds b = jg_string ''bounds'' # json_ops (bounds_json b)"
  by (simp add: json_bounds_def bounds_json_def prop_double_def)

lemma xml_current_document:
  "\<exists>kids. all_ops (fst \<circ> xml_call env) (osm_current_write p g bounds d s) =
     xml_ops (xelem ''osm'' (header_attrs env g) ((case bounds of None \<Rightarrow> [] | Some b \<Rightarrow> [bounds_xml b]) @ kids))"
proof -
  obtain ops where "xml_complete ops" and doc: "all_ops (fst \<circ> xml_call env) (osm_current_write p g bounds d s) =
    (fst \<circ> xml_call env) (start_document g ''osm'') @
    (case bounds of None \<Rightarrow> [] | Some b \<Rightarrow> (fst \<circ> xml_call env) (write_bounds b)) @
    (fst \<circ> xml_call env) fmt_call.start_element @ ops @ (fst \<circ> xml_call env) fmt_call.end_element @ (fst \<circ> xml_call env) end_document"
    using xml.current_body_complete [of env p g bounds d s] by blast
  from \<open>xml_complete ops\<close> obtain ts where "ops = concat (map xml_ops ts)" by (auto simp: xml_complete_def)
  with doc show ?thesis
    by (intro exI [of _ ts]) (simp add: xml_start_document_ops xml_bounds_ops c_str_def split: option.split)
qed

text \<open>The end of the elements closes the document, which is closed again: yajl refuses the second time.\<close>

lemma json_current_document:
  "\<exists>vs. all_ops (fst \<circ> json_call env) (osm_current_write p g bounds d s) =
     json_ops (json_object (header_fields env g @ (case bounds of None \<Rightarrow> [] | Some b \<Rightarrow> [(''bounds'', bounds_json b)]) @
       [(''elements'', json_array vs)])) @ [jg_map_close]"
proof -
  obtain ops where "json_complete ops" and doc: "all_ops (fst \<circ> json_call env) (osm_current_write p g bounds d s) =
    (fst \<circ> json_call env) (start_document g ''osm'') @
    (case bounds of None \<Rightarrow> [] | Some b \<Rightarrow> (fst \<circ> json_call env) (write_bounds b)) @
    (fst \<circ> json_call env) fmt_call.start_element @ ops @ (fst \<circ> json_call env) fmt_call.end_element @ (fst \<circ> json_call env) end_document"
    using json.current_body_complete [of env p g bounds d s] by blast
  from \<open>json_complete ops\<close> obtain vs where "ops = concat (map json_ops vs)" by (auto simp: json_complete_def)
  with doc show ?thesis
    by (intro exI [of _ vs]) (simp add: json_start_document_ops json_bounds_ops split: option.split)
qed

lemma xml_download_document:
  "\<exists>kids. all_ops (fst \<circ> xml_call env) (osmchange_write p g d s) = xml_ops (xelem ''osmChange'' (header_attrs env g) kids)"
proof -
  obtain ops where "xml_complete ops" and doc: "all_ops (fst \<circ> xml_call env) (osmchange_write p g d s) =
    (fst \<circ> xml_call env) (start_document g ''osmChange'') @ ops @ (fst \<circ> xml_call env) end_document"
    using xml.download_body_complete [of env p g d s] by blast
  from \<open>xml_complete ops\<close> obtain ts where "ops = concat (map xml_ops ts)" by (auto simp: xml_complete_def)
  with doc show ?thesis by (intro exI [of _ ts]) (simp add: xml_start_document_ops c_str_def)
qed

text \<open>The element of a diffResult for an item: the new id and version unless it was deleted.\<close>

definition diffresult_xml :: "diffresult_t \<Rightarrow> xtree list" where
  "diffresult_xml item =
     (let name = element_type_name (as_elem_type (dr_obj_type item)); old = (''old_id'', fmt_d (dr_old_id item)) in
      if dr_op item = op_undefined then []
      else if dr_op item = op_delete \<and> \<not> dr_deletion_skipped item then [xelem name [old] []]
      else [xelem name [old, (''new_id'', fmt_d (dr_new_id item)), (''new_version'', fmt_d (dr_new_version item))] []])"

lemma xml_diffresult_document:
  "all_ops (fst \<circ> xml_call env) (osm_diffresult_write g rows) =
     xml_ops (xelem ''diffResult'' (header_attrs env g) (concat (map diffresult_xml rows)))"
proof -
  have "all_ops (fst \<circ> xml_call env) (diffresult_calls item) = concat (map xml_ops (diffresult_xml item))" for item
    by (cases "dr_op item")
      (simp_all add: diffresult_calls_def diffresult_xml_def Let_def xml_create_modify_def xml_delete_def attr_int_def)
  then have "all_ops (fst \<circ> xml_call env) (concat (map diffresult_calls rows)) = concat (map xml_ops (concat (map diffresult_xml rows)))"
    by (induction rows) simp_all
  then show ?thesis by (simp add: osm_diffresult_write_def xml_start_document_ops c_str_def)
qed

lemma json_diffresult_document:
  "all_ops (fst \<circ> json_call env) (osm_diffresult_write g rows) = json_ops (json_object (header_fields env g))"
proof -
  have "all_ops (fst \<circ> json_call env) (diffresult_calls item) = []" for item
    by (cases "dr_op item") (simp_all add: diffresult_calls_def Let_def)
  then have "all_ops (fst \<circ> json_call env) (concat (map diffresult_calls rows)) = []"
    by (induction rows) simp_all
  then show ?thesis by (simp add: osm_diffresult_write_def json_start_document_ops)
qed

section \<open>Calls that do not throw\<close>

text \<open>Only the time at which a changeset was closed can fail to be read.\<close>

definition no_throw :: "(fmt_call \<Rightarrow> 'o emitted) \<Rightarrow> fmt_call list \<Rightarrow> bool" where
  "no_throw call cs \<longleftrightarrow> list_all (\<lambda>c. snd (call c) = None) cs"

fun of_changeset :: "fmt_call \<Rightarrow> bool" where
  "of_changeset (write_changeset cs tags include_comments comments) = True"
| "of_changeset _ = False"

lemma call_no_throw:
  "\<not> of_changeset c \<Longrightarrow> snd (xml_call env c) = None" "\<not> of_changeset c \<Longrightarrow> snd (json_call env c) = None"
  by (cases c; simp)+

lemma of_changeset_info: "of_changeset c \<Longrightarrow> call_info c = None"
  by (cases c) simp_all

lemma written_not_changeset: "write_elements p d s = (cs, ex) \<Longrightarrow> \<forall>c\<in>set cs. \<not> of_changeset c"
  using write_elements_info [of _ p d s] of_changeset_info by fastforce

lemma current_not_changeset: "\<forall>c\<in>set (osm_current_write p g bounds d s). \<not> of_changeset c"
proof -
  obtain cs ex where w: "write_elements p d s = (cs, ex)" by fastforce
  from written_not_changeset [OF w] show ?thesis
    by (auto simp: osm_current_write_def w on_error_def split: option.splits)
qed

lemma download_not_changeset: "\<forall>c\<in>set (osmchange_write p g d s). \<not> of_changeset c"
proof -
  obtain cs ex where w: "write_elements p d s = (cs, ex)" by fastforce
  from written_not_changeset [OF w] show ?thesis
    by (auto simp: osmchange_write_def sorted_actions_def w split: option.splits)
qed

lemma diffresult_not_changeset: "\<forall>c\<in>set (osm_diffresult_write g rows). \<not> of_changeset c"
  by (auto simp: osm_diffresult_write_def diffresult_calls_def Let_def split: operation.splits if_splits)

lemma documents_no_throw:
  "no_throw (xml_call env) (osm_current_write p g bounds d s)" "no_throw (json_call env) (osm_current_write p g bounds d s)"
  "no_throw (xml_call env) (osmchange_write p g d s)" "no_throw (xml_call env) (osm_diffresult_write g rows)"
  "no_throw (json_call env) (osm_diffresult_write g rows)"
  using current_not_changeset download_not_changeset diffresult_not_changeset
  by (auto simp: no_throw_def list_all_iff intro!: call_no_throw)

end
