(* ===== verification/Read_Back.thy ===== *)
theory Read_Back
  imports Formatters "HOL-Library.Multiset"
begin

text \<open>
  From the formatter back to the parser: what the XML formatter writes about a node, way or relation
  is read by the osmChange parser as the same element, coordinates included.
\<close>

section \<open>Coordinates\<close>

lemma digits_value_append: "digits_value (xs @ ys) = digits_value xs * 10 ^ length ys + digits_value ys"
proof (induction ys rule: rev_induct)
  case (snoc c ys)
  then show ?case by (simp add: digits_value_snoc digits_value_snoc [of "xs @ ys" c, simplified] algebra_simps)
qed (simp add: digits_value_def)

lemma digits_value_zeros: "digits_value (replicate n CHR ''0'') = 0"
  by (induction n) (simp_all add: digits_value_def)

lemma digits_of_length: "n < 10 ^ Suc k \<Longrightarrow> length (digits_of n) \<le> Suc k"
proof (induction k arbitrary: n)
  case 0
  then show ?case by (subst digits_of.simps) simp
next
  case (Suc k)
  then have "n div 10 < 10 ^ Suc k" by (simp add: div_less_iff_less_mult)
  with Suc.IH show ?case by (subst digits_of.simps) simp
qed

lemma pad7_value:
  assumes "0 \<le> n" "n < 10000000"
  shows "length (pad7 n) = 7" "digits_value (pad7 n) = n" "list_all is_digit (pad7 n)"
proof -
  have f: "fmt_d n = digits_of (nat n)" using assms(1) by (simp add: fmt_d_def)
  have "length (digits_of (nat n)) \<le> Suc 6" using assms by (intro digits_of_length) (simp add: nat_less_iff)
  then show "length (pad7 n) = 7" by (simp add: pad7_def Let_def f)
  show "digits_value (pad7 n) = n" using assms(1) digits_of_value [of "nat n"]
    by (simp add: pad7_def Let_def f digits_value_append digits_value_zeros)
  show "list_all is_digit (pad7 n)" using digits_of_value [of "nat n"]
    by (auto simp: pad7_def Let_def f list_all_iff is_digit_def)
qed

lemma from_fixed_near:
  assumes "\<bar>k\<bar> \<le> 1800000000"
  shows "\<bar>\<bar>from_fixed k\<bar> * 10000000 - of_int \<bar>k\<bar>\<bar> < 1 / 2" "from_fixed k < 0 \<longleftrightarrow> k < 0"
proof -
  let ?x = "of_int k / 10000000 :: rat"
  have e: "\<bar>from_fixed k - ?x\<bar> \<le> \<bar>?x\<bar> / 2 ^ 53" unfolding from_fixed_def by (rule fl_error)
  have "\<bar>of_int k :: rat\<bar> \<le> 1800000000" using assms by (simp flip: of_int_abs)
  then have "\<bar>?x\<bar> \<le> 180" by simp
  with e have small: "\<bar>from_fixed k - ?x\<bar> \<le> 180 / 2 ^ 53" by (simp add: order_trans [OF e] divide_right_mono)
  have "\<bar>\<bar>from_fixed k\<bar> - \<bar>?x\<bar>\<bar> \<le> 180 / 2 ^ 53" using small by linarith
  then have "\<bar>\<bar>from_fixed k\<bar> - \<bar>?x\<bar>\<bar> * 10000000 \<le> 180 / 2 ^ 53 * 10000000" by (intro mult_right_mono) simp_all
  also have "\<dots> < (1 / 2 :: rat)" by simp
  finally have "\<bar>(\<bar>from_fixed k\<bar> - \<bar>?x\<bar>) * 10000000\<bar> < 1 / 2" by (simp only: abs_mult abs_numeral)
  moreover have "(\<bar>from_fixed k\<bar> - \<bar>?x\<bar>) * 10000000 = \<bar>from_fixed k\<bar> * 10000000 - of_int \<bar>k\<bar>" by (simp add: left_diff_distrib)
  ultimately show "\<bar>\<bar>from_fixed k\<bar> * 10000000 - of_int \<bar>k\<bar>\<bar> < 1 / 2" by (simp only:)
  have "\<bar>?x\<bar> / 2 ^ 53 < \<bar>?x\<bar>" if "k \<noteq> 0" using that by (simp add: field_simps)
  with e fl_sign [of ?x] show "from_fixed k < 0 \<longleftrightarrow> k < 0"
    by (cases "k < 0") (auto simp: from_fixed_def abs_if split: if_splits)
qed

lemma fmt_from_fixed:
  assumes "\<bar>k\<bar> \<le> 1800000000"
  shows "fmt_7f (finite_double (from_fixed k)) =
    (if k < 0 then ''-'' else []) @ fmt_d (\<bar>k\<bar> div 10000000) @ ''.'' @ pad7 (\<bar>k\<bar> mod 10000000)"
  using from_fixed_near(2) [OF assms] round_half_even_near [OF from_fixed_near(1) [OF assms]]
  by (simp add: fmt_7f_def Let_def)

lemma nearest_double_fl:
  assumes "x = 0 \<or> 1 / 10000000 \<le> \<bar>x\<bar>"
  shows "nearest_double x = fl x"
proof (cases "x = 0")
  case False
  with assms have x: "1 / 10000000 \<le> \<bar>x\<bar>" by blast
  have "(2 :: rat) powi (- 24) < 2 powi (bin_exponent \<bar>x\<bar> + 1)"
  proof (rule less_le_trans)
    show "(2 :: rat) powi (- 24) < 1 / 10000000" by (simp add: power_int_minus)
    show "1 / 10000000 \<le> (2 :: rat) powi (bin_exponent \<bar>x\<bar> + 1)"
      using bin_exponent_bounds(2) [of "\<bar>x\<bar>"] x False by linarith
  qed
  from powi2_less [OF this] have "max (bin_exponent \<bar>x\<bar> - 52) (- 1074) = bin_exponent \<bar>x\<bar> - 52" by simp
  then show ?thesis by (simp add: nearest_double_def fl_def)
qed (simp add: nearest_double_def fl_def)

lemma from_chars_double_point:
  assumes "list_all is_digit ip" "ip \<noteq> []" "list_all is_digit fp"
    and "\<not> (decimal_value ip fp 0 \<noteq> 0 \<and> (decimal_value ip fp 0 \<ge> 2 ^ 1024 - 2 ^ 970 \<or> decimal_value ip fp 0 \<le> 1 / 2 ^ 1075))"
  shows "from_chars_double ((if neg then ''-'' else []) @ ip @ ''.'' @ fp) =
    Inr (finite_double (nearest_double (if neg then - decimal_value ip fp 0 else decimal_value ip fp 0)))"
proof -
  let ?s = "(if neg then ''-'' else []) @ ip @ ''.'' @ fp" and ?r = "ip @ ''.'' @ fp"
  have hd: "hd ?r \<noteq> CHR ''-''"
    using assms(1,2) is_digit_not(6) by (cases ip) (auto simp: list_all_iff)
  then have neg: "(?s \<noteq> [] \<and> hd ?s = CHR ''-'') = neg" "(if neg then tl ?s else ?s) = ?r" by simp_all
  have ip: "takeWhile is_digit ?r = ip" "dropWhile is_digit ?r = CHR ''.'' # fp"
    using assms(1) by (simp_all add: list_all_iff is_digit_not takeWhile_append2 dropWhile_append2)
  have fp: "takeWhile is_digit fp = fp" "dropWhile is_digit fp = []"
    using assms(3) by (simp_all add: list_all_iff takeWhile_eq_all_conv)
  have "exponent_of [] = 0" by (simp add: exponent_of_def)
  then show ?thesis
    unfolding from_chars_double_def Let_def neg ip
    by (simp only: neg ip fp list.sel list.distinct simp_thms if_True assms(2) if_False if_not_P [OF assms(4)])
qed

lemma coordinate_read_back:
  assumes "\<bar>k\<bar> \<le> 1800000000"
  shows "from_chars_double (fmt_7f (finite_double (from_fixed k))) = Inr (finite_double (from_fixed k))"
proof -
  let ?a = "\<bar>k\<bar> div 10000000" and ?b = "\<bar>k\<bar> mod 10000000"
  have b: "0 \<le> ?b" "?b < 10000000" and a: "0 \<le> ?a" by simp_all
  note pad = pad7_value [OF b]
  have da: "list_all is_digit (fmt_d ?a)" "fmt_d ?a \<noteq> []" using fmt_d_digits [OF a] by simp_all
  have "digits_value (fmt_d ?a @ pad7 ?b) = \<bar>k\<bar>"
    using digits_of_value [of "nat ?a"] a pad by (simp add: digits_value_append fmt_d_def)
  then have v: "decimal_value (fmt_d ?a) (pad7 ?b) 0 = \<bar>of_int k\<bar> / 10000000" by (simp add: decimal_value_def Let_def pad(1))
  have range: "\<not> (\<bar>of_int k\<bar> / 10000000 \<noteq> (0 :: rat) \<and>
      (\<bar>of_int k\<bar> / 10000000 \<ge> (2 :: rat) ^ 1024 - 2 ^ 970 \<or> \<bar>of_int k\<bar> / 10000000 \<le> (1 :: rat) / 2 ^ 1075))"
    (is "\<not> ?out")
  proof
    assume ?out
    have "\<bar>of_int k :: rat\<bar> \<le> 1800000000" using assms by (simp flip: of_int_abs)
    moreover have "k = 0 \<or> 1 \<le> \<bar>of_int k :: rat\<bar>" by (cases "k = 0") (simp_all flip: of_int_abs)
    moreover have "(180 :: rat) < 2 ^ 1024 - 2 ^ 970" "(1 :: rat) / 2 ^ 1075 < 1 / 10000000" by simp_all
    ultimately show False using \<open>?out\<close> by auto
  qed
  have "k = 0 \<or> 1 \<le> \<bar>of_int k :: rat\<bar>" by (cases "k = 0") (simp_all flip: of_int_abs)
  then have near: "nearest_double (of_int k / 10000000) = from_fixed k"
    unfolding from_fixed_def by (intro nearest_double_fl) auto
  have "from_chars_double (fmt_7f (finite_double (from_fixed k))) =
    Inr (finite_double (nearest_double (if k < 0 then - (\<bar>of_int k\<bar> / 10000000) else \<bar>of_int k\<bar> / 10000000)))"
    using from_chars_double_point [OF da pad(3), unfolded v, OF range, of "k < 0"] unfolding fmt_from_fixed [OF assms] by simp
  moreover have "(if k < 0 then - (\<bar>of_int k\<bar> / 10000000) else \<bar>of_int k\<bar> / 10000000) = (of_int k / 10000000 :: rat)" by simp
  ultimately show ?thesis using near by (simp only:)
qed

section \<open>Elements\<close>

text \<open>Values as the database holds them.\<close>

definition stored_info :: "element_info \<Rightarrow> bool" where
  "stored_info i \<longleftrightarrow> 0 < ei_id i \<and> ei_id i < 2 ^ 63 \<and> 0 < ei_version i \<and> ei_version i < 2 ^ 32 \<and>
     0 < ei_changeset i \<and> ei_changeset i < 2 ^ 63"

definition short_text :: "(string \<Rightarrow> nat option) \<Rightarrow> string \<Rightarrow> bool" where
  "short_text mbslen s \<longleftrightarrow> CHR 0x00 \<notin> set s \<and> (\<exists>n\<le>255. mbslen s = Some n)"

definition stored_tags :: "(string \<Rightarrow> nat option) \<Rightarrow> tags_t \<Rightarrow> bool" where
  "stored_tags mbslen tags \<longleftrightarrow> distinct (map fst tags) \<and>
     (\<forall>(k, v)\<in>set tags. k \<noteq> [] \<and> short_text mbslen k \<and> short_text mbslen v)"

fun member_type :: "element_type \<Rightarrow> string" where
  "member_type et_node = ''Node''"
| "member_type et_way = ''Way''"
| "member_type et_relation = ''Relation''"
| "member_type et_changeset = []"

definition stored_member :: "(string \<Rightarrow> nat option) \<Rightarrow> member_info \<Rightarrow> bool" where
  "stored_member mbslen m \<longleftrightarrow> mi_type m \<noteq> et_changeset \<and> 0 < mi_ref m \<and> mi_ref m < 2 ^ 63 \<and> short_text mbslen (mi_role m)"

lemma c_str_short: "short_text mbslen s \<Longrightarrow> c_str s = s"
  by (auto simp: c_str_def short_text_def takeWhile_eq_all_conv)

lemma parse_attr_fmt: "\<bar>v\<bar> < 2 ^ 63 \<Longrightarrow> parse_attr e1 e2 (fmt_d v) = Inr v"
  by (simp add: parse_attr_def from_chars_fmt is_s64_def abs_less_iff)

lemma foldE_skip:
  assumes "\<And>a x. a \<in> set as \<Longrightarrow> f a x = Inr x" shows "foldE f as x = Inr x"
  using assms by (induction as) simp_all

lemma init_object_common:
  assumes "stored_info i" "\<And>a. a \<in> set extra \<Longrightarrow> fst a \<notin> {''id'', ''changeset'', ''version''}"
  shows "init_object op_modify ty (common_attrs i @ extra) ob =
    Inr (ob\<lparr>o_id := Some (ei_id i), o_version := Some (ei_version i), o_changeset := Some (ei_changeset i)\<rparr>)"
proof -
  have skip: "foldE init_object_attr (user_attrs i @ extra) x = Inr x" for x :: "'a OSMObject_scheme"
  proof (rule foldE_skip)
    fix a y assume "a \<in> set (user_attrs i @ extra)"
    then have "fst a \<notin> {''id'', ''changeset'', ''version''}"
      using assms(2) [of a] by (auto simp: user_attrs_def split: option.splits)
    then show "init_object_attr a y = Inr y" by (cases a) (simp add: init_object_attr_def)
  qed
  have "u32 (ei_version i) = ei_version i" using assms(1) by (intro u32_id) (simp add: stored_info_def is_u32_def)
  then have "foldE init_object_attr (common_attrs i @ extra) ob =
    Inr (ob\<lparr>o_id := Some (ei_id i), o_version := Some (ei_version i), o_changeset := Some (ei_changeset i)\<rparr>)"
    using assms(1) skip
    by (simp add: common_attrs_def init_object_attr_def set_id_str_def set_version_str_def set_changeset_str_def parse_attr_fmt
        stored_info_def set_id_def set_version_def set_changeset_def)
  moreover have "\<not> ei_version i < 1" using assms(1) by (simp add: stored_info_def)
  ultimately show ?thesis by (simp add: init_object_def deref_def)
qed

lemma init_node_position:
  assumes "ei_visible i" "\<bar>lat\<bar> \<le> 900000000" "\<bar>lon\<bar> \<le> 1800000000"
  shows "init_node (common_attrs i @ position_attrs i (from_fixed lon) (from_fixed lat)) n =
    Inr (n\<lparr>o_lat := Some (from_fixed lat), o_lon := Some (from_fixed lon)\<rparr>)"
proof -
  have skip: "foldE init_node_attr (common_attrs i) x = Inr x" for x
    by (rule foldE_skip) (auto simp: common_attrs_def user_attrs_def init_node_attr_def split: option.splits)
  have "\<bar>lat\<bar> \<le> 1800000000" using assms(2) by simp
  note read = coordinate_read_back [OF this] coordinate_read_back [OF assms(3)]
  have "- 90 \<le> from_fixed lat" "from_fixed lat \<le> 90" "- 180 \<le> from_fixed lon" "from_fixed lon \<le> 180"
    using fl_between [of "- 90" "of_int lat / 10000000" 90] fl_between [of "- 180" "of_int lon / 10000000" 180] assms(2,3)
    by (simp_all add: from_fixed_def abs_le_iff)
  then show ?thesis using assms(1) skip read
    by (simp add: init_node_def foldE_append position_attrs_def init_node_attr_def set_lat_str_def set_lon_str_def parse_double_def
        set_lat_def set_lon_def not_less)
qed

lemma insort_tags_set: "set (fold (insort_key fst) tags ts) = set tags \<union> set ts"
  by (induction tags arbitrary: ts) (auto simp: set_insort_key)

lemma read_tags:
  assumes "stored_tags mbslen tags" "fst ` set tags \<inter> fst ` set (o_tags ob) = {}"
    and "\<And>t x. t \<in> set tags \<Longrightarrow> child (tag_xml t) x = add_tag_element mbslen ty [(''k'', c_str (fst t)), (''v'', c_str (snd t))] x"
  shows "foldE child (map tag_xml tags) ob = Inr (ob\<lparr>o_tags := fold (insort_key fst) tags (o_tags ob)\<rparr>)"
  using assms
proof (induction tags arbitrary: ob)
  case (Cons t tags)
  obtain k v where t: "t = (k, v)" by fastforce
  from Cons.prems(1) t have kv: "k \<noteq> []" "short_text mbslen k" "short_text mbslen v" "k \<notin> fst ` set tags" "stored_tags mbslen tags"
    by (auto simp: stored_tags_def)
  then obtain n n' where "mbslen k = Some n" "n \<le> 255" "mbslen v = Some n'" "n' \<le> 255" by (auto simp: short_text_def)
  moreover have "k \<notin> fst ` set (o_tags ob)" using Cons.prems(2) t by auto
  ultimately have "child (tag_xml t) ob = Inr (ob\<lparr>o_tags := insort_key fst t (o_tags ob)\<rparr>)"
    using Cons.prems(3) [of t ob] t kv c_str_short [OF kv(2)] c_str_short [OF kv(3)]
    by (simp add: add_tag_element_def last_attr_def add_tag_def unicode_strlen_def)
  moreover have "foldE child (map tag_xml tags) (ob\<lparr>o_tags := insort_key fst t (o_tags ob)\<rparr>) =
    Inr (ob\<lparr>o_tags := fold (insort_key fst) tags (insort_key fst t (o_tags ob))\<rparr>)"
    using Cons.IH [of "ob\<lparr>o_tags := insort_key fst t (o_tags ob)\<rparr>"] kv(4,5) t Cons.prems(2,3)
    by (auto simp: set_insort_key)
  ultimately show ?case by simp
qed simp

lemma insort_tags_sorted:
  fixes tags :: tags_t
  assumes "distinct (map fst tags)"
  shows "fold (insort_key fst) tags [] = sort_key fst tags"
proof -
  have sorted: "sorted (map fst (fold (insort_key fst) xs ys))" if "sorted (map fst ys)" for xs ys :: tags_t
    using that by (induction xs arbitrary: ys) (simp_all add: sorted_insort_key)
  have mset: "mset (fold (insort_key fst) xs ys) = mset xs + mset ys" for xs ys :: tags_t
    by (induction xs arbitrary: ys) simp_all
  have "sort_key fst tags = fold (insort_key fst) tags []"
    using assms mset [of tags "[]"] sorted [of "[]" tags] by (intro sort_key_inj_key_eq) (simp_all add: distinct_map)
  then show ?thesis by (rule sym)
qed

lemma read_nodes:
  assumes "\<forall>n\<in>set nds. 0 < n \<and> n < 2 ^ 63"
  shows "foldE (read_way_child mbslen) (map nd_xml nds) w = Inr (w\<lparr>o_way_nodes := o_way_nodes w @ nds\<rparr>)"
  using assms
proof (induction nds arbitrary: w)
  case (Cons n nds)
  then show ?case
    by (simp add: nd_xml_def add_nd_element_def add_way_node_str_def parse_attr_fmt add_way_node_def no_kids_def)
qed simp

definition read_member_info :: "member_info \<Rightarrow> RelationMember" where
  "read_member_info m = \<lparr>rm_role = mi_role m, rm_ref = Some (mi_ref m), rm_type = Some (member_type (mi_type m))\<rparr>"

lemma set_type_name:
  assumes "t \<noteq> et_changeset"
  shows "set_type (element_type_name t) m = Inr (m\<lparr>rm_type := Some (member_type t)\<rparr>)"
proof -
  have "iequals ''node'' ''Node''" "iequals ''way'' ''Way''" "iequals ''relation'' ''Relation''" by code_simp+
  moreover have "\<not> iequals ''way'' ''Node''" "\<not> iequals ''relation'' ''Node''" "\<not> iequals ''relation'' ''Way''"
    by (simp_all add: iequals_def)
  ultimately show ?thesis using assms by (cases t) (simp_all add: set_type_def)
qed

lemma read_members:
  assumes "\<forall>m\<in>set ms. stored_member mbslen m"
  shows "foldE (read_relation_child mbslen) (map member_xml ms) r = Inr (r\<lparr>o_members := o_members r @ map read_member_info ms\<rparr>)"
  using assms
proof (induction ms arbitrary: r)
  case (Cons m ms)
  then have m: "mi_type m \<noteq> et_changeset" "0 < mi_ref m" "mi_ref m < 2 ^ 63" "short_text mbslen (mi_role m)" by (simp_all add: stored_member_def)
  then obtain n where "mbslen (mi_role m) = Some n" "n \<le> 255" by (auto simp: short_text_def)
  then have "read_relation_child mbslen (member_xml m) r = Inr (r\<lparr>o_members := o_members r @ [read_member_info m]\<rparr>)"
    using m c_str_short [OF m(4)] set_type_name [OF m(1)]
    by (simp add: member_xml_def add_member_element_def member_attr_def set_ref_str_def parse_attr_fmt set_ref_def set_role_def
        unicode_strlen_def member_is_valid_def add_member_def read_member_info_def no_kids_def)
  with Cons show ?case by simp
qed simp

section \<open>Reading what was written\<close>

lemma bindE_Inr_right: "bindE r Inr = r"
  by (cases r) simp_all

lemma tag_children:
  "read_node_child mbslen (tag_xml t) n = add_tag_element mbslen ''Node'' [(''k'', c_str (fst t)), (''v'', c_str (snd t))] n"
  "read_way_child mbslen (tag_xml t) w = add_tag_element mbslen ''Way'' [(''k'', c_str (fst t)), (''v'', c_str (snd t))] w"
  "read_relation_child mbslen (tag_xml t) r = add_tag_element mbslen ''Relation'' [(''k'', c_str (fst t)), (''v'', c_str (snd t))] r"
  by (simp_all add: tag_xml_def no_kids_def bindE_Inr_right)

definition tags_within :: "limits \<Rightarrow> tags_t \<Rightarrow> bool" where
  "tags_within lm tags \<longleftrightarrow> (case element_max_tags lm of None \<Rightarrow> True | Some m \<Rightarrow> length tags \<le> m)"

lemma object_is_valid_modify:
  assumes "tags_within lm (o_tags ob)" "o_changeset ob \<noteq> None" "o_id ob \<noteq> None" "o_version ob \<noteq> None"
  shows "object_is_valid lm op_modify ob = Inr True"
  using assms by (auto simp: object_is_valid_def tags_within_def split: option.splits)

lemma read_node_back:
  assumes "stored_info i" "ei_visible i" "stored_tags mbslen tags" "tags_within lm tags"
    "\<bar>lat\<bar> \<le> 900000000" "\<bar>lon\<bar> \<le> 1800000000"
  shows "read_element mbslen lm op_modify unused (element_xml (write_node i (from_fixed lon) (from_fixed lat) tags)) =
    Inr (change_node \<lparr>o_changeset = Some (ei_changeset i), o_id = Some (ei_id i), o_version = Some (ei_version i),
      o_tags = sort_key fst tags, o_lat = Some (from_fixed lat), o_lon = Some (from_fixed lon)\<rparr> op_modify unused)"
proof -
  let ?n = "\<lambda>ts. \<lparr>o_changeset = Some (ei_changeset i), o_id = Some (ei_id i), o_version = Some (ei_version i),
      o_tags = ts, o_lat = Some (from_fixed lat), o_lon = Some (from_fixed lon)\<rparr>"
  have "fst a \<notin> {''id'', ''changeset'', ''version''}" if "a \<in> set (position_attrs i (from_fixed lon) (from_fixed lat))" for a
    using that by (auto simp: position_attrs_def split: if_splits)
  note init = init_object_common [OF assms(1) this] init_node_position [OF assms(2,5,6)]
  have "distinct (map fst tags)" using assms(3) by (simp add: stored_tags_def)
  then have tags: "foldE (read_node_child mbslen) (map tag_xml tags) (?n []) = Inr (?n (sort_key fst tags))"
    using read_tags [OF assms(3), of "?n []" "read_node_child mbslen" "''Node''"] insort_tags_sorted by (simp add: tag_children)
  have "node_is_valid lm op_modify (?n (sort_key fst tags)) = Inr True"
    using assms(4) by (simp add: node_is_valid_def object_is_valid_modify tags_within_def cong: option.case_cong)
  with tags show ?thesis by (simp add: init new_node_def checked_def)
qed

lemma read_way_back:
  assumes "stored_info i" "stored_tags mbslen tags" "tags_within lm tags"
    "nds \<noteq> []" "length nds \<le> way_max_nodes lm" "\<forall>n\<in>set nds. 0 < n \<and> n < 2 ^ 63"
  shows "read_element mbslen lm op_modify unused (element_xml (write_way i nds tags)) =
    Inr (change_way \<lparr>o_changeset = Some (ei_changeset i), o_id = Some (ei_id i), o_version = Some (ei_version i),
      o_tags = sort_key fst tags, o_way_nodes = nds\<rparr> op_modify unused)"
proof -
  let ?w = "\<lambda>ts. \<lparr>o_changeset = Some (ei_changeset i), o_id = Some (ei_id i), o_version = Some (ei_version i),
      o_tags = ts, o_way_nodes = nds\<rparr>"
  have "distinct (map fst tags)" using assms(2) by (simp add: stored_tags_def)
  then have tags: "foldE (read_way_child mbslen) (map tag_xml tags) (?w []) = Inr (?w (sort_key fst tags))"
    using read_tags [OF assms(2), of "?w []" "read_way_child mbslen" "''Way''"] insort_tags_sorted by (simp add: tag_children)
  have "way_is_valid lm op_modify (?w (sort_key fst tags)) = Inr True"
    using assms(3-5) by (simp add: way_is_valid_def object_is_valid_modify tags_within_def cong: option.case_cong)
  with read_nodes [OF assms(6)] tags show ?thesis
    by (simp add: init_object_common [OF assms(1), of "[]", simplified] new_way_def checked_def foldE_append)
qed

lemma read_relation_back:
  assumes "stored_info i" "stored_tags mbslen tags" "tags_within lm tags"
    "case relation_max_members lm of None \<Rightarrow> True | Some m \<Rightarrow> length ms \<le> m" "\<forall>m\<in>set ms. stored_member mbslen m"
  shows "read_element mbslen lm op_modify unused (element_xml (write_relation i ms tags)) =
    Inr (change_relation \<lparr>o_changeset = Some (ei_changeset i), o_id = Some (ei_id i), o_version = Some (ei_version i),
      o_tags = sort_key fst tags, o_members = map read_member_info ms\<rparr> op_modify unused)"
proof -
  let ?r = "\<lambda>ts. \<lparr>o_changeset = Some (ei_changeset i), o_id = Some (ei_id i), o_version = Some (ei_version i),
      o_tags = ts, o_members = map read_member_info ms\<rparr>"
  have "distinct (map fst tags)" using assms(2) by (simp add: stored_tags_def)
  then have tags: "foldE (read_relation_child mbslen) (map tag_xml tags) (?r []) = Inr (?r (sort_key fst tags))"
    using read_tags [OF assms(2), of "?r []" "read_relation_child mbslen" "''Relation''"] insort_tags_sorted by (simp add: tag_children)
  have "relation_is_valid lm op_modify (?r (sort_key fst tags)) = Inr True"
    using assms(3,4) by (simp add: relation_is_valid_def object_is_valid_modify tags_within_def split: option.splits)
  with read_members [OF assms(5)] tags show ?thesis
    by (simp add: init_object_common [OF assms(1), of "[]", simplified] new_relation_def checked_def foldE_append)
qed

text \<open>
  A call for an element as the database holds it: visible where it has a position, its coordinates
  fixed-point numbers of the world, its texts free of NUL and short enough for an upload.
\<close>

fun stored_call :: "(string \<Rightarrow> nat option) \<Rightarrow> limits \<Rightarrow> fmt_call \<Rightarrow> bool" where
  "stored_call mbslen lm (write_node i lon lat tags) \<longleftrightarrow>
     stored_info i \<and> ei_visible i \<and> stored_tags mbslen tags \<and> tags_within lm tags \<and>
     lat \<in> from_fixed ` {- 900000000..900000000} \<and> lon \<in> from_fixed ` {- 1800000000..1800000000}"
| "stored_call mbslen lm (write_way i nds tags) \<longleftrightarrow>
     stored_info i \<and> stored_tags mbslen tags \<and> tags_within lm tags \<and>
     nds \<noteq> [] \<and> length nds \<le> way_max_nodes lm \<and> (\<forall>n\<in>set nds. 0 < n \<and> n < 2 ^ 63)"
| "stored_call mbslen lm (write_relation i ms tags) \<longleftrightarrow>
     stored_info i \<and> stored_tags mbslen tags \<and> tags_within lm tags \<and>
     (case relation_max_members lm of None \<Rightarrow> True | Some m \<Rightarrow> length ms \<le> m) \<and> (\<forall>m\<in>set ms. stored_member mbslen m)"
| "stored_call mbslen lm _ \<longleftrightarrow> False"

text \<open>The change that leaves such an element as it is: its tags by key, as the parser keeps them.\<close>

fun unchanged :: "fmt_call \<Rightarrow> change" where
  "unchanged (write_node i lon lat tags) =
     change_node \<lparr>o_changeset = Some (ei_changeset i), o_id = Some (ei_id i), o_version = Some (ei_version i),
       o_tags = sort_key fst tags, o_lat = Some lat, o_lon = Some lon\<rparr> op_modify False"
| "unchanged (write_way i nds tags) =
     change_way \<lparr>o_changeset = Some (ei_changeset i), o_id = Some (ei_id i), o_version = Some (ei_version i),
       o_tags = sort_key fst tags, o_way_nodes = nds\<rparr> op_modify False"
| "unchanged (write_relation i ms tags) =
     change_relation \<lparr>o_changeset = Some (ei_changeset i), o_id = Some (ei_id i), o_version = Some (ei_version i),
       o_tags = sort_key fst tags, o_members = map read_member_info ms\<rparr> op_modify False"
| "unchanged _ = change_node new_node op_undefined False"

lemma stored_call_read:
  assumes "stored_call mbslen lm c"
  shows "read_element mbslen lm op_modify False (element_xml c) = Inr (unchanged c)"
  using assms
proof (cases c)
  case (write_node i lon lat tags)
  with assms obtain la lo where pos: "lat = from_fixed la" "\<bar>la\<bar> \<le> 900000000" "lon = from_fixed lo" "\<bar>lo\<bar> \<le> 1800000000"
    by (auto simp: abs_le_iff)
  with assms write_node read_node_back [of i mbslen tags lm la lo False] show ?thesis by (simp only: stored_call.simps unchanged.simps)
next
  case (write_way i nds tags)
  with assms show ?thesis by (simp only: stored_call.simps unchanged.simps) (blast intro: read_way_back)
next
  case (write_relation i ms tags)
  with assms show ?thesis by (simp only: stored_call.simps unchanged.simps) (blast intro: read_relation_back)
qed simp_all

lemma stored_calls_read:
  assumes "\<forall>c\<in>set cs. stored_call mbslen lm c"
  shows "changes_of mbslen lm (elem ''osmChange'' as [elem ''modify'' as' (map element_xml cs)]) = Inr (map unchanged cs)"
proof -
  have "mapE (read_element mbslen lm op_modify False) (map element_xml cs) = Inr (map unchanged cs)"
    using assms by (induction cs) (simp_all add: stored_call_read)
  then show ?thesis by (simp add: changes_of_Inr)
qed

lemma stored_calls_ops:
  assumes "\<forall>c\<in>set cs. stored_call mbslen lm c"
  shows "all_ops (fst \<circ> xml_call env) cs = concat (map (xml_ops \<circ> plain \<circ> element_xml) cs)"
proof -
  have "call_info c \<noteq> None" if "stored_call mbslen lm c" for c using that by (cases c) simp_all
  with assms show ?thesis by (induction cs) (simp_all add: xml_call_element)
qed

section \<open>A node, a way and a relation\<close>

definition sample_limits :: limits where
  "sample_limits = \<lparr>element_max_tags = Some 2, way_max_nodes = 2, relation_max_members = Some 2\<rparr>"

definition stored_sample :: "int \<Rightarrow> int \<Rightarrow> element_info" where
  "stored_sample k v =
     \<lparr>ei_id = k, ei_version = v, ei_changeset = 9, ei_timestamp = ''2020-01-01T00:00:00Z'', ei_uid = Some 3,
      ei_display_name = Some ''ann'', ei_visible = True, ei_redaction = None\<rparr>"

definition stored_calls :: "fmt_call list" where
  "stored_calls =
     [write_node (stored_sample 11 2) (from_fixed (- 1799999999)) (from_fixed 512345678) [(''name'', ''a''), (''k'', ''b'')],
      write_way (stored_sample 12 1) [11, 13] [(''highway'', ''path'')],
      write_relation (stored_sample 14 4294967295)
        [\<lparr>mi_type = et_way, mi_ref = 12, mi_role = ''outer''\<rparr>, \<lparr>mi_type = et_node, mi_ref = 11, mi_role = []\<rparr>] []]"

lemma stored_calls_ok: "\<forall>c\<in>set stored_calls. stored_call (Some \<circ> length) sample_limits c"
proof -
  have info: "stored_info (stored_sample 11 2)" "stored_info (stored_sample 12 1)" "stored_info (stored_sample 14 4294967295)"
    "ei_visible (stored_sample 11 2)"
    by (simp_all add: stored_info_def stored_sample_def)
  have "stored_tags (Some \<circ> length) [(''name'', ''a''), (''k'', ''b'')]" "stored_tags (Some \<circ> length) [(''highway'', ''path'')]"
    "stored_tags (Some \<circ> length) []"
    by (simp_all add: stored_tags_def short_text_def)
  moreover have "from_fixed (- 1799999999) \<in> from_fixed ` {- 1800000000..1800000000}" "from_fixed 512345678 \<in> from_fixed ` {- 900000000..900000000}"
    by (rule imageI, simp)+
  ultimately show ?thesis using info
    by (simp add: stored_calls_def tags_within_def sample_limits_def stored_member_def short_text_def)
qed

end
