(* ===== verification/Spec2Isabelle.thy ===== *)
theory Spec2Isabelle
  imports Samples Settings Written Web_Samples Read_Back
begin

text \<open>
  A verification development for openstreetmap-cgimap, the C++ server of the OpenStreetMap API 0.6.
  Paths below are relative to \<^verbatim>\<open>src/\<close>, the root of the repository.

  \<^bold>\<open>The program.\<close> A FastCGI process takes one request at a time. \<^verbatim>\<open>src/process_request.cpp\<close> finds the
  client and the user of the bearer token, asks the rate limiter, routes the path to a handler
  (\<^verbatim>\<open>src/routes.cpp\<close>) and calls it. A read handler of \<^verbatim>\<open>src/api06\<close> selects elements through
  \<^verbatim>\<open>src/backend/apidb/readonly_pgsql_selection.cpp\<close>, and its responder writes them as calls of an
  output formatter. A write handler parses the payload and changes the database through the
  updaters of \<^verbatim>\<open>src/backend/apidb/changeset_upload\<close>, all in one transaction; it answers with a
  diffResult, a changeset id or a document.

  \<^bold>\<open>Conventions.\<close> A thrown exception is the left value of a result (Prelude), and so are a failed
  assertion and undefined behaviour, so that their absence is something to prove. An object is a
  record that its operations take and return. A table is the list of its rows, and an SQL statement
  the list function that its text says. Integers are unbounded where the code cannot leave its
  width and are wrapped by \<open>s32\<close>, \<open>u32\<close>, \<open>s64\<close> where it can; quad tiles are 32-bit words. A double is a
  rational number, an infinity or a NaN, each operation rounded to 53 bits, ties to even.

  \<^bold>\<open>The upload.\<close>
  \<^item> Tracking: \<^verbatim>\<open>osmchange_tracking\<close>, the record of what an upload did and its diffResult.
  \<^item> Bounds, Coordinates: the box of an upload (\<^verbatim>\<open>util.hpp\<close>), doubles, fixed point and \<^verbatim>\<open>quad_tile.hpp\<close>.
  \<^item> Database, Elements: the tables, the forms of the statements, and what the three updaters share.
  \<^item> Node_Updater, Way_Updater, Relation_Updater, Changeset_Updater: \<^verbatim>\<open>node_updater.cpp\<close>,
    \<^verbatim>\<open>way_updater.cpp\<close>, \<^verbatim>\<open>relation_updater.cpp\<close>, \<^verbatim>\<open>changeset_updater.cpp\<close>, operation by operation.
  \<^item> OSM_Objects, OSMChange_XML, OSMChange_Handler, Upload: the elements of a message
    (\<^verbatim>\<open>osmobject.hpp\<close>, \<^verbatim>\<open>node.hpp\<close>, \<^verbatim>\<open>way.hpp\<close>, \<^verbatim>\<open>relation.hpp\<close>), the SAX callbacks of
    \<^verbatim>\<open>osmchange_xml_input_format.hpp\<close>, the state machine of \<^verbatim>\<open>osmchange_handler.cpp\<close> and the responder of
    \<^verbatim>\<open>changeset_upload_handler.cpp\<close> with the limits of \<^verbatim>\<open>pgsql_update.cpp\<close>.
  \<^item> Changeset_API: \<^verbatim>\<open>changeset_input_format.hpp\<close> and the responders that create, update and close.

  \<^bold>\<open>The web side.\<close>
  \<^item> Text_Util, Pg_Arrays, Http, Mime: string helpers, array texts of PostgreSQL, query strings,
    encodings, content length, \<^verbatim>\<open>Accept\<close> headers and the choice of a formatter.
  \<^item> Bounding_Box, Selection, Row_Extraction, Responders: \<^verbatim>\<open>bbox.cpp\<close>, \<^verbatim>\<open>quad_tile.cpp\<close>, the queries of
    \<^verbatim>\<open>readonly_pgsql_selection.cpp\<close>, \<^verbatim>\<open>common_pgsql_selection.cpp\<close> and the responders of the read handlers.
  \<^item> Requests, Router, API_Handlers, Process_Request: \<^verbatim>\<open>request.cpp\<close>, \<^verbatim>\<open>request_helpers.cpp\<close>,
    \<^verbatim>\<open>routes.cpp\<close>, \<^verbatim>\<open>router.cpp\<close>, the handlers, payloads, \<^verbatim>\<open>oauth2.cpp\<close> and \<^verbatim>\<open>process_request.cpp\<close> with all of
    its catch clauses.
  \<^item> Rate_Limiter, Settings: \<^verbatim>\<open>rate_limiter.cpp\<close>, \<^verbatim>\<open>options.cpp\<close>.
  \<^item> Formatters: the XML, JSON and text formatters with their writers, as the calls they make of
    libxml2, yajl and the output buffer.

  \<^bold>\<open>What is shown.\<close>
  \<^item> Integrity states the invariant of the database and of the tracking during an upload. Node_Correct,
    Way_Correct and Relation_Correct prove it for every processing step, together with the
    equivalence of the batched modifications with modifications one by one; Handler_Correct proves it
    for the state machine, Changeset_Frame what the elements leave alone, and Upload puts them
    together (C1 to C4, C9 to C21, C24). The parsers are compared with recursive descents over the
    document (OSMChange_XML_Correct, Changeset_API: C5 to C7).
  \<^item> Read_Back: what the XML formatter writes is read by the osmChange parser as the same elements
    (C8). Formatters: documents are well formed (C18).
  \<^item> Selection_Correct, Written: what a map call selects and what is written of it (C22, C23, C29, C30,
    C35, C36).
  \<^item> Redactions, Request_Correct: redacted versions stay hidden, every request is answered once, writes
    are authorised (C37, C39, C40); each handler has its URL (C38).
  \<^item> Headers, sizes, settings and rate limits (C25 to C28, C31 to C34).
  \<^item> Observations: behaviours that a reader of the comments would not expect.
  \<^item> Samples, Web_Samples: a small database and a small server on which definitions are evaluated.

  \<^bold>\<open>Interfaces.\<close> \<open>row_update\<close> (Row_Update) is the versioned \<^verbatim>\<open>UPDATE\<close> of the updaters, interpreted for the
  rows of nodes, ways and relations. \<open>element_updater\<close> (Updater_Interface) is the contract of the three
  updaters with the handler, interpreted for each of them; Handler_Correct is proved from it.
  \<open>output_formatter\<close> (Formatters) is the contract of a formatter with the responders, interpreted for XML
  and JSON. \<open>returning_limiter\<close> (Request_Correct) is what \<^verbatim>\<open>process_request\<close> needs of a rate limiter to
  return, interpreted for the null limiter and for the one that uses memcached.

  \<^bold>\<open>Fuel.\<close> Only the jump back to \<^verbatim>\<open>retry\<close> in \<^verbatim>\<open>memcached_rate_limiter::update\<close> is bounded: other processes can
  empty and fill the store between two calls for ever. One round is enough while nobody else writes
  (C31), two are where a refused \<^verbatim>\<open>add\<close> is followed by a \<^verbatim>\<open>get\<close> that finds the entry (C39). All other loops
  are total functions.

  \<^bold>\<open>Parameters.\<close> Code outside of the repository is an argument of the definitions that use it: the events
  libxml2 reports and its writer, yajl, \<^verbatim>\<open>mbsrtowcs\<close> for the length of a text (\<open>mbslen\<close>), \<^verbatim>\<open>strptime\<close>, the
  server's \<^verbatim>\<open>to_char\<close> and intervals and the functions \<^verbatim>\<open>api_rate_limit\<close> and \<^verbatim>\<open>api_size_limit\<close> of the database,
  whether a row lock is to be had, memcached, zlib and the chunks FastCGI delivers.

  \<^bold>\<open>Not modelled.\<close>
  \<^item> \<^verbatim>\<open>main.cpp\<close>, the FastCGI calls of \<^verbatim>\<open>fcgi_request.cpp\<close>, \<^verbatim>\<open>logger.cpp\<close>, the compressing buffers of \<^verbatim>\<open>zlib.cpp\<close> and \<^verbatim>\<open>brotli.cpp\<close>, and
    the buffers, flushing and write errors of the writers: processes, sockets and bytes.
  \<^item> \<^verbatim>\<open>backend.cpp\<close>, \<^verbatim>\<open>apidb.cpp\<close>, \<^verbatim>\<open>transaction_manager.cpp\<close>: connections and options of libpqxx. Requests of
    several processes are serialised by the locks of the database; an upload is one atomic step here.
    Errors of the server that no statement of the code provokes, such as an id beyond \<^verbatim>\<open>bigint\<close> in a URL,
    are left out.
  \<^item> An exception of a formatter in the middle of a document: only the closing time of a changeset can
    cause one (\<open>is_open_at\<close>), and the responders are modelled up to the calls they make.
  \<^item> The experimental API 0.7, which the default build leaves out, the tests and the code under \<^verbatim>\<open>contrib\<close>.
\<close>

section \<open>Uploads\<close>

text \<open>
  C1. \<^verbatim>\<open>assemble_diffresult\<close> succeeds exactly when every element of the osmChange message was
  processed, and then its rows are one per element, in message order, each describing what the
  tracking recorded.
\<close>

theorem diffresult_complete:
  "(case assemble_diffresult ct of
      Inr rows \<Rightarrow> list_all2 (row_describes ct) (osmchange_orig_sequence ct) rows \<and>
                  list_all (accounted ct) (osmchange_orig_sequence ct)
    | Inl e \<Rightarrow> list_ex (\<lambda>item. \<not> accounted ct item) (osmchange_orig_sequence ct) \<and>
               (\<exists>msg. e = runtime_error msg))"
proof (cases "assemble_diffresult ct")
  case (Inl e)
  then have "\<nexists>rows. assemble_diffresult ct = Inr rows" by simp
  then have "\<exists>item\<in>set (osmchange_orig_sequence ct). \<not> accounted ct item"
    by (simp only: assemble_diffresult_ex) blast
  with Inl assemble_diffresult_error [OF Inl] show ?thesis by (simp add: list_ex_iff)
next
  case (Inr rows)
  then have "\<exists>rows. assemble_diffresult ct = Inr rows" by simp
  then have "\<forall>item\<in>set (osmchange_orig_sequence ct). accounted ct item"
    by (simp only: assemble_diffresult_ex)
  with Inr assemble_diffresult_rows [OF Inr] show ?thesis by (simp add: list_all_iff)
qed



text \<open>
  C3. After a successful upload, the changeset belongs to the user and was open; its number of
  changes grew by the changes of this upload and respects the maximum, its life time is within
  the maximum, its box is the old one expanded by the box of the changed elements, and the upload stayed
  within the rate limit and the size limit.
\<close>

theorem upload_changeset_limits:
  assumes "changeset_upload_responder env False changeset payload d = Inr (rows, d')" "payload_of t payload"
  shows "\<exists>c c' h b. cs_row changeset d = Some c \<and> cs_row changeset d' = Some c' \<and>
    process_message (up_mbslen env) (up_limits env) (handler_callback (up_limits env)) payload (init_handler changeset d) = Inr h \<and>
    c_user_id c = user_id (up_cs env) \<and> db_now d \<le> c_closed_at c \<and>
    c_num_changes c' = u32 (u32 (c_num_changes c) + u32 (get_total (get_stats h))) \<and>
    c_num_changes c' \<le> env_max_elements (up_cs env) \<and>
    c_created_at c' = c_created_at c \<and> c_closed_at c' \<le> c_created_at c' + env_timeout_open_max (up_cs env) \<and>
    b = expand (case c_bbox c of None \<Rightarrow> default_bbox | Some old \<Rightarrow> old) (get_bbox h) \<and>
    c_bbox c' = (if b = default_bbox then c_bbox c else Some b) \<and>
    check_rate_limit env (get_total (get_stats h)) = Inr () \<and> check_bbox_size env b = Inr ()"
  by (rule upload_changeset [OF assms]) (intro exI conjI, auto)

theorem upload_changeset_limits_witness:
  "\<exists>c'. cs_row 5 sample_db' = Some c' \<and> c_num_changes c' \<le> 10000"
proof -
  have "env_max_elements (up_cs sample_env) = 10000" by (simp add: sample_env_def)
  with upload_changeset_limits [OF sample_upload sample_payload_of] show ?thesis by auto
qed

text \<open>
  C4. The state machine of \<^verbatim>\<open>OSMChange_Handler\<close> flushes every request: when a message has been
  processed, the state is the final one and no create, modify or delete vector of any updater
  holds anything.
\<close>

theorem handler_flushes:
  "(case process_document lm cs (init_handler changeset d) of
      Inl _ \<Rightarrow> True
    | Inr h \<Rightarrow> h_state h = st_finished \<and> no_buffers h \<and> h_changeset h = changeset)"
proof (cases "process_document lm cs (init_handler changeset d)")
  case (Inr h)
  from process_document_buffers [OF Inr init_handler_buffers(2)] Inr show ?thesis
    by (simp add: init_handler_def)
qed simp

section \<open>The osmChange parser\<close>

text \<open>
  C5. On the events of any document tree, the SAX state machine \<^verbatim>\<open>OSMChangeXMLParser\<close> does what a
  recursive descent over the tree does: the same calls of the handler in the same order, the
  same result, the same error; none of its assertions fails.
\<close>

theorem parser_refines_descent:
  "process_message mbslen lm cb (unlocated (events_of t)) h = read_document mbslen lm cb t h"
  by (rule process_message_document)


text \<open>
  Printing a signed 64-bit number and reading it back with \<^verbatim>\<open>std::from_chars\<close>, as an id
  goes through a message, gives the number.
\<close>

theorem from_chars_roundtrip:
  "is_s64 v \<Longrightarrow> from_chars_s64 (fmt_d v) = Inr v"
  by (rule from_chars_fmt)

theorem from_chars_roundtrip_witness:
  "from_chars_s64 (fmt_d (- 9223372036854775808)) = Inr (- 9223372036854775808)"
  using from_chars_roundtrip [of "- 9223372036854775808"] by (simp add: is_s64_def)



text \<open>
  A version attribute is read as a 64-bit number and stored in 32 bits without a check: the
  versions 1 and \<open>2 ^ 32 + 1\<close> cannot be told apart afterwards.
\<close>

theorem version_truncated:
  "set_version 4294967297 ob = set_version 1 ob"
  by (simp add: set_version_def u32_def)

text \<open>
  C8. What the XML formatter writes about stored nodes, ways and relations is the text of elements
  that, sent back as modifications, the osmChange parser reads as the same elements: ids, versions,
  changesets, tags, nodes and members, and the coordinates to the last digit.
\<close>

theorem elements_read_back:
  assumes "\<forall>c\<in>set cs. stored_call mbslen lm c"
  shows "all_ops (fst \<circ> xml_call env) cs = concat (map (xml_ops \<circ> plain \<circ> element_xml) cs) \<and>
    changes_of mbslen lm (elem ''osmChange'' as [elem ''modify'' as' (map element_xml cs)]) = Inr (map unchanged cs)"
  using stored_calls_ops [OF assms] stored_calls_read [OF assms] by blast

theorem elements_read_back_witness:
  "changes_of (Some \<circ> length) sample_limits (elem ''osmChange'' [] [elem ''modify'' [] (map element_xml stored_calls)]) =
     Inr (map unchanged stored_calls)"
  using elements_read_back [of stored_calls "Some \<circ> length" sample_limits] stored_calls_ok by blast


section \<open>Element updaters\<close>

lemma Inr_triple: "\<not> isl r \<Longrightarrow> \<exists>a b c. r = Inr (a, b, c)"
  by (cases r) auto

text \<open>
  C9. \<^verbatim>\<open>process_modify_nodes\<close> sends the pending modifications in packages of distinct ids, yet
  has the effect of applying them one by one in message order, each to the row whose version
  it names; history stays complete, and the box of the upload covers every modified node before
  and after.
\<close>

theorem modify_nodes_sequential:
  assumes "process_modify_nodes (d, ct, u) = Inr (d', ct', u')" "nodes_ok d"
  shows "\<exists>ns. replace_old_ids_in_nodes (modify_nodes u) (created_node_ids ct) = Inr ns \<and>
    apply_all (modified_node_row (db_now d)) ns (current_nodes d) = Some (current_nodes d') \<and> nodes_ok d' \<and>
    bbox_le (nu_bbox u) (nu_bbox u') \<and>
    (\<forall>r\<in>set (current_nodes d) \<union> set (current_nodes d'). r_id r \<in> e_id ` set ns \<longrightarrow> in_bbox (node_pos r) (nu_bbox u'))"
proof -
  from process_modify_nodes_Inr [OF assms] obtain ns where
    "replace_old_ids_in_nodes (modify_nodes u) (created_node_ids ct) = Inr ns"
    "modify_step ns (d, ct, nu_bbox u) (d', ct', nu_bbox u')" .
  then show ?thesis by (auto simp: modify_step_def)
qed

theorem modify_nodes_sequential_witness:
  "\<exists>d' ct' u' ns. process_modify_nodes (sample_db, empty_tracking, sample_nodes) = Inr (d', ct', u') \<and>
     apply_all (modified_node_row 200) ns (current_nodes sample_db) = Some (current_nodes d')"
proof -
  have "\<not> isl (process_modify_nodes (sample_db, empty_tracking, sample_nodes))" by code_simp
  from Inr_triple [OF this] obtain d' ct' u' where
    run: "process_modify_nodes (sample_db, empty_tracking, sample_nodes) = Inr (d', ct', u')" by blast
  moreover have "nodes_ok sample_db" "db_now sample_db = 200" by code_simp+
  ultimately show ?thesis using modify_nodes_sequential [OF run] by auto
qed

text \<open>
  C10. \<^verbatim>\<open>process_modify_ways\<close> has the effect of the pending modifications one by one, and the
  node list of a way is the one its last modification gives; all those nodes are visible, and
  the box covers the way before and after.
\<close>

theorem modify_ways_sequential:
  assumes "process_modify_ways (d, ct, u) = Inr (d', ct', u')" "ways_ok d"
  shows "\<exists>ws. replace_old_ids_in_ways (modify_ways u) (created_node_ids ct) (created_way_ids ct) = Inr ws \<and>
    apply_all (updated_elem_row (db_now d) True) ws (current_ways d) = Some (current_ways d') \<and> ways_ok d' \<and>
    (\<forall>i. rows_of_way i (current_way_nodes d') = last_rows ws i (current_way_nodes d)) \<and>
    (\<forall>w\<in>set ws. \<forall>n\<in>set (way_refs w). visible_id (current_nodes d') n) \<and>
    (\<forall>i\<in>e_id ` set ws. \<forall>p\<in>way_covers i d \<union> way_covers i d'. in_bbox p (wu_bbox u'))"
proof -
  from process_modify_ways_Inr [OF assms] obtain ws where
    "replace_old_ids_in_ways (modify_ways u) (created_node_ids ct) (created_way_ids ct) = Inr ws"
    "way_modify_step ws (d, ct, wu_bbox u) (d', ct', wu_bbox u')" .
  then show ?thesis by (auto simp: way_modify_step_def way_frame_def)
qed

theorem modify_ways_sequential_witness:
  "\<exists>d' ct' u' (ws :: way_t list). process_modify_ways (sample_db, empty_tracking, sample_ways) = Inr (d', ct', u') \<and>
     apply_all (updated_elem_row 200 True) ws (current_ways sample_db) = Some (current_ways d')"
proof -
  have "\<not> isl (process_modify_ways (sample_db, empty_tracking, sample_ways))" by code_simp
  from Inr_triple [OF this] obtain d' ct' u' where
    run: "process_modify_ways (sample_db, empty_tracking, sample_ways) = Inr (d', ct', u')" by blast
  moreover have "ways_ok sample_db" "db_now sample_db = 200" by code_simp+
  ultimately show ?thesis using modify_ways_sequential [OF run] by auto
qed

text \<open>
  C11. \<^verbatim>\<open>process_modify_relations\<close> has the effect of the pending modifications one by one; the
  members of a relation are those of its last modification.
\<close>

theorem modify_relations_sequential:
  assumes "process_modify_relations (d, ct, u) = Inr (d', ct', u')" "relations_ok d"
  shows "\<exists>rs. replace_old_ids_in_relations (modify_relations u) (created_node_ids ct) (created_way_ids ct)
       (created_relation_ids ct) = Inr rs \<and>
    apply_all (updated_elem_row (db_now d) True) rs (current_relations d) = Some (current_relations d') \<and> relations_ok d' \<and>
    (\<forall>i. rows_of_relation i (current_relation_members d') = last_member_rows rs i (current_relation_members d)) \<and>
    (\<forall>r\<in>set rs. members_visible_or (e_id ` set rs) d (current_relations d') r)"
proof -
  from process_modify_relations_Inr [OF assms] obtain rs where
    "replace_old_ids_in_relations (modify_relations u) (created_node_ids ct) (created_way_ids ct)
       (created_relation_ids ct) = Inr rs"
    "relation_modify_step (e_id ` set rs) rs (d, ct, ru_bbox u) (d', ct', ru_bbox u')" .
  then show ?thesis by (auto simp: relation_modify_step_def)
qed

theorem modify_relations_sequential_witness:
  "\<exists>d' ct' u'. process_modify_relations (sample_relations_db, empty_tracking,
       init_relation_updater\<lparr>modify_relations := [sample_relation_t 10 False]\<rparr>) = Inr (d', ct', u') \<and> relations_ok d'"
proof -
  let ?u = "init_relation_updater\<lparr>modify_relations := [sample_relation_t 10 False]\<rparr>"
  have "\<not> isl (process_modify_relations (sample_relations_db, empty_tracking, ?u))" by code_simp
  from Inr_triple [OF this] obtain d' ct' u' where
    run: "process_modify_relations (sample_relations_db, empty_tracking, ?u) = Inr (d', ct', u')" by blast
  moreover have "relations_ok sample_relations_db" by code_simp
  ultimately show ?thesis using modify_relations_sequential [OF run] by auto
qed

text \<open>
  C12. \<^verbatim>\<open>process_delete_nodes\<close> deletes only requested nodes that were visible, had the version
  the request names and were used by no way and no relation; references and history stay
  intact.
\<close>

theorem delete_nodes_unreferenced:
  assumes "process_delete_nodes (d, ct, u) = Inr (d', ct', u')" "upload_inv s0 d ct"
  shows "upload_inv s0 d' ct' \<and> (\<exists>ns dead. replace_old_ids_in_nodes (delete_nodes u) (created_node_ids ct) = Inr ns \<and>
    set dead \<subseteq> set ns \<and> e_id ` set dead \<inter> node_refs d = {} \<and>
    (\<forall>n\<in>set dead. \<exists>r\<in>set (current_nodes d). r_id r = e_id n \<and> r_visible r \<and> r_version r = e_version n) \<and>
    apply_all (deleted_node_row (db_now d)) dead (current_nodes d) = Some (current_nodes d'))"
proof -
  from assms(2) have "nodes_ok d" by (simp add: upload_inv_def db_ok_def)
  from process_delete_nodes_Inr [OF assms(1) this] obtain ns dead where
    "replace_old_ids_in_nodes (delete_nodes u) (created_node_ids ct) = Inr ns" "delete_step ns dead (d, ct) (d', ct')" .
  then show ?thesis using process_delete_nodes_inv [OF assms] by (auto simp: delete_step_def)
qed

theorem delete_nodes_unreferenced_witness:
  "\<exists>d' ct' u'. process_delete_nodes (sample_db, empty_tracking, sample_nodes) = Inr (d', ct', u') \<and> db_ok d'"
proof -
  have "\<not> isl (process_delete_nodes (sample_db, empty_tracking, sample_nodes))" by code_simp
  from Inr_triple [OF this] obtain d' ct' u' where
    run: "process_delete_nodes (sample_db, empty_tracking, sample_nodes) = Inr (d', ct', u')" by blast
  have "upload_inv (\<lambda>t. id_seq t sample_db) sample_db empty_tracking"
    using sample_db_ok by (simp add: upload_inv_def created_ok_def all_object_type empty_tracking_def)
  from delete_nodes_unreferenced [OF run this] run show ?thesis by (auto simp: upload_inv_def)
qed

text \<open>
  C13. \<^verbatim>\<open>process_delete_relations\<close> keeps every reference intact when the deletions of the batch
  agree on the if-unused flag.
\<close>

theorem delete_relations_safe:
  assumes "process_delete_relations (d, ct, u) = Inr (d', ct', u')" "upload_inv s0 d ct" "uniform_flags (delete_relations u)"
  shows "upload_inv s0 d' ct'"
  using assms by (rule relation_upd.delete_inv)

theorem delete_relations_safe_witness:
  "\<exists>d' ct' u'. process_delete_relations (sample_relations_db, empty_tracking, sample_relations True) = Inr (d', ct', u') \<and> db_ok d'"
proof -
  have "\<not> isl (process_delete_relations (sample_relations_db, empty_tracking, sample_relations True))" by code_simp
  from Inr_triple [OF this] obtain d' ct' u' where
    run: "process_delete_relations (sample_relations_db, empty_tracking, sample_relations True) = Inr (d', ct', u')" by blast
  have "db_ok sample_relations_db" by code_simp
  then have inv: "upload_inv (\<lambda>t. id_seq t sample_relations_db) sample_relations_db empty_tracking"
    by (simp add: upload_inv_def created_ok_def all_object_type empty_tracking_def)
  have "uniform_flags (delete_relations (sample_relations True))"
    by (simp add: uniform_flags_def sample_relations_def sample_relation_t_def)
  from delete_relations_safe [OF run inv this] run show ?thesis by (auto simp: upload_inv_def)
qed


section \<open>Checks and helpers of the updaters\<close>

text \<open>
  C15. The loop of \<^verbatim>\<open>collect_recursive_relation_rel_member_ids\<close> ends and returns the transitive
  closure: the relations reachable from the given ones over one or more member edges.
\<close>

theorem collect_recursive_closure:
  "collect_recursive_relation_rel_member_ids direct d = (child_rel d)\<^sup>+ `` direct"
  by (rule collect_recursive_trancl)

text \<open>
  C16. \<^verbatim>\<open>build_packages\<close> never throws, and package \<open>j\<close> holds, for every id, the \<open>j\<close>-th request for
  it: no package is empty, none has two requests for one node, and the order of requests for
  one node is kept.
\<close>

theorem build_packages_rounds:
  "\<exists>ps. node_build_packages ns = Inr ps \<and> list_all (\<lambda>p. p \<noteq> []) ps \<and>
     (\<forall>i. length (occurrences e_id i ns) \<le> length ps) \<and>
     (\<forall>i j. j < length ps \<longrightarrow> occurrences e_id i (ps ! j) =
        (if j < length (occurrences e_id i ns) then [occurrences e_id i ns ! j] else []))"
  using build_packages_by_spec [of e_id ns] by (simp add: node_build_packages_def list_all_iff)

theorem build_packages_rounds_witness:
  "\<exists>ps. node_build_packages [sample_node_t 1 1 11, sample_node_t 1 2 12] = Inr ps \<and> 2 \<le> length ps"
proof -
  have "length (occurrences e_id 1 [sample_node_t 1 1 11, sample_node_t 1 2 12]) = 2"
    by (simp add: occurrences_def sample_node_t_def)
  with build_packages_rounds [of "[sample_node_t 1 1 11, sample_node_t 1 2 12]"] show ?thesis by metis
qed

text \<open>
  C17. \<^verbatim>\<open>lock_current_nodes\<close> succeeds exactly when every id is a row of \<^verbatim>\<open>current_nodes\<close>; otherwise
  the error is a 404 that lists the missing ids in ascending order.
\<close>

theorem lock_current_nodes_exact:
  "lock_current_nodes ids d =
     (if set ids \<subseteq> r_id ` set (current_nodes d) then Inr ()
      else Inl (not_found (''The following node ids are not known on the database: '' @
             join_comma (map fmt_d (sorted_list_of_set (set ids - r_id ` set (current_nodes d)))))))"
proof -
  have "except_ids ids (map r_id (select_any ids (current_nodes d))) = sorted_list_of_set (set ids - r_id ` set (current_nodes d))"
    unfolding except_ids_def sort_unique_eq
    by (rule arg_cong [where f = sorted_list_of_set]) (auto simp: select_any_def)
  then show ?thesis by (auto simp: lock_current_nodes_def Let_def throw_if_def)
qed

text \<open>
  \<^verbatim>\<open>lock_future_nodes\<close> accepts exactly the ways whose nodes are all visible, and its only
  error is a precondition failure: the search for the first way with a missing node never runs
  past the end.
\<close>

theorem lock_future_nodes_exact:
  "(case lock_future_nodes ws d of
      Inr _ \<Rightarrow> list_all (\<lambda>w. list_all (visible_id (current_nodes d)) (way_refs w)) ws
    | Inl e \<Rightarrow> (\<exists>msg. e = precondition_failed msg) \<and> list_ex (\<lambda>w. list_ex (\<lambda>n. \<not> visible_id (current_nodes d) n) (way_refs w)) ws)"
proof (cases "lock_future_nodes ws d")
  case (Inl e)
  then have "\<not> (\<forall>w\<in>set ws. \<forall>n\<in>set (way_refs w). visible_id (current_nodes d) n)"
    using lock_future_nodes_Inr [of ws d] by auto
  with Inl lock_future_nodes_error [OF Inl] show ?thesis by (auto simp: list_ex_iff)
next
  case (Inr x)
  then have "lock_future_nodes ws d = Inr ()" by simp
  with Inr show ?thesis unfolding lock_future_nodes_Inr by (simp add: list_all_iff)
qed


text \<open>
  C19. \<^verbatim>\<open>lock_future_members\<close> accepts exactly members
  that are visible or, for relations, among those already locked.
\<close>

theorem lock_future_members_exact:
  "(case lock_future_members rs locked d of
      Inr _ \<Rightarrow> list_all (members_visible_or (set locked) d (current_relations d)) rs
    | Inl e \<Rightarrow> (\<exists>msg. e = precondition_failed msg) \<and>
        list_ex (\<lambda>r. \<not> members_visible_or (set locked) d (current_relations d) r) rs)"
proof (cases "lock_future_members rs locked d")
  case (Inl e)
  then have "\<not> (\<forall>r\<in>set rs. members_visible_or (set locked) d (current_relations d) r)"
    using lock_future_members_Inr [of rs locked d] by auto
  with Inl lock_future_members_error [OF Inl] show ?thesis by (auto simp: list_ex_iff)
next
  case (Inr x)
  then have "lock_future_members rs locked d = Inr ()" by simp
  with Inr show ?thesis unfolding lock_future_members_Inr by (simp add: list_all_iff)
qed

text \<open>
  C20. Optimistic locking: \<^verbatim>\<open>check_current_node_versions\<close> passes exactly when no node of the
  batch has another version in the database, and fails with a conflict otherwise.
\<close>

theorem version_check_exact:
  "(case check_current_node_versions ns d of
      Inr _ \<Rightarrow> list_all (\<lambda>n. list_all (\<lambda>r. r_id r = e_id n \<longrightarrow> r_version r = e_version n) (current_nodes d)) ns
    | Inl e \<Rightarrow> (\<exists>msg. e = conflict msg) \<and>
        list_ex (\<lambda>n. list_ex (\<lambda>r. r_id r = e_id n \<and> r_version r \<noteq> e_version n) (current_nodes d)) ns)"
proof (cases "check_current_node_versions ns d")
  case (Inl e)
  then have "\<not> (\<forall>n\<in>set ns. \<forall>r\<in>set (current_nodes d). r_id r = e_id n \<longrightarrow> r_version r = e_version n)"
    using check_current_node_versions_Inr [of ns d] by auto
  moreover from Inl have "\<exists>msg. e = conflict msg"
    by (auto simp: check_current_node_versions_def split: if_splits list.splits)
  ultimately show ?thesis using Inl by (auto simp: list_ex_iff)
next
  case (Inr x)
  then have "check_current_node_versions ns d = Inr ()" by simp
  with Inr show ?thesis unfolding check_current_node_versions_Inr by (simp add: list_all_iff)
qed

theorem version_check_exact_witness:
  "\<exists>msg. check_current_node_versions [sample_node_t 1 2 12] sample_db = Inl (conflict msg)"
proof -
  have "\<not> list_all (\<lambda>n. list_all (\<lambda>r. r_id r = e_id n \<longrightarrow> r_version r = e_version n) (current_nodes sample_db)) [sample_node_t 1 2 12]"
    by (simp add: sample_db_def sample_node_def sample_node_t_def)
  with version_check_exact [where ns = "[sample_node_t 1 2 12]" and d = sample_db] show ?thesis by (auto split: sum.splits)
qed

text \<open>
  C21. \<^verbatim>\<open>check_forward_relation_placeholders\<close> accepts exactly the batches in which every
  placeholder of a relation member names a relation created earlier in the batch.
\<close>

theorem forward_placeholders_exact:
  "check_forward_relation_placeholders rs = Inr () \<longleftrightarrow>
     (\<forall>k<length rs. \<forall>m\<in>set (rel_members (rs ! k)).
        mb_type m = ''Relation'' \<and> mb_old_id m < 0 \<longrightarrow> mb_old_id m \<in> e_old_id ` set (take k rs))"
  using check_forward_fold [of rs] by (auto simp: check_forward_relation_placeholders_def result_simps)

theorem forward_placeholders_exact_witness:
  "check_forward_relation_placeholders
     [(sample_relation_t (- 1) False)\<lparr>rel_members := members_of [(''Relation'', - 1, '''')]\<rparr>] \<noteq> Inr ()"
  using forward_placeholders_exact [of "[(sample_relation_t (- 1) False)\<lparr>rel_members := members_of [(''Relation'', - 1, '''')]\<rparr>]"]
  by (simp add: members_of_def)

section \<open>Coordinates\<close>

text \<open>
  The fixed-point value of a coordinate in range is within the scaled range, so it fits the
  integer columns of the database.
\<close>

theorem fixed_point_range:
  assumes "- 180 \<le> c" "c \<le> 180"
  shows "\<bar>to_fixed c\<bar> \<le> 1800000000"
  using to_fixed_bounds [of 180 c] assms by simp

theorem fixed_point_range_witness: "\<bar>to_fixed (359 / 2)\<bar> \<le> 1800000000"
  using fixed_point_range [of "359 / 2"] by simp



text \<open>
  C23. The quad tile of a position on the globe determines its cell of the 65536 by 65536 grid:
  \<^verbatim>\<open>xy2tile\<close> loses nothing.
\<close>

theorem tile_determines_cell:
  assumes "- 90 \<le> lat" "lat \<le> 90" "- 180 \<le> lon" "lon \<le> 180" "- 90 \<le> lat'" "lat' \<le> 90" "- 180 \<le> lon'" "lon' \<le> 180"
  shows "tile_of lat lon = tile_of lat' lon' \<longleftrightarrow> lon2x lon = lon2x lon' \<and> lat2y lat = lat2y lat'"
proof
  assume "tile_of lat lon = tile_of lat' lon'"
  then have "xy2tile (lon2x lon) (lat2y lat) = xy2tile (lon2x lon') (lat2y lat')"
    unfolding tile_of_def by (rule unsigned_word_eqI)
  then show "lon2x lon = lon2x lon' \<and> lat2y lat = lat2y lat'"
    by (rule xy2tile_inj) (use assms lon2x_range lat2y_range in auto)
qed (simp add: tile_of_def)

theorem tile_determines_cell_witness: "tile_of 90 (- 108) \<noteq> tile_of 90 180"
proof -
  have "\<lfloor>26215 / (2 :: rat)\<rfloor> = 13107" "\<lfloor>131071 / (2 :: rat)\<rfloor> = 65535" by (simp_all add: floor_eq_iff)
  then have "lon2x (- 108) = 13107" "lon2x 180 = 65535" by (simp_all add: lon2x_def round_away_def)
  with tile_determines_cell [of 90 "- 108" 90 180] show ?thesis by simp
qed

section \<open>Changesets\<close>



section \<open>HTTP\<close>



text \<open>
  C26. With the compression library, \<^verbatim>\<open>http::choose_encoding\<close> answers with a supported encoding of
  the highest weight the header gives, which is positive; it answers 406 exactly when every
  supported encoding has weight zero.
\<close>

theorem choose_encoding_best:
  "case choose_encoding br True h of
     Inr e \<Rightarrow> (\<exists>q. header_qualities h = Inr q \<and> e \<in> set (supported br True) \<and> quality_of q e > 0 \<and>
                 list_all (\<lambda>e'. quality_of q e' \<le> quality_of q e) (supported br True))
   | Inl ex \<Rightarrow> header_qualities h = Inl ex \<or>
       (\<exists>q msg. header_qualities h = Inr q \<and> ex = not_acceptable msg \<and> list_all (\<lambda>e'. quality_of q e' = 0) (supported br True))"
proof (cases "header_qualities h")
  case (Inr q)
  from best_encoding_best [OF header_qualities_ok [OF Inr], of br] Inr show ?thesis
    by (auto simp: choose_encoding_def split: sum.splits)
qed (simp add: choose_encoding_def)

text \<open>
  C27. A wildcard at the end of an \<^verbatim>\<open>Accept-Encoding\<close> header overrides every weight of zero before it:
  no encoding can be excluded by such a header, and with the compression library the answer is
  never 406.
\<close>

theorem wildcard_overrides_exclusion:
  assumes "h \<noteq> []" "header_qualities h = Inr q"
  shows "\<exists>q' e. header_qualities (h @ '', *'') = Inr q' \<and> choose_encoding br True (h @ '', *'') = Inr e \<and>
    (\<forall>e'. quality_of q' e' = (if quality_of q e' = 0 then 1 else quality_of q e'))"
proof -
  from assms have hq: "header_qualities (h @ '', *'') = Inr (note_quality (''*'', 1) q)"
    by (simp add: header_qualities_wildcard)
  have w: "quality_of (note_quality (''*'', 1) q) e' = (if quality_of q e' = 0 then 1 else quality_of q e')" for e'
    by (cases e') (simp_all add: note_quality_def)
  from header_qualities_ok [OF assms(2)] have "0 \<le> quality_of q e'" for e' by (simp add: qualities_ok_def)
  then have "0 < quality_of (note_quality (''*'', 1) q) e'" for e' using w [of e'] by (simp add: less_le)
  then have "\<not> list_all (\<lambda>e'. quality_of (note_quality (''*'', 1) q) e' = 0) (supported br True)"
    by (simp add: supported_def less_le)
  with best_encoding_best [OF header_qualities_ok [OF hq], of br]
  obtain e where "best_encoding br True (note_quality (''*'', 1) q) = Inr e"
    by (cases "best_encoding br True (note_quality (''*'', 1) q)") simp_all
  with hq w show ?thesis by (simp add: choose_encoding_def)
qed

theorem wildcard_overrides_exclusion_witness:
  "\<exists>q q' e. header_qualities ''gzip'' = Inr q \<and> quality_of q identity = 0 \<and>
     header_qualities ''gzip, *'' = Inr q' \<and> choose_encoding False True ''gzip, *'' = Inr e \<and> quality_of q' identity = 1"
proof -
  have q: "header_qualities ''gzip'' = Inr (no_qualities\<lparr>q_gzip := 1\<rparr>)"
    by (simp add: header_qualities_def split_on_def split_on_parts.simps read_weight_def note_quality_def)
  from wildcard_overrides_exclusion [OF _ this, of False] obtain q' e where
    "header_qualities ''gzip, *'' = Inr q'" "choose_encoding False True ''gzip, *'' = Inr e"
    and w: "\<forall>e'. quality_of q' e' = (if quality_of (no_qualities\<lparr>q_gzip := 1\<rparr>) e' = 0 then 1 else quality_of (no_qualities\<lparr>q_gzip := 1\<rparr>) e')"
    by auto
  moreover have "quality_of q' identity = 1" using w [rule_format, of identity] by (simp add: no_qualities_def)
  moreover have "quality_of (no_qualities\<lparr>q_gzip := 1\<rparr>) identity = 0" by (simp add: no_qualities_def)
  ultimately show ?thesis using q by blast
qed

text \<open>
  C28. \<^verbatim>\<open>http::parse_content_length\<close> reads the decimal number of a length up to the limit, refuses a
  larger one with 413, and never returns a length outside of the limits.
\<close>

theorem content_length_exact:
  assumes "limit < 2 ^ 63 - 1"
  shows "(0 \<le> n \<longrightarrow>
      (if n \<le> limit then parse_content_length limit (fmt_d n) = Inr n
       else \<exists>msg. parse_content_length limit (fmt_d n) = Inl (payload_too_large msg))) \<and>
    (parse_content_length limit s = Inr k \<longrightarrow> 0 \<le> k \<and> k \<le> limit)"
  using parse_content_length_fmt [of n limit] parse_content_length_large [of n limit] parse_content_length_range [of limit s k] assms
  by auto

theorem content_length_exact_witness:
  "parse_content_length 50 (fmt_d 42) = Inr 42 \<and> (\<exists>msg. parse_content_length 50 (fmt_d (2 ^ 70)) = Inl (payload_too_large msg))"
  using content_length_exact [of 50 42] content_length_exact [of 50 "2 ^ 70"] by simp

section \<open>Reading the database\<close>

text \<open>
  C29. Tags, way nodes and members of an element survive the text form of PostgreSQL arrays: what
  \<^verbatim>\<open>extract_tags\<close>, \<^verbatim>\<open>extract_way_nodes\<close> and \<^verbatim>\<open>extract_members\<close> read from the aggregated columns is what
  was aggregated, for any keys, values and roles, also with quotes, commas, braces and backslashes.
\<close>

theorem element_arrays_roundtrip:
  assumes "quotes_enough q" "list_all is_u64 ns" "list_all (\<lambda>m. is_u64 (mi_ref m) \<and> mi_type m \<noteq> et_changeset) ms"
  shows "extract_tags (agg_text q outer (map fst ts)) (agg_text q outer (map snd ts)) = Inr ts \<and>
    extract_way_nodes (agg_ids ns) = Inr ns \<and>
    extract_members (agg_text q outer (map (type_name \<circ> mi_type) ms)) (agg_ids (map mi_ref ms)) (agg_text q outer (map mi_role ms)) = Inr ms"
  using extract_tags_read [OF assms(1)] agg_ids_read [of ns] extract_members_read [OF assms(1), of ms] assms(2,3)
  by (simp add: extract_way_nodes_def list_all_iff)

theorem element_arrays_roundtrip_witness:
  "extract_tags (agg_text (\<lambda>_. True) True [''name'']) (agg_text (\<lambda>_. True) True [[CHR 0x22, CHR '','', CHR 0x5C]])
     = Inr [(''name'', [CHR 0x22, CHR '','', CHR 0x5C])] \<and> extract_way_nodes (agg_ids [7, 8, 7]) = Inr [7, 8, 7]"
  using element_arrays_roundtrip [of "\<lambda>_. True" "[7, 8, 7]" "[]" True "[(''name'', [CHR 0x22, CHR '','', CHR 0x5C])]"]
  by (simp add: quotes_enough_def is_u64_def)



section \<open>The rate limiter\<close>

text \<open>
  C31. While nobody else writes to the store, \<^verbatim>\<open>update\<close> returns without a jump back, changes only the
  entry of the client, and a later \<^verbatim>\<open>check\<close> decides on the bytes owed before plus the bytes served,
  less what leaked in between.
\<close>

theorem rate_limiter_counts:
  assumes "store_laws mc contents" "limits_ok lm" "pred_option (clock_ok now) (contents m (mc_key key))"
    and "0 \<le> bytes" "debt lm now (contents m (mc_key key)) + bytes < 2 ^ 32" "0 \<le> now" "now \<le> later" "later < 2 ^ 32"
  shows "\<exists>m'. update 1 mc lm True key bytes now m = Some m' \<and> (\<forall>k. k \<noteq> mc_key key \<longrightarrow> contents m' k = contents m k) \<and>
    fst (check mc lm True key later m') =
      decide lm (max 0 (debt lm now (contents m (mc_key key)) + bytes - (later - now) * ratelimit lm))"
proof -
  let ?s = "\<lparr>last_update = now, bytes_served = debt lm now (contents m (mc_key key)) + bytes\<rparr>"
  from update_stores [OF assms(1-5), of 0] obtain m' where
    m': "update 1 mc lm True key bytes now m = Some m'" "contents m' = (contents m)(mc_key key \<mapsto> ?s)" by auto
  have "0 \<le> debt lm now (contents m (mc_key key))" by (simp add: debt_def bucket_def split: option.splits)
  with assms have "clock_ok later ?s" by (simp add: clock_ok_def is_u32_def)
  then have "fst (check mc lm True key later m') = decide lm (bucket lm later ?s)"
    using check_debt [OF assms(1,2), of later m' key] m'(2) by (simp add: debt_def)
  with m' show ?thesis by (simp add: bucket_def)
qed

text \<open>
  C32. A client that is refused and told to wait is let in once it has waited that long.
\<close>

theorem rate_limiter_lets_in_again:
  assumes "store_laws mc contents" "limits_ok lm" "contents m (mc_key key) = Some s" "clock_ok now s"
    and "fst (check mc lm True key now m) = (True, w)" "0 < w" "now + w \<le> later" "later < 2 ^ 32"
  shows "fst (check mc lm True key later m) = (False, 0)"
proof -
  have check: "fst (check mc lm True key t m) = decide lm (leak lm t s)" for t
    using store_lawsD(1) [OF assms(1), of "mc_key key" m] assms(3) by (simp add: check_def split_beta Let_def)
  from assms(5) have "decide lm (leak lm now s) = (True, w)" by (simp add: check)
  from decide_retry [OF assms(2,4) this assms(6-8)] show ?thesis by (simp add: check)
qed

theorem rate_limiter_counts_witness:
  "\<exists>m'. update 1 plain_store \<lparr>ratelimit = 100, maxdebt = 1000\<rparr> True ''me'' 1500 10 Map.empty = Some m' \<and>
     fst (check plain_store \<lparr>ratelimit = 100, maxdebt = 1000\<rparr> True ''me'' 12 m') = (True, 4)"
  using rate_limiter_counts [OF plain_store_laws, of "\<lparr>ratelimit = 100, maxdebt = 1000\<rparr>" 10 Map.empty "''me''" 1500 12]
  by (auto simp: limits_ok_def debt_def decide_def s32_def)

theorem rate_limiter_lets_in_again_witness:
  "fst (check plain_store \<lparr>ratelimit = 100, maxdebt = 1000\<rparr> True ''me'' 16
     [mc_key ''me'' \<mapsto> \<lparr>last_update = 10, bytes_served = 1500\<rparr>]) = (False, 0)"
proof (rule rate_limiter_lets_in_again [OF plain_store_laws, where s = "\<lparr>last_update = 10, bytes_served = 1500\<rparr>" and now = 10 and w = 6])
  show "fst (check plain_store \<lparr>ratelimit = 100, maxdebt = 1000\<rparr> True ''me'' 10
     [mc_key ''me'' \<mapsto> \<lparr>last_update = 10, bytes_served = 1500\<rparr>]) = (True, 6)"
    by (simp add: check_def plain_store_def decide_def leak_def s64_def u32_def s32_def)
qed (simp_all add: limits_ok_def clock_ok_def is_u32_def)

section \<open>Settings\<close>



section \<open>Negotiation of the format\<close>

text \<open>
  C34. \<^verbatim>\<open>choose_best_mime_type\<close> on a well-formed \<^verbatim>\<open>Accept\<close> header: it returns a type the responder offers
  and the client accepts, the one the path asks for, or else one of the highest explicit weight,
  and a formatter exists for it; it answers 406 exactly when no offered type is acceptable.
\<close>

theorem mime_type_negotiation:
  assumes "AcceptHeader h = Inr m" "ts = osm_types \<or> ts = text_types"
  shows "case choose_best_mime_type m ts resource path of
      Inr t \<Rightarrow> t \<in> set ts \<and> is_acceptable m t \<and> (resource = unspecified_type \<or> t = resource) \<and>
        (resource = unspecified_type \<longrightarrow> (\<forall>u\<in>set ts. \<forall>q. m u = Some q \<longrightarrow> (\<exists>q'. m t = Some q' \<and> q \<le> q'))) \<and>
        (\<exists>f. create_formatter t = Inr f)
    | Inl ex \<Rightarrow> (\<exists>msg. ex = not_acceptable msg) \<and>
        \<not> list_ex (\<lambda>t. is_acceptable m t \<and> (resource = unspecified_type \<or> t = resource)) ts"
proof -
  from assms(2) have ts: "any_type \<notin> set ts" "unspecified_type \<notin> set ts" "set ts \<subseteq> {application_xml, application_json, text_plain}"
    by (auto simp: osm_types_def text_types_def)
  note m = accept_header_ok [OF assms(1)]
  show ?thesis
  proof (cases "choose_best_mime_type m ts resource path")
    case (Inl ex)
    with choose_best_mime_type_Inl [OF Inl m ts(2)] show ?thesis by simp
  next
    case (Inr t)
    note c = choose_best_mime_type_Inr [OF Inr m ts(1,2)]
    with ts(3) have "\<exists>f. create_formatter t = Inr f" by (intro create_formatter_total) blast
    with Inr c show ?thesis by simp
  qed
qed

theorem mime_type_negotiation_witness:
  "\<exists>m. AcceptHeader ''application/json'' = Inr m \<and> choose_best_mime_type m osm_types unspecified_type ''/map'' = Inr application_json \<and>
     (\<exists>f. create_formatter application_json = Inr f)"
proof -
  let ?m = "[application_json \<mapsto> 1 :: rat]"
  have m: "AcceptHeader ''application/json'' = Inr ?m"
    by (simp add: AcceptHeader_def accept_parse_def accept_item_def split_trim_def split_def trim_def is_blank_def parse_from_def)
  moreover have c: "choose_best_mime_type ?m osm_types unspecified_type ''/map'' = Inr application_json"
    by (simp add: choose_best_mime_type_def most_acceptable_of_def exact_step_def osm_types_def)
  ultimately show ?thesis using mime_type_negotiation [OF m, of osm_types unspecified_type "''/map''"] by simp
qed

section \<open>Reading the map\<close>

text \<open>
  C35. The map call on a consistent database: it is refused exactly when the box holds more nodes than
  the limit, and otherwise selects the nodes of the box, the ways through them, all nodes of these
  ways, and the relations that use the nodes or ways, with the relations that use those; nothing it
  selects is deleted.
\<close>

theorem map_selection_exact:
  assumes "distinct (map r_id (current_nodes d))" "0 \<le> max_nodes" "db_ok (db.truncate d)"
  shows "map_responder max_nodes b d empty_selection =
      (if max_nodes < int (card (nodes_in_bbox b d)) then Inl (too_many_nodes max_nodes) else Inr (map_selection b d)) \<and>
    (\<forall>i\<in>sel_nodes (map_selection b d). visible_id (current_nodes d) i) \<and>
    (\<forall>i\<in>sel_ways (map_selection b d). visible_id (current_ways d) i) \<and>
    (\<forall>i\<in>sel_relations (map_selection b d). visible_id (current_relations d) i)"
  using map_responder_eq [OF assms(1,2)] map_selection_visible [OF assms(3)] by blast

theorem map_selection_exact_witness:
  "map_responder 0 unit_box web_db empty_selection =
     (if 0 < int (card (nodes_in_bbox unit_box web_db)) then Inl (too_many_nodes 0) else Inr (map_selection unit_box web_db))"
proof -
  have "distinct (map r_id (current_nodes web_db))" by (simp add: web_db_def sample_db_def sample_node_def db.defs)
  from map_selection_exact [OF this _ web_db_ok, of 0 unit_box] show ?thesis by simp
qed

text \<open>
  C36. The document of a selection of current elements: the selected rows by type and ascending id, with
  their coordinates, tags, nodes and members as stored and the author where they are public, between
  the start and the end of the document, and no error. The database aggregates each list into a text
  and the program parses it back.
\<close>

theorem document_written:
  assumes "readable p d" "current_only s" "cc s = Map.empty"
    and "authored d (selected_rows (sel_nodes s) (current_nodes d))" "authored d (selected_rows (sel_ways s) (current_ways d))"
    and "authored d (selected_rows (sel_relations s) (current_relations d))"
  shows "osm_current_write p g bounds d s =
    [start_document g ''osm''] @ (case bounds of None \<Rightarrow> [] | Some b \<Rightarrow> [write_bounds b]) @ [fmt_call.start_element] @
    document_calls p d s @ [fmt_call.end_element, end_document]"
proof -
  have "cache_ok d (cc s)" using assms(3) by (simp add: cache_ok_def)
  from write_elements_ok [OF assms(1,2) this assms(4-6)] show ?thesis
    by (simp add: osm_current_write_def on_error_def)
qed

theorem document_written_witness:
  "osm_current_write web_pg ''cgimap'' None web_db (empty_selection\<lparr>sel_ways := {1}\<rparr>) =
     [start_document ''cgimap'' ''osm'', fmt_call.start_element,
      write_way \<lparr>ei_id = 1, ei_version = 2, ei_changeset = 5, ei_timestamp = ''t'', ei_uid = Some 7,
                 ei_display_name = Some ''mapper'', ei_visible = True, ei_redaction = None\<rparr> [1, 2] [],
      fmt_call.end_element, end_document]"
proof -
  let ?s = "empty_selection\<lparr>sel_ways := {1}\<rparr>"
  have rows: "selected_rows (sel_nodes ?s) (current_nodes web_db) = []" "selected_rows (sel_relations ?s) (current_relations web_db) = []"
    "selected_rows (sel_ways ?s) (current_ways web_db) = [sample_row 1 2 True]"
    by (simp_all add: selected_rows_def empty_selection_def web_tables sample_row_def)
  have user: "user_of web_db 5 = Some \<lparr>u_id = 7, u_display_name = ''mapper'', u_data_public = True, u_status = ''active''\<rparr>"
    by (simp add: user_of_def web_tables sample_bbox_row_def)
  have "authored web_db [sample_row 1 2 True]" by (simp add: authored_def user sample_row_def)
  then have doc: "osm_current_write web_pg ''cgimap'' None web_db ?s =
    [start_document ''cgimap'' ''osm''] @ [] @ [fmt_call.start_element] @ document_calls web_pg web_db ?s @ [fmt_call.end_element, end_document]"
    using document_written [OF web_readable, of ?s "''cgimap''" None] rows
    by (simp add: authored_def current_only_def empty_selection_def)
  show ?thesis unfolding doc document_calls_def rows
    by (simp add: way_call_def info_of_def user shown_user_def sample_row_def current_tags_def order_by_k_def
      way_node_ids_def web_tables web_pg_def)
qed

section \<open>Requests from end to end\<close>

text \<open>
  C37. Redacted versions: whatever a request asks for, no document that is sent back contains a redacted
  version of a node, way or relation, unless the request carries a token of a moderator and asks for
  redactions. The current version of an element is never a redacted one.
\<close>

theorem redactions_hidden:
  assumes "process_request cf rl chunks w = Some (ex, w')" "open_request (w_request w)" "current_unredacted (w_db w')"
    and "\<not> shows_redactions cf (w_request w) (w_db w)" "out_document enc f calls \<in> set (rq_out (w_request w'))" "c \<in> set calls"
    and "call_info c = Some (ty, i)"
  shows "redaction_ids (w_db w') (object_of ty, ei_id i, ei_version i) = None"
  using process_request_docs [OF assms(1-4)] assms(5-7) by (force simp: docs_of_def clean_def unredacted_call_def)

theorem redactions_hidden_witness:
  "\<exists>ex w'. process_request web_config null_rate_limiter [] (web_world history_env) = Some (ex, w') \<and>
     (\<forall>enc f calls c i. out_document enc f calls \<in> set (rq_out (w_request w')) \<longrightarrow> c \<in> set calls \<longrightarrow>
        call_info c = Some (et_way, i) \<longrightarrow> \<not> (ei_id i = 1 \<and> ei_version i = 1))"
proof -
  obtain ex w' where run: "process_request web_config null_rate_limiter [] (web_world history_env) = Some (ex, w')"
    using null_limiter.request_returns by fastforce
  note db = history_keeps_db [OF run]
  have safe: "\<not> shows_redactions web_config (w_request (web_world history_env)) (w_db (web_world history_env))"
    using history_anonymous by (simp add: web_world_def)
  have "current_unredacted (w_db w')" using web_current_unredacted db by simp
  note hidden = redactions_hidden [OF run open_web_world this safe]
  have "redaction_ids web_db (ot_way, 1, 1) = Some 4" by (simp add: web_db_def db.defs osm_db.defs)
  then show ?thesis using run hidden [of _ _ _ _ et_way] db by fastforce
qed

text \<open>
  C38. Every handler has its URL: a request for the path of a handler, with the suffix of a format or
  without, under a verb the handler serves, is routed to that handler with the ids, versions and
  arguments of the query that were asked for.
\<close>

theorem handlers_routed:
  assumes "addressed area_max r h" "open_request r" "mt \<in> {application_json, application_xml, unspecified_type}"
    and "get_request_path r = Inr (common_prefix @ join_with ''/'' (segments h) @ type_suffix mt)"
    and "get_param ''REQUEST_METHOD'' r = Some v" "parse_method v = Some m" "m \<in> verbs h"
  shows "\<exists>r'. route area_max r = (Inr (h, mt), r')"
  using assms by (rule route_handler)

theorem handlers_routed_witness:
  "\<exists>r'. route (finite_double (1/4)) (request_of history_env) = (Inr (way_history_handler 1, unspecified_type), r')"
proof (rule handlers_routed [where v = "''GET''" and m = GET])
  have "fmt_d 1 = ''1''" by code_simp
  then show "get_request_path (request_of history_env) =
    Inr (common_prefix @ join_with ''/'' (segments (way_history_handler 1)) @ type_suffix unspecified_type)"
    by (simp add: get_request_path_def param_text_def get_param_def request_of_def history_env_def common_prefix_def)
qed (simp_all add: open_request_def request_of_def get_param_def history_env_def)



text \<open>
  C40. A request changes the database only by one of the updates, under POST or PUT, for a user whose
  token is valid and has the scope \<^verbatim>\<open>write_api\<close>, who is active and not blocked, on a server that is
  not read only; and then the database is the one the update committed, with the tables of users,
  blocks, roles, tokens, comments and redactions as they were.
\<close>

theorem writes_authorised:
  assumes "open_request (w_request w)" "process_request cf rl chunks w = Some (ex, w')" "w_db w' \<noteq> w_db w"
  shows "\<exists>uid h mt payload rp. may_write cf (w_request w) (w_db w) uid \<and>
    get_param ''REQUEST_METHOD'' (w_request w) \<in> {Some ''POST'', Some ''PUT''} \<and>
    update_responder cf (Some uid) mt h payload (w_db w) = Inr (rp, w_db w') \<and> db.more (w_db w') = db.more (w_db w)"
  using process_request_writes [OF assms] update_responder_keeps by metis

theorem writes_authorised_witness: "\<exists>uid. may_write web_config (request_of create_env) web_db uid"
proof -
  obtain ex w' where run: "process_request web_config null_rate_limiter [] (web_world create_env) = Some (ex, w')" "w_db w' \<noteq> web_db"
    using create_served by blast
  then have "w_db w' \<noteq> w_db (web_world create_env)" by (simp add: web_world_def)
  from writes_authorised [OF open_web_world run(1) this] show ?thesis by (auto simp: web_world_def)
qed


end
